(* ===== verification/Prelude.thy ===== *)
theory Prelude
  imports Main "HOL-Library.Multiset"
begin

text \<open>
  Shared vocabulary of the development: the named collections the component
  proofs use, the optional-error convention of Go's multi-value returns, the
  64-bit arithmetic of durations, and generic facts on lists and maps.
\<close>

named_theorems go_text \<open>rewrite rules of the string and rune layer\<close>
named_theorems go_err \<open>rewrite rules of the error layer\<close>
named_theorems go_defs \<open>definitions a component unfolds in its own proofs\<close>

section \<open>Machine integers of the program\<close>

text \<open>
  \<open>wrap64\<close> is the value an \<open>int64\<close> holds after an arithmetic operation whose
  exact result is the argument; \<open>sat64\<close> is the clamping that
  \<open>time.Time.Sub\<close> performs.
\<close>

definition maxInt64 :: int where
  "maxInt64 = 9223372036854775807"

definition minInt64 :: int where
  "minInt64 = - 9223372036854775808"

definition wrap64 :: "int \<Rightarrow> int" where
  "wrap64 x = (x + 9223372036854775808) mod 18446744073709551616 - 9223372036854775808"

definition sat64 :: "int \<Rightarrow> int" where
  "sat64 x = (if x < minInt64 then minInt64 else if maxInt64 < x then maxInt64 else x)"

lemma sat64_mono: "x \<le> y \<Longrightarrow> sat64 x \<le> sat64 y"
  by (simp add: sat64_def minInt64_def maxInt64_def)

lemma sat64_id: "minInt64 \<le> x \<Longrightarrow> x \<le> maxInt64 \<Longrightarrow> sat64 x = x"
  by (simp add: sat64_def)

lemma wrap64_id: "minInt64 \<le> x \<Longrightarrow> x \<le> maxInt64 \<Longrightarrow> wrap64 x = x"
  by (simp add: wrap64_def minInt64_def maxInt64_def)

lemma wrap64_bounds: "minInt64 \<le> wrap64 x" "wrap64 x \<le> maxInt64"
  by (simp_all add: wrap64_def minInt64_def maxInt64_def)

text \<open>Integer division of Go truncates towards zero.\<close>

definition go_div :: "int \<Rightarrow> int \<Rightarrow> int" where
  "go_div a b = sgn a * sgn b * (\<bar>a\<bar> div \<bar>b\<bar>)"

lemma go_div_nonneg: "0 \<le> a \<Longrightarrow> 0 < b \<Longrightarrow> go_div a b = a div b"
  by (cases "a = 0") (simp_all add: go_div_def sgn_if)

section \<open>Lists\<close>

lemma foldl_invariant:
  assumes "P s" and "\<And>s x. x \<in> set xs \<Longrightarrow> P s \<Longrightarrow> P (f s x)"
  shows "P (foldl f s xs)"
  using assms by (induction xs arbitrary: s) auto

lemma list_all2_in_set: "list_all2 P xs ys \<Longrightarrow> x \<in> set xs \<Longrightarrow> \<exists>y \<in> set ys. P x y"
  by (induction rule: list_all2_induct) auto

lemma mset_remove1_swap: "x \<in> set xs \<Longrightarrow> add_mset x (mset (remove1 x xs)) = mset xs"
  by simp

lemma takeWhile_dropWhile_append: "takeWhile P xs @ dropWhile P xs = xs"
  by simp

section \<open>Maps\<close>

text \<open>
  A Go map read with a missing key yields the zero value of the element type.
\<close>

definition map_get :: "'v \<Rightarrow> ('k \<rightharpoonup> 'v) \<Rightarrow> 'k \<Rightarrow> 'v" where
  "map_get z m k = (case m k of None \<Rightarrow> z | Some v \<Rightarrow> v)"

lemma map_get_upd [simp]: "map_get z (m(k \<mapsto> v)) k' = (if k' = k then v else map_get z m k')"
  by (simp add: map_get_def)

lemma map_get_del [simp]: "map_get z (m(k := None)) k' = (if k' = k then z else map_get z m k')"
  by (simp add: map_get_def)

lemma map_get_empty [simp]: "map_get z Map.empty k = z"
  by (simp add: map_get_def)

end
