(* ===== verification/GoText.thy ===== *)
theory GoText
  imports Prelude
begin

text \<open>
  Go strings and the parts of the standard library the program uses on them.
  A Go string is a sequence of bytes, here \<open>string\<close> (a list of 8-bit
  \<open>char\<close>); ranging over it decodes UTF-8 with the replacement rune for every
  malformed byte, and \<open>strings.Builder.WriteRune\<close> encodes.
\<close>

section \<open>Runes and UTF-8\<close>

type_synonym rune = nat

abbreviation byte_of :: "char \<Rightarrow> nat" where
  "byte_of c \<equiv> of_char c"

definition runeError :: rune where
  "runeError = 65533"

definition is_cont :: "nat \<Rightarrow> bool" where
  "is_cont b \<longleftrightarrow> 128 \<le> b \<and> b \<le> 191"

text \<open>
  \<open>unicode/utf8.DecodeRuneInString\<close> on a nonempty byte sequence: the rune and
  the number of bytes consumed. The second-byte ranges for the lead bytes E0,
  ED, F0 and F4 exclude overlong forms, surrogates and values above 10FFFF.
\<close>

definition accept_lo :: "nat \<Rightarrow> nat" where
  "accept_lo b0 = (if b0 = 224 then 160 else if b0 = 240 then 144 else 128)"

definition accept_hi :: "nat \<Rightarrow> nat" where
  "accept_hi b0 = (if b0 = 237 then 159 else if b0 = 244 then 143 else 191)"

fun decode2 :: "nat \<Rightarrow> nat list \<Rightarrow> rune \<times> nat" where
  "decode2 b0 (b1 # _) =
     (if is_cont b1 then ((b0 - 192) * 64 + (b1 - 128), 2) else (runeError, 1))"
| "decode2 b0 _ = (runeError, 1)"

fun decode3 :: "nat \<Rightarrow> nat list \<Rightarrow> rune \<times> nat" where
  "decode3 b0 (b1 # b2 # _) =
     (if accept_lo b0 \<le> b1 \<and> b1 \<le> accept_hi b0
         \<and> is_cont b2
      then ((b0 - 224) * 4096 + (b1 - 128) * 64 + (b2 - 128), 3) else (runeError, 1))"
| "decode3 b0 _ = (runeError, 1)"

fun decode4 :: "nat \<Rightarrow> nat list \<Rightarrow> rune \<times> nat" where
  "decode4 b0 (b1 # b2 # b3 # _) =
     (if accept_lo b0 \<le> b1 \<and> b1 \<le> accept_hi b0
         \<and> is_cont b2 \<and> is_cont b3
      then ((b0 - 240) * 262144 + (b1 - 128) * 4096 + (b2 - 128) * 64 + (b3 - 128), 4)
      else (runeError, 1))"
| "decode4 b0 _ = (runeError, 1)"

fun decode_rune :: "nat list \<Rightarrow> rune \<times> nat" where
  "decode_rune [] = (runeError, 0)"
| "decode_rune (b0 # r1) =
     (if b0 < 128 then (b0, 1)
      else if 194 \<le> b0 \<and> b0 \<le> 223 then decode2 b0 r1
      else if 224 \<le> b0 \<and> b0 \<le> 239 then decode3 b0 r1
      else if 240 \<le> b0 \<and> b0 \<le> 244 then decode4 b0 r1
      else (runeError, 1))"

fun decode_runes :: "nat list \<Rightarrow> rune list" where
  "decode_runes [] = []"
| "decode_runes (b # bs) =
     (let (r, n) = decode_rune (b # bs) in r # decode_runes (drop (n - 1) bs))"

declare decode_runes.simps(2) [simp del]

text \<open>The runes a \<open>for range\<close> loop over the string visits.\<close>

definition runes :: "string \<Rightarrow> rune list" where
  "runes s = decode_runes (map byte_of s)"

definition valid_rune :: "rune \<Rightarrow> bool" where
  "valid_rune r \<longleftrightarrow> r < 55296 \<or> 57343 < r \<and> r \<le> 1114111"

text \<open>\<open>strings.Builder.WriteRune\<close>: the UTF-8 bytes of a rune, the
  replacement rune for anything that is not a Unicode scalar value.\<close>

definition encode_rune_bytes :: "rune \<Rightarrow> nat list" where
  "encode_rune_bytes r0 =
    (let r = (if valid_rune r0 then r0 else runeError) in
     if r < 128 then [r]
     else if r < 2048 then [192 + r div 64, 128 + r mod 64]
     else if r < 65536 then [224 + r div 4096, 128 + (r div 64) mod 64, 128 + r mod 64]
     else [240 + r div 262144, 128 + (r div 4096) mod 64, 128 + (r div 64) mod 64, 128 + r mod 64])"

definition encode_rune :: "rune \<Rightarrow> string" where
  "encode_rune r = map char_of (encode_rune_bytes r)"

definition encode_runes :: "rune list \<Rightarrow> string" where
  "encode_runes rs = concat (map encode_rune rs)"

text \<open>A string is valid UTF-8 when reading it as runes and writing the runes
  back gives the same bytes.\<close>

definition valid_utf8 :: "string \<Rightarrow> bool" where
  "valid_utf8 s \<longleftrightarrow> encode_runes (runes s) = s"

lemma runes_Nil [simp]: "runes [] = []"
  by (simp add: runes_def)

lemma encode_runes_Nil [simp]: "encode_runes [] = []"
  by (simp add: encode_runes_def)

lemma encode_runes_Cons [simp]: "encode_runes (r # rs) = encode_rune r @ encode_runes rs"
  by (simp add: encode_runes_def)

lemma encode_runes_append [simp]: "encode_runes (rs @ ss) = encode_runes rs @ encode_runes ss"
  by (simp add: encode_runes_def)

lemma encode_rune_bytes_lt: "b \<in> set (encode_rune_bytes r) \<Longrightarrow> b < 256"
  by (auto simp: encode_rune_bytes_def Let_def valid_rune_def runeError_def split: if_splits)

lemma map_byte_of_encode_rune: "map byte_of (encode_rune r) = encode_rune_bytes r"
  by (simp add: encode_rune_def o_def)
    (metis (mono_tags, lifting) encode_rune_bytes_lt map_idI mod_less)

text \<open>Decoding undoes encoding, whatever follows.\<close>

lemma decode_rune2:
  "194 \<le> b0 \<Longrightarrow> b0 \<le> 223 \<Longrightarrow> is_cont b1 \<Longrightarrow>
    decode_rune (b0 # b1 # bs) = ((b0 - 192) * 64 + (b1 - 128), 2)"
  by simp

lemma decode_rune3:
  "224 \<le> b0 \<Longrightarrow> b0 \<le> 239 \<Longrightarrow> accept_lo b0 \<le> b1 \<Longrightarrow>
    b1 \<le> accept_hi b0 \<Longrightarrow> is_cont b2 \<Longrightarrow>
    decode_rune (b0 # b1 # b2 # bs) = ((b0 - 224) * 4096 + (b1 - 128) * 64 + (b2 - 128), 3)"
  by simp

lemma decode_rune4:
  "240 \<le> b0 \<Longrightarrow> b0 \<le> 244 \<Longrightarrow> accept_lo b0 \<le> b1 \<Longrightarrow>
    b1 \<le> accept_hi b0 \<Longrightarrow> is_cont b2 \<Longrightarrow> is_cont b3 \<Longrightarrow>
    decode_rune (b0 # b1 # b2 # b3 # bs) =
      ((b0 - 240) * 262144 + (b1 - 128) * 4096 + (b2 - 128) * 64 + (b3 - 128), 4)"
  by simp

text \<open>Digits of a rune to base 64: the payload of its continuation bytes.\<close>

lemma base64_digits2: "r div 64 * 64 + r mod 64 = (r::nat)"
  by simp

lemma base64_digits3: "r div 4096 * 4096 + r div 64 mod 64 * 64 + r mod 64 = (r::nat)"
proof -
  have "r div 4096 = r div 64 div 64" by (simp flip: div_mult2_eq)
  then have "r div 4096 * 4096 + r div 64 mod 64 * 64 = (r div 64 div 64 * 64 + r div 64 mod 64) * 64"
    by (simp only: distrib_right mult.assoc; simp)
  then show ?thesis by (simp only: base64_digits2)
qed

lemma base64_digits4:
  "r div 262144 * 262144 + r div 4096 mod 64 * 4096 + r div 64 mod 64 * 64 + r mod 64 = (r::nat)"
proof -
  have "r div 262144 = r div 4096 div 64" by (simp flip: div_mult2_eq)
  then have "r div 262144 * 262144 + r div 4096 mod 64 * 4096
      = (r div 4096 div 64 * 64 + r div 4096 mod 64) * 4096"
    by (simp only: distrib_right mult.assoc; simp)
  then show ?thesis by (simp only: base64_digits2 base64_digits3)
qed

lemma encode_rune_bytes2:
  "valid_rune r \<Longrightarrow> 128 \<le> r \<Longrightarrow> r < 2048 \<Longrightarrow> encode_rune_bytes r = [192 + r div 64, 128 + r mod 64]"
  by (simp add: encode_rune_bytes_def)

lemma encode_rune_bytes3:
  "valid_rune r \<Longrightarrow> 2048 \<le> r \<Longrightarrow> r < 65536 \<Longrightarrow>
    encode_rune_bytes r = [224 + r div 4096, 128 + (r div 64) mod 64, 128 + r mod 64]"
  by (simp add: encode_rune_bytes_def)

lemma encode_rune_bytes4:
  "valid_rune r \<Longrightarrow> 65536 \<le> r \<Longrightarrow>
    encode_rune_bytes r =
      [240 + r div 262144, 128 + (r div 4096) mod 64, 128 + (r div 64) mod 64, 128 + r mod 64]"
  by (simp add: encode_rune_bytes_def)

lemma decode_encode_rune:
  assumes "valid_rune r"
  shows "decode_rune (encode_rune_bytes r @ bs) = (r, length (encode_rune_bytes r))"
proof -
  consider "r < 128" | "128 \<le> r" "r < 2048" | "2048 \<le> r" "r < 65536" | "65536 \<le> r" "r \<le> 1114111"
    using assms by (fastforce simp: valid_rune_def)
  then show ?thesis
  proof cases
    case 1
    with assms show ?thesis by (simp add: encode_rune_bytes_def)
  next
    case 2
    define a b where "a = r div 64" and "b = r mod 64"
    have r: "r = a * 64 + b" and ab: "b < 64" by (simp_all add: a_def b_def)
    have "2 \<le> a" "a < 32" using 2 r ab by linarith+
    with ab have "decode_rune ((192 + a) # (128 + b) # bs) = (a * 64 + b, 2)"
      by (subst decode_rune2) (simp_all add: is_cont_def)
    then show ?thesis
      by (simp add: encode_rune_bytes2 [OF assms 2] flip: a_def b_def r)
  next
    case 3
    define a b c where "a = r div 4096" and "b = r div 64 mod 64" and "c = r mod 64"
    have r: "r = a * 4096 + b * 64 + c"
      using base64_digits3 [of r] by (simp add: a_def b_def c_def)
    have ab: "b < 64" "c < 64" by (simp_all add: b_def c_def)
    have a: "a < 16" using 3 r by linarith
    have "a = 0 \<Longrightarrow> 32 \<le> b" using 3 r ab by linarith
    moreover have "a = 13 \<Longrightarrow> b \<le> 31" using assms r ab by (auto simp: valid_rune_def)
    ultimately have "decode_rune ((224 + a) # (128 + b) # (128 + c) # bs) = (a * 4096 + b * 64 + c, 3)"
      using a ab by (subst decode_rune3) (simp_all add: is_cont_def accept_lo_def accept_hi_def)
    then show ?thesis
      by (simp add: encode_rune_bytes3 [OF assms 3] flip: a_def b_def c_def r)
  next
    case 4
    define a b c d where "a = r div 262144" and "b = r div 4096 mod 64"
      and "c = r div 64 mod 64" and "d = r mod 64"
    have r: "r = a * 262144 + b * 4096 + c * 64 + d"
      using base64_digits4 [of r] by (simp add: a_def b_def c_def d_def)
    have ab: "b < 64" "c < 64" "d < 64" by (simp_all add: b_def c_def d_def)
    have a: "a < 5" using 4 r by linarith
    have "a = 0 \<Longrightarrow> 16 \<le> b" using 4 r ab by linarith
    moreover have "a = 4 \<Longrightarrow> b \<le> 15" using 4 r ab by linarith
    ultimately have "decode_rune ((240 + a) # (128 + b) # (128 + c) # (128 + d) # bs)
        = (a * 262144 + b * 4096 + c * 64 + d, 4)"
      using a ab by (subst decode_rune4) (simp_all add: is_cont_def accept_lo_def accept_hi_def)
    then show ?thesis
      by (simp add: encode_rune_bytes4 [OF assms 4(1)] flip: a_def b_def c_def d_def r)
  qed
qed

lemma encode_rune_bytes_nonempty [simp]: "encode_rune_bytes r \<noteq> []"
  by (simp add: encode_rune_bytes_def Let_def)

lemma encode_rune_nonempty [simp]: "encode_rune r \<noteq> []"
  by (simp add: encode_rune_def)

lemma decode_runes_encode_Cons:
  assumes "valid_rune r"
  shows "decode_runes (encode_rune_bytes r @ bs) = r # decode_runes bs"
proof -
  obtain b es where be: "encode_rune_bytes r = b # es"
    by (meson encode_rune_bytes_nonempty neq_Nil_conv)
  show ?thesis
    using decode_encode_rune [OF assms, of bs] by (simp add: be decode_runes.simps(2))
qed

lemma runes_encode_rune_append: "valid_rune r \<Longrightarrow> runes (encode_rune r @ s) = r # runes s"
  by (simp add: runes_def map_byte_of_encode_rune decode_runes_encode_Cons)

lemma runes_encode_runes_append:
  "list_all valid_rune rs \<Longrightarrow> runes (encode_runes rs @ s) = rs @ runes s"
  by (induction rs) (simp_all add: runes_encode_rune_append)

lemma runes_encode_runes [go_text]: "list_all valid_rune rs \<Longrightarrow> runes (encode_runes rs) = rs"
  using runes_encode_runes_append [of rs "[]"] by simp

lemma valid_rune2: "b0 \<le> 223 \<Longrightarrow> is_cont b1 \<Longrightarrow> valid_rune ((b0 - 192) * 64 + (b1 - 128))"
  unfolding valid_rune_def is_cont_def by linarith

lemma valid_rune3:
  assumes "b0 \<le> 239" "accept_lo b0 \<le> b1" "b1 \<le> accept_hi b0" "is_cont b2"
  shows "valid_rune ((b0 - 224) * 4096 + (b1 - 128) * 64 + (b2 - 128))"
proof -
  have b: "b1 - 128 \<le> 63" "b2 - 128 \<le> 63" "b0 = 237 \<Longrightarrow> b1 - 128 \<le> 31"
    using assms by (auto simp: is_cont_def accept_lo_def accept_hi_def split: if_splits)
  consider "b0 \<le> 236" | "b0 = 237" | "238 \<le> b0" "b0 \<le> 239"
    using assms(1) by linarith
  then show ?thesis
    using b by cases (unfold valid_rune_def, linarith+)
qed

lemma valid_rune4:
  assumes "240 \<le> b0" "b0 \<le> 244" "accept_lo b0 \<le> b1"
    "b1 \<le> accept_hi b0" "is_cont b2" "is_cont b3"
  shows "valid_rune ((b0 - 240) * 262144 + (b1 - 128) * 4096 + (b2 - 128) * 64 + (b3 - 128))"
proof -
  have b: "b1 - 128 \<le> 63" "b2 - 128 \<le> 63" "b3 - 128 \<le> 63"
    "b0 = 244 \<Longrightarrow> b1 - 128 \<le> 15" "b0 = 240 \<Longrightarrow> 16 \<le> b1 - 128"
    using assms by (auto simp: is_cont_def accept_lo_def accept_hi_def split: if_splits)
  consider "b0 = 240" | "241 \<le> b0" "b0 \<le> 243" | "b0 = 244"
    using assms(1,2) by linarith
  then show ?thesis
    using b by cases (unfold valid_rune_def, linarith+)
qed

lemma valid_rune_error [simp]: "valid_rune runeError"
  by (simp add: valid_rune_def runeError_def)

lemma valid_rune_ascii: "r < 128 \<Longrightarrow> valid_rune r"
  by (simp add: valid_rune_def)

lemma decode2_valid: "b0 \<le> 223 \<Longrightarrow> valid_rune (fst (decode2 b0 r))"
  by (cases "(b0, r)" rule: decode2.cases) (simp_all add: valid_rune2)

lemma decode3_valid: "b0 \<le> 239 \<Longrightarrow> valid_rune (fst (decode3 b0 r))"
  by (cases "(b0, r)" rule: decode3.cases) (simp_all add: valid_rune3)

lemma decode4_valid: "240 \<le> b0 \<Longrightarrow> b0 \<le> 244 \<Longrightarrow> valid_rune (fst (decode4 b0 r))"
  by (cases "(b0, r)" rule: decode4.cases) (simp_all add: valid_rune4)

lemma valid_rune_decode: "valid_rune (fst (decode_rune bs))"
  by (cases bs) (simp_all add: valid_rune_ascii decode2_valid decode3_valid decode4_valid)

lemma list_all_drop: "list_all P xs \<Longrightarrow> list_all P (drop n xs)"
  by (metis append_take_drop_id list_all_append)

lemma decode_runes_valid: "list_all (\<lambda>b. b < 256) bs \<Longrightarrow> list_all valid_rune (decode_runes bs)"
proof (induction bs rule: decode_runes.induct)
  case 1
  then show ?case by simp
next
  case (2 b bs)
  obtain r n where rn: "decode_rune (b # bs) = (r, n)" by fastforce
  moreover have "valid_rune r" using valid_rune_decode [of "b # bs"] rn by simp
  moreover have "list_all valid_rune (decode_runes (drop (n - 1) bs))"
    using 2 rn by (simp add: list_all_drop)
  ultimately show ?case by (simp add: decode_runes.simps(2))
qed

lemma runes_valid [simp]: "list_all valid_rune (runes s)"
proof -
  have "list_all (\<lambda>b. b < 256) (map byte_of s :: nat list)"
    by (simp add: list_all_iff)
  then show ?thesis by (simp add: runes_def decode_runes_valid)
qed

lemma valid_utf8_encode_runes: "list_all valid_rune rs \<Longrightarrow> valid_utf8 (encode_runes rs)"
  by (simp add: valid_utf8_def runes_encode_runes)

lemma runes_empty_iff [simp]: "runes s = [] \<longleftrightarrow> s = []"
  by (cases s) (simp_all add: runes_def decode_runes.simps(2) split: prod.splits)

lemma encode_runes_empty_iff [simp]: "encode_runes rs = [] \<longleftrightarrow> rs = []"
  by (cases rs) simp_all

subsection \<open>ASCII\<close>

definition ascii :: "string \<Rightarrow> bool" where
  "ascii s \<longleftrightarrow> list_all (\<lambda>c. byte_of c < (128::nat)) s"

lemma runes_Cons_ascii [simp]: "byte_of c < (128::nat) \<Longrightarrow> runes (c # s) = byte_of c # runes s"
  by (simp add: runes_def decode_runes.simps(2))

lemma encode_rune_ascii [simp]: "r < 128 \<Longrightarrow> encode_rune r = [char_of r]"
  by (simp add: encode_rune_def encode_rune_bytes_def valid_rune_def)

lemma runes_ascii: "ascii s \<Longrightarrow> runes s = map byte_of s"
  by (induction s) (simp_all add: ascii_def)

lemma valid_utf8_ascii: "ascii s \<Longrightarrow> valid_utf8 s"
  by (induction s) (simp_all add: ascii_def valid_utf8_def)

text \<open>
  An ASCII byte is never part of a longer sequence, so looking for it among the
  bytes and among the runes is the same.
\<close>

lemma decode2_wide:
  "194 \<le> b0 \<Longrightarrow> decode2 b0 bs = (r, n) \<Longrightarrow> 128 \<le> r \<and> list_all (\<lambda>b. 128 \<le> b) (take (n - 1) bs)"
  by (cases "(b0, bs)" rule: decode2.cases) (auto simp: is_cont_def runeError_def split: if_splits)

lemma decode3_wide:
  "224 \<le> b0 \<Longrightarrow> decode3 b0 bs = (r, n) \<Longrightarrow> 128 \<le> r \<and> list_all (\<lambda>b. 128 \<le> b) (take (n - 1) bs)"
  by (cases "(b0, bs)" rule: decode3.cases) (auto simp: is_cont_def runeError_def accept_lo_def split: if_splits)

lemma decode4_wide:
  "240 \<le> b0 \<Longrightarrow> decode4 b0 bs = (r, n) \<Longrightarrow> 128 \<le> r \<and> list_all (\<lambda>b. 128 \<le> b) (take (n - 1) bs)"
  by (cases "(b0, bs)" rule: decode4.cases) (auto simp: is_cont_def runeError_def accept_lo_def split: if_splits)

lemma decode_rune_wide:
  "128 \<le> b \<Longrightarrow> decode_rune (b # bs) = (r, n) \<Longrightarrow>
    128 \<le> r \<and> list_all (\<lambda>b. 128 \<le> b) (take (n - 1) bs)"
  using decode2_wide [of b bs r n] decode3_wide [of b bs r n] decode4_wide [of b bs r n]
  by (auto simp: runeError_def split: if_splits)

lemma decode_runes_ascii_mem:
  "c < 128 \<Longrightarrow> c \<in> set (decode_runes bs) \<longleftrightarrow> c \<in> set bs"
proof (induction bs rule: decode_runes.induct)
  case 1
  then show ?case by simp
next
  case (2 b bs)
  obtain r n where rn: "decode_rune (b # bs) = (r, n)" by fastforce
  have IH: "c \<in> set (decode_runes (drop (n - 1) bs)) \<longleftrightarrow> c \<in> set (drop (n - 1) bs)"
    using 2 rn by simp
  have "c = r \<and> b = c \<and> n = 1 \<or> c = r \<and> c = b \<or> c \<noteq> r \<and> c \<noteq> b \<and> c \<notin> set (take (n - 1) bs)"
  proof (cases "b < 128")
    case True
    with rn show ?thesis by simp
  next
    case False
    with decode_rune_wide [OF _ rn] have "128 \<le> r \<and> list_all (\<lambda>b. 128 \<le> b) (take (n - 1) bs)" by simp
    with False 2(2) show ?thesis by (auto simp: list_all_iff)
  qed
  moreover have "set bs = set (take (n - 1) bs) \<union> set (drop (n - 1) bs)"
    by (metis append_take_drop_id set_append)
  ultimately show ?case using IH rn by (auto simp: decode_runes.simps(2))
qed

lemma runes_ascii_mem:
  assumes "c < 128"
  shows "c \<in> set (runes s) \<longleftrightarrow> char_of c \<in> set s"
proof -
  have "byte_of (char_of c) = c" using assms by simp
  then have "c \<in> byte_of ` set s \<longleftrightarrow> char_of c \<in> set s"
    by (metis char_of_char image_iff)
  then show ?thesis using assms by (simp add: runes_def decode_runes_ascii_mem)
qed

section \<open>The strings package\<close>

definition HasPrefix :: "string \<Rightarrow> string \<Rightarrow> bool" where
  "HasPrefix s p \<longleftrightarrow> take (length p) s = p"

definition HasSuffix :: "string \<Rightarrow> string \<Rightarrow> bool" where
  "HasSuffix s p \<longleftrightarrow> length p \<le> length s \<and> drop (length s - length p) s = p"

definition TrimSuffix :: "string \<Rightarrow> string \<Rightarrow> string" where
  "TrimSuffix s p = (if HasSuffix s p then take (length s - length p) s else s)"

fun Contains :: "string \<Rightarrow> string \<Rightarrow> bool" where
  "Contains [] p = (p = [])"
| "Contains (c # s) p = (HasPrefix (c # s) p \<or> Contains s p)"

definition LastIndexByte :: "string \<Rightarrow> char \<Rightarrow> int" where
  "LastIndexByte s c =
     (if c \<in> set s then int (length s) - 1 - int (length (takeWhile (\<lambda>x. x \<noteq> c) (rev s))) else -1)"

text \<open>\<open>strings.Split(s, sep)\<close> for a one-byte separator.\<close>

fun split_byte :: "char \<Rightarrow> string \<Rightarrow> string list" where
  "split_byte c [] = [[]]"
| "split_byte c (x # xs) =
     (if x = c then [] # split_byte c xs
      else (case split_byte c xs of [] \<Rightarrow> [[x]] | p # ps \<Rightarrow> (x # p) # ps))"

definition lower_ascii :: "rune \<Rightarrow> rune" where
  "lower_ascii r = (if 65 \<le> r \<and> r \<le> 90 then r + 32 else r)"

text \<open>
  \<open>strings.ToLower\<close>: every rune mapped by \<open>unicode.ToLower\<close>. Its table for
  the runes above ASCII is the parameter \<open>ul\<close>.
\<close>

definition ToLower :: "(rune \<Rightarrow> rune) \<Rightarrow> string \<Rightarrow> string" where
  "ToLower ul s = encode_runes (map (\<lambda>r. if r < 128 then lower_ascii r else ul r) (runes s))"

text \<open>
  \<open>strings.EqualFold\<close> against an ASCII literal. Under simple case folding the
  letters s and k have a third, non-ASCII form (U+017F and U+212A).
\<close>

definition fold_match :: "rune \<Rightarrow> rune \<Rightarrow> bool" where
  "fold_match r c \<longleftrightarrow>
     r < 128 \<and> lower_ascii r = lower_ascii c \<or> r = 383 \<and> lower_ascii c = 115
     \<or> r = 8490 \<and> lower_ascii c = 107"

definition EqualFold :: "string \<Rightarrow> string \<Rightarrow> bool" where
  "EqualFold s t \<longleftrightarrow> list_all2 fold_match (runes s) (map byte_of t)"

lemma LastIndexByte_last:
  assumes "c \<notin> set t"
  shows "LastIndexByte (m @ c # t) c = int (length m)"
proof -
  have "takeWhile (\<lambda>x. x \<noteq> c) (rev t @ c # rev m) = rev t"
    using assms by (subst takeWhile_append2) auto
  then show ?thesis by (simp add: LastIndexByte_def)
qed

lemma LastIndexByte_none: "LastIndexByte s c = -1 \<longleftrightarrow> c \<notin> set s"
proof (cases "c \<in> set s")
  case True
  then obtain m t where "s = m @ c # t" "c \<notin> set t" by (meson split_list_last)
  with True show ?thesis by (simp add: LastIndexByte_last)
qed (simp add: LastIndexByte_def)

lemma split_byte_nonempty [simp]: "split_byte c s \<noteq> []"
  by (induction s) (auto split: list.splits)

lemma length_split_byte: "length (split_byte c s) = Suc (count_list s c)"
  by (induction s) (auto split: list.splits)

lemma split_byte_free: "p \<in> set (split_byte c s) \<Longrightarrow> c \<notin> set p"
  by (induction s arbitrary: p) (auto split: list.splits if_splits)

fun join_byte :: "char \<Rightarrow> string list \<Rightarrow> string" where
  "join_byte c [] = []"
| "join_byte c [p] = p"
| "join_byte c (p # q # ps) = p @ c # join_byte c (q # ps)"

lemma join_split_byte: "join_byte c (split_byte c s) = s"
proof (induction s)
  case (Cons x s)
  obtain p ps where "split_byte c s = p # ps" by (meson split_byte_nonempty neq_Nil_conv)
  with Cons show ?case by (cases ps) auto
qed simp

section \<open>Decimal numbers\<close>

definition digit_val :: "char \<Rightarrow> int" where
  "digit_val c = int (byte_of c) - 48"

definition is_digit :: "char \<Rightarrow> bool" where
  "is_digit c \<longleftrightarrow> 48 \<le> (byte_of c :: nat) \<and> byte_of c \<le> (57::nat)"

text \<open>\<open>strconv.Atoi\<close> on a 64-bit platform: an optional sign and at least one
  digit, \<open>None\<close> for a syntax or range error.\<close>

definition Atoi :: "string \<Rightarrow> int option" where
  "Atoi s =
    (let neg = HasPrefix s ''-'';
         ds = (if HasPrefix s ''-'' \<or> HasPrefix s ''+'' then drop 1 s else s);
         v = foldl (\<lambda>a c. a * 10 + digit_val c) 0 ds;
         n = (if neg then - v else v)
     in if ds = [] \<or> \<not> list_all is_digit ds \<or> n < minInt64 \<or> maxInt64 < n then None else Some n)"

lemma Atoi_range: "Atoi s = Some n \<Longrightarrow> minInt64 \<le> n \<and> n \<le> maxInt64"
  by (auto simp: Atoi_def Let_def split: if_splits)

section \<open>Numbers in text\<close>

definition hex_digit :: "nat \<Rightarrow> char" where
  "hex_digit n = (if n < 10 then char_of (48 + n) else char_of (87 + n))"

fun show_nat_base :: "nat \<Rightarrow> nat \<Rightarrow> string" where
  "show_nat_base b n =
     (if b < 2 then [] else if n < b then [hex_digit n]
      else show_nat_base b (n div b) @ [hex_digit (n mod b)])"

declare show_nat_base.simps [simp del]

definition FormatInt :: "int \<Rightarrow> nat \<Rightarrow> string" where
  "FormatInt n b = (if n < 0 then CHR ''-'' # show_nat_base b (nat (- n)) else show_nat_base b (nat n))"

end
