(* ===== verification/Exterrors.thy ===== *)
theory Exterrors
  imports GoText
begin

text \<open>
  The errors of the program (\<open>framework/exterrors\<close>). A Go \<open>error\<close> is an
  interface value whose optional methods \<open>Temporary\<close>, \<open>Fields\<close> and
  \<open>Unwrap\<close> are found by type assertion or by walking the chain of wrapped
  errors. The datatype has one constructor per concrete type the sources build,
  plus \<open>ForeignErr\<close> for an error value handed over by a library, given by its
  text and its \<open>Temporary\<close> method, if it has one.
\<close>

section \<open>Error values\<close>

type_synonym enh_code = "int \<times> int \<times> int"

text \<open>
  The dynamic values stored in field maps. The enhanced codes of this program
  (\<open>exterrors.EnhancedCode\<close>) and of the go-smtp library
  (\<open>smtp.EnhancedCode\<close>) are distinct types with the same contents.
\<close>

datatype fval = FNil | FInt int | FStr string | FEnch enh_code | FSmtpEnch enh_code

type_synonym fields = "(string \<times> fval) list"

datatype go_err =
    ErrNew string
  | ErrWrap string go_err
  | SMTPError (se_Code: int) (se_EnhancedCode: enh_code) (se_Message: string)
      (se_CheckName: string) (se_TargetName: string) (se_Err: "go_err option")
      (se_Reason: string) (se_Misc: fields)
  | TemporaryErr go_err bool
  | FieldsWrap go_err fields
  | GoSMTPError (gs_Code: int) (gs_EnhancedCode: enh_code) (gs_Message: string)
      (gs_text: string) (gs_temp: "bool option")
  | DNSError (de_Err: string) (de_Name: string) (de_Server: string)
      (de_IsTimeout: bool) (de_IsTemporary: bool) (de_IsNotFound: bool)
  | OpError (oe_Op: string) (oe_Addr: string) (oe_Err: go_err) (oe_text: string) (oe_temp: bool)
  | VerifyError go_err
  | TLSError go_err
  | RCodeError (rc_Name: string) (rc_Code: int)
  | ForeignErr string "bool option"

text \<open>An SMTP error with only a code, an enhanced code and a message.\<close>

abbreviation smtpErr :: "int \<Rightarrow> enh_code \<Rightarrow> string \<Rightarrow> go_err" where
  "smtpErr c ec msg \<equiv> SMTPError c ec msg [] [] None [] []"

section \<open>Field maps\<close>

definition fset :: "string \<Rightarrow> fval \<Rightarrow> fields \<Rightarrow> fields" where
  "fset k v m = (k, v) # filter (\<lambda>p. fst p \<noteq> k) m"

lemma map_of_filter_key: "map_of (filter (\<lambda>p. fst p \<noteq> k) m) k' = (if k' = k then None else map_of m k')"
  by (induction m) auto

lemma map_of_fset [simp, go_err]: "map_of (fset k v m) = (map_of m)(k \<mapsto> v)"
  by (auto simp: fset_def map_of_filter_key fun_eq_iff)

definition nonnil :: "fval option \<Rightarrow> bool" where
  "nonnil v \<longleftrightarrow> v \<noteq> None \<and> v \<noteq> Some FNil"

section \<open>Methods\<close>

fun unwrap :: "go_err \<Rightarrow> go_err option" where
  "unwrap (ErrWrap p e) = Some e"
| "unwrap (SMTPError c ec m cn tn e r mi) = e"
| "unwrap (TemporaryErr e b) = Some e"
| "unwrap (FieldsWrap e fs) = Some e"
| "unwrap (OpError op addr e t tmp) = Some e"
| "unwrap (VerifyError e) = Some e"
| "unwrap (TLSError e) = Some e"
| "unwrap _ = None"

lemma unwrap_size [termination_simp]: "unwrap e = Some e' \<Longrightarrow> size e' < size e"
  by (cases e) (auto simp: less_Suc_eq_le trans_le_add1 trans_le_add2)

text \<open>The text of a DNS response code other than success (\<open>RCodeError\<close> of
  \<open>framework/dns/dnssec.go\<close>).\<close>

definition rcode_string :: "string \<Rightarrow> int \<Rightarrow> string" where
  "rcode_string name code =
    (if code = 1 then ''dns: rcode FORMERR when looking up '' @ name
     else if code = 2 then ''dns: rcode SERVFAIL when looking up '' @ name
     else if code = 3 then ''dns: rcode NXDOMAIN when looking up '' @ name
     else if code = 4 then ''dns: rcode NOTIMP when looking up '' @ name
     else if code = 5 then ''dns: rcode REFUSED when looking up '' @ name
     else ''dns: non-success rcode: '' @ FormatInt code 10 @ '' when looking up '' @ name)"

fun err_string :: "go_err \<Rightarrow> string" where
  "err_string (ErrNew s) = s"
| "err_string (ErrWrap p e) = p @ err_string e"
| "err_string (SMTPError c ec m cn tn e r mi) =
     (if r \<noteq> [] then r else (case e of Some e' \<Rightarrow> err_string e' | None \<Rightarrow> m))"
| "err_string (TemporaryErr e b) = err_string e"
| "err_string (FieldsWrap e fs) = err_string e"
| "err_string (GoSMTPError c ec m t tmp) = t"
| "err_string (DNSError e n s to tmp nf) =
     ''lookup '' @ n @ (if s \<noteq> [] then '' on '' @ s else []) @ '': '' @ e"
| "err_string (OpError op addr e t tmp) = t"
| "err_string (VerifyError e) = ''tls: failed to verify certificate: '' @ err_string e"
| "err_string (TLSError e) = ''smtpconn: '' @ err_string e"
| "err_string (RCodeError n c) = rcode_string n c"
| "err_string (ForeignErr s tmp) = s"

definition SMTPError_Temporary :: "int \<Rightarrow> bool" where
  "SMTPError_Temporary code \<longleftrightarrow> go_div code 100 = 4"

text \<open>The \<open>Temporary\<close> method of the value itself, \<open>None\<close> when its type
  has no such method.\<close>

fun temp_method :: "go_err \<Rightarrow> bool option" where
  "temp_method (SMTPError c ec m cn tn e r mi) = Some (SMTPError_Temporary c)"
| "temp_method (TemporaryErr e b) = Some b"
| "temp_method (GoSMTPError c ec m t tmp) = tmp"
| "temp_method (DNSError e n s to tmp nf) = Some (to \<or> tmp)"
| "temp_method (OpError op addr e t tmp) = Some tmp"
| "temp_method (RCodeError n c) = Some (c = 2)"
| "temp_method (ForeignErr s tmp) = tmp"
| "temp_method _ = None"

text \<open>\<open>errors.As(err, &temp)\<close> followed by \<open>temp.Temporary()\<close>: the first error
  of the chain that has the method answers.\<close>

fun as_temporary :: "go_err \<Rightarrow> bool option" where
  "as_temporary e =
     (case temp_method e of
        Some b \<Rightarrow> Some b
      | None \<Rightarrow> (case unwrap e of None \<Rightarrow> None | Some e' \<Rightarrow> as_temporary e'))"

declare as_temporary.simps [simp del]

definition IsTemporaryOrUnspec :: "go_err \<Rightarrow> bool" where
  "IsTemporaryOrUnspec e = (case as_temporary e of Some b \<Rightarrow> b | None \<Rightarrow> True)"

definition IsTemporary :: "go_err \<Rightarrow> bool" where
  "IsTemporary e = (case as_temporary e of Some b \<Rightarrow> b | None \<Rightarrow> False)"

definition WithTemporary :: "go_err \<Rightarrow> bool \<Rightarrow> go_err" where
  "WithTemporary e b = TemporaryErr e b"

definition WithFields :: "go_err \<Rightarrow> fields \<Rightarrow> go_err" where
  "WithFields e fs = FieldsWrap e fs"

fun SMTPError_Fields :: "go_err \<Rightarrow> fields" where
  "SMTPError_Fields (SMTPError c ec m cn tn e r mi) =
    (let ctx = fset ''smtp_msg'' (FStr m) (fset ''smtp_enchcode'' (FEnch ec)
                 (fset ''smtp_code'' (FInt c) mi));
         ctx = (if cn \<noteq> [] then fset ''check'' (FStr cn) ctx else ctx);
         ctx = (if tn \<noteq> [] then fset ''target'' (FStr tn) ctx else ctx)
     in if r \<noteq> [] then fset ''reason'' (FStr r) ctx
        else (case e of Some e' \<Rightarrow> fset ''reason'' (FStr (err_string e')) ctx | None \<Rightarrow> ctx))"
| "SMTPError_Fields _ = []"

fun fields_method :: "go_err \<Rightarrow> fields option" where
  "fields_method (SMTPError c ec m cn tn e r mi) =
     Some (SMTPError_Fields (SMTPError c ec m cn tn e r mi))"
| "fields_method (FieldsWrap e fs) = Some fs"
| "fields_method _ = None"

text \<open>The loop over one error's fields: a key that already has a non-nil value
  keeps it.\<close>

definition merge_fields :: "fields \<Rightarrow> fields \<Rightarrow> fields" where
  "merge_fields acc fs =
     foldl (\<lambda>m (k, v). if nonnil (map_of m k) then m else fset k v m) acc fs"

fun fields_loop :: "fields \<Rightarrow> go_err \<Rightarrow> fields" where
  "fields_loop acc e =
     (let acc' = (case fields_method e of Some fs \<Rightarrow> merge_fields acc fs | None \<Rightarrow> acc)
      in case unwrap e of None \<Rightarrow> acc' | Some e' \<Rightarrow> fields_loop acc' e')"

declare fields_loop.simps [simp del]

definition Fields :: "go_err \<Rightarrow> fields" where
  "Fields e = fields_loop [] e"

definition SMTPCode :: "go_err \<Rightarrow> int \<Rightarrow> int \<Rightarrow> int" where
  "SMTPCode e temporaryCode permanentCode =
     (if IsTemporary e then temporaryCode else permanentCode)"

text \<open>The assignments in the order of the source: the second one is not in an
  \<open>else\<close> branch.\<close>

definition SMTPEnchCode :: "go_err \<Rightarrow> enh_code \<Rightarrow> enh_code" where
  "SMTPEnchCode e code =
    (let code = (if IsTemporary e then (4, snd code) else code);
         code = (5, snd code)
     in code)"

fun UnwrapDNSErr :: "go_err \<Rightarrow> string \<times> fields" where
  "UnwrapDNSErr (DNSError e n s to tmp nf) = (e, [])"
| "UnwrapDNSErr _ = ([], [])"

section \<open>The chain of wrapped errors\<close>

text \<open>
  Reference definitions: the list of errors reached by \<open>Unwrap\<close>, and the value
  a key has in the outermost error that gives it a non-nil value.
\<close>

fun err_chain :: "go_err \<Rightarrow> go_err list" where
  "err_chain e = e # (case unwrap e of None \<Rightarrow> [] | Some e' \<Rightarrow> err_chain e')"

declare err_chain.simps [simp del]

fun first_some :: "('a \<Rightarrow> 'b option) \<Rightarrow> 'a list \<Rightarrow> 'b option" where
  "first_some f [] = None"
| "first_some f (x # xs) = (case f x of Some y \<Rightarrow> Some y | None \<Rightarrow> first_some f xs)"

definition val_of :: "fields \<Rightarrow> string \<Rightarrow> fval option" where
  "val_of m k = (case map_of m k of Some FNil \<Rightarrow> None | r \<Rightarrow> r)"

definition own_field :: "string \<Rightarrow> go_err \<Rightarrow> fval option" where
  "own_field k e = (case fields_method e of None \<Rightarrow> None | Some fs \<Rightarrow> val_of fs k)"

lemma as_temporary_chain: "as_temporary e = first_some temp_method (err_chain e)"
proof (induction e rule: as_temporary.induct)
  case (1 e)
  then show ?case
    by (subst as_temporary.simps, subst err_chain.simps) (auto split: option.splits)
qed

lemma val_of_fset [simp]: "v \<noteq> FNil \<Longrightarrow> val_of (fset k v m) k' = (if k' = k then Some v else val_of m k')"
  by (auto simp: val_of_def split: option.splits fval.splits)

lemma nonnil_val_of: "nonnil (map_of m k) \<longleftrightarrow> val_of m k \<noteq> None"
  by (auto simp: nonnil_def val_of_def split: option.splits fval.splits)

lemma val_of_merge_step:
  "val_of (if nonnil (map_of m k) then m else fset k v m) k' =
    (case val_of m k' of Some w \<Rightarrow> Some w | None \<Rightarrow> val_of [(k, v)] k')"
  by (auto simp: nonnil_val_of val_of_def nonnil_def split: option.splits fval.splits)

lemma val_of_merge_fields:
  "distinct (map fst fs) \<Longrightarrow>
    val_of (merge_fields m fs) k = (case val_of m k of Some w \<Rightarrow> Some w | None \<Rightarrow> val_of fs k)"
proof (induction fs arbitrary: m)
  case Nil
  then show ?case by (simp add: merge_fields_def val_of_def split: option.splits)
next
  case (Cons p fs)
  obtain k' v where p: "p = (k', v)" by fastforce
  have none: "map_of fs k' = None" using Cons.prems by (simp add: p map_of_eq_None_iff)
  have "val_of (merge_fields m (p # fs)) k =
      val_of (merge_fields (if nonnil (map_of m k') then m else fset k' v m) fs) k"
    by (simp add: merge_fields_def p)
  also have "\<dots> = (case val_of m k of Some w \<Rightarrow> Some w
      | None \<Rightarrow> (case val_of [(k', v)] k of Some w \<Rightarrow> Some w | None \<Rightarrow> val_of fs k))"
    using Cons by (simp add: p val_of_merge_step split: option.splits)
  also have "(case val_of [(k', v)] k of Some w \<Rightarrow> Some w | None \<Rightarrow> val_of fs k) = val_of (p # fs) k"
    using none by (auto simp: p val_of_def split: option.splits fval.splits)
  finally show ?case .
qed

text \<open>
  The field maps of the program are Go maps: every key occurs once.
\<close>

fun fields_wf :: "go_err \<Rightarrow> bool" where
  "fields_wf (ErrWrap p e) = fields_wf e"
| "fields_wf (SMTPError c ec m cn tn e r mi) =
     (distinct (map fst mi) \<and> (case e of None \<Rightarrow> True | Some e' \<Rightarrow> fields_wf e'))"
| "fields_wf (TemporaryErr e b) = fields_wf e"
| "fields_wf (FieldsWrap e fs) = (distinct (map fst fs) \<and> fields_wf e)"
| "fields_wf (OpError op addr e t tmp) = fields_wf e"
| "fields_wf (VerifyError e) = fields_wf e"
| "fields_wf (TLSError e) = fields_wf e"
| "fields_wf _ = True"

lemma distinct_fset [simp]: "distinct (map fst m) \<Longrightarrow> distinct (map fst (fset k v m))"
  by (auto simp: fset_def distinct_map_filter)

lemma fields_wf_method: "fields_wf e \<Longrightarrow> fields_method e = Some fs \<Longrightarrow> distinct (map fst fs)"
  by (cases e rule: fields_method.cases) (auto simp: Let_def split: option.splits)

lemma fields_wf_unwrap: "fields_wf e \<Longrightarrow> unwrap e = Some e' \<Longrightarrow> fields_wf e'"
  by (cases e rule: unwrap.cases) auto

lemma fields_loop_chain:
  "fields_wf e \<Longrightarrow> val_of (fields_loop acc e) k =
    (case val_of acc k of Some w \<Rightarrow> Some w | None \<Rightarrow> first_some (own_field k) (err_chain e))"
proof (induction acc e rule: fields_loop.induct)
  case (1 acc e)
  define acc' where "acc' = (case fields_method e of Some fs \<Rightarrow> merge_fields acc fs | None \<Rightarrow> acc)"
  have acc': "val_of acc' k = (case val_of acc k of Some w \<Rightarrow> Some w | None \<Rightarrow> own_field k e)"
    using fields_wf_method [OF "1.prems"]
    by (auto simp: acc'_def own_field_def val_of_merge_fields split: option.splits)
  show ?case
  proof (cases "unwrap e")
    case None
    with acc' show ?thesis
      by (subst fields_loop.simps, subst err_chain.simps)
        (simp add: acc'_def Let_def split: option.splits)
  next
    case (Some e')
    have "val_of (fields_loop acc' e') k =
        (case val_of acc' k of Some w \<Rightarrow> Some w | None \<Rightarrow> first_some (own_field k) (err_chain e'))"
      using "1.IH" [OF acc'_def Some] fields_wf_unwrap [OF "1.prems" Some] by blast
    with Some acc' show ?thesis
      by (subst fields_loop.simps, subst err_chain.simps)
        (simp flip: acc'_def add: Let_def split: option.splits)
  qed
qed

section \<open>Facts for the components that classify errors\<close>

lemma IsTemporary_imp_OrUnspec: "IsTemporary e \<Longrightarrow> IsTemporaryOrUnspec e"
  by (simp add: IsTemporary_def IsTemporaryOrUnspec_def split: option.splits)

lemma as_temporary_WithTemporary [simp]: "as_temporary (WithTemporary e b) = Some b"
  by (simp add: WithTemporary_def as_temporary.simps)

lemma as_temporary_WithFields [simp]: "as_temporary (WithFields e fs) = as_temporary e"
  by (subst as_temporary.simps) (simp add: WithFields_def)

lemma as_temporary_SMTPError [simp]:
  "as_temporary (SMTPError c ec m cn tn e r mi) = Some (SMTPError_Temporary c)"
  by (simp add: as_temporary.simps)

text \<open>The enhanced code of an \<open>SMTPError\<close> is among its fields, with the type
  of this package.\<close>

lemma Fields_SMTPError_ench:
  assumes "fields_wf (SMTPError c ec m cn tn e r mi)"
  shows "map_of (Fields (SMTPError c ec m cn tn e r mi)) ''smtp_enchcode'' = Some (FEnch ec)"
proof -
  have "own_field ''smtp_enchcode'' (SMTPError c ec m cn tn e r mi) = Some (FEnch ec)"
    by (simp add: own_field_def val_of_def Let_def split: option.splits)
  then have "val_of (Fields (SMTPError c ec m cn tn e r mi)) ''smtp_enchcode'' = Some (FEnch ec)"
    using fields_loop_chain [OF assms, of "[]" "''smtp_enchcode''"]
    by (subst (asm) err_chain.simps) (simp add: Fields_def val_of_def)
  then show ?thesis by (auto simp: val_of_def split: option.splits fval.splits)
qed

text \<open>\<open>SMTPEnchCode\<close> gives class 5 for temporary errors too.\<close>

lemma SMTPEnchCode_always_permanent: "fst (SMTPEnchCode e code) = 5"
  by (simp add: SMTPEnchCode_def)

section \<open>Properties\<close>

text \<open>the fields of a wrapped error. \<open>Fields\<close> gives each key the value of the
  outermost error of the chain that has a non-nil value for it.\<close>

lemma Fields_chain:
  assumes "fields_wf e"
  shows "val_of (Fields e) k = first_some (own_field k) (err_chain e)"
  using fields_loop_chain [OF assms] by (simp add: Fields_def) (simp add: val_of_def)

lemma Fields_chain_witness:
  "fields_wf (FieldsWrap (SMTPError 451 (4, 0, 0) ''m'' [] [] None [] []) [(''smtp_msg'', FStr ''x'')])
    \<and> val_of (Fields (FieldsWrap (SMTPError 451 (4, 0, 0) ''m'' [] [] None [] []) [(''smtp_msg'', FStr ''x'')])) ''smtp_msg''
      = Some (FStr ''x'')"
proof -
  let ?e = "FieldsWrap (SMTPError 451 (4, 0, 0) ''m'' [] [] None [] []) [(''smtp_msg'', FStr ''x'')]"
  have w: "fields_wf ?e" by simp
  have "own_field ''smtp_msg'' ?e = Some (FStr ''x'')" by (simp add: own_field_def val_of_def)
  then have "first_some (own_field ''smtp_msg'') (err_chain ?e) = Some (FStr ''x'')"
    by (subst err_chain.simps) simp
  with Fields_chain [OF w, of "''smtp_msg''"] w show ?thesis by simp
qed

text \<open>Whether an error is temporary is decided by the outermost error of the
  chain that says so; an error that says nothing is taken as permanent by
  \<open>IsTemporary\<close> and as temporary by \<open>IsTemporaryOrUnspec\<close>, and the two
  agree on every error that says anything.\<close>

lemma temporary_outermost:
  "IsTemporary e = (first_some temp_method (err_chain e) = Some True)
    \<and> IsTemporaryOrUnspec e = (first_some temp_method (err_chain e) \<noteq> Some False)"
  by (auto simp: IsTemporary_def IsTemporaryOrUnspec_def as_temporary_chain split: option.splits)

end
