(* ===== verification/Module.thy ===== *)
theory Module
  imports Exterrors
begin

text \<open>
  The types every component exchanges (\<open>framework/module\<close>): message metadata,
  headers and bodies, and the delivery interface. A delivery target is a record
  of its methods over a state \<open>'w\<close> of the outside world; \<open>t_BodyNonAtomic\<close> is
  present exactly when the delivery implements \<open>module.PartialDelivery\<close>, and
  returns the calls it makes to \<open>StatusCollector.SetStatus\<close>.
\<close>

section \<open>Headers\<close>

text \<open>A message header as the list of its fields from top to bottom. As
  documented for \<open>textproto.Header\<close>, adding a field puts it on top.\<close>

type_synonym header = "(string \<times> string) list"

definition hdr_Add :: "header \<Rightarrow> string \<Rightarrow> string \<Rightarrow> header" where
  "hdr_Add h k v = (k, v) # h"

section \<open>Metadata\<close>

record conn_state =
  cs_Proto :: string
  cs_Hostname :: string
  cs_RemoteAddr :: "string option"
  cs_RDNSName :: "string option"
  cs_AuthUser :: string
  cs_AuthPassword :: string

record msg_meta =
  mm_ID :: string
  mm_OriginalFrom :: string
  mm_DontTraceSender :: bool
  mm_Quarantine :: bool
  mm_OriginalRcpts :: "string \<rightharpoonup> string"
  mm_UTF8 :: bool
  mm_RequireTLS :: bool
  mm_Conn :: "conn_state option"
  mm_TLSRequireOverride :: bool

text \<open>\<open>DeepCopy\<close> is an assignment of the structure: the values of all fields are
  those of the original.\<close>

definition DeepCopy :: "msg_meta \<Rightarrow> msg_meta" where
  "DeepCopy msgMeta = msgMeta"

text \<open>\<open>GenerateMsgID\<close>: four random bytes in hexadecimal; the bytes and the error
  of the random source are arguments.\<close>

definition hex_EncodeToString :: "nat list \<Rightarrow> string" where
  "hex_EncodeToString bs = concat (map (\<lambda>b. [hex_digit (b div 16), hex_digit (b mod 16)]) bs)"

definition GenerateMsgID :: "nat list \<Rightarrow> go_err option \<Rightarrow> string \<times> go_err option" where
  "GenerateMsgID rawID err = (hex_EncodeToString rawID, err)"

section \<open>Time\<close>

text \<open>Points in time are nanoseconds since the Unix epoch; the zero value of
  \<open>time.Time\<close> is the first of January of the year 1.\<close>

definition zeroTime :: int where
  "zeroTime = - 62135596800000000000"

definition secondNs :: int where
  "secondNs = 1000000000"

section \<open>Delivery targets\<close>

record 'w target =
  t_Start :: "'w \<Rightarrow> msg_meta \<Rightarrow> string \<Rightarrow> 'w \<times> go_err option"
  t_AddRcpt :: "'w \<Rightarrow> string \<Rightarrow> 'w \<times> go_err option"
  t_BodyNonAtomic :: "('w \<Rightarrow> header \<Rightarrow> string \<Rightarrow> 'w \<times> (string \<times> go_err option) list) option"
  t_Body :: "'w \<Rightarrow> header \<Rightarrow> string \<Rightarrow> 'w \<times> go_err option"
  t_Abort :: "'w \<Rightarrow> 'w \<times> go_err option"
  t_Commit :: "'w \<Rightarrow> 'w \<times> go_err option"

text \<open>The calls a client makes on a delivery object, with their results.\<close>

datatype dcall =
    CStart "go_err option"
  | CRcpt string "go_err option"
  | CBody "go_err option"
  | CBodyNonAtomic "(string \<times> go_err option) list"
  | CAbort "go_err option"
  | CCommit "go_err option"

section \<open>Check results\<close>

record 'a check_result =
  cr_Reason :: "go_err option"
  cr_Reject :: bool
  cr_Quarantine :: bool
  cr_AuthResult :: "'a list"
  cr_Header :: header

definition empty_result :: "'a check_result" where
  "empty_result = \<lparr>cr_Reason = None, cr_Reject = False, cr_Quarantine = False, cr_AuthResult = [],
     cr_Header = []\<rparr>"

lemma hex_digit_inj: "m < 16 \<Longrightarrow> n < 16 \<Longrightarrow> hex_digit m = hex_digit n \<longleftrightarrow> m = n"
  by (auto simp: hex_digit_def char_of_eq_iff take_bit_eq_mod split: if_splits)

lemma hex_EncodeToString_inj:
  "list_all (\<lambda>b. b < 256) xs \<Longrightarrow> list_all (\<lambda>b. b < 256) ys \<Longrightarrow>
    hex_EncodeToString xs = hex_EncodeToString ys \<longleftrightarrow> xs = ys"
proof (induction xs arbitrary: ys)
  case Nil
  then show ?case by (cases ys) (auto simp: hex_EncodeToString_def)
next
  case (Cons x xs)
  note IH = Cons.IH and pr = Cons.prems
  show ?case
  proof (cases ys)
    case Nil
    then show ?thesis by (simp add: hex_EncodeToString_def)
  next
    case (Cons y ys')
    have "x div 16 < 16" "y div 16 < 16" "x mod 16 < 16" "y mod 16 < 16"
      using pr Cons by auto
    then have "hex_EncodeToString (x # xs) = hex_EncodeToString (y # ys') \<longleftrightarrow>
        x div 16 = y div 16 \<and> x mod 16 = y mod 16 \<and> hex_EncodeToString xs = hex_EncodeToString ys'"
      by (simp add: hex_EncodeToString_def hex_digit_inj)
    also have "\<dots> \<longleftrightarrow> x = y \<and> xs = ys'"
      using IH [of ys'] pr Cons by simp (metis div_mult_mod_eq)
    finally show ?thesis by (simp add: Cons)
  qed
qed

end
