(* ===== verification/QueueDisk.thy ===== *)
theory QueueDisk
  imports Module "HOL-Library.AList"
begin

text \<open>
  The on-disk state of the delivery queue (\<open>internal/target/queue/queue.go\<close>,
  the functions that touch files). A message is three files named after its
  identifier; the directory is a map from file names to contents. Every file
  operation may fail; when it does is decided by the record \<open>os_env\<close>.
\<close>

section \<open>Metadata\<close>

text \<open>The \<open>smtp.SMTPError\<close> values kept per recipient.\<close>

record smtp_err =
  sm_Code :: int
  sm_EnhancedCode :: enh_code
  sm_Message :: string

record queue_meta =
  qm_MsgMeta :: msg_meta
  qm_From :: string
  qm_To :: "string list"
  qm_FailedRcpts :: "string list"
  qm_TemporaryFailedRcpts :: "string list"
  qm_RcptErrs :: "string \<rightharpoonup> smtp_err"
  qm_TriesCount :: "(string \<times> int) list"
  qm_FirstAttempt :: int
  qm_LastAttempt :: int

definition tries :: "(string \<times> int) list \<Rightarrow> string \<Rightarrow> int" where
  "tries m r = map_get 0 (map_of m) r"

section \<open>Files\<close>

datatype qfile = FEmpty | FHeader header | FBody string | FMeta queue_meta

type_synonym disk = "string \<rightharpoonup> qfile"

record os_env =
  os_create :: "string \<Rightarrow> go_err option"
  os_write :: "string \<Rightarrow> go_err option"
  os_sync :: "string \<Rightarrow> go_err option"
  os_rename :: "string \<Rightarrow> go_err option"
  os_remove :: "string \<Rightarrow> go_err option"
  os_open :: "string \<Rightarrow> go_err option"
  os_stat :: "string \<Rightarrow> go_err option"
  os_windows :: bool

text \<open>An environment in which no operation fails.\<close>

definition os_fine :: os_env where
  "os_fine = \<lparr>os_create = (\<lambda>_. None), os_write = (\<lambda>_. None), os_sync = (\<lambda>_. None),
     os_rename = (\<lambda>_. None), os_remove = (\<lambda>_. None), os_open = (\<lambda>_. None), os_stat = (\<lambda>_. None),
     os_windows = False\<rparr>"

definition errNotExist :: go_err where
  "errNotExist = ErrNew ''file does not exist''"

text \<open>\<open>os.Create\<close> truncates or creates, \<open>os.Remove\<close> and \<open>os.Rename\<close> need the
  file to be there.\<close>

definition os_Create :: "os_env \<Rightarrow> string \<Rightarrow> disk \<Rightarrow> disk \<times> go_err option" where
  "os_Create env path d = (case os_create env path of Some e \<Rightarrow> (d, Some e) | None \<Rightarrow> (d(path \<mapsto> FEmpty), None))"

definition os_Write :: "os_env \<Rightarrow> string \<Rightarrow> qfile \<Rightarrow> disk \<Rightarrow> disk \<times> go_err option" where
  "os_Write env path c d = (case os_write env path of Some e \<Rightarrow> (d, Some e) | None \<Rightarrow> (d(path \<mapsto> c), None))"

definition os_Remove :: "os_env \<Rightarrow> string \<Rightarrow> disk \<Rightarrow> disk \<times> go_err option" where
  "os_Remove env path d =
    (case os_remove env path of
       Some e \<Rightarrow> (d, Some e)
     | None \<Rightarrow> if d path = None then (d, Some errNotExist) else (d(path := None), None))"

definition os_Rename :: "os_env \<Rightarrow> string \<Rightarrow> string \<Rightarrow> disk \<Rightarrow> disk \<times> go_err option" where
  "os_Rename env from to d =
    (case os_rename env from of
       Some e \<Rightarrow> (d, Some e)
     | None \<Rightarrow> (case d from of
         None \<Rightarrow> (d, Some errNotExist)
       | Some c \<Rightarrow> ((d(from := None))(to \<mapsto> c), None)))"

definition os_Stat :: "os_env \<Rightarrow> string \<Rightarrow> disk \<Rightarrow> go_err option" where
  "os_Stat env path d =
    (case os_stat env path of Some e \<Rightarrow> Some e | None \<Rightarrow> if d path = None then Some errNotExist else None)"

definition os_Open :: "os_env \<Rightarrow> string \<Rightarrow> disk \<Rightarrow> go_err + qfile" where
  "os_Open env path d =
    (case os_open env path of
       Some e \<Rightarrow> Inl e
     | None \<Rightarrow> (case d path of None \<Rightarrow> Inl errNotExist | Some c \<Rightarrow> Inr c))"

definition os_IsNotExist :: "go_err \<Rightarrow> bool" where
  "os_IsNotExist e \<longleftrightarrow> e = errNotExist"

abbreviation hdr_file :: "string \<Rightarrow> string" where
  "hdr_file i \<equiv> i @ ''.header''"

abbreviation body_file :: "string \<Rightarrow> string" where
  "body_file i \<equiv> i @ ''.body''"

abbreviation meta_file :: "string \<Rightarrow> string" where
  "meta_file i \<equiv> i @ ''.meta''"

abbreviation meta_new_file :: "string \<Rightarrow> string" where
  "meta_new_file i \<equiv> i @ ''.meta.new''"

section \<open>Operations\<close>

definition tryRemoveDanglingFile :: "os_env \<Rightarrow> string \<Rightarrow> disk \<Rightarrow> disk" where
  "tryRemoveDanglingFile env name d = fst (os_Remove env name d)"

definition discardBroken :: "os_env \<Rightarrow> string \<Rightarrow> disk \<Rightarrow> disk" where
  "discardBroken env i d = fst (os_Rename env (meta_file i) (i @ ''.meta_broken'') d)"

definition removeFromDisk :: "os_env \<Rightarrow> msg_meta \<Rightarrow> disk \<Rightarrow> disk" where
  "removeFromDisk env msgMeta d =
    (let i = mm_ID msgMeta;
         d = fst (os_Remove env (hdr_file i) d);
         d = fst (os_Remove env (body_file i) d)
     in fst (os_Remove env (meta_file i) d))"

text \<open>The copy that is serialised: the connection is dropped.\<close>

definition meta_copy :: "queue_meta \<Rightarrow> queue_meta" where
  "meta_copy meta = meta\<lparr>qm_MsgMeta := (DeepCopy (qm_MsgMeta meta))\<lparr>mm_Conn := None\<rparr>\<rparr>"

text \<open>\<open>updateMetadataOnDisk\<close>: all directory states it goes through, the last one
  being the result.\<close>

definition update_states :: "os_env \<Rightarrow> queue_meta \<Rightarrow> disk \<Rightarrow> disk list \<times> go_err option" where
  "update_states env meta d =
    (let i = mm_ID (qm_MsgMeta meta);
         path = (if os_windows env then meta_file i else meta_new_file i)
     in case os_Create env path d of
          (d1, Some e) \<Rightarrow> ([d, d1], Some e)
        | (d1, None) \<Rightarrow> (case os_Write env path (FMeta (meta_copy meta)) d1 of
            (d2, Some e) \<Rightarrow> ([d, d1, d2], Some e)
          | (d2, None) \<Rightarrow> (case os_sync env path of
              Some e \<Rightarrow> ([d, d1, d2], Some e)
            | None \<Rightarrow> if os_windows env then ([d, d1, d2], None)
                else (case os_Rename env path (meta_file i) d2 of (d3, r) \<Rightarrow> ([d, d1, d2, d3], r)))))"

definition updateMetadataOnDisk :: "os_env \<Rightarrow> queue_meta \<Rightarrow> disk \<Rightarrow> disk \<times> go_err option" where
  "updateMetadataOnDisk env meta d = (let (ds, r) = update_states env meta d in (last ds, r))"

definition readMessageMeta :: "os_env \<Rightarrow> string \<Rightarrow> disk \<Rightarrow> go_err + queue_meta" where
  "readMessageMeta env i d =
    (case os_Open env (meta_file i) d of
       Inl e \<Rightarrow> Inl e
     | Inr (FMeta meta) \<Rightarrow> Inr meta
     | Inr _ \<Rightarrow> Inl (ErrNew ''EOF''))"

text \<open>\<open>storeNewMessage\<close>; \<open>body_err\<close> is the result of opening the buffer that
  holds the body. The result names the file the stored body is read from.\<close>

definition storeNewMessage ::
  "os_env \<Rightarrow> go_err option \<Rightarrow> queue_meta \<Rightarrow> header \<Rightarrow> string \<Rightarrow> disk \<Rightarrow> disk \<times> (go_err + string)" where
  "storeNewMessage env body_err meta header body d =
    (let i = mm_ID (qm_MsgMeta meta) in
     case os_Create env (hdr_file i) d of
       (d, Some e) \<Rightarrow> (d, Inl e)
     | (d, None) \<Rightarrow> (case os_Write env (hdr_file i) (FHeader header) d of
         (d, Some e) \<Rightarrow> (tryRemoveDanglingFile env (hdr_file i) d, Inl e)
       | (d, None) \<Rightarrow> (case body_err of
           Some e \<Rightarrow> (tryRemoveDanglingFile env (hdr_file i) d, Inl e)
         | None \<Rightarrow> (case os_Create env (body_file i) d of
             (d, Some e) \<Rightarrow> (d, Inl e)
           | (d, None) \<Rightarrow> (case os_Write env (body_file i) (FBody body) d of
               (d, Some e) \<Rightarrow>
                 (tryRemoveDanglingFile env (hdr_file i) (tryRemoveDanglingFile env (body_file i) d), Inl e)
             | (d, None) \<Rightarrow> (case updateMetadataOnDisk env meta d of
                 (d, Some e) \<Rightarrow>
                   (tryRemoveDanglingFile env (hdr_file i) (tryRemoveDanglingFile env (body_file i) d), Inl e)
               | (d, None) \<Rightarrow> (case os_sync env (hdr_file i) of
                   Some e \<Rightarrow> (d, Inl e)
                 | None \<Rightarrow> (case os_sync env (body_file i) of
                     Some e \<Rightarrow> (d, Inl e)
                   | None \<Rightarrow> (d, Inr (body_file i))))))))))"

definition openMessage ::
  "os_env \<Rightarrow> string \<Rightarrow> disk \<Rightarrow> disk \<times> (go_err + queue_meta \<times> header \<times> string)" where
  "openMessage env i d =
    (case readMessageMeta env i d of
       Inl e \<Rightarrow> (d, Inl e)
     | Inr meta \<Rightarrow> (case os_Stat env (body_file i) d of
         Some e \<Rightarrow> (if os_IsNotExist e then tryRemoveDanglingFile env (meta_file i) d else d, Inl e)
       | None \<Rightarrow> (case os_Open env (hdr_file i) d of
           Inl e \<Rightarrow> (if os_IsNotExist e
                     then tryRemoveDanglingFile env (body_file i) (tryRemoveDanglingFile env (meta_file i) d)
                     else d, Inl e)
         | Inr (FHeader header) \<Rightarrow> (d, Inr (meta, header, body_file i))
         | Inr _ \<Rightarrow> (d, Inl (ErrNew ''malformed header'')))))"

section \<open>Facts\<close>

lemma file_names_distinct [simp]:
  "i @ ''.header'' \<noteq> i @ ''.body''" "i @ ''.header'' \<noteq> i @ ''.meta''" "i @ ''.body'' \<noteq> i @ ''.meta''"
  "i @ ''.header'' \<noteq> i @ ''.meta.new''" "i @ ''.body'' \<noteq> i @ ''.meta.new''"
  "i @ ''.meta'' \<noteq> i @ ''.meta.new''"
  by simp_all

lemma os_Remove_other: "p \<noteq> path \<Longrightarrow> fst (os_Remove env path d) p = d p"
  by (auto simp: os_Remove_def split: option.splits)

lemma os_Remove_fine: "os_remove env path = None \<Longrightarrow> fst (os_Remove env path d) path = None"
  by (auto simp: os_Remove_def)

lemmas disk_defs = os_Create_def os_Write_def os_Rename_def os_Stat_def os_Open_def

text \<open>Without a failure the update installs the new metadata and touches
  nothing but the metadata file and its temporary.\<close>

lemma updateMetadataOnDisk_ok:
  assumes "updateMetadataOnDisk env meta d = (d', None)"
  shows "d' (meta_file (mm_ID (qm_MsgMeta meta))) = Some (FMeta (meta_copy meta))
    \<and> (\<forall>p. p \<noteq> meta_file (mm_ID (qm_MsgMeta meta)) \<and> p \<noteq> meta_new_file (mm_ID (qm_MsgMeta meta))
          \<longrightarrow> d' p = d p)"
  using assms
  by (auto simp: updateMetadataOnDisk_def update_states_def disk_defs Let_def
      split: option.splits if_splits)

text \<open>The metadata file under an interrupted update: every intermediate state holds
  the old contents or the new ones, where renaming is used.\<close>

lemma update_states_atomic:
  assumes "update_states env meta d = (ds, r)" "\<not> os_windows env" "x \<in> set ds"
  shows "x (meta_file (mm_ID (qm_MsgMeta meta))) = d (meta_file (mm_ID (qm_MsgMeta meta)))
    \<or> x (meta_file (mm_ID (qm_MsgMeta meta))) = Some (FMeta (meta_copy meta))"
  using assms
  by (auto simp: update_states_def disk_defs Let_def split: option.splits if_splits)

lemma readMessageMeta_stored:
  "os_open env (meta_file i) = None \<Longrightarrow> d (meta_file i) = Some (FMeta m) \<Longrightarrow> readMessageMeta env i d = Inr m"
  by (simp add: readMessageMeta_def os_Open_def)

lemma storeNewMessage_ok:
  assumes "storeNewMessage env be meta header body d = (d', Inr p)"
  shows "p = body_file (mm_ID (qm_MsgMeta meta))
    \<and> d' (hdr_file (mm_ID (qm_MsgMeta meta))) = Some (FHeader header)
    \<and> d' (body_file (mm_ID (qm_MsgMeta meta))) = Some (FBody body)
    \<and> d' (meta_file (mm_ID (qm_MsgMeta meta))) = Some (FMeta (meta_copy meta))"
proof -
  let ?i = "mm_ID (qm_MsgMeta meta)"
  from assms have p: "p = body_file ?i"
    and u: "updateMetadataOnDisk env meta (d(hdr_file ?i \<mapsto> FHeader header, body_file ?i \<mapsto> FBody body)) = (d', None)"
    by (auto simp: storeNewMessage_def os_Create_def os_Write_def Let_def fun_upd_twist
        split: option.splits prod.splits sum.splits)
  from updateMetadataOnDisk_ok [OF u] p show ?thesis by simp
qed

end
