(* ===== verification/TimeWheel.thy ===== *)
theory TimeWheel
  imports Prelude
begin

text \<open>
  The time wheel of the delivery queue (\<open>internal/target/queue/timewheel.go\<close>):
  a list of slots, a goroutine (\<open>tick\<close>) that waits for the closest one and
  hands it to the dispatch function, and the operations \<open>Add\<close> and \<open>Close\<close>
  that other goroutines call. Times are nanoseconds; \<open>Time.Sub\<close> clamps to the
  64-bit range of a duration.

  The slots and the scan are executable functions. The goroutines and the
  channels between them are the step relation \<open>tw_step\<close>: an \<open>Add\<close> that has
  pushed its slot and waits to hand its target over is an entry of
  \<open>tw_sending\<close>, a \<open>Close\<close> that waits for the goroutine is
  \<open>tw_closing\<close>. The fields \<open>tw_clock\<close>, \<open>tw_dispatched\<close> and
  \<open>tw_added\<close> are the clock and the history of the run.
\<close>

section \<open>Slots and the scan for the closest one\<close>

datatype 'v time_slot = TimeSlot (ts_Time: int) (ts_Value: 'v)

definition time_Sub :: "int \<Rightarrow> int \<Rightarrow> int" where
  "time_Sub t u = sat64 (t - u)"

text \<open>The loop over the list; an element of the list is named by its position,
  which no other goroutine changes (\<open>Add\<close> only pushes at the back).\<close>

fun closest_loop ::
  "int \<Rightarrow> nat \<Rightarrow> (nat \<times> 'v time_slot) option \<Rightarrow> 'v time_slot list \<Rightarrow> (nat \<times> 'v time_slot) option" where
  "closest_loop now i best [] = best"
| "closest_loop now i best (s # ss) =
     closest_loop now (Suc i)
       (case best of
          None \<Rightarrow> Some (i, s)
        | Some (j, b) \<Rightarrow>
            if time_Sub (ts_Time s) now < time_Sub (ts_Time b) now then Some (i, s) else best) ss"

definition closest :: "int \<Rightarrow> 'v time_slot list \<Rightarrow> (nat \<times> 'v time_slot) option" where
  "closest now slots = closest_loop now 0 None slots"

definition remove_at :: "nat \<Rightarrow> 'a list \<Rightarrow> 'a list" where
  "remove_at i xs = take i xs @ drop (Suc i) xs"

section \<open>The wheel and its goroutine\<close>

text \<open>Where the goroutine stands: at the head of its loop, waiting on an empty
  list, waiting for the timer of a chosen slot, or returned.\<close>

datatype 'v tw_phase = Scanning | WaitUpdate | WaitTimer int nat "'v time_slot" | Stopped

record 'v timewheel =
  tw_stopped :: bool
  tw_slots :: "'v time_slot list"
  tw_phase :: "'v tw_phase"
  tw_sending :: "int list"
  tw_closing :: bool
  tw_chanClosed :: bool
  tw_clock :: int
  tw_dispatched :: "('v time_slot \<times> int \<times> int) list"
  tw_added :: "'v time_slot list"

definition NewTimeWheel :: "int \<Rightarrow> 'v timewheel" where
  "NewTimeWheel now = \<lparr>tw_stopped = False, tw_slots = [], tw_phase = Scanning, tw_sending = [],
     tw_closing = False, tw_chanClosed = False, tw_clock = now, tw_dispatched = [], tw_added = []\<rparr>"

text \<open>\<open>Add\<close> up to the blocking send of its target, of a value that is not nil. The queue adds
  structs, which never are.\<close>

definition tw_Add :: "int \<Rightarrow> 'v \<Rightarrow> 'v timewheel \<Rightarrow> 'v timewheel" where
  "tw_Add target value tw =
    (if tw_stopped tw then tw
     else tw\<lparr>tw_slots := tw_slots tw @ [TimeSlot target value],
             tw_sending := tw_sending tw @ [target],
             tw_added := tw_added tw @ [TimeSlot target value]\<rparr>)"

text \<open>\<open>Add\<close> of any interface value: nil panics, unless the wheel was stopped before.\<close>

definition tw_Add_any :: "int \<Rightarrow> 'v option \<Rightarrow> 'v timewheel \<Rightarrow> 'v timewheel option" where
  "tw_Add_any target value tw =
    (if tw_stopped tw then Some tw else (case value of None \<Rightarrow> None | Some v \<Rightarrow> Some (tw_Add target v tw)))"

lemma tw_Add_any_value: "tw_Add_any target (Some v) tw = Some (tw_Add target v tw)"
  by (simp add: tw_Add_any_def tw_Add_def)

text \<open>The head of the loop of \<open>tick\<close>.\<close>

definition tick_scan :: "'v timewheel \<Rightarrow> 'v timewheel" where
  "tick_scan tw =
    (case closest (tw_clock tw) (tw_slots tw) of
       None \<Rightarrow> tw\<lparr>tw_phase := WaitUpdate\<rparr>
     | Some (i, s) \<Rightarrow> tw\<lparr>tw_phase := WaitTimer (tw_clock tw) i s\<rparr>)"

text \<open>The timer fired: remove the element, dispatch, start over. The log keeps
  the slot, the time of the scan and the time of the dispatch.\<close>

definition tick_fire :: "int \<Rightarrow> nat \<Rightarrow> 'v time_slot \<Rightarrow> 'v timewheel \<Rightarrow> 'v timewheel" where
  "tick_fire now i s tw =
     tw\<lparr>tw_slots := remove_at i (tw_slots tw), tw_phase := Scanning,
        tw_dispatched := tw_dispatched tw @ [(s, now, tw_clock tw)]\<rparr>"

text \<open>A new target was received while waiting for the slot \<open>s\<close>.\<close>

definition tick_update :: "int \<Rightarrow> nat \<Rightarrow> 'v time_slot \<Rightarrow> int \<Rightarrow> 'v tw_phase" where
  "tick_update now i s newTarget =
     (if time_Sub (ts_Time s) now \<le> time_Sub newTarget now then WaitTimer now i s else Scanning)"

inductive tw_step :: "'v timewheel \<Rightarrow> 'v timewheel \<Rightarrow> bool" where
  clock: "tw_clock tw \<le> c \<Longrightarrow> tw_step tw (tw\<lparr>tw_clock := c\<rparr>)"
| add: "tw_step tw (tw_Add t v tw)"
| scan: "tw_phase tw = Scanning \<Longrightarrow> tw_step tw (tick_scan tw)"
| wake: "tw_phase tw = WaitUpdate \<Longrightarrow> t \<in> set (tw_sending tw) \<Longrightarrow>
     tw_step tw (tw\<lparr>tw_phase := Scanning, tw_sending := remove1 t (tw_sending tw)\<rparr>)"
| fire: "tw_phase tw = WaitTimer now i s \<Longrightarrow> time_Sub (ts_Time s) now \<le> tw_clock tw - now \<Longrightarrow>
     tw_step tw (tick_fire now i s tw)"
| update: "tw_phase tw = WaitTimer now i s \<Longrightarrow> t \<in> set (tw_sending tw) \<Longrightarrow>
     tw_step tw (tw\<lparr>tw_phase := tick_update now i s t, tw_sending := remove1 t (tw_sending tw)\<rparr>)"
| close: "tw_step tw (tw\<lparr>tw_stopped := True, tw_closing := \<not> tw_chanClosed tw\<rparr>)"
| stop: "tw_closing tw \<Longrightarrow> tw_phase tw = WaitUpdate \<or> tw_phase tw = WaitTimer now i s \<Longrightarrow>
     tw_step tw (tw\<lparr>tw_phase := Stopped, tw_closing := False, tw_chanClosed := True\<rparr>)"

inductive tw_reachable :: "'v timewheel \<Rightarrow> bool" where
  init: "tw_reachable (NewTimeWheel now)"
| step: "tw_reachable tw \<Longrightarrow> tw_step tw tw' \<Longrightarrow> tw_reachable tw'"

section \<open>The scan\<close>

lemma remove_at_mset: "i < length xs \<Longrightarrow> add_mset (xs ! i) (mset (remove_at i xs)) = mset xs"
proof -
  assume "i < length xs"
  then have "xs = take i xs @ xs ! i # drop (Suc i) xs" by (rule id_take_nth_drop)
  then have "mset xs = mset (take i xs @ xs ! i # drop (Suc i) xs)" by simp
  then show ?thesis by (simp add: remove_at_def)
qed

text \<open>What the scan keeps: the chosen element is in place, earlier ones are
  strictly later in time and the others not sooner.\<close>

definition is_closest :: "int \<Rightarrow> 'v time_slot list \<Rightarrow> nat \<Rightarrow> 'v time_slot \<Rightarrow> bool" where
  "is_closest now ss i s \<longleftrightarrow> i < length ss \<and> ss ! i = s
     \<and> (\<forall>j < i. time_Sub (ts_Time s) now < time_Sub (ts_Time (ss ! j)) now)
     \<and> (\<forall>j < length ss. time_Sub (ts_Time s) now \<le> time_Sub (ts_Time (ss ! j)) now)"

lemma is_closest_snoc:
  assumes "is_closest now ss i s"
  shows "is_closest now (ss @ [x])
    (if time_Sub (ts_Time x) now < time_Sub (ts_Time s) now then length ss else i)
    (if time_Sub (ts_Time x) now < time_Sub (ts_Time s) now then x else s)"
proof -
  let ?d = "\<lambda>x. time_Sub (ts_Time x) now"
  from assms have i: "i < length ss" "ss ! i = s" "\<And>j. j < i \<Longrightarrow> ?d s < ?d (ss ! j)"
    "\<And>j. j < length ss \<Longrightarrow> ?d s \<le> ?d (ss ! j)" by (auto simp: is_closest_def)
  show ?thesis
  proof (cases "?d x < ?d s")
    case True
    with i(4) have "\<And>j. j < length ss \<Longrightarrow> ?d x < ?d (ss ! j)" by fastforce
    with True show ?thesis by (auto simp: is_closest_def nth_append less_Suc_eq dest: less_imp_le)
  next
    case False
    with i show ?thesis by (auto simp: is_closest_def nth_append less_Suc_eq)
  qed
qed

lemma closest_loop_is_closest:
  "is_closest now pre i s \<Longrightarrow>
    \<exists>j t. closest_loop now (length pre) (Some (i, s)) ss = Some (j, t) \<and> is_closest now (pre @ ss) j t"
proof (induction ss arbitrary: pre i s)
  case Nil
  then show ?case by simp
next
  case (Cons x ss)
  from Cons.IH [OF is_closest_snoc [OF Cons.prems, of x]] show ?case
    by (simp split: if_splits)
qed

lemma closest_None_iff: "closest now ss = None \<longleftrightarrow> ss = []"
proof (cases ss)
  case (Cons x xs)
  have "is_closest now [x] 0 x" by (simp add: is_closest_def)
  from closest_loop_is_closest [OF this, of xs] Cons show ?thesis by (auto simp: closest_def)
qed (simp add: closest_def)

lemma closest_Some: "closest now ss = Some (i, s) \<Longrightarrow> is_closest now ss i s"
proof (cases ss)
  case (Cons x xs)
  assume "closest now ss = Some (i, s)"
  moreover have "is_closest now [x] 0 x" by (simp add: is_closest_def)
  from closest_loop_is_closest [OF this, of xs] Cons
  obtain j t where "closest now ss = Some (j, t)" "is_closest now ss j t" by (auto simp: closest_def)
  ultimately show ?thesis by simp
qed (simp add: closest_def)

section \<open>Invariants of the goroutines\<close>

text \<open>While the goroutine waits for a slot, the slot is where it was found, and
  every slot that would be sooner has its \<open>Add\<close> still waiting to announce it.\<close>

definition wait_inv :: "'v timewheel \<Rightarrow> int \<Rightarrow> nat \<Rightarrow> 'v time_slot \<Rightarrow> bool" where
  "wait_inv tw now i s \<longleftrightarrow>
     i < length (tw_slots tw) \<and> tw_slots tw ! i = s \<and> now \<le> tw_clock tw \<and>
     (\<forall>x \<in> set (tw_slots tw). time_Sub (ts_Time s) now \<le> time_Sub (ts_Time x) now
        \<or> ts_Time x \<in> set (tw_sending tw))"

definition phase_inv :: "'v timewheel \<Rightarrow> bool" where
  "phase_inv tw \<longleftrightarrow>
     (case tw_phase tw of
        WaitTimer now i s \<Rightarrow> wait_inv tw now i s
      | WaitUpdate \<Rightarrow> ts_Time ` set (tw_slots tw) \<subseteq> set (tw_sending tw)
      | Scanning \<Rightarrow> True
      | Stopped \<Rightarrow> True)"

definition log_inv :: "'v timewheel \<Rightarrow> bool" where
  "log_inv tw \<longleftrightarrow>
     (\<forall>(s, now, c) \<in> set (tw_dispatched tw). time_Sub (ts_Time s) now \<le> c - now \<and> now \<le> c)"

definition conserve_inv :: "'v timewheel \<Rightarrow> bool" where
  "conserve_inv tw \<longleftrightarrow>
     mset (tw_slots tw) + mset (map fst (tw_dispatched tw)) = mset (tw_added tw)"

definition close_inv :: "'v timewheel \<Rightarrow> bool" where
  "close_inv tw \<longleftrightarrow> (tw_chanClosed tw \<longleftrightarrow> tw_phase tw = Stopped)
     \<and> (tw_closing tw \<or> tw_chanClosed tw \<longrightarrow> tw_stopped tw)"

definition tw_inv :: "'v timewheel \<Rightarrow> bool" where
  "tw_inv tw \<longleftrightarrow> phase_inv tw \<and> log_inv tw \<and> conserve_inv tw \<and> close_inv tw"

lemmas tw_inv_defs = phase_inv_def log_inv_def conserve_inv_def close_inv_def wait_inv_def

lemma tw_inv_init: "tw_inv (NewTimeWheel now)"
  by (simp add: tw_inv_def tw_inv_defs NewTimeWheel_def)

lemma in_set_remove1_neq: "x \<in> set xs \<Longrightarrow> x \<noteq> y \<Longrightarrow> x \<in> set (remove1 y xs)"
  by (simp add: in_set_remove1)

text \<open>Each kind of step keeps the invariant.\<close>

lemma tw_inv_clock: "tw_inv tw \<Longrightarrow> tw_clock tw \<le> c \<Longrightarrow> tw_inv (tw\<lparr>tw_clock := c\<rparr>)"
  by (auto simp: tw_inv_def tw_inv_defs split: tw_phase.splits)

lemma tw_inv_add: "tw_inv tw \<Longrightarrow> tw_inv (tw_Add t v tw)"
  by (auto simp: tw_inv_def tw_inv_defs tw_Add_def nth_append split: tw_phase.splits)

lemma tw_inv_scan: "tw_inv tw \<Longrightarrow> tw_phase tw = Scanning \<Longrightarrow> tw_inv (tick_scan tw)"
  using closest_None_iff [of "tw_clock tw" "tw_slots tw"] closest_Some [of "tw_clock tw" "tw_slots tw"]
  by (auto simp: tw_inv_def tw_inv_defs tick_scan_def is_closest_def in_set_conv_nth
      split: option.splits)

lemma tw_inv_wake:
  "tw_inv tw \<Longrightarrow> tw_phase tw = WaitUpdate \<Longrightarrow>
    tw_inv (tw\<lparr>tw_phase := Scanning, tw_sending := remove1 t (tw_sending tw)\<rparr>)"
  by (simp add: tw_inv_def tw_inv_defs)

lemma tw_inv_fire:
  assumes "tw_inv tw" "tw_phase tw = WaitTimer now i s" "time_Sub (ts_Time s) now \<le> tw_clock tw - now"
  shows "tw_inv (tick_fire now i s tw)"
proof -
  from assms have w: "wait_inv tw now i s" by (simp add: tw_inv_def phase_inv_def)
  then have "add_mset s (mset (remove_at i (tw_slots tw))) = mset (tw_slots tw)"
    using remove_at_mset [of i "tw_slots tw"] by (simp add: wait_inv_def)
  moreover have "mset (tw_slots tw) + mset (map fst (tw_dispatched tw)) = mset (tw_added tw)"
    using assms(1) by (simp add: tw_inv_def conserve_inv_def)
  ultimately have "conserve_inv (tick_fire now i s tw)"
    by (simp add: conserve_inv_def tick_fire_def) (metis union_mset_add_mset_left)
  with assms w show ?thesis
    by (auto simp: tw_inv_def phase_inv_def log_inv_def close_inv_def wait_inv_def tick_fire_def)
qed

lemma tw_inv_update:
  assumes "tw_inv tw" "tw_phase tw = WaitTimer now i s"
  shows "tw_inv (tw\<lparr>tw_phase := tick_update now i s t, tw_sending := remove1 t (tw_sending tw)\<rparr>)"
  using assms
  by (auto simp: tw_inv_def tw_inv_defs tick_update_def intro!: in_set_remove1_neq)

lemma tw_inv_close:
  "tw_inv tw \<Longrightarrow> tw_inv (tw\<lparr>tw_stopped := True, tw_closing := \<not> tw_chanClosed tw\<rparr>)"
  by (auto simp: tw_inv_def tw_inv_defs split: tw_phase.splits)

lemma tw_inv_stop:
  "tw_inv tw \<Longrightarrow> tw_closing tw \<Longrightarrow>
    tw_inv (tw\<lparr>tw_phase := Stopped, tw_closing := False, tw_chanClosed := True\<rparr>)"
  by (auto simp: tw_inv_def tw_inv_defs)

lemma tw_step_inv: "tw_step tw tw' \<Longrightarrow> tw_inv tw \<Longrightarrow> tw_inv tw'"
  by (induction rule: tw_step.induct)
    (simp_all add: tw_inv_clock tw_inv_add tw_inv_scan tw_inv_wake tw_inv_fire tw_inv_update
      tw_inv_close tw_inv_stop)

lemma tw_reachable_inv: "tw_reachable tw \<Longrightarrow> tw_inv tw"
  by (induction rule: tw_reachable.induct) (auto intro: tw_inv_init tw_step_inv)

section \<open>Runs\<close>

lemma fire_eventually:
  assumes "tw_phase tw = WaitTimer now i s"
  shows "\<exists>tw'. tw_step\<^sup>*\<^sup>* tw tw' \<and> length (tw_dispatched tw') = Suc (length (tw_dispatched tw))"
proof -
  define c where "c = max (tw_clock tw) (now + time_Sub (ts_Time s) now)"
  have "tw_step tw (tw\<lparr>tw_clock := c\<rparr>)" by (rule tw_step.clock) (simp add: c_def)
  moreover have "tw_step (tw\<lparr>tw_clock := c\<rparr>) (tick_fire now i s (tw\<lparr>tw_clock := c\<rparr>))"
    using assms by (intro tw_step.fire) (simp_all add: c_def)
  ultimately have "tw_step\<^sup>*\<^sup>* tw (tick_fire now i s (tw\<lparr>tw_clock := c\<rparr>))"
    by (meson converse_rtranclp_into_rtranclp r_into_rtranclp)
  then show ?thesis by (intro exI conjI) (assumption, simp add: tick_fire_def)
qed

lemma scan_eventually:
  assumes "tw_phase tw = Scanning" "tw_slots tw \<noteq> []"
  shows "\<exists>tw'. tw_step\<^sup>*\<^sup>* tw tw' \<and> length (tw_dispatched tw') = Suc (length (tw_dispatched tw))"
proof -
  obtain i s where c: "closest (tw_clock tw) (tw_slots tw) = Some (i, s)"
    using assms(2) closest_None_iff [of "tw_clock tw" "tw_slots tw"]
    by (cases "closest (tw_clock tw) (tw_slots tw)") auto
  have "tw_step tw (tick_scan tw)" using assms(1) by (rule tw_step.scan)
  moreover have "\<exists>tw'. tw_step\<^sup>*\<^sup>* (tick_scan tw) tw' \<and>
      length (tw_dispatched tw') = Suc (length (tw_dispatched (tick_scan tw)))"
    by (rule fire_eventually [of _ "tw_clock tw" i s]) (simp add: tick_scan_def c)
  moreover have "tw_dispatched (tick_scan tw) = tw_dispatched tw" by (simp add: tick_scan_def c)
  ultimately show ?thesis by (metis converse_rtranclp_into_rtranclp)
qed

text \<open>A concrete run: one slot for time 5 is added, announced and dispatched at
  time 6.\<close>

definition demo_waiting :: "nat timewheel" where
  "demo_waiting = \<lparr>tw_stopped = False, tw_slots = [TimeSlot 5 7],
     tw_phase = WaitTimer 0 0 (TimeSlot 5 7), tw_sending = [], tw_closing = False,
     tw_chanClosed = False, tw_clock = 0, tw_dispatched = [], tw_added = [TimeSlot 5 7]\<rparr>"

definition demo_done :: "nat timewheel" where
  "demo_done = \<lparr>tw_stopped = False, tw_slots = [], tw_phase = Scanning, tw_sending = [],
     tw_closing = False, tw_chanClosed = False, tw_clock = 6,
     tw_dispatched = [(TimeSlot 5 7, 0, 6)], tw_added = [TimeSlot 5 7]\<rparr>"

lemma reachable_demo_waiting: "tw_reachable demo_waiting"
proof -
  let ?w1 = "tw_Add 5 7 (NewTimeWheel 0) :: nat timewheel"
  have "tw_reachable ?w1" by (rule tw_reachable.step [OF tw_reachable.init tw_step.add])
  then have "tw_reachable (tick_scan ?w1)"
    by (rule tw_reachable.step) (rule tw_step.scan, simp add: NewTimeWheel_def tw_Add_def)
  moreover have "tick_scan ?w1 = demo_waiting\<lparr>tw_sending := [5]\<rparr>"
    by (simp add: tick_scan_def closest_def NewTimeWheel_def tw_Add_def demo_waiting_def)
  ultimately have r: "tw_reachable (demo_waiting\<lparr>tw_sending := [5]\<rparr>)" by simp
  have "tw_step (demo_waiting\<lparr>tw_sending := [5]\<rparr>)
      ((demo_waiting\<lparr>tw_sending := [5]\<rparr>)\<lparr>tw_phase := tick_update 0 0 (TimeSlot 5 7) 5,
         tw_sending := remove1 5 (tw_sending (demo_waiting\<lparr>tw_sending := [5]\<rparr>))\<rparr>)"
    by (rule tw_step.update) (simp_all add: demo_waiting_def)
  moreover have "(demo_waiting\<lparr>tw_sending := [5]\<rparr>)\<lparr>tw_phase := tick_update 0 0 (TimeSlot 5 7) 5,
         tw_sending := remove1 5 (tw_sending (demo_waiting\<lparr>tw_sending := [5]\<rparr>))\<rparr> = demo_waiting"
    by (simp add: demo_waiting_def tick_update_def)
  ultimately show ?thesis using r by (metis tw_reachable.step)
qed

lemma reachable_demo_done: "tw_reachable demo_done"
proof -
  have "tw_reachable (demo_waiting\<lparr>tw_clock := 6\<rparr>)"
    by (rule tw_reachable.step [OF reachable_demo_waiting tw_step.clock]) (simp add: demo_waiting_def)
  moreover have "tw_step (demo_waiting\<lparr>tw_clock := 6\<rparr>)
      (tick_fire 0 0 (TimeSlot 5 7) (demo_waiting\<lparr>tw_clock := 6\<rparr>))"
    by (rule tw_step.fire)
      (simp_all add: demo_waiting_def time_Sub_def sat64_def minInt64_def maxInt64_def)
  moreover have "tick_fire 0 0 (TimeSlot 5 7) (demo_waiting\<lparr>tw_clock := 6\<rparr>) = demo_done"
    by (simp add: demo_waiting_def demo_done_def tick_fire_def remove_at_def)
  ultimately show ?thesis by (metis tw_reachable.step)
qed

text \<open>An \<open>Add\<close> that has passed the check of the stop flag is still waiting to
  send its target when \<open>Close\<close> closes the channel: the send panics.\<close>

lemma add_races_with_close:
  "\<exists>tw :: nat timewheel. tw_reachable tw \<and> tw_chanClosed tw \<and> tw_sending tw \<noteq> []"
proof -
  let ?w0 = "NewTimeWheel 0 :: nat timewheel"
  let ?w1 = "?w0\<lparr>tw_phase := WaitUpdate\<rparr>"
  let ?w2 = "tw_Add 5 7 ?w1"
  let ?w3 = "?w2\<lparr>tw_stopped := True, tw_closing := \<not> tw_chanClosed ?w2\<rparr>"
  let ?w4 = "?w3\<lparr>tw_phase := Stopped, tw_closing := False, tw_chanClosed := True\<rparr>"
  have "tick_scan ?w0 = ?w1" by (simp add: tick_scan_def closest_def NewTimeWheel_def)
  then have "tw_reachable ?w1"
    using tw_reachable.step [OF tw_reachable.init tw_step.scan, of 0]
    by (metis NewTimeWheel_def select_convs(3))
  then have "tw_reachable ?w2" by (rule tw_reachable.step [OF _ tw_step.add])
  then have "tw_reachable ?w3" by (rule tw_reachable.step [OF _ tw_step.close])
  then have "tw_reachable ?w4"
    by (rule tw_reachable.step) (rule tw_step.stop, simp_all add: tw_Add_def NewTimeWheel_def)
  moreover have "tw_sending ?w4 \<noteq> [] \<and> tw_chanClosed ?w4" by (simp add: tw_Add_def NewTimeWheel_def)
  ultimately show ?thesis by (intro exI [of _ ?w4]) simp
qed

section \<open>The wheel as a scheduler\<close>

text \<open>
  What the delivery queue relies on: a running wheel keeps every slot it was
  given until the slot is handed out, a stopped one takes no more.
\<close>

locale scheduler =
  fixes add :: "int \<Rightarrow> 'v \<Rightarrow> 'w \<Rightarrow> 'w"
    and pending :: "'w \<Rightarrow> 'v time_slot multiset"
    and running :: "'w \<Rightarrow> bool"
  assumes pending_add: "running w \<Longrightarrow> pending (add t v w) = add_mset (TimeSlot t v) (pending w)"
    and pending_stopped: "\<not> running w \<Longrightarrow> add t v w = w"
    and running_add: "running (add t v w) = running w"
begin

lemma add_in_pending: "running w \<Longrightarrow> TimeSlot t v \<in># pending (add t v w)"
  by (simp add: pending_add)

lemma pending_mono: "pending w \<subseteq># pending (add t v w)"
  by (cases "running w") (simp_all add: pending_add pending_stopped)

lemma pending_fold:
  "running w \<Longrightarrow> pending (fold (\<lambda>(t, v). add t v) tvs w) =
    pending w + mset (map (\<lambda>(t, v). TimeSlot t v) tvs)"
  by (induction tvs arbitrary: w) (auto simp: pending_add running_add)

end

interpretation twq: scheduler tw_Add "\<lambda>tw. mset (tw_slots tw)" "\<lambda>tw. \<not> tw_stopped tw"
  by unfold_locales (simp_all add: tw_Add_def)

section \<open>Properties\<close>

text \<open>C22: nothing is lost or duplicated. In every reachable state the slots still
  in the wheel and the slots handed to the dispatch function are together
  exactly the slots that were added.\<close>

theorem wheel_conserves_slots:
  assumes "tw_reachable tw"
  shows "mset (tw_slots tw) + mset (map fst (tw_dispatched tw)) = mset (tw_added tw)"
  using tw_reachable_inv [OF assms] by (simp add: tw_inv_def conserve_inv_def)

theorem wheel_conserves_slots_witness:
  "tw_reachable demo_done \<and> tw_added demo_done = [TimeSlot 5 7]
    \<and> mset (tw_slots demo_done) + mset (map fst (tw_dispatched demo_done)) = mset (tw_added demo_done)"
  using wheel_conserves_slots [OF reachable_demo_done] reachable_demo_done
  by (simp add: demo_done_def)

text \<open>C23: no slot is dispatched before its time, for slots at most the maximal
  duration away from the scan that chose them.\<close>

theorem wheel_never_early:
  assumes "tw_reachable tw" and "(s, now, c) \<in> set (tw_dispatched tw)"
    and "ts_Time s - now \<le> maxInt64"
  shows "ts_Time s \<le> c"
proof -
  have "time_Sub (ts_Time s) now \<le> c - now" "now \<le> c"
    using tw_reachable_inv [OF assms(1)] assms(2) by (auto simp: tw_inv_def log_inv_def)
  with assms(3) show ?thesis
    by (auto simp: time_Sub_def sat64_def minInt64_def split: if_splits)
qed

theorem wheel_never_early_witness:
  "tw_reachable demo_done \<and> (TimeSlot 5 7, 0, 6) \<in> set (tw_dispatched demo_done)
    \<and> ts_Time (TimeSlot 5 (7::nat)) \<le> 6"
proof -
  have m: "(TimeSlot 5 7, 0, 6) \<in> set (tw_dispatched demo_done)" by (simp add: demo_done_def)
  have "ts_Time (TimeSlot 5 (7::nat)) - 0 \<le> maxInt64" by (simp add: maxInt64_def)
  from wheel_never_early [OF reachable_demo_done m this] m reachable_demo_done show ?thesis by simp
qed

text \<open>the wheel waits for the right slot. When no \<open>Add\<close> is waiting to
  announce a new target, the slot the goroutine waits for is the closest one.\<close>

lemma wheel_waits_for_closest:
  assumes "tw_reachable tw" and "tw_phase tw = WaitTimer now i s" and "tw_sending tw = []"
  shows "tw_slots tw ! i = s \<and> i < length (tw_slots tw)
    \<and> list_all (\<lambda>x. time_Sub (ts_Time s) now \<le> time_Sub (ts_Time x) now) (tw_slots tw)"
  using tw_reachable_inv [OF assms(1)] assms(2,3)
  by (auto simp: tw_inv_def phase_inv_def wait_inv_def list_all_iff)

lemma wheel_waits_for_closest_witness:
  "tw_reachable demo_waiting
    \<and> list_all (\<lambda>x. time_Sub 5 0 \<le> time_Sub (ts_Time x) 0) (tw_slots demo_waiting)"
proof -
  have "tw_phase demo_waiting = WaitTimer 0 0 (TimeSlot 5 7)" "tw_sending demo_waiting = []"
    by (simp_all add: demo_waiting_def)
  from wheel_waits_for_closest [OF reachable_demo_waiting this] reachable_demo_waiting
  show ?thesis by simp
qed

text \<open>C24: a wheel that holds slots is never stuck. From every reachable state in
  which the goroutine has not been stopped, there is a run that dispatches one
  more slot.\<close>

theorem wheel_makes_progress:
  assumes "tw_reachable tw" and "tw_phase tw \<noteq> Stopped" and "tw_slots tw \<noteq> []"
  shows "\<exists>tw'. tw_step\<^sup>*\<^sup>* tw tw' \<and> length (tw_dispatched tw') = Suc (length (tw_dispatched tw))"
proof (cases "tw_phase tw")
  case WaitUpdate
  have "ts_Time ` set (tw_slots tw) \<subseteq> set (tw_sending tw)"
    using tw_reachable_inv [OF assms(1)] WaitUpdate by (simp add: tw_inv_def phase_inv_def)
  then obtain t where t: "t \<in> set (tw_sending tw)" using assms(3) by (cases "tw_slots tw") auto
  let ?w = "tw\<lparr>tw_phase := Scanning, tw_sending := remove1 t (tw_sending tw)\<rparr>"
  have "tw_step tw ?w" using WaitUpdate t by (rule tw_step.wake)
  moreover obtain tw' where "tw_step\<^sup>*\<^sup>* ?w tw'"
      "length (tw_dispatched tw') = Suc (length (tw_dispatched ?w))"
    using scan_eventually [of ?w] assms(3) by auto
  ultimately show ?thesis by (auto intro: converse_rtranclp_into_rtranclp)
qed (use assms scan_eventually fire_eventually in auto)

theorem wheel_makes_progress_witness:
  "tw_reachable demo_waiting \<and> (\<exists>tw'. tw_step\<^sup>*\<^sup>* demo_waiting tw' \<and> length (tw_dispatched tw') = 1)"
proof -
  have "tw_phase demo_waiting \<noteq> Stopped" "tw_slots demo_waiting \<noteq> []"
    by (simp_all add: demo_waiting_def)
  from wheel_makes_progress [OF reachable_demo_waiting this] reachable_demo_waiting
  show ?thesis by (simp add: demo_waiting_def)
qed

end
