(* ===== verification/Address.thy ===== *)
theory Address
  imports Exterrors
begin

text \<open>
  E-mail addresses and domain names: \<open>framework/address\<close> (splitting, quoting,
  validation, normalisation) and the normalisation functions of
  \<open>framework/dns\<close>. The IDNA, NFC and PRECIS routines are library code and enter
  as the record \<open>text_lib\<close>, together with the Unicode lower-case table for
  runes above ASCII.
\<close>

section \<open>Library routines\<close>

record text_lib =
  uni_lower :: "rune \<Rightarrow> rune"
  nfc :: "string \<Rightarrow> string"
  idna_ToUnicode :: "string \<Rightarrow> string \<times> go_err option"
  idna_ToASCII :: "string \<Rightarrow> string \<times> go_err option"
  precis_CaseMapped :: "string \<Rightarrow> string \<times> go_err option"
  precis_CasePreserved :: "string \<Rightarrow> string \<times> go_err option"

text \<open>The behaviour of these routines on plain lower-case ASCII input, as an
  executable instance.\<close>

definition ascii_lib :: text_lib where
  "ascii_lib = \<lparr>uni_lower = (\<lambda>r. r), nfc = (\<lambda>s. s), idna_ToUnicode = (\<lambda>s. (s, None)),
     idna_ToASCII = (\<lambda>s. (s, None)), precis_CaseMapped = (\<lambda>s. (s, None)),
     precis_CasePreserved = (\<lambda>s. (s, None))\<rparr>"

section \<open>Splitting\<close>

definition Split :: "string \<Rightarrow> string \<times> string \<times> go_err option" where
  "Split addr =
    (if EqualFold addr ''postmaster'' then (addr, [], None)
     else let indx = LastIndexByte addr CHR ''@'' in
       if indx = -1 then ([], [], Some (ErrNew ''address: missing at-sign''))
       else let mailbox = take (nat indx) addr; domain = drop (nat indx + 1) addr in
         if mailbox = [] then ([], [], Some (ErrNew ''address: empty local-part''))
         else if domain = [] then ([], [], Some (ErrNew ''address: empty domain''))
         else (mailbox, domain, None))"

section \<open>Quoting of the local part\<close>

fun unquote_loop :: "bool \<Rightarrow> bool \<Rightarrow> bool \<Rightarrow> rune list \<Rightarrow> rune list \<Rightarrow> string \<times> go_err option" where
  "unquote_loop quoted escaped terminatedQuote out [] =
     (if out = [] then ([], Some (ErrNew ''address: empty local part''))
      else (encode_runes out, None))"
| "unquote_loop quoted escaped terminatedQuote out (ch # chs) =
     (if terminatedQuote
      then ([], Some (ErrNew ''address: closing quote should be right before at-sign''))
      else if ch = 34 \<and> \<not> escaped
      then unquote_loop (\<not> quoted) escaped (if quoted then True else terminatedQuote) out chs
      else if ch = 92 \<and> \<not> escaped
      then (if \<not> quoted
            then ([], Some (ErrNew ''address: escapes are allowed only in quoted strings''))
            else unquote_loop quoted True terminatedQuote out chs)
      else if ch = 64 \<and> \<not> quoted
      then ([], Some (ErrNew ''address: extra at-sign in non-quoted local-part''))
      else unquote_loop quoted False terminatedQuote (out @ [ch]) chs)"

definition UnquoteMbox :: "string \<Rightarrow> string \<times> go_err option" where
  "UnquoteMbox mbox = unquote_loop False False False [] (runes mbox)"

definition mboxSpecial :: "rune \<Rightarrow> bool" where
  "mboxSpecial ch \<longleftrightarrow> ch \<in> {40, 41, 60, 62, 91, 93, 58, 59, 64, 92, 44, 34, 32}"

fun quote_loop :: "rune list \<Rightarrow> bool \<Rightarrow> rune list \<Rightarrow> rune list \<times> bool" where
  "quote_loop out quoted [] = (out, quoted)"
| "quote_loop out quoted (ch # chs) =
     (if mboxSpecial ch
      then quote_loop (out @ (if ch = 92 \<or> ch = 34 then [92] else []) @ [ch]) True chs
      else quote_loop (out @ [ch]) quoted chs)"

definition QuoteMbox :: "string \<Rightarrow> string" where
  "QuoteMbox mbox =
    (let (mailboxEsc, quoted) = quote_loop [] False (runes mbox) in
     if quoted then ''\"'' @ encode_runes mailboxEsc @ ''\"'' else mbox)"

section \<open>Validation\<close>

definition validGraphic :: "rune \<Rightarrow> bool" where
  "validGraphic ch \<longleftrightarrow>
     ch \<in> {33, 35, 36, 37, 38, 39, 42, 43, 45, 47, 61, 63, 94, 95, 96, 123, 124, 125, 126, 46}"

definition ValidMailboxName :: "string \<Rightarrow> bool" where
  "ValidMailboxName mbox =
    (if HasPrefix mbox ''\"''
     then (case UnquoteMbox mbox of
             (raw, Some _) \<Rightarrow> False
           | (raw, None) \<Rightarrow> list_all (\<lambda>ch. \<not> (ch < 32 \<or> ch = 127)) (runes raw))
     else list_all (\<lambda>ch. validGraphic ch \<or> (48 \<le> ch \<and> ch \<le> 57) \<or> (65 \<le> ch \<and> ch \<le> 90)
            \<or> (97 \<le> ch \<and> ch \<le> 122) \<or> 127 < ch) (runes mbox))"

definition ValidDomain :: "text_lib \<Rightarrow> string \<Rightarrow> bool" where
  "ValidDomain lib domain =
    (if length domain > 255 \<or> length domain = 0 then False
     else if HasPrefix domain ''.'' then False
     else if Contains domain ''..'' then False
     else (case idna_ToASCII lib domain of
             (_, Some _) \<Rightarrow> False
           | (domainASCII, None) \<Rightarrow>
               list_all (\<lambda>label. \<not> (length label > 64)) (split_byte CHR ''.'' domainASCII)))"

definition Valid :: "text_lib \<Rightarrow> string \<Rightarrow> bool" where
  "Valid lib addr =
    (if length addr > 320 then False
     else (case Split addr of
             (_, _, Some _) \<Rightarrow> False
           | (mbox, domain, None) \<Rightarrow>
               if domain = [] then True else ValidMailboxName mbox \<and> ValidDomain lib domain))"

section \<open>Normalisation of domains (framework/dns)\<close>

definition dns_ForLookup :: "text_lib \<Rightarrow> string \<Rightarrow> string \<times> go_err option" where
  "dns_ForLookup lib domain =
    (case idna_ToUnicode lib domain of
       (_, Some err) \<Rightarrow> (ToLower (uni_lower lib) domain, Some err)
     | (uDomain, None) \<Rightarrow>
         (TrimSuffix (ToLower (uni_lower lib) (nfc lib uDomain)) ''.'', None))"

definition dns_Equal :: "text_lib \<Rightarrow> string \<Rightarrow> string \<Rightarrow> bool" where
  "dns_Equal lib domain1 domain2 =
    (if domain1 = domain2 then True
     else fst (dns_ForLookup lib domain1) = fst (dns_ForLookup lib domain2))"

definition dns_SelectIDNA :: "text_lib \<Rightarrow> bool \<Rightarrow> string \<Rightarrow> string \<times> go_err option" where
  "dns_SelectIDNA lib ulabel domain =
    (if ulabel then (let (uDomain, err) = idna_ToUnicode lib domain in (nfc lib uDomain, err))
     else idna_ToASCII lib domain)"

section \<open>Normalisation of addresses\<close>

definition ForLookup :: "text_lib \<Rightarrow> string \<Rightarrow> string \<times> go_err option" where
  "ForLookup lib addr =
    (if addr = [] then ([], None)
     else (case Split addr of
        (_, _, Some err) \<Rightarrow> (ToLower (uni_lower lib) addr, Some err)
      | (mbox, domain, None) \<Rightarrow>
          (case (if domain \<noteq> [] then dns_ForLookup lib domain else (domain, None)) of
             (_, Some err) \<Rightarrow> (ToLower (uni_lower lib) addr, Some err)
           | (domain', None) \<Rightarrow>
               (let mbox' = ToLower (uni_lower lib) (nfc lib mbox) in
                if domain' = [] then (mbox', None) else (mbox' @ ''@'' @ domain', None)))))"

definition CleanDomain :: "text_lib \<Rightarrow> string \<Rightarrow> string \<times> go_err option" where
  "CleanDomain lib addr =
    (if addr = [] then ([], None)
     else (case Split addr of
        (_, _, Some err) \<Rightarrow> (addr, Some err)
      | (mbox, domain, None) \<Rightarrow>
          (case idna_ToUnicode lib domain of
             (_, Some err) \<Rightarrow> (addr, Some err)
           | (uDomain, None) \<Rightarrow>
               (let uDomain' = ToLower (uni_lower lib) (nfc lib uDomain) in
                if domain = [] then (mbox, None) else (mbox @ ''@'' @ uDomain', None)))))"

definition Equal :: "text_lib \<Rightarrow> string \<Rightarrow> string \<Rightarrow> bool" where
  "Equal lib addr1 addr2 =
    (if addr1 = addr2 then True
     else fst (ForLookup lib addr1) = fst (ForLookup lib addr2))"

definition IsASCII :: "string \<Rightarrow> bool" where
  "IsASCII s = list_all (\<lambda>ch. \<not> (ch > 128)) (runes s)"

definition FQDNDomain :: "string \<Rightarrow> string" where
  "FQDNDomain addr = (if HasSuffix addr ''.'' then addr else addr @ ''.'')"

definition precisEmail ::
  "text_lib \<Rightarrow> string \<Rightarrow> (string \<Rightarrow> string \<times> go_err option) \<Rightarrow> string \<times> go_err option" where
  "precisEmail lib addr compareKey =
    (case Split addr of
       (_, _, Some err) \<Rightarrow> ([], Some (ErrWrap ''address: precis: '' err))
     | (mbox, domain, None) \<Rightarrow>
        (case compareKey mbox of
           (_, Some err) \<Rightarrow> ([], Some (ErrWrap ''address: precis: '' err))
         | (mbox', None) \<Rightarrow>
            (case dns_ForLookup lib domain of
               (_, Some err) \<Rightarrow> ([], Some (ErrWrap ''address: precis: '' err))
             | (domain', None) \<Rightarrow> (mbox' @ ''@'' @ domain', None))))"

definition PRECISFold :: "text_lib \<Rightarrow> string \<Rightarrow> string \<times> go_err option" where
  "PRECISFold lib addr = precisEmail lib addr (precis_CaseMapped lib)"

definition PRECIS :: "text_lib \<Rightarrow> string \<Rightarrow> string \<times> go_err option" where
  "PRECIS lib addr = precisEmail lib addr (precis_CasePreserved lib)"

section \<open>Conversion between the ACE and Unicode forms\<close>

definition ErrUnicodeMailbox :: go_err where
  "ErrUnicodeMailbox = ErrNew ''address: cannot convert the Unicode local-part to the ACE form''"

definition ToASCII :: "text_lib \<Rightarrow> string \<Rightarrow> string \<times> go_err option" where
  "ToASCII lib addr =
    (case Split addr of
       (_, _, Some err) \<Rightarrow> (addr, Some err)
     | (mbox, domain, None) \<Rightarrow>
        if \<not> list_all (\<lambda>ch. \<not> (ch > 128)) (runes mbox) then (addr, Some ErrUnicodeMailbox)
        else if domain = [] then (mbox, None)
        else (case idna_ToASCII lib domain of
                (_, Some err) \<Rightarrow> (addr, Some err)
              | (aDomain, None) \<Rightarrow> (mbox @ ''@'' @ aDomain, None)))"

definition ToUnicode :: "text_lib \<Rightarrow> string \<Rightarrow> string \<times> go_err option" where
  "ToUnicode lib addr =
    (case Split addr of
       (_, _, Some err) \<Rightarrow> (nfc lib addr, Some err)
     | (mbox, domain, None) \<Rightarrow>
        if domain = [] then (mbox, None)
        else (case idna_ToUnicode lib domain of
                (_, Some err) \<Rightarrow> (nfc lib addr, Some err)
              | (uDomain, None) \<Rightarrow> (mbox @ ''@'' @ nfc lib uDomain, None)))"

definition SelectIDNA :: "text_lib \<Rightarrow> bool \<Rightarrow> string \<Rightarrow> string \<times> go_err option" where
  "SelectIDNA lib ulabel addr = (if ulabel then ToUnicode lib addr else ToASCII lib addr)"

section \<open>Facts on splitting\<close>

lemma EqualFold_postmaster_no_at: "EqualFold s ''postmaster'' \<Longrightarrow> CHR ''@'' \<notin> set s"
proof
  assume eq: "EqualFold s ''postmaster''" and "CHR ''@'' \<in> set s"
  moreover have "char_of (64::nat) = CHR ''@''"
    using char_of_char [of "CHR ''@''", where ?'a = nat] by simp
  ultimately have "64 \<in> set (runes s)" using runes_ascii_mem [of 64 s] by simp
  moreover have "list_all2 fold_match (runes s) [112, 111, 115, 116, 109, 97, 115, 116, 101, 114]"
    using eq by (simp add: EqualFold_def)
  ultimately have "\<exists>c \<in> set [112, 111, 115, 116, 109, 97, 115, 116, 101, 114 :: nat]. fold_match 64 c"
    by (metis list_all2_in_set)
  then show False by (simp add: fold_match_def lower_ascii_def)
qed

lemma Split_at:
  assumes "CHR ''@'' \<notin> set d"
  shows "Split (m @ CHR ''@'' # d) =
    (if m = [] then ([], [], Some (ErrNew ''address: empty local-part''))
     else if d = [] then ([], [], Some (ErrNew ''address: empty domain''))
     else (m, d, None))"
proof -
  have "\<not> EqualFold (m @ CHR ''@'' # d) ''postmaster''"
    by (meson EqualFold_postmaster_no_at in_set_conv_decomp)
  then show ?thesis by (simp add: Split_def LastIndexByte_last [OF assms])
qed

lemma Split_no_at:
  "CHR ''@'' \<notin> set a \<Longrightarrow> Split a =
    (if EqualFold a ''postmaster'' then (a, [], None)
     else ([], [], Some (ErrNew ''address: missing at-sign'')))"
  by (simp add: Split_def LastIndexByte_def)

lemma Split_cases:
  obtains (no_at) "CHR ''@'' \<notin> set a" | (at) m d where "a = m @ CHR ''@'' # d" "CHR ''@'' \<notin> set d"
  by (meson split_list_last)

lemma Split_None_iff:
  "Split a = (m, d, None) \<longleftrightarrow>
    EqualFold a ''postmaster'' \<and> m = a \<and> d = []
    \<or> a = m @ CHR ''@'' # d \<and> m \<noteq> [] \<and> d \<noteq> [] \<and> CHR ''@'' \<notin> set d"
proof (cases rule: Split_cases [of a])
  case no_at
  then show ?thesis by (auto simp: Split_no_at)
next
  case (at m' d')
  have nf: "\<not> EqualFold a ''postmaster''" using at EqualFold_postmaster_no_at [of a] by auto
  have "Split a = (m, d, None) \<longleftrightarrow> m' \<noteq> [] \<and> d' \<noteq> [] \<and> m = m' \<and> d = d'"
    by (auto simp: at Split_at)
  moreover have "CHR ''@'' \<notin> set d \<Longrightarrow> a = m @ CHR ''@'' # d \<longleftrightarrow> m = m' \<and> d = d'"
    using at by (auto simp: append_eq_append_conv2 append_eq_Cons_conv Cons_eq_append_conv)
  ultimately show ?thesis using nf at by auto
qed

section \<open>Facts on quoting\<close>

definition esc_rune :: "rune \<Rightarrow> rune list" where
  "esc_rune ch = (if ch = 92 \<or> ch = 34 then [92, ch] else [ch])"

lemma quote_loop_eq:
  "quote_loop out q rs = (out @ concat (map esc_rune rs), q \<or> list_ex mboxSpecial rs)"
  by (induction rs arbitrary: out q) (auto simp: esc_rune_def mboxSpecial_def)

lemma unquote_escaped:
  "unquote_loop True False False out (concat (map esc_rune rs) @ [34]) =
    (if out @ rs = [] then ([], Some (ErrNew ''address: empty local part''))
     else (encode_runes (out @ rs), None))"
  by (induction rs arbitrary: out) (auto simp: esc_rune_def)

lemma unquote_plain:
  "\<not> list_ex mboxSpecial rs \<Longrightarrow> unquote_loop False False False out rs =
    (if out @ rs = [] then ([], Some (ErrNew ''address: empty local part''))
     else (encode_runes (out @ rs), None))"
  by (induction rs arbitrary: out) (auto simp: mboxSpecial_def)

lemma esc_runes_valid: "list_all valid_rune rs \<Longrightarrow> list_all valid_rune (concat (map esc_rune rs))"
  by (induction rs) (auto simp: esc_rune_def valid_rune_def)

lemma runes_quoted:
  "list_all valid_rune rs \<Longrightarrow> runes (''\"'' @ encode_runes rs @ ''\"'') = 34 # rs @ [34]"
  by (simp add: runes_encode_runes_append)

lemma unquote_quote:
  assumes "valid_utf8 s" "s \<noteq> []"
  shows "UnquoteMbox (QuoteMbox s) = (s, None)"
proof (cases "list_ex mboxSpecial (runes s)")
  case True
  have "runes (QuoteMbox s) = 34 # concat (map esc_rune (runes s)) @ [34]"
    using True runes_quoted [OF esc_runes_valid, of "runes s"]
    by (simp add: QuoteMbox_def quote_loop_eq)
  then have "UnquoteMbox (QuoteMbox s)
      = unquote_loop True False False [] (concat (map esc_rune (runes s)) @ [34])"
    by (simp add: UnquoteMbox_def)
  with assms show ?thesis by (simp only: unquote_escaped) (simp add: valid_utf8_def)
next
  case False
  with assms show ?thesis
    by (simp add: QuoteMbox_def quote_loop_eq UnquoteMbox_def unquote_plain valid_utf8_def)
qed

lemma printable_classes:
  assumes "32 \<le> ch" "ch \<noteq> 127" "\<not> mboxSpecial ch" "\<not> validGraphic ch"
    "\<not> (48 \<le> ch \<and> ch \<le> 57)" "\<not> (65 \<le> ch \<and> ch \<le> 90)" "\<not> (97 \<le> ch \<and> ch \<le> 122)"
  shows "127 < ch"
proof (rule ccontr)
  assume "\<not> 127 < ch"
  then have "ch \<in> {32..<127}" using assms(1,2) by auto
  moreover have "list_all (\<lambda>ch. mboxSpecial ch \<or> validGraphic ch \<or> (48 \<le> ch \<and> ch \<le> 57)
      \<or> (65 \<le> ch \<and> ch \<le> 90) \<or> (97 \<le> ch \<and> ch \<le> 122)) [32..<127]"
    by (simp add: upt_rec mboxSpecial_def validGraphic_def)
  ultimately have "mboxSpecial ch \<or> validGraphic ch \<or> (48 \<le> ch \<and> ch \<le> 57)
      \<or> (65 \<le> ch \<and> ch \<le> 90) \<or> (97 \<le> ch \<and> ch \<le> 122)"
    unfolding list_all_iff set_upt by blast
  with assms show False by blast
qed

section \<open>Facts on lookups\<close>

lemma Equal_iff: "Equal lib a b \<longleftrightarrow> fst (ForLookup lib a) = fst (ForLookup lib b)"
  by (simp add: Equal_def)

lemma dns_Equal_iff: "dns_Equal lib a b \<longleftrightarrow> fst (dns_ForLookup lib a) = fst (dns_ForLookup lib b)"
  by (simp add: dns_Equal_def)

section \<open>Properties\<close>

text \<open>C38: splitting an address is exact. It succeeds with a domain precisely when
  the address is a nonempty local part, an at-sign and a nonempty domain
  without at-sign, and with an empty domain precisely for the special
  postmaster address in any case.\<close>

theorem split_characterization:
  "Split a = (m, d, None) \<longleftrightarrow>
    EqualFold a ''postmaster'' \<and> m = a \<and> d = []
    \<or> a = m @ ''@'' @ d \<and> m \<noteq> [] \<and> d \<noteq> [] \<and> CHR ''@'' \<notin> set d"
  using Split_None_iff [of a m d] by simp

text \<open>C39: quoting a local part and reading it back gives the same local part, for
  every nonempty string of valid UTF-8.\<close>

theorem quote_unquote_roundtrip:
  assumes "valid_utf8 s" and "s \<noteq> []"
  shows "UnquoteMbox (QuoteMbox s) = (s, None)"
  using assms by (rule unquote_quote)

theorem quote_unquote_roundtrip_witness:
  "valid_utf8 ''te\"st @x'' \<and> QuoteMbox ''te\"st @x'' \<noteq> ''te\"st @x''
    \<and> UnquoteMbox (QuoteMbox ''te\"st @x'') = (''te\"st @x'', None)"
proof -
  have v: "valid_utf8 ''te\"st @x''" by (rule valid_utf8_ascii) (simp add: ascii_def)
  moreover have "QuoteMbox ''te\"st @x'' \<noteq> ''te\"st @x''"
    by (simp add: QuoteMbox_def mboxSpecial_def)
  ultimately show ?thesis using quote_unquote_roundtrip [OF v] by simp
qed

text \<open>A quoted local part is always accepted by the validator, whatever
  printable characters it is made of.\<close>

lemma quoted_mailbox_valid:
  assumes "valid_utf8 s" and "s \<noteq> []" and "list_all (\<lambda>ch. 32 \<le> ch \<and> ch \<noteq> 127) (runes s)"
  shows "ValidMailboxName (QuoteMbox s)"
proof (cases "list_ex mboxSpecial (runes s)")
  case True
  then have "HasPrefix (QuoteMbox s) ''\"''"
    by (simp add: QuoteMbox_def quote_loop_eq HasPrefix_def)
  moreover have "list_all (\<lambda>ch. \<not> (ch < 32 \<or> ch = 127)) (runes s)"
    using assms(3) by (simp add: list_all_iff not_less)
  ultimately show ?thesis
    using unquote_quote [OF assms(1,2)] by (simp add: ValidMailboxName_def)
next
  case False
  then have "\<not> HasPrefix s ''\"''"
    by (cases s) (auto simp: HasPrefix_def mboxSpecial_def)
  moreover have "list_all (\<lambda>ch. validGraphic ch \<or> (48 \<le> ch \<and> ch \<le> 57) \<or> (65 \<le> ch \<and> ch \<le> 90)
      \<or> (97 \<le> ch \<and> ch \<le> 122) \<or> 127 < ch) (runes s)"
    using assms(3) False by (auto simp: list_all_iff list_ex_iff intro!: printable_classes)
  ultimately show ?thesis
    using False by (simp add: QuoteMbox_def quote_loop_eq ValidMailboxName_def)
qed

lemma quoted_mailbox_valid_example:
  "valid_utf8 ''a b'' \<and> ValidMailboxName (QuoteMbox ''a b'') \<and> \<not> ValidMailboxName ''a b''"
proof -
  have v: "valid_utf8 ''a b''" by (rule valid_utf8_ascii) (simp add: ascii_def)
  have "\<not> ValidMailboxName ''a b''"
    by (simp add: ValidMailboxName_def HasPrefix_def validGraphic_def)
  with v quoted_mailbox_valid [OF v] show ?thesis by simp
qed

text \<open>A key with a domain is taken apart at its last at-sign.\<close>

lemma at_key_eq:
  assumes "CHR ''@'' \<notin> set d" "CHR ''@'' \<notin> set d'"
  shows "m @ ''@'' @ d = m' @ ''@'' @ d' \<longleftrightarrow> m = m' \<and> d = d'"
  using assms by (auto simp: append_eq_append_conv2 append_eq_Cons_conv Cons_eq_append_conv)

text \<open>A domain with a key: it can be converted, and the key is not empty and has no at-sign.\<close>

definition keyed :: "text_lib \<Rightarrow> string \<Rightarrow> bool" where
  "keyed lib d \<longleftrightarrow> d \<noteq> [] \<and> snd (dns_ForLookup lib d) = None \<and> fst (dns_ForLookup lib d) \<noteq> [] \<and> CHR ''@'' \<notin> set (fst (dns_ForLookup lib d))"

lemma ForLookup_parts:
  assumes "Split a = (m, d, None)" "keyed lib d"
  shows "ForLookup lib a = (ToLower (uni_lower lib) (nfc lib m) @ ''@'' @ fst (dns_ForLookup lib d), None)"
proof -
  have "a \<noteq> []" using assms by (auto simp: Split_None_iff keyed_def)
  with assms show ?thesis by (cases "dns_ForLookup lib d") (simp add: ForLookup_def keyed_def Let_def)
qed

lemma ForLookup_malformed: "snd (snd (Split a)) \<noteq> None \<Longrightarrow> fst (ForLookup lib a) = ToLower (uni_lower lib) a"
  by (cases "Split a") (auto simp: ForLookup_def ToLower_def)

text \<open>C40: the comparison of addresses is the one its comment defines. Two addresses whose domains
  can be converted to a key that is not empty and has no at-sign are equal exactly when their
  local parts are the same after composition and conversion to lower case and their domains are
  equal as domains. Two malformed addresses, those \<open>Split\<close> refuses, are equal exactly when they
  are the same in lower case.\<close>

theorem equal_by_parts:
  "(Split a = (m, d, None) \<and> keyed lib d \<and> Split b = (n, e, None) \<and> keyed lib e \<longrightarrow>
      (Equal lib a b \<longleftrightarrow> ToLower (uni_lower lib) (nfc lib m) = ToLower (uni_lower lib) (nfc lib n) \<and> dns_Equal lib d e))
    \<and> (snd (snd (Split a)) \<noteq> None \<and> snd (snd (Split b)) \<noteq> None \<longrightarrow>
      (Equal lib a b \<longleftrightarrow> ToLower (uni_lower lib) a = ToLower (uni_lower lib) b))"
proof (intro conjI impI; elim conjE)
  assume "Split a = (m, d, None)" "keyed lib d" "Split b = (n, e, None)" "keyed lib e"
  then show "Equal lib a b \<longleftrightarrow> ToLower (uni_lower lib) (nfc lib m) = ToLower (uni_lower lib) (nfc lib n) \<and> dns_Equal lib d e"
    by (simp add: Equal_iff dns_Equal_iff ForLookup_parts at_key_eq [simplified] keyed_def)
qed (simp add: Equal_iff ForLookup_malformed)

theorem equal_by_parts_witness:
  "Equal ascii_lib ''A@b'' ''a@B.'' \<and> \<not> Equal ascii_lib ''A@b'' ''b@b'' \<and> Equal ascii_lib ''X'' ''x''"
proof -
  have s: "Split ''A@b'' = (''A'', ''b'', None)" "Split ''a@B.'' = (''a'', ''B.'', None)" "Split ''b@b'' = (''b'', ''b'', None)"
    "snd (snd (Split ''X'')) \<noteq> None" "snd (snd (Split ''x'')) \<noteq> None"
    by code_simp+
  note ev = ascii_lib_def ToLower_def lower_ascii_def TrimSuffix_def HasSuffix_def char_of_eq_iff
  have d: "dns_ForLookup ascii_lib ''b'' = (''b'', None)" "dns_ForLookup ascii_lib ''B.'' = (''b'', None)"
    by (simp_all add: dns_ForLookup_def ev)
  then have k: "keyed ascii_lib ''b''" "keyed ascii_lib ''B.''" "dns_Equal ascii_lib ''b'' ''B.''"
    by (simp_all add: keyed_def dns_Equal_iff)
  have t: "ToLower (uni_lower ascii_lib) (nfc ascii_lib ''A'') = ToLower (uni_lower ascii_lib) (nfc ascii_lib ''a'')"
    "ToLower (uni_lower ascii_lib) (nfc ascii_lib ''A'') \<noteq> ToLower (uni_lower ascii_lib) (nfc ascii_lib ''b'')"
    "ToLower (uni_lower ascii_lib) ''X'' = ToLower (uni_lower ascii_lib) ''x''"
    by (simp_all add: ev)
  have "Equal ascii_lib ''A@b'' ''a@B.''"
    using conjunct1 [OF equal_by_parts [of "''A@b''" "''A''" "''b''" ascii_lib "''a@B.''" "''a''" "''B.''"]] s(1,2) k t(1) by simp
  moreover have "\<not> Equal ascii_lib ''A@b'' ''b@b''"
    using conjunct1 [OF equal_by_parts [of "''A@b''" "''A''" "''b''" ascii_lib "''b@b''" "''b''" "''b''"]] s(1,3) k(1) t(2) by simp
  moreover have "Equal ascii_lib ''X'' ''x''"
    using conjunct2 [OF equal_by_parts [of "''X''" "[]" "[]" ascii_lib "''x''" "[]" "[]"]] s(4,5) t(3) by simp
  ultimately show ?thesis by blast
qed

text \<open>an address is accepted by the validator exactly when it fits in 320
  bytes and is either the postmaster address or a valid local part and a
  valid domain joined by the last at-sign.\<close>

lemma valid_address_iff:
  "Valid lib a \<longleftrightarrow> length a \<le> 320 \<and>
    (EqualFold a ''postmaster''
     \<or> (\<exists>m d. a = m @ ''@'' @ d \<and> CHR ''@'' \<notin> set d \<and> m \<noteq> [] \<and> ValidMailboxName m \<and> ValidDomain lib d))"
proof (cases rule: Split_cases [of a])
  case no_at
  then show ?thesis by (auto simp: Valid_def Split_no_at)
next
  case (at m d)
  have nf: "\<not> EqualFold a ''postmaster''" using at EqualFold_postmaster_no_at [of a] by auto
  have uniq: "a = m' @ CHR ''@'' # d' \<and> CHR ''@'' \<notin> set d' \<longleftrightarrow> m' = m \<and> d' = d" for m' d'
    using at by (auto simp: append_eq_append_conv2 append_eq_Cons_conv Cons_eq_append_conv)
  have "Valid lib a \<longleftrightarrow> length a \<le> 320 \<and> m \<noteq> [] \<and> d \<noteq> [] \<and> ValidMailboxName m \<and> ValidDomain lib d"
    by (auto simp: at Valid_def Split_at)
  moreover have "ValidDomain lib d \<Longrightarrow> d \<noteq> []" by (auto simp: ValidDomain_def)
  moreover have "(\<exists>m d. a = m @ ''@'' @ d \<and> CHR ''@'' \<notin> set d \<and> m \<noteq> [] \<and> ValidMailboxName m
      \<and> ValidDomain lib d) \<longleftrightarrow> m \<noteq> [] \<and> ValidMailboxName m \<and> ValidDomain lib d"
    unfolding append_Cons append_Nil using uniq by metis
  ultimately show ?thesis using nf by blast
qed

section \<open>Behaviour at the edges\<close>

text \<open>The rune U+0080 is two bytes long and still passes the ASCII test, since the
  comparison is with \<open>utf8.RuneSelf\<close> itself.\<close>

lemma IsASCII_accepts_0080: "IsASCII (encode_rune 128) \<and> \<not> ascii (encode_rune 128)"
proof -
  have "runes (encode_rune 128) = [128]"
    using runes_encode_rune_append [of 128 "[]"] by (simp add: valid_rune_def)
  moreover have "encode_rune 128 = map char_of [194, 128 :: nat]"
    by (simp add: encode_rune_def encode_rune_bytes_def valid_rune_def)
  ultimately show ?thesis by (simp add: IsASCII_def ascii_def)
qed

text \<open>A domain that normalises to nothing turns the key into a bare local part.\<close>

lemma ForLookup_root_domain: "ForLookup ascii_lib ''user@.'' = (''user'', None)"
proof -
  have "Split ''user@.'' = (''user'', ''.'', None)"
    using Split_at [of "''.''" "''user''"] by simp
  then show ?thesis
    by (simp add: ForLookup_def dns_ForLookup_def ascii_lib_def ToLower_def lower_ascii_def
        TrimSuffix_def HasSuffix_def char_of_eq_iff)
qed

text \<open>The postmaster address has no domain, and folding it adds an at-sign with
  nothing behind it.\<close>

lemma PRECISFold_postmaster: "PRECISFold ascii_lib ''postmaster'' = (''postmaster@'', None)"
proof -
  have "Split ''postmaster'' = (''postmaster'', [], None)"
    by (simp add: Split_def EqualFold_def fold_match_def)
  then show ?thesis
    by (simp add: PRECISFold_def precisEmail_def dns_ForLookup_def ascii_lib_def ToLower_def
        TrimSuffix_def HasSuffix_def char_of_eq_iff)
qed

end
