(* ===== verification/Dsn.thy ===== *)
theory Dsn
  imports Address Module
begin

text \<open>
  Delivery status notifications (\<open>internal/dsn/dsn.go\<close>). The parts of the
  report are kept as field lists; their wire format is the business of the
  textproto library. The two time formats are the arguments \<open>fmt\<close> (RFC 5322
  dates) and \<open>show\<close> (the default format of \<open>text/template\<close>).
\<close>

section \<open>Per-message and per-recipient fields\<close>

record mta_info =
  ri_ReportingMTA :: string
  ri_ReceivedFromMTA :: string
  ri_XSender :: string
  ri_XMessageID :: string
  ri_ArrivalDate :: int
  ri_LastAttemptDate :: int

record rcpt_info =
  rc_FinalRecipient :: string
  rc_RemoteMTA :: string
  rc_Action :: string
  rc_Status :: enh_code
  rc_DiagnosticCode :: go_err

record dsn_envelope =
  de_MsgID :: string
  de_From :: string
  de_To :: string

text \<open>\<open>ReportingMTAInfo.WriteTo\<close>, in the order of the source; the second date
  is guarded by the first one's zero test.\<close>

definition mta_received ::
  "text_lib \<Rightarrow> bool \<Rightarrow> mta_info \<Rightarrow> header \<Rightarrow> go_err + header" where
  "mta_received lib utf8 info h =
    (if ri_ReceivedFromMTA info \<noteq> [] then
       (case dns_SelectIDNA lib utf8 (ri_ReceivedFromMTA info) of
          (_, Some err) \<Rightarrow> Inl (ErrWrap ''dsn: cannot convert Received-From-MTA to a suitable representation: '' err)
        | (receivedFromMTA, None) \<Rightarrow> Inr (hdr_Add h ''Received-From-MTA'' (''dns; '' @ receivedFromMTA)))
     else Inr h)"

definition mta_sender ::
  "text_lib \<Rightarrow> bool \<Rightarrow> mta_info \<Rightarrow> header \<Rightarrow> go_err + header" where
  "mta_sender lib utf8 info h =
    (if ri_XSender info \<noteq> [] then
       (case SelectIDNA lib utf8 (ri_XSender info) of
          (_, Some err) \<Rightarrow> Inl (ErrWrap ''dsn: cannot convert X-Maddy-Sender to a suitable representation: '' err)
        | (sender, None) \<Rightarrow>
            Inr (hdr_Add h ''X-Maddy-Sender'' ((if utf8 then ''utf8; '' else ''rfc822; '') @ sender)))
     else Inr h)"

definition mta_dates :: "(int \<Rightarrow> string) \<Rightarrow> mta_info \<Rightarrow> header \<Rightarrow> header" where
  "mta_dates fmt info h =
    (let h = (if ri_XMessageID info \<noteq> [] then hdr_Add h ''X-Maddy-MsgID'' (ri_XMessageID info) else h);
         h = (if ri_ArrivalDate info \<noteq> zeroTime
              then hdr_Add h ''Arrival-Date'' (fmt (ri_ArrivalDate info)) else h)
     in if ri_ArrivalDate info \<noteq> zeroTime
        then hdr_Add h ''Last-Attempt-Date'' (fmt (ri_LastAttemptDate info)) else h)"

definition mta_WriteTo ::
  "text_lib \<Rightarrow> (int \<Rightarrow> string) \<Rightarrow> bool \<Rightarrow> mta_info \<Rightarrow> go_err + header" where
  "mta_WriteTo lib fmt utf8 info =
    (if ri_ReportingMTA info = [] then Inl (ErrNew ''dsn: Reporting-MTA field is mandatory'')
     else (case dns_SelectIDNA lib utf8 (ri_ReportingMTA info) of
        (_, Some err) \<Rightarrow> Inl (ErrWrap ''dsn: cannot convert Reporting-MTA to a suitable representation: '' err)
      | (reportingMTA, None) \<Rightarrow>
          (case mta_received lib utf8 info (hdr_Add [] ''Reporting-MTA'' (''dns; '' @ reportingMTA)) of
             Inl err \<Rightarrow> Inl err
           | Inr h \<Rightarrow> (case mta_sender lib utf8 info h of
               Inl err \<Rightarrow> Inl err
             | Inr h \<Rightarrow> Inr (mta_dates fmt info h)))))"

definition one_line :: "string \<Rightarrow> string" where
  "one_line s = map (\<lambda>c. if c = CHR 0x0A \<or> c = CHR 0x0D then CHR '' '' else c) s"

definition show_enh :: "enh_code \<Rightarrow> string" where
  "show_enh ec = (case ec of (a, b, c) \<Rightarrow> FormatInt a 10 @ ''.'' @ FormatInt b 10 @ ''.'' @ FormatInt c 10)"

definition rcpt_diag :: "bool \<Rightarrow> rcpt_info \<Rightarrow> header \<Rightarrow> header" where
  "rcpt_diag utf8 info h =
    (case rc_DiagnosticCode info of
       GoSMTPError code ec msg _ _ \<Rightarrow>
         hdr_Add h ''Diagnostic-Code''
           (''smtp; '' @ FormatInt code 10 @ '' '' @ show_enh ec @ '' '' @ one_line msg)
     | err \<Rightarrow> if utf8 then hdr_Add h ''Diagnostic-Code'' (''X-Maddy; '' @ one_line (err_string err)) else h)"

definition rcpt_remote :: "text_lib \<Rightarrow> bool \<Rightarrow> rcpt_info \<Rightarrow> header \<Rightarrow> go_err + header" where
  "rcpt_remote lib utf8 info h =
    (if rc_RemoteMTA info \<noteq> [] then
       (case dns_SelectIDNA lib utf8 (rc_RemoteMTA info) of
          (_, Some err) \<Rightarrow> Inl (ErrWrap ''dsn: cannot convert Remote-MTA to a suitable representation: '' err)
        | (remoteMTA, None) \<Rightarrow> Inr (hdr_Add h ''Remote-MTA'' (''dns; '' @ remoteMTA)))
     else Inr h)"

definition rcpt_WriteTo :: "text_lib \<Rightarrow> bool \<Rightarrow> rcpt_info \<Rightarrow> go_err + header" where
  "rcpt_WriteTo lib utf8 info =
    (if rc_FinalRecipient info = [] then Inl (ErrNew ''dsn: Final-Recipient is required'')
     else (case SelectIDNA lib utf8 (rc_FinalRecipient info) of
        (_, Some err) \<Rightarrow> Inl (ErrWrap ''dsn: cannot convert Final-Recipient to a suitable representation: '' err)
      | (finalRcpt, None) \<Rightarrow>
          (let h = hdr_Add [] ''Final-Recipient'' ((if utf8 then ''utf8; '' else ''rfc822; '') @ finalRcpt) in
           if rc_Action info = [] then Inl (ErrNew ''dsn: Action is required'')
           else (let h = hdr_Add h ''Action'' (rc_Action info) in
             if fst (rc_Status info) = 0 then Inl (ErrNew ''dsn: Status is required'')
             else rcpt_remote lib utf8 info
                    (rcpt_diag utf8 info (hdr_Add h ''Status'' (show_enh (rc_Status info))))))))"

section \<open>The report\<close>

datatype dsn_part =
    HumanPart header string
  | MachinePart header header "header list"
  | HeaderPart header header

fun write_rcpts :: "text_lib \<Rightarrow> bool \<Rightarrow> rcpt_info list \<Rightarrow> go_err + header list" where
  "write_rcpts lib utf8 [] = Inr []"
| "write_rcpts lib utf8 (r # rs) =
     (case rcpt_WriteTo lib utf8 r of
        Inl err \<Rightarrow> Inl err
      | Inr h \<Rightarrow> (case write_rcpts lib utf8 rs of Inl err \<Rightarrow> Inl err | Inr hs \<Rightarrow> Inr (h # hs)))"

definition writeMachineReadablePart ::
  "text_lib \<Rightarrow> (int \<Rightarrow> string) \<Rightarrow> bool \<Rightarrow> mta_info \<Rightarrow> rcpt_info list \<Rightarrow> go_err + dsn_part" where
  "writeMachineReadablePart lib fmt utf8 mtaInfo rcptsInfo =
    (let h = hdr_Add [] ''Content-Type''
               (if utf8 then ''message/global-delivery-status'' else ''message/delivery-status'');
         h = hdr_Add h ''Content-Description'' ''Delivery report''
     in case mta_WriteTo lib fmt utf8 mtaInfo of
          Inl err \<Rightarrow> Inl err
        | Inr mh \<Rightarrow> (case write_rcpts lib utf8 rcptsInfo of
            Inl err \<Rightarrow> Inl err
          | Inr hs \<Rightarrow> Inr (MachinePart h mh hs)))"

definition nl :: string where
  "nl = [CHR 0x0A]"

definition failedText :: "(int \<Rightarrow> string) \<Rightarrow> mta_info \<Rightarrow> string" where
  "failedText show info =
     nl @ ''This is the mail delivery system at '' @ ri_ReportingMTA info @ ''.'' @ nl @ nl @
     ''Unfortunately, your message could not be delivered to one or more'' @ nl @
     ''recipients. The usual cause of this problem is invalid'' @ nl @
     ''recipient address or maintenance at the recipient side.'' @ nl @ nl @
     ''Contact the postmaster for further assistance, provide the Message ID (below):'' @ nl @ nl @
     ''Message ID: '' @ ri_XMessageID info @ nl @
     ''Arrival: '' @ show (ri_ArrivalDate info) @ nl @
     ''Last delivery attempt: '' @ show (ri_LastAttemptDate info) @ nl @ nl"

definition time_TruncateSecond :: "int \<Rightarrow> int" where
  "time_TruncateSecond t = t - (t - zeroTime) mod secondNs"

definition writeHumanReadablePart ::
  "(int \<Rightarrow> string) \<Rightarrow> mta_info \<Rightarrow> rcpt_info list \<Rightarrow> dsn_part" where
  "writeHumanReadablePart show mtaInfo rcptsInfo =
    (let h = hdr_Add [] ''Content-Transfer-Encoding'' ''8bit'';
         h = hdr_Add h ''Content-Type'' ''text/plain; charset=\"utf-8\"'';
         h = hdr_Add h ''Content-Description'' ''Notification'';
         mtaInfo = mtaInfo\<lparr>ri_ArrivalDate := time_TruncateSecond (ri_ArrivalDate mtaInfo)\<rparr>;
         mtaInfo = mtaInfo\<lparr>ri_LastAttemptDate := time_TruncateSecond (ri_LastAttemptDate mtaInfo)\<rparr>
     in HumanPart h (failedText show mtaInfo @
          concat (map (\<lambda>rcpt. ''Delivery to '' @ rc_FinalRecipient rcpt @ '' failed with error: ''
            @ err_string (rc_DiagnosticCode rcpt) @ nl) rcptsInfo)))"

definition writeHeaderPart :: "bool \<Rightarrow> header \<Rightarrow> dsn_part" where
  "writeHeaderPart utf8 hdr =
    (let h = hdr_Add [] ''Content-Description'' ''Undelivered message header'';
         h = hdr_Add h ''Content-Type'' (if utf8 then ''message/global-headers'' else ''message/rfc822-headers'');
         h = hdr_Add h ''Content-Transfer-Encoding'' ''8bit''
     in HeaderPart h hdr)"

definition reportHeader :: "(int \<Rightarrow> string) \<Rightarrow> int \<Rightarrow> string \<Rightarrow> dsn_envelope \<Rightarrow> header" where
  "reportHeader fmt now boundary envelope =
    (let h = hdr_Add [] ''Date'' (fmt now);
         h = hdr_Add h ''Message-Id'' (de_MsgID envelope);
         h = hdr_Add h ''Content-Transfer-Encoding'' ''8bit'';
         h = hdr_Add h ''Content-Type''
               (''multipart/report; report-type=delivery-status; boundary='' @ boundary);
         h = hdr_Add h ''MIME-Version'' ''1.0'';
         h = hdr_Add h ''Auto-Submitted'' ''auto-replied'';
         h = hdr_Add h ''To'' (de_To envelope);
         h = hdr_Add h ''From'' (de_From envelope)
     in hdr_Add h ''Subject'' ''Undelivered Mail Returned to Sender'')"

definition GenerateDSN ::
  "text_lib \<Rightarrow> (int \<Rightarrow> string) \<Rightarrow> (int \<Rightarrow> string) \<Rightarrow> int \<Rightarrow> string \<Rightarrow> bool \<Rightarrow> dsn_envelope \<Rightarrow> mta_info
    \<Rightarrow> rcpt_info list \<Rightarrow> header \<Rightarrow> go_err + header \<times> dsn_part list" where
  "GenerateDSN lib fmt show now boundary utf8 envelope mtaInfo rcptsInfo failedHeader =
    (let human = writeHumanReadablePart show mtaInfo rcptsInfo in
     case writeMachineReadablePart lib fmt utf8 mtaInfo rcptsInfo of
       Inl err \<Rightarrow> Inl err
     | Inr machine \<Rightarrow>
         Inr (reportHeader fmt now boundary envelope,
              [human, machine, writeHeaderPart utf8 failedHeader]))"

section \<open>Facts\<close>

lemma rcpt_WriteTo_fields:
  assumes "rcpt_WriteTo lib utf8 r = Inr h"
  shows "map_of h ''Action'' = Some (rc_Action r) \<and> map_of h ''Status'' = Some (show_enh (rc_Status r))
    \<and> map_of h ''Final-Recipient'' =
        Some ((if utf8 then ''utf8; '' else ''rfc822; '') @ fst (SelectIDNA lib utf8 (rc_FinalRecipient r)))
    \<and> fst (rc_Status r) \<noteq> 0"
  using assms
  by (auto simp: rcpt_WriteTo_def rcpt_remote_def rcpt_diag_def hdr_Add_def Let_def
      split: if_splits prod.splits option.splits go_err.splits)

lemma write_rcpts_all:
  "write_rcpts lib utf8 rs = Inr hs \<Longrightarrow> list_all2 (\<lambda>r h. rcpt_WriteTo lib utf8 r = Inr h) rs hs"
  by (induction rs arbitrary: hs) (auto split: sum.splits)

section \<open>Properties\<close>

text \<open>C31: a generated report has a machine-readable block for every recipient, in
  order, carrying the recipient in the representation the client allows, the
  action and the status.\<close>

theorem dsn_reports_every_recipient:
  assumes "GenerateDSN lib fmt show now bnd utf8 env mta rcpts hdr = Inr (h, parts)"
  shows "\<exists>human mh th blocks. parts = [human, MachinePart mh th blocks, writeHeaderPart utf8 hdr]
    \<and> list_all2 (\<lambda>r b. map_of b ''Final-Recipient'' =
          Some ((if utf8 then ''utf8; '' else ''rfc822; '') @ fst (SelectIDNA lib utf8 (rc_FinalRecipient r)))
        \<and> map_of b ''Action'' = Some (rc_Action r)
        \<and> map_of b ''Status'' = Some (show_enh (rc_Status r))) rcpts blocks"
proof -
  from assms obtain machine where
    m: "writeMachineReadablePart lib fmt utf8 mta rcpts = Inr machine"
    and p: "parts = [writeHumanReadablePart show mta rcpts, machine, writeHeaderPart utf8 hdr]"
    by (auto simp: GenerateDSN_def Let_def split: sum.splits)
  from m obtain mh th blocks where
    b: "machine = MachinePart mh th blocks" "write_rcpts lib utf8 rcpts = Inr blocks"
    by (auto simp: writeMachineReadablePart_def Let_def split: sum.splits)
  have "list_all2 (\<lambda>r b. map_of b ''Final-Recipient'' =
          Some ((if utf8 then ''utf8; '' else ''rfc822; '') @ fst (SelectIDNA lib utf8 (rc_FinalRecipient r)))
        \<and> map_of b ''Action'' = Some (rc_Action r)
        \<and> map_of b ''Status'' = Some (show_enh (rc_Status r))) rcpts blocks"
    using write_rcpts_all [OF b(2)] by (rule list.rel_mono_strong) (simp add: rcpt_WriteTo_fields)
  with p b(1) show ?thesis by blast
qed

text \<open>A report on one recipient.\<close>

definition demo_mta :: mta_info where
  "demo_mta = \<lparr>ri_ReportingMTA = ''mx'', ri_ReceivedFromMTA = [], ri_XSender = [], ri_XMessageID = ''id'',
     ri_ArrivalDate = 0, ri_LastAttemptDate = zeroTime\<rparr>"

definition demo_rcpt :: rcpt_info where
  "demo_rcpt = \<lparr>rc_FinalRecipient = ''a@b'', rc_RemoteMTA = [], rc_Action = ''failed'',
     rc_Status = (5, 0, 0), rc_DiagnosticCode = GoSMTPError 554 (5, 0, 0) ''no'' ''no'' None\<rparr>"

lemma demo_rcpt_written: "\<exists>h. rcpt_WriteTo ascii_lib False demo_rcpt = Inr h"
proof -
  have "Split ''a@b'' = (''a'', ''b'', None)" using Split_at [of "''b''" "''a''"] by simp
  then have "SelectIDNA ascii_lib False ''a@b'' = (''a@b'', None)"
    by (simp add: SelectIDNA_def ToASCII_def ascii_lib_def)
  then show ?thesis
    by (simp add: rcpt_WriteTo_def demo_rcpt_def rcpt_remote_def)
qed

lemma demo_mta_written: "\<exists>h. mta_WriteTo ascii_lib fmt False demo_mta = Inr h"
  by (simp add: mta_WriteTo_def demo_mta_def dns_SelectIDNA_def ascii_lib_def mta_received_def
      mta_sender_def)

theorem dsn_reports_every_recipient_witness:
  "\<exists>h parts human mh th b.
     GenerateDSN ascii_lib (\<lambda>_. ''t'') (\<lambda>_. ''t'') 0 ''bnd''
       False \<lparr>de_MsgID = ''m'', de_From = ''f'', de_To = ''t''\<rparr> demo_mta [demo_rcpt] [] = Inr (h, parts)
     \<and> parts = [human, MachinePart mh th [b], writeHeaderPart False []]
     \<and> map_of b ''Status'' = Some (show_enh (5, 0, 0))"
proof -
  obtain hr where hr: "rcpt_WriteTo ascii_lib False demo_rcpt = Inr hr" using demo_rcpt_written by blast
  obtain hm where hm: "mta_WriteTo ascii_lib (\<lambda>_. ''t'') False demo_mta = Inr hm"
    using demo_mta_written by blast
  obtain h parts where g: "GenerateDSN ascii_lib (\<lambda>_. ''t'') (\<lambda>_. ''t'') 0 ''bnd''
       False \<lparr>de_MsgID = ''m'', de_From = ''f'', de_To = ''t''\<rparr> demo_mta [demo_rcpt] [] = Inr (h, parts)"
    by (simp add: GenerateDSN_def writeMachineReadablePart_def hr hm)
  have "\<exists>human mh th blocks. parts = [human, MachinePart mh th blocks, writeHeaderPart False []]
      \<and> list_all2 (\<lambda>r b. map_of b ''Final-Recipient'' =
          Some ((if False then ''utf8; '' else ''rfc822; '') @ fst (SelectIDNA ascii_lib False (rc_FinalRecipient r)))
        \<and> map_of b ''Action'' = Some (rc_Action r)
        \<and> map_of b ''Status'' = Some (show_enh (rc_Status r))) [demo_rcpt] blocks"
    by (rule dsn_reports_every_recipient [OF g])
  then obtain human mh th b where "parts = [human, MachinePart mh th [b], writeHeaderPart False []]"
      "map_of b ''Status'' = Some (show_enh (5, 0, 0))"
    by (auto simp: list_all2_Cons1 demo_rcpt_def)
  with g show ?thesis by blast
qed

text \<open>The date of the last attempt is written although it is not set.\<close>

lemma last_attempt_guard: "map_of (mta_dates fmt demo_mta []) ''Last-Attempt-Date'' = Some (fmt zeroTime)"
  by (simp add: mta_dates_def demo_mta_def hdr_Add_def zeroTime_def Let_def)

end
