(* ===== verification/Queue.thy ===== *)
theory Queue
  imports QueueDisk TimeWheel Dsn
begin

text \<open>
  The delivery queue (\<open>internal/target/queue/queue.go\<close>): accepting messages
  (\<open>queueDelivery\<close>), one delivery attempt (\<open>deliver\<close>, \<open>tryDelivery\<close>),
  notifications (\<open>emitDSN\<close>), dispatch and recovery from disk. The state is the
  directory, the time wheel and the world the delivery target acts on. A
  \<open>panic\<close> is the result \<open>None\<close>, or the flag \<open>True\<close> where the state at that
  moment matters.
\<close>

section \<open>Configuration and environment\<close>

text \<open>\<open>q_pow k\<close> is \<open>time.Duration(math.Pow(retryTimeScale, float64(k)))\<close>.\<close>

record 'w queue =
  q_hostname :: string
  q_autogenMsgDomain :: string
  q_initialRetryTime :: int
  q_pow :: "int \<Rightarrow> int"
  q_maxTries :: int
  q_postInitDelay :: int
  q_Target :: "'w target"
  q_dsnPipeline :: "'w target option"

text \<open>What the handlers read from outside: the file system, the text library,
  the random source, the multipart writer and the clock. The clock is read at
  three places of an attempt.\<close>

record qenv =
  qe_os :: os_env
  qe_lib :: text_lib
  qe_fmt :: "int \<Rightarrow> string"
  qe_show :: "int \<Rightarrow> string"
  qe_boundary :: string
  qe_render :: "dsn_part list \<Rightarrow> string"
  qe_smtpText :: "smtp_err \<Rightarrow> string"
  qe_rand :: "nat list \<times> go_err option"
  qe_nowDeliver :: int
  qe_nowLast :: int
  qe_nowNext :: int

record queue_slot =
  slot_ID :: string
  slot_Msg :: "(queue_meta \<times> header \<times> string) option"

record 'w qstate =
  qs_disk :: disk
  qs_wheel :: "queue_slot timewheel"
  qs_world :: 'w

section \<open>Errors of recipients\<close>

type_synonym partial_err = "string \<rightharpoonup> go_err"

definition SetStatus :: "partial_err \<Rightarrow> string \<Rightarrow> go_err option \<Rightarrow> partial_err" where
  "SetStatus errs rcptTo err = (case err of None \<Rightarrow> errs | Some e \<Rightarrow> errs(rcptTo \<mapsto> e))"

definition toSMTPErr :: "go_err \<Rightarrow> smtp_err" where
  "toSMTPErr err =
    (let res = \<lparr>sm_Code = 554, sm_EnhancedCode = (5, 0, 0), sm_Message = ''Internal server error''\<rparr>;
         res = (if IsTemporaryOrUnspec err then res\<lparr>sm_Code := 451, sm_EnhancedCode := (4, 0, 0)\<rparr> else res);
         ctxInfo = Fields err;
         res = (case map_of ctxInfo ''smtp_code'' of Some (FInt c) \<Rightarrow> res\<lparr>sm_Code := c\<rparr> | _ \<Rightarrow> res);
         res = (case map_of ctxInfo ''smtp_enchcode'' of
                  Some (FSmtpEnch ec) \<Rightarrow> res\<lparr>sm_EnhancedCode := ec\<rparr> | _ \<Rightarrow> res);
         res = (case map_of ctxInfo ''smtp_msg'' of Some (FStr s) \<Rightarrow> res\<lparr>sm_Message := s\<rparr> | _ \<Rightarrow> res)
     in case err of
          GoSMTPError c ec msg _ _ \<Rightarrow> res\<lparr>sm_Code := c, sm_EnhancedCode := ec, sm_Message := msg\<rparr>
        | _ \<Rightarrow> res)"

section \<open>One attempt at the target\<close>

definition expandToPartialErr :: "string list \<Rightarrow> go_err \<Rightarrow> partial_err \<Rightarrow> partial_err" where
  "expandToPartialErr rcpts err errs = foldl (\<lambda>m r. m(r \<mapsto> err)) errs rcpts"

fun add_rcpts ::
  "'w target \<Rightarrow> string list \<Rightarrow> 'w \<Rightarrow> partial_err \<Rightarrow> string list \<Rightarrow> dcall list
    \<Rightarrow> 'w \<times> partial_err \<times> string list \<times> dcall list" where
  "add_rcpts tgt [] w errs accepted calls = (w, errs, accepted, calls)"
| "add_rcpts tgt (rcpt # rcpts) w errs accepted calls =
     (case t_AddRcpt tgt w rcpt of
        (w', Some err) \<Rightarrow> add_rcpts tgt rcpts w' (errs(rcpt \<mapsto> err)) accepted (calls @ [CRcpt rcpt (Some err)])
      | (w', None) \<Rightarrow> add_rcpts tgt rcpts w' errs (accepted @ [rcpt]) (calls @ [CRcpt rcpt None]))"

definition send_body ::
  "'w target \<Rightarrow> header \<Rightarrow> string \<Rightarrow> string list \<Rightarrow> 'w \<Rightarrow> partial_err \<Rightarrow> 'w \<times> partial_err \<times> dcall list" where
  "send_body tgt header body accepted w errs =
    (case t_BodyNonAtomic tgt of
       Some bodyNonAtomic \<Rightarrow>
         (case bodyNonAtomic w header body of
            (w', sts) \<Rightarrow> (w', foldl (\<lambda>m (r, e). SetStatus m r e) errs sts, [CBodyNonAtomic sts]))
     | None \<Rightarrow>
         (case t_Body tgt w header body of
            (w', Some err) \<Rightarrow> (w', expandToPartialErr accepted err errs, [CBody (Some err)])
          | (w', None) \<Rightarrow> (w', errs, [CBody None])))"

definition deliver ::
  "qenv \<Rightarrow> 'w queue \<Rightarrow> queue_meta \<Rightarrow> header \<Rightarrow> string \<Rightarrow> 'w \<Rightarrow> partial_err \<times> 'w \<times> dcall list" where
  "deliver env q meta header body w =
    (let tgt = q_Target q;
         msgMeta = DeepCopy (qm_MsgMeta meta);
         msgMeta = msgMeta\<lparr>mm_ID := mm_ID msgMeta @ ''-'' @ FormatInt (qe_nowDeliver env div secondNs) 16\<rparr>
     in case t_Start tgt w msgMeta (qm_From meta) of
          (w, Some err) \<Rightarrow> (expandToPartialErr (qm_To meta) err Map.empty, w, [CStart (Some err)])
        | (w, None) \<Rightarrow>
            (case add_rcpts tgt (qm_To meta) w Map.empty [] [CStart None] of
               (w, errs, acceptedRcpts, calls) \<Rightarrow>
                 if acceptedRcpts = [] then
                   (case t_Abort tgt w of (w, r) \<Rightarrow> (errs, w, calls @ [CAbort r]))
                 else
                   (case send_body tgt header body acceptedRcpts w errs of
                      (w, errs, bcalls) \<Rightarrow>
                        if list_all (\<lambda>rcpt. errs rcpt \<noteq> None) acceptedRcpts then
                          (case t_Abort tgt w of (w, r) \<Rightarrow> (errs, w, calls @ bcalls @ [CAbort r]))
                        else
                          (case t_Commit tgt w of
                             (w, Some err) \<Rightarrow> (expandToPartialErr acceptedRcpts err errs, w,
                                calls @ bcalls @ [CCommit (Some err)])
                           | (w, None) \<Rightarrow> (errs, w, calls @ bcalls @ [CCommit None])))))"

section \<open>Notifications\<close>

fun rcpt_infos :: "qenv \<Rightarrow> queue_meta \<Rightarrow> string list \<Rightarrow> rcpt_info list option" where
  "rcpt_infos env meta [] = Some []"
| "rcpt_infos env meta (rcpt # rcpts) =
     (case qm_RcptErrs meta rcpt of
        None \<Rightarrow> None
      | Some rcptErr \<Rightarrow>
          (let originalRcpt = map_get [] (mm_OriginalRcpts (qm_MsgMeta meta)) rcpt;
               rcpt' = (if originalRcpt \<noteq> [] then originalRcpt else rcpt)
           in map_option (\<lambda>rest. \<lparr>rc_FinalRecipient = rcpt', rc_RemoteMTA = [], rc_Action = ''failed'',
                  rc_Status = sm_EnhancedCode rcptErr,
                  rc_DiagnosticCode = GoSMTPError (sm_Code rcptErr) (sm_EnhancedCode rcptErr)
                    (sm_Message rcptErr) (qe_smtpText env rcptErr) None\<rparr> # rest)
                (rcpt_infos env meta rcpts)))"

definition dsn_mta :: "'w queue \<Rightarrow> queue_meta \<Rightarrow> mta_info" where
  "dsn_mta q meta =
    \<lparr>ri_ReportingMTA = q_hostname q,
     ri_ReceivedFromMTA =
       (if mm_DontTraceSender (qm_MsgMeta meta) then []
        else case mm_Conn (qm_MsgMeta meta) of None \<Rightarrow> [] | Some c \<Rightarrow> cs_Hostname c),
     ri_XSender = qm_From meta,
     ri_XMessageID = mm_ID (qm_MsgMeta meta),
     ri_ArrivalDate = qm_FirstAttempt meta,
     ri_LastAttemptDate = qm_LastAttempt meta\<rparr>"

definition dsn_meta :: "string \<Rightarrow> queue_meta \<Rightarrow> msg_meta" where
  "dsn_meta dsnID meta =
    \<lparr>mm_ID = dsnID, mm_OriginalFrom = [], mm_DontTraceSender = False, mm_Quarantine = False,
     mm_OriginalRcpts = Map.empty, mm_UTF8 = mm_UTF8 (qm_MsgMeta meta),
     mm_RequireTLS = mm_RequireTLS (qm_MsgMeta meta), mm_Conn = None, mm_TLSRequireOverride = False\<rparr>"

text \<open>Handing the report to the pipeline; an error after \<open>Start\<close> aborts the
  delivery.\<close>

definition send_dsn :: "'w target \<Rightarrow> msg_meta \<Rightarrow> string \<Rightarrow> header \<Rightarrow> string \<Rightarrow> 'w \<Rightarrow> 'w" where
  "send_dsn pipe dsnMeta to hdr body w =
    (case t_Start pipe w dsnMeta [] of
       (w, Some err) \<Rightarrow> w
     | (w, None) \<Rightarrow> (case t_AddRcpt pipe w to of
         (w, Some err) \<Rightarrow> fst (t_Abort pipe w)
       | (w, None) \<Rightarrow> (case t_Body pipe w hdr body of
           (w, Some err) \<Rightarrow> fst (t_Abort pipe w)
         | (w, None) \<Rightarrow> (case t_Commit pipe w of
             (w, Some err) \<Rightarrow> fst (t_Abort pipe w)
           | (w, None) \<Rightarrow> w))))"

definition emitDSN ::
  "qenv \<Rightarrow> 'w queue \<Rightarrow> queue_meta \<Rightarrow> header \<Rightarrow> string list \<Rightarrow> 'w \<Rightarrow> 'w option" where
  "emitDSN env q meta header failedRcpts w =
    (case q_dsnPipeline q of
       None \<Rightarrow> Some w
     | Some pipe \<Rightarrow>
        if mm_OriginalFrom (qm_MsgMeta meta) = [] then Some w
        else (case GenerateMsgID (fst (qe_rand env)) (snd (qe_rand env)) of
           (_, Some err) \<Rightarrow> Some w
         | (dsnID, None) \<Rightarrow>
            (case rcpt_infos env meta failedRcpts of
               None \<Rightarrow> None
             | Some rcptInfo \<Rightarrow>
                (case GenerateDSN (qe_lib env) (qe_fmt env) (qe_show env) (qe_nowDeliver env) (qe_boundary env)
                        (mm_UTF8 (qm_MsgMeta meta))
                        \<lparr>de_MsgID = ''<'' @ dsnID @ ''@'' @ q_autogenMsgDomain q @ ''>'',
                         de_From = ''MAILER-DAEMON@'' @ q_autogenMsgDomain q,
                         de_To = mm_OriginalFrom (qm_MsgMeta meta)\<rparr>
                        (dsn_mta q meta) rcptInfo header of
                   Inl err \<Rightarrow> Some w
                 | Inr (dsnHeader, parts) \<Rightarrow>
                     Some (send_dsn pipe (dsn_meta dsnID meta) (qm_From meta) dsnHeader (qe_render env parts) w)))))"

section \<open>The decision after an attempt\<close>

text \<open>The loop over the recipients: the errors to report, the counters, the
  recipients to retry, the failed ones and the smallest counter.\<close>

fun try_loop ::
  "int \<Rightarrow> partial_err \<Rightarrow> string list
    \<Rightarrow> (string \<rightharpoonup> smtp_err) \<times> (string \<times> int) list \<times> string list \<times> string list \<times> int
    \<Rightarrow> (string \<rightharpoonup> smtp_err) \<times> (string \<times> int) list \<times> string list \<times> string list \<times> int" where
  "try_loop maxTries errs [] acc = acc"
| "try_loop maxTries errs (rcpt # rcpts) (rerrs, counts, newRcpts, failedRcpts, smallest) =
     (case errs rcpt of
        None \<Rightarrow> try_loop maxTries errs rcpts (rerrs, counts, newRcpts, failedRcpts, smallest)
      | Some rcptErr \<Rightarrow>
         (let rerrs = rerrs(rcpt \<mapsto> toSMTPErr rcptErr) in
          if \<not> IsTemporaryOrUnspec rcptErr \<or> maxTries \<le> tries counts rcpt + 1
          then try_loop maxTries errs rcpts
                 (rerrs, AList.delete rcpt counts, newRcpts, failedRcpts @ [rcpt], smallest)
          else (let counts = AList.update rcpt (tries counts rcpt + 1) counts in
            try_loop maxTries errs rcpts
              (rerrs, counts, newRcpts @ [rcpt], failedRcpts,
               if tries counts rcpt < smallest then tries counts rcpt else smallest))))"

definition retry_delay :: "'w queue \<Rightarrow> int \<Rightarrow> int" where
  "retry_delay q smallestTriesCount = wrap64 (q_initialRetryTime q * q_pow q (smallestTriesCount - 1))"

definition tryDelivery ::
  "qenv \<Rightarrow> 'w queue \<Rightarrow> queue_meta \<Rightarrow> header \<Rightarrow> string \<Rightarrow> 'w qstate \<Rightarrow> 'w qstate \<times> bool" where
  "tryDelivery env q meta header body st =
    (case deliver env q meta header body (qs_world st) of
       (partialErr, w, _) \<Rightarrow>
        (case try_loop (q_maxTries q) partialErr (qm_To meta)
                (qm_RcptErrs meta, qm_TriesCount meta, [], [], 999999) of
           (rerrs, counts, newRcpts, failedRcpts, smallest) \<Rightarrow>
            (let meta = meta\<lparr>qm_RcptErrs := rerrs, qm_TriesCount := counts\<rparr> in
             case (if failedRcpts \<noteq> [] then emitDSN env q meta header failedRcpts w else Some w) of
               None \<Rightarrow> (st\<lparr>qs_world := w\<rparr>, True)
             | Some w \<Rightarrow>
                if newRcpts = [] then
                  (st\<lparr>qs_disk := removeFromDisk (qe_os env) (qm_MsgMeta meta) (qs_disk st), qs_world := w\<rparr>, False)
                else
                  (let meta = meta\<lparr>qm_To := newRcpts, qm_LastAttempt := qe_nowLast env\<rparr>;
                       nextTryTime = qe_nowNext env + retry_delay q smallest
                   in (st\<lparr>qs_disk := fst (updateMetadataOnDisk (qe_os env) meta (qs_disk st)),
                          qs_wheel := tw_Add nextTryTime \<lparr>slot_ID = mm_ID (qm_MsgMeta meta), slot_Msg = None\<rparr>
                            (qs_wheel st),
                          qs_world := w\<rparr>, False)))))"

text \<open>The goroutine started by \<open>dispatch\<close>, its panic handler included.\<close>

definition dispatch :: "qenv \<Rightarrow> 'w queue \<Rightarrow> queue_slot \<Rightarrow> 'w qstate \<Rightarrow> 'w qstate" where
  "dispatch env q slot st =
    (let attempt = (\<lambda>meta hdr body st.
           case tryDelivery env q meta hdr body st of
             (st', panicked) \<Rightarrow>
               if panicked then st'\<lparr>qs_disk := discardBroken (qe_os env) (slot_ID slot) (qs_disk st')\<rparr> else st')
     in case slot_Msg slot of
          None \<Rightarrow> (case openMessage (qe_os env) (slot_ID slot) (qs_disk st) of
              (d, Inl err) \<Rightarrow> st\<lparr>qs_disk := d\<rparr>
            | (d, Inr (meta, hdr, body)) \<Rightarrow> attempt meta hdr body (st\<lparr>qs_disk := d\<rparr>))
        | Some (meta, hdr, body) \<Rightarrow> attempt meta hdr body st)"

section \<open>Accepting a message\<close>

record queue_delivery =
  qd_meta :: "queue_meta option"
  qd_header :: header
  qd_body :: "string option"

definition queue_Start :: "qenv \<Rightarrow> msg_meta \<Rightarrow> string \<Rightarrow> queue_delivery" where
  "queue_Start env msgMeta mailFrom =
    \<lparr>qd_meta = Some \<lparr>qm_MsgMeta = msgMeta, qm_From = mailFrom, qm_To = [], qm_FailedRcpts = [],
       qm_TemporaryFailedRcpts = [], qm_RcptErrs = Map.empty, qm_TriesCount = [],
       qm_FirstAttempt = qe_nowDeliver env, qm_LastAttempt = qe_nowLast env\<rparr>,
     qd_header = [], qd_body = None\<rparr>"

definition queue_AddRcpt :: "string \<Rightarrow> queue_delivery \<Rightarrow> queue_delivery option" where
  "queue_AddRcpt rcptTo qd =
    (case qd_meta qd of
       None \<Rightarrow> None
     | Some meta \<Rightarrow> Some (qd\<lparr>qd_meta := Some (meta\<lparr>qm_To := qm_To meta @ [rcptTo]\<rparr>)\<rparr>))"

definition queue_Body ::
  "qenv \<Rightarrow> go_err option \<Rightarrow> header \<Rightarrow> string \<Rightarrow> queue_delivery \<Rightarrow> disk
    \<Rightarrow> (queue_delivery \<times> disk \<times> go_err option) option" where
  "queue_Body env body_err header body qd d =
    (case qd_meta qd of
       None \<Rightarrow> None
     | Some meta \<Rightarrow> (case storeNewMessage (qe_os env) body_err meta header body d of
         (d, Inl err) \<Rightarrow> Some (qd, d, Some err)
       | (d, Inr storedBody) \<Rightarrow> Some (qd\<lparr>qd_body := Some storedBody, qd_header := header\<rparr>, d, None)))"

definition queue_Abort :: "qenv \<Rightarrow> queue_delivery \<Rightarrow> disk \<Rightarrow> disk option" where
  "queue_Abort env qd d =
    (case qd_body qd of
       None \<Rightarrow> Some d
     | Some _ \<Rightarrow> (case qd_meta qd of
         None \<Rightarrow> None
       | Some meta \<Rightarrow> Some (removeFromDisk (qe_os env) (qm_MsgMeta meta) d)))"

text \<open>\<open>Commit\<close> panics on a second call; the body of a slot is the stored buffer
  (a nil buffer is the empty path here).\<close>

definition queue_Commit ::
  "queue_delivery \<Rightarrow> queue_slot timewheel \<Rightarrow> (queue_delivery \<times> queue_slot timewheel) option" where
  "queue_Commit qd wheel =
    (case qd_meta qd of
       None \<Rightarrow> None
     | Some meta \<Rightarrow>
         Some (qd\<lparr>qd_meta := None, qd_body := None\<rparr>,
           tw_Add zeroTime
             \<lparr>slot_ID = mm_ID (qm_MsgMeta meta),
              slot_Msg = Some (meta, qd_header qd, case qd_body qd of None \<Rightarrow> [] | Some b \<Rightarrow> b)\<rparr> wheel))"

section \<open>Recovery from disk\<close>

definition smallest_count :: "(string \<times> int) list \<Rightarrow> int" where
  "smallest_count counts = foldl (\<lambda>s (_, count). if s > count then count else s) 999999 counts"

definition next_try_time :: "qenv \<Rightarrow> 'w queue \<Rightarrow> queue_meta \<Rightarrow> int" where
  "next_try_time env q meta =
    (let nextTryTime = qm_LastAttempt meta + retry_delay q (smallest_count (qm_TriesCount meta))
     in if time_Sub nextTryTime (qe_nowNext env) < q_postInitDelay q
        then qe_nowNext env + q_postInitDelay q else nextTryTime)"

definition load_entry :: "qenv \<Rightarrow> 'w queue \<Rightarrow> string \<times> bool \<Rightarrow> 'w qstate \<Rightarrow> 'w qstate" where
  "load_entry env q entry st =
    (case entry of (name, isDir) \<Rightarrow>
      if isDir \<or> \<not> HasSuffix name ''.meta'' then st
      else (let i = take (length name - 5) name in
        case readMessageMeta (qe_os env) i (qs_disk st) of
          Inl err \<Rightarrow> st
        | Inr meta \<Rightarrow>
           (case os_Stat (qe_os env) (hdr_file i) (qs_disk st) of
              Some err \<Rightarrow>
                if os_IsNotExist err
                then st\<lparr>qs_disk := tryRemoveDanglingFile (qe_os env) (body_file i)
                        (tryRemoveDanglingFile (qe_os env) (meta_file i) (qs_disk st))\<rparr>
                else st
            | None \<Rightarrow> (case os_Stat (qe_os env) (body_file i) (qs_disk st) of
                Some err \<Rightarrow>
                  if os_IsNotExist err
                  then st\<lparr>qs_disk := tryRemoveDanglingFile (qe_os env) (hdr_file i)
                          (tryRemoveDanglingFile (qe_os env) (meta_file i) (qs_disk st))\<rparr>
                  else st
              | None \<Rightarrow> st\<lparr>qs_wheel := tw_Add (next_try_time env q meta)
                    \<lparr>slot_ID = i, slot_Msg = None\<rparr> (qs_wheel st)\<rparr>))))"

definition readDiskQueue ::
  "qenv \<Rightarrow> 'w queue \<Rightarrow> go_err + (string \<times> bool) list \<Rightarrow> 'w qstate \<Rightarrow> 'w qstate \<times> go_err option" where
  "readDiskQueue env q dirInfo st =
    (case dirInfo of
       Inl err \<Rightarrow> (st, Some err)
     | Inr entries \<Rightarrow> (foldl (\<lambda>st entry. load_entry env q entry st) st entries, None))"

section \<open>The decision for each recipient\<close>

text \<open>The reference: what the loop is to do with a recipient, from its error and
  its counter before the attempt.\<close>

definition retryable :: "int \<Rightarrow> partial_err \<Rightarrow> (string \<times> int) list \<Rightarrow> string \<Rightarrow> bool" where
  "retryable maxTries errs counts r =
    (case errs r of None \<Rightarrow> False | Some e \<Rightarrow> IsTemporaryOrUnspec e \<and> tries counts r + 1 < maxTries)"

definition failing :: "int \<Rightarrow> partial_err \<Rightarrow> (string \<times> int) list \<Rightarrow> string \<Rightarrow> bool" where
  "failing maxTries errs counts r \<longleftrightarrow> errs r \<noteq> None \<and> \<not> retryable maxTries errs counts r"

lemma tries_update [simp]: "tries (AList.update r k c) r' = (if r' = r then k else tries c r')"
  by (simp add: tries_def update_conv')

lemma tries_delete [simp]: "tries (AList.delete r c) r' = (if r' = r then 0 else tries c r')"
  by (auto simp: tries_def delete_conv' map_get_def)

lemma tries_Nil [simp]: "tries [] r = 0"
  by (simp add: tries_def)

lemma retryable_cong: "tries c r = tries c' r \<Longrightarrow> retryable mt errs c r = retryable mt errs c' r"
  by (simp add: retryable_def split: option.split)

lemma retryable_updates [simp]:
  "r \<noteq> x \<Longrightarrow> retryable mt errs (AList.update x k c) r = retryable mt errs c r"
  "r \<noteq> x \<Longrightarrow> retryable mt errs (AList.delete x c) r = retryable mt errs c r"
  by (rule retryable_cong, simp)+

lemma failing_updates [simp]:
  "r \<noteq> x \<Longrightarrow> failing mt errs (AList.update x k c) r = failing mt errs c r"
  "r \<noteq> x \<Longrightarrow> failing mt errs (AList.delete x c) r = failing mt errs c r"
  by (simp_all add: failing_def)

lemma retryable_not_failing: "retryable mt errs c r \<Longrightarrow> \<not> failing mt errs c r"
  by (simp add: failing_def)

text \<open>One round of the loop, as a function of the reference decision.\<close>

lemma try_loop_Cons:
  "try_loop mt errs (r # rs) (re, c, n, f, s) =
    (if retryable mt errs c r then
       try_loop mt errs rs (re(r \<mapsto> toSMTPErr (the (errs r))), AList.update r (tries c r + 1) c, n @ [r], f,
         if tries c r + 1 < s then tries c r + 1 else s)
     else if failing mt errs c r then
       try_loop mt errs rs (re(r \<mapsto> toSMTPErr (the (errs r))), AList.delete r c, n, f @ [r], s)
     else try_loop mt errs rs (re, c, n, f, s))"
  by (auto simp: retryable_def failing_def Let_def split: option.splits)

declare try_loop.simps(2) [simp del]

lemma filter_decision [simp]:
  assumes "r \<notin> set rs"
  shows "filter (retryable mt errs (AList.update r k c)) rs = filter (retryable mt errs c) rs"
    and "filter (retryable mt errs (AList.delete r c)) rs = filter (retryable mt errs c) rs"
    and "filter (failing mt errs (AList.update r k c)) rs = filter (failing mt errs c) rs"
    and "filter (failing mt errs (AList.delete r c)) rs = filter (failing mt errs c) rs"
proof -
  have ne: "x \<noteq> r" if "x \<in> set rs" for x
    using assms that by auto
  show "filter (retryable mt errs (AList.update r k c)) rs = filter (retryable mt errs c) rs"
    "filter (retryable mt errs (AList.delete r c)) rs = filter (retryable mt errs c) rs"
    "filter (failing mt errs (AList.update r k c)) rs = filter (failing mt errs c) rs"
    "filter (failing mt errs (AList.delete r c)) rs = filter (failing mt errs c) rs"
    by (rule filter_cong, simp, simp add: ne)+
qed

lemma try_loop_split:
  assumes "distinct rs" "try_loop mt errs rs (re, c, n, f, s) = (re', c', n', f', s')"
  shows "n' = n @ filter (retryable mt errs c) rs \<and> f' = f @ filter (failing mt errs c) rs"
  using assms
proof (induction rs arbitrary: re c n f s)
  case (Cons r rs)
  then show ?case
    by (auto dest!: Cons.IH simp: try_loop_Cons retryable_not_failing split: if_splits)
qed simp

lemma try_loop_tries:
  assumes "distinct rs" "try_loop mt errs rs (re, c, n, f, s) = (re', c', n', f', s')"
  shows "tries c' r = (if r \<in> set rs \<and> retryable mt errs c r then tries c r + 1
    else if r \<in> set rs \<and> failing mt errs c r then 0 else tries c r)"
  using assms
proof (induction rs arbitrary: re c n f s)
  case (Cons x rs)
  then show ?case
    by (cases "r = x") (auto dest!: Cons.IH simp: try_loop_Cons retryable_not_failing split: if_splits)
qed simp

lemma try_loop_errs:
  "try_loop mt errs rs (re, c, n, f, s) = (re', c', n', f', s') \<Longrightarrow>
    set f \<subseteq> dom re \<Longrightarrow> set f' \<subseteq> dom re'"
proof (induction rs arbitrary: re c n f s)
  case (Cons x rs)
  from Cons.prems(1) show ?case
    unfolding try_loop_Cons
    using Cons.prems(2) by (auto dest!: Cons.IH split: if_splits)
qed simp

lemma rcpt_infos_total: "set rs \<subseteq> dom (qm_RcptErrs meta) \<Longrightarrow> rcpt_infos env meta rs \<noteq> None"
  by (induction rs) (auto simp: Let_def)

lemma emitDSN_total:
  assumes "set failed \<subseteq> dom (qm_RcptErrs meta)"
  shows "emitDSN env q meta header failed w \<noteq> None"
  using rcpt_infos_total [OF assms, of env]
  by (auto simp: emitDSN_def split: option.splits prod.splits sum.splits)

lemma try_loop_smallest:
  assumes "distinct rs" "try_loop mt errs rs (re, c, n, f, s) = (re', c', n', f', s')"
  shows "s' = fold min (map (\<lambda>r. tries c r + 1) (filter (retryable mt errs c) rs)) s"
  using assms
proof (induction rs arbitrary: re c n f s)
  case (Cons x rs)
  have same: "map (\<lambda>r. (if r = x then k else tries c r) + 1) (filter P rs) = map (\<lambda>r. tries c r + 1) (filter P rs)"
    for k P
    using Cons.prems(1) by auto
  have m: "(if k < s then k else s) = min k s" for k s :: int
    by simp
  from Cons.prems show ?case
    by (auto dest!: Cons.IH simp: try_loop_Cons retryable_not_failing same m split: if_splits)
qed simp

section \<open>What the target was told\<close>

lemma expandToPartialErr_apply [simp]:
  "expandToPartialErr rcpts err errs r = (if r \<in> set rcpts then Some err else errs r)"
  by (induction rcpts arbitrary: errs) (auto simp: expandToPartialErr_def)

lemma SetStatus_simps [simp]: "SetStatus m r None = m" "SetStatus m r (Some e) = m(r \<mapsto> e)"
  by (simp_all add: SetStatus_def)

lemma foldl_SetStatus:
  "foldl (\<lambda>m (r, e). SetStatus m r e) errs sts r = None \<longleftrightarrow>
    errs r = None \<and> \<not> list_ex (\<lambda>(r', e). r' = r \<and> e \<noteq> None) sts"
proof (induction sts arbitrary: errs)
  case (Cons x sts)
  obtain a b where x: "x = (a, b)" by fastforce
  show ?case by (cases b) (auto simp: x Cons.IH)
qed simp

lemma add_rcpts_spec:
  assumes "add_rcpts tgt rs w errs acc calls = (w', errs', acc', calls')"
  shows "\<exists>rcs. calls' = calls @ map (\<lambda>(r, e). CRcpt r e) rcs \<and> map fst rcs = rs
    \<and> acc' = acc @ map fst (filter (\<lambda>(r, e). e = None) rcs)
    \<and> (\<forall>r. errs' r = None \<longleftrightarrow> errs r = None \<and> (\<forall>e. (r, Some e) \<notin> set rcs))"
  using assms
proof (induction rs arbitrary: w errs acc calls)
  case (Cons x rs)
  obtain v e where ae: "t_AddRcpt tgt w x = (v, e)" by fastforce
  show ?case
  proof (cases e)
    case None
    with Cons.prems ae have "add_rcpts tgt rs v errs (acc @ [x]) (calls @ [CRcpt x None]) = (w', errs', acc', calls')"
      by simp
    from Cons.IH [OF this] obtain rcs where r: "calls' = (calls @ [CRcpt x None]) @ map (\<lambda>(r, e). CRcpt r e) rcs"
      "map fst rcs = rs" "acc' = (acc @ [x]) @ map fst (filter (\<lambda>(r, e). e = None) rcs)"
      "\<forall>r. errs' r = None \<longleftrightarrow> errs r = None \<and> (\<forall>e. (r, Some e) \<notin> set rcs)" by blast
    then show ?thesis by (intro exI [of _ "(x, None) # rcs"]) simp
  next
    case (Some err)
    with Cons.prems ae have
      "add_rcpts tgt rs v (errs(x \<mapsto> err)) acc (calls @ [CRcpt x (Some err)]) = (w', errs', acc', calls')" by simp
    from Cons.IH [OF this] obtain rcs where
      r: "calls' = (calls @ [CRcpt x (Some err)]) @ map (\<lambda>(r, e). CRcpt r e) rcs"
      "map fst rcs = rs" "acc' = acc @ map fst (filter (\<lambda>(r, e). e = None) rcs)"
      "\<forall>r. errs' r = None \<longleftrightarrow> (errs(x \<mapsto> err)) r = None \<and> (\<forall>e. (r, Some e) \<notin> set rcs)" by blast
    then show ?thesis by (intro exI [of _ "(x, Some err) # rcs"]) auto
  qed
qed simp

text \<open>The result of handing over the body, read off the calls.\<close>

definition closes :: "dcall \<Rightarrow> bool" where
  "closes x = (case x of CAbort _ \<Rightarrow> True | CCommit _ \<Rightarrow> True | _ \<Rightarrow> False)"

definition body_refused :: "dcall list \<Rightarrow> string \<Rightarrow> bool" where
  "body_refused calls r =
    list_ex (\<lambda>x. case x of
        CBody e \<Rightarrow> e \<noteq> None
      | CBodyNonAtomic sts \<Rightarrow> list_ex (\<lambda>(r', e). r' = r \<and> e \<noteq> None) sts
      | _ \<Rightarrow> False) calls"

definition rcpt_refused :: "dcall list \<Rightarrow> string \<Rightarrow> bool" where
  "rcpt_refused calls r =
    list_ex (\<lambda>x. case x of CRcpt r' e \<Rightarrow> r' = r \<and> e \<noteq> None | _ \<Rightarrow> False) calls"

text \<open>A recipient is delivered when it was accepted, never refused, its body was
  taken and the delivery was committed.\<close>

definition delivered :: "dcall list \<Rightarrow> string \<Rightarrow> bool" where
  "delivered calls r \<longleftrightarrow> CRcpt r None \<in> set calls \<and> \<not> rcpt_refused calls r \<and> \<not> body_refused calls r
    \<and> CCommit None \<in> set calls"

lemma rcpt_refused_iff: "rcpt_refused calls r \<longleftrightarrow> (\<exists>e. CRcpt r (Some e) \<in> set calls)"
  by (induction calls) (auto simp: rcpt_refused_def split: dcall.splits)

lemma send_body_spec:
  assumes "send_body tgt h b acc w errs = (w', errs', bcalls)"
  shows "\<exists>x. bcalls = [x] \<and> \<not> closes x \<and> (\<forall>r e. x \<noteq> CRcpt r e) \<and> (\<forall>e. x \<noteq> CStart e)
    \<and> (\<forall>r \<in> set acc. errs' r = None \<longleftrightarrow> errs r = None \<and> \<not> body_refused [x] r)
    \<and> (\<forall>r. errs' r = None \<longrightarrow> errs r = None)"
  using assms
  by (auto simp: send_body_def closes_def body_refused_def foldl_SetStatus
      split: option.splits prod.splits if_splits)

lemma deliver_cases:
  assumes "deliver env q meta h b w = (errs, w', calls)"
  obtains (refused) e where "calls = [CStart (Some e)]" "\<And>r. r \<in> set (qm_To meta) \<Longrightarrow> errs r = Some e"
  | (nobody) rcs e where "calls = CStart None # map (\<lambda>(r, e). CRcpt r e) rcs @ [CAbort e]"
      "map fst rcs = qm_To meta" "\<And>r. (r, None) \<notin> set rcs"
      "\<And>r. errs r = None \<longleftrightarrow> (\<forall>e. (r, Some e) \<notin> set rcs)"
  | (sent) rcs x y where "calls = CStart None # map (\<lambda>(r, e). CRcpt r e) rcs @ [x, y]"
      "map fst rcs = qm_To meta" "\<not> closes x" "\<forall>r e. x \<noteq> CRcpt r e" "closes y"
      "\<And>r. (r, None) \<in> set rcs \<Longrightarrow> errs r = None \<longleftrightarrow>
        (\<forall>e. (r, Some e) \<notin> set rcs) \<and> \<not> body_refused [x] r \<and> y = CCommit None"
      "\<And>r. errs r = None \<Longrightarrow> (\<forall>e. (r, Some e) \<notin> set rcs)"
proof -
  define mm where "mm = (DeepCopy (qm_MsgMeta meta))\<lparr>mm_ID := mm_ID (DeepCopy (qm_MsgMeta meta)) @ ''-''
    @ FormatInt (qe_nowDeliver env div secondNs) 16\<rparr>"
  obtain w1 r1 where st: "t_Start (q_Target q) w mm (qm_From meta) = (w1, r1)" by fastforce
  note D = assms [unfolded deliver_def Let_def, folded mm_def, unfolded st]
  show thesis
  proof (cases r1)
    case (Some e)
    with D show thesis by (intro refused [of e]) auto
  next
    case None
    obtain w2 errs2 acc calls2 where ar:
      "add_rcpts (q_Target q) (qm_To meta) w1 Map.empty [] [CStart None] = (w2, errs2, acc, calls2)"
      by (metis prod.collapse)
    from add_rcpts_spec [OF ar] obtain rcs where rc: "calls2 = CStart None # map (\<lambda>(r, e). CRcpt r e) rcs"
      "map fst rcs = qm_To meta" "acc = map fst (filter (\<lambda>(r, e). e = None) rcs)"
      "\<And>r. errs2 r = None \<longleftrightarrow> (\<forall>e. (r, Some e) \<notin> set rcs)"
      by auto
    have acc: "r \<in> set acc \<longleftrightarrow> (r, None) \<in> set rcs" for r
      using rc(3) by force
    show thesis
    proof (cases "acc = []")
      case True
      obtain w3 r3 where "t_Abort (q_Target q) w2 = (w3, r3)" by fastforce
      with D None ar True rc acc show thesis by (intro nobody [of rcs r3]) auto
    next
      case False
      obtain w3 errs3 bc where sb: "send_body (q_Target q) h b acc w2 errs2 = (w3, errs3, bc)"
        by (metis prod.collapse)
      from send_body_spec [OF sb] obtain x where x: "bc = [x]" "\<not> closes x" "\<forall>r e. x \<noteq> CRcpt r e"
        "\<forall>r \<in> set acc. errs3 r = None \<longleftrightarrow> errs2 r = None \<and> \<not> body_refused [x] r"
        "\<forall>r. errs3 r = None \<longrightarrow> errs2 r = None" by blast
      obtain w4 r4 w5 r5 where ac: "t_Abort (q_Target q) w3 = (w4, r4)" "t_Commit (q_Target q) w3 = (w5, r5)"
        by (metis prod.collapse)
      note E = D None ar False sb ac x(1) rc(1)
      show thesis
      proof (cases "list_all (\<lambda>r. errs3 r \<noteq> None) acc")
        case True
        with E have "errs = errs3" "calls = CStart None # map (\<lambda>(r, e). CRcpt r e) rcs @ [x, CAbort r4]" by auto
        moreover have "errs3 r \<noteq> None" if "(r, None) \<in> set rcs" for r
          using True acc that by (auto simp: list_all_iff)
        ultimately show thesis
          using x(2,3,5) rc(2,4) by (intro sent [of rcs x "CAbort r4"]) (simp_all add: closes_def)
      next
        case False
        with E have "errs = (case r5 of None \<Rightarrow> errs3 | Some e \<Rightarrow> expandToPartialErr acc e errs3)"
          "calls = CStart None # map (\<lambda>(r, e). CRcpt r e) rcs @ [x, CCommit r5]"
          by (auto split: option.splits)
        with x rc acc show thesis
          by (intro sent [of rcs x "CCommit r5"]) (auto simp: closes_def split: option.splits if_splits)
      qed
    qed
  qed
qed

section \<open>Recovery\<close>

definition complete :: "os_env \<Rightarrow> string \<Rightarrow> disk \<Rightarrow> bool" where
  "complete env i d \<longleftrightarrow> (case readMessageMeta env i d of Inl _ \<Rightarrow> False | Inr _ \<Rightarrow> True)
    \<and> os_Stat env (hdr_file i) d = None \<and> os_Stat env (body_file i) d = None"

lemma other_names:
  assumes "i \<noteq> j"
  shows "i @ ''.meta'' \<noteq> j @ ''.meta''" "i @ ''.meta'' \<noteq> j @ ''.body''" "i @ ''.meta'' \<noteq> j @ ''.header''"
    "i @ ''.body'' \<noteq> j @ ''.meta''" "i @ ''.body'' \<noteq> j @ ''.body''" "i @ ''.body'' \<noteq> j @ ''.header''"
    "i @ ''.header'' \<noteq> j @ ''.meta''" "i @ ''.header'' \<noteq> j @ ''.body''" "i @ ''.header'' \<noteq> j @ ''.header''"
  using assms by (auto dest: arg_cong [of _ _ last])

lemma complete_cong:
  assumes "d (meta_file i) = d' (meta_file i)" "d (hdr_file i) = d' (hdr_file i)" "d (body_file i) = d' (body_file i)"
  shows "complete env i d = complete env i d'"
  unfolding complete_def readMessageMeta_def os_Open_def os_Stat_def assms by (rule refl)

lemma dangling_other: "p \<noteq> x \<Longrightarrow> tryRemoveDanglingFile env x d p = d p"
  by (simp add: tryRemoveDanglingFile_def os_Remove_other)

lemma load_entry_keeps:
  assumes "complete (qe_os env) i (qs_disk st)"
  shows "complete (qe_os env) i (qs_disk (load_entry env q entry st))"
proof -
  obtain name dir where e: "entry = (name, dir)" by fastforce
  define j where "j = take (length name - 5) name"
  show ?thesis
  proof (cases "i = j")
    case True
    then show ?thesis
      using assms by (auto simp: load_entry_def e Let_def complete_def j_def [symmetric] split: sum.splits option.splits)
  next
    case False
    have keep: "complete (qe_os env) i (tryRemoveDanglingFile (qe_os env) x (tryRemoveDanglingFile (qe_os env) y d))
        = complete (qe_os env) i d" if "x \<in> {meta_file j, body_file j, hdr_file j}" "y \<in> {meta_file j, body_file j, hdr_file j}"
      for x y d
      using that other_names [OF False] by (intro complete_cong) (auto simp: dangling_other)
    show ?thesis
      using assms
      by (auto simp: load_entry_def e Let_def j_def [symmetric] keep split: sum.splits option.splits)
  qed
qed

lemma load_entry_wheel:
  shows "mset (tw_slots (qs_wheel st)) \<subseteq># mset (tw_slots (qs_wheel (load_entry env q entry st)))"
    and "tw_stopped (qs_wheel (load_entry env q entry st)) = tw_stopped (qs_wheel st)"
  by (auto simp: load_entry_def Let_def twq.running_add [simplified] intro: twq.pending_mono
      split: prod.splits sum.splits option.splits)

lemma load_entry_schedules:
  assumes "complete (qe_os env) i (qs_disk st)" "\<not> tw_stopped (qs_wheel st)"
  shows "\<exists>t. TimeSlot t \<lparr>slot_ID = i, slot_Msg = None\<rparr>
    \<in># mset (tw_slots (qs_wheel (load_entry env q (meta_file i, False) st)))"
  using assms twq.add_in_pending [OF assms(2)]
  by (auto simp: load_entry_def Let_def complete_def HasSuffix_def split: sum.splits)

lemma load_all:
  assumes "complete (qe_os env) i (qs_disk st)" "\<not> tw_stopped (qs_wheel st)"
    "(meta_file i, False) \<in> set entries \<or> (\<exists>t. TimeSlot t \<lparr>slot_ID = i, slot_Msg = None\<rparr> \<in># mset (tw_slots (qs_wheel st)))"
  shows "\<exists>t. TimeSlot t \<lparr>slot_ID = i, slot_Msg = None\<rparr>
    \<in># mset (tw_slots (qs_wheel (foldl (\<lambda>st entry. load_entry env q entry st) st entries)))"
  using assms
proof (induction entries arbitrary: st)
  case (Cons e es)
  let ?st = "load_entry env q e st"
  have "(meta_file i, False) \<in> set es \<or> (\<exists>t. TimeSlot t \<lparr>slot_ID = i, slot_Msg = None\<rparr> \<in># mset (tw_slots (qs_wheel ?st)))"
    using Cons.prems load_entry_schedules [of env i st q] load_entry_wheel(1) [of st env q e]
    by (auto dest: mset_subset_eqD)
  from Cons.IH [OF load_entry_keeps [OF Cons.prems(1)] _ this] Cons.prems(2)
  show ?case by (simp add: load_entry_wheel(2))
qed simp

section \<open>One attempt as a whole\<close>

lemma updateMetadataOnDisk_fine:
  "snd (updateMetadataOnDisk os_fine meta d) = None"
  by (simp add: updateMetadataOnDisk_def update_states_def disk_defs os_fine_def Let_def)

lemma removeFromDisk_fine:
  assumes "p \<in> {hdr_file (mm_ID m), body_file (mm_ID m), meta_file (mm_ID m)}"
  shows "removeFromDisk os_fine m d p = None"
  using assms by (auto simp: removeFromDisk_def Let_def os_Remove_def os_fine_def)

lemma tryDelivery_no_panic: "snd (tryDelivery env q meta h b st) = False"
proof -
  obtain errs w calls where d: "deliver env q meta h b (qs_world st) = (errs, w, calls)"
    by (metis prod.collapse)
  obtain re c n f s where t: "try_loop (q_maxTries q) errs (qm_To meta)
      (qm_RcptErrs meta, qm_TriesCount meta, [], [], 999999) = (re, c, n, f, s)"
    by (metis prod.collapse)
  have "set f \<subseteq> dom (qm_RcptErrs (meta\<lparr>qm_RcptErrs := re, qm_TriesCount := c\<rparr>))"
    using try_loop_errs [OF t] by simp
  from emitDSN_total [OF this, of env q h w] show ?thesis
    by (auto simp: tryDelivery_def d t Let_def split: option.splits)
qed

lemma tryDelivery_result:
  assumes "distinct (qm_To meta)" "deliver env q meta h b (qs_world st) = (errs, w, calls)"
    and "retry = filter (retryable (q_maxTries q) errs (qm_TriesCount meta)) (qm_To meta)"
  obtains "retry = []" "qs_wheel (fst (tryDelivery env q meta h b st)) = qs_wheel st"
      "qs_disk (fst (tryDelivery env q meta h b st)) = removeFromDisk (qe_os env) (qm_MsgMeta meta) (qs_disk st)"
  | m where "retry \<noteq> []" "qm_MsgMeta m = qm_MsgMeta meta" "qm_To m = retry"
      "\<forall>r \<in> set retry. tries (qm_TriesCount m) r = tries (qm_TriesCount meta) r + 1"
      "qs_disk (fst (tryDelivery env q meta h b st)) = fst (updateMetadataOnDisk (qe_os env) m (qs_disk st))"
      "qs_wheel (fst (tryDelivery env q meta h b st)) =
        tw_Add (qe_nowNext env + retry_delay q
            (fold min (map (\<lambda>r. tries (qm_TriesCount meta) r + 1) retry) 999999))
          \<lparr>slot_ID = mm_ID (qm_MsgMeta meta), slot_Msg = None\<rparr> (qs_wheel st)"
proof -
  obtain re c n f s where t: "try_loop (q_maxTries q) errs (qm_To meta)
      (qm_RcptErrs meta, qm_TriesCount meta, [], [], 999999) = (re, c, n, f, s)"
    by (metis prod.collapse)
  have n: "n = retry" and s: "s = fold min (map (\<lambda>r. tries (qm_TriesCount meta) r + 1) retry) 999999"
    using try_loop_split [OF assms(1) t] try_loop_smallest [OF assms(1) t] assms(3) by auto
  have c: "\<forall>r \<in> set retry. tries c r = tries (qm_TriesCount meta) r + 1"
    using try_loop_tries [OF assms(1) t] assms(3) by auto
  let ?m = "meta\<lparr>qm_RcptErrs := re, qm_TriesCount := c\<rparr>"
  obtain w' where w: "(if f \<noteq> [] then emitDSN env q ?m h f w else Some w) = Some w'"
    using tryDelivery_no_panic [of env q meta h b st]
    by (auto simp: tryDelivery_def assms(2) t Let_def split: option.splits)
  show thesis
  proof (cases "retry = []")
    case True
    with w n show thesis by (intro that(1)) (simp_all add: tryDelivery_def assms(2) t Let_def split del: if_split)
  next
    case False
    with w n c show thesis
      by (intro that(2) [of "?m\<lparr>qm_To := n, qm_LastAttempt := qe_nowLast env\<rparr>"])
        (simp_all add: tryDelivery_def assms(2) t Let_def s split del: if_split)
  qed
qed

section \<open>Repeated attempts\<close>

text \<open>A message at rest: its three files are there and each of its distinct
  recipients has been tried at least \<open>k\<close> times.\<close>

definition at_rest :: "int \<Rightarrow> string \<Rightarrow> disk \<Rightarrow> bool" where
  "at_rest k i d \<longleftrightarrow>
    (case (d (meta_file i), d (hdr_file i), d (body_file i)) of
       (Some (FMeta m), Some (FHeader _), Some _) \<Rightarrow>
          mm_ID (qm_MsgMeta m) = i \<and> distinct (qm_To m) \<and> list_all (\<lambda>r. k \<le> tries (qm_TriesCount m) r) (qm_To m)
     | _ \<Rightarrow> False)"

lemma at_rest_iff: "at_rest k i d \<longleftrightarrow> (\<exists>m h f. d (meta_file i) = Some (FMeta m) \<and> d (hdr_file i) = Some (FHeader h)
    \<and> d (body_file i) = Some f \<and> mm_ID (qm_MsgMeta m) = i \<and> distinct (qm_To m)
    \<and> (\<forall>r \<in> set (qm_To m). k \<le> tries (qm_TriesCount m) r))"
  by (cases "d (meta_file i)"; cases "d (hdr_file i)"; cases "d (body_file i)")
    (simp_all add: at_rest_def list_all_iff split: qfile.split)

lemma openMessage_fine:
  assumes "d (meta_file i) = Some (FMeta m)" "d (hdr_file i) = Some (FHeader h)" "d (body_file i) = Some f"
  shows "openMessage os_fine i d = (d, Inr (m, h, body_file i))"
  using assms by (simp add: openMessage_def readMessageMeta_def os_Open_def os_Stat_def os_fine_def)

lemma dispatch_gone:
  assumes "qs_disk st (meta_file i) = None" "qe_os env = os_fine"
  shows "dispatch env q \<lparr>slot_ID = i, slot_Msg = None\<rparr> st = st"
  using assms by (simp add: dispatch_def openMessage_def readMessageMeta_def os_Open_def os_fine_def)

lemma dispatch_step:
  assumes "at_rest k i (qs_disk st)" "qe_os env = os_fine"
  shows "qs_disk (dispatch env q \<lparr>slot_ID = i, slot_Msg = None\<rparr> st) (meta_file i) = None
    \<or> (at_rest (k + 1) i (qs_disk (dispatch env q \<lparr>slot_ID = i, slot_Msg = None\<rparr> st)) \<and> k + 1 < q_maxTries q)"
proof -
  from assms(1) obtain m h f where m: "qs_disk st (meta_file i) = Some (FMeta m)" "qs_disk st (hdr_file i) = Some (FHeader h)"
    "qs_disk st (body_file i) = Some f" "mm_ID (qm_MsgMeta m) = i" "distinct (qm_To m)"
    "\<forall>r \<in> set (qm_To m). k \<le> tries (qm_TriesCount m) r"
    by (auto simp: at_rest_iff)
  have ds: "dispatch env q \<lparr>slot_ID = i, slot_Msg = None\<rparr> st = fst (tryDelivery env q m h (body_file i) st)"
    using tryDelivery_no_panic [of env q m h "body_file i" st]
    by (auto simp: dispatch_def Let_def assms(2) openMessage_fine [OF m(1-3)] split: prod.splits)
  obtain errs w calls where d: "deliver env q m h (body_file i) (qs_world st) = (errs, w, calls)"
    by (metis prod.collapse)
  show ?thesis
    using m(5) d refl
  proof (cases rule: tryDelivery_result [where st = st])
    case 1
    then show ?thesis using assms(2) m(4) by (simp add: ds removeFromDisk_fine)
  next
    case (2 m')
    have "updateMetadataOnDisk (qe_os env) m' (qs_disk st) = (qs_disk (fst (tryDelivery env q m h (body_file i) st)), None)"
      using 2(5) assms(2) updateMetadataOnDisk_fine [of m' "qs_disk st"] by (metis prod.collapse)
    note u = updateMetadataOnDisk_ok [OF this, unfolded 2(2) m(4)]
    from 2(1) obtain r where "r \<in> set (qm_To m)" "retryable (q_maxTries q) errs (qm_TriesCount m) r"
      by (auto simp: filter_empty_conv)
    then have "k + 1 < q_maxTries q" using m(6) by (fastforce simp: retryable_def split: option.splits)
    moreover have "at_rest (k + 1) i (qs_disk (fst (tryDelivery env q m h (body_file i) st)))"
      using u 2(2,3,4) m by (auto simp: at_rest_iff meta_copy_def DeepCopy_def)
    ultimately show ?thesis by (simp add: ds)
  qed
qed

lemma dispatch_run:
  assumes "\<forall>env \<in> set envs. qe_os env = os_fine" "at_rest k i (qs_disk st)" "q_maxTries q \<le> k + int (length envs)"
    "envs \<noteq> []"
  shows "qs_disk (foldl (\<lambda>st env. dispatch env q \<lparr>slot_ID = i, slot_Msg = None\<rparr> st) st envs) (meta_file i) = None"
  using assms
proof (induction envs arbitrary: st k)
  case (Cons env envs)
  have gone: "qs_disk (foldl (\<lambda>st env. dispatch env q \<lparr>slot_ID = i, slot_Msg = None\<rparr> st) st es) (meta_file i) = None"
    if "qs_disk st (meta_file i) = None" "\<forall>env \<in> set es. qe_os env = os_fine" for st es
    using that by (induction es arbitrary: st) (simp_all add: dispatch_gone)
  from dispatch_step [OF Cons.prems(2), of env q] Cons.prems(1)
  consider "qs_disk (dispatch env q \<lparr>slot_ID = i, slot_Msg = None\<rparr> st) (meta_file i) = None"
    | "at_rest (k + 1) i (qs_disk (dispatch env q \<lparr>slot_ID = i, slot_Msg = None\<rparr> st))" "k + 1 < q_maxTries q"
    by auto
  then show ?case
  proof cases
    case 1
    then show ?thesis using Cons.prems(1) gone by simp
  next
    case 2
    then have "envs \<noteq> []" using Cons.prems(3) by auto
    then show ?thesis using 2 Cons.prems by (simp add: Cons.IH [OF _ 2(1)])
  qed
qed simp

section \<open>Observations\<close>

text \<open>The enhanced code of an \<open>exterrors.SMTPError\<close> is not taken over: the field
  holds the type of package \<open>exterrors\<close>, the assertion asks for that of
  package \<open>smtp\<close>.\<close>

lemma toSMTPErr_drops_enhanced:
  assumes "fields_wf (SMTPError c ec m cn tn e r mi)"
  shows "sm_EnhancedCode (toSMTPErr (SMTPError c ec m cn tn e r mi)) \<in> {(4, 0, 0), (5, 0, 0)}"
proof -
  let ?F = "Fields (SMTPError c ec m cn tn e r mi)"
  have keep: "sm_EnhancedCode (case x of Some (FInt k) \<Rightarrow> s\<lparr>sm_Code := k\<rparr> | _ \<Rightarrow> s) = sm_EnhancedCode s"
    "sm_EnhancedCode (case x of Some (FStr t) \<Rightarrow> s\<lparr>sm_Message := t\<rparr> | _ \<Rightarrow> s) = sm_EnhancedCode s" for x s
    by (simp_all split: option.split fval.split)
  show ?thesis
    by (simp add: toSMTPErr_def Let_def Fields_SMTPError_ench [OF assms] keep)
qed

text \<open>A recipient that is listed twice and runs out of tries is reported as failed
  and put back on the list.\<close>

lemma duplicate_rcpt_requeued:
  assumes "errs r = Some e" "IsTemporaryOrUnspec e" "tries c r + 1 = mt" "1 < mt"
  shows "\<exists>re c' s'. try_loop mt errs [r, r] (re0, c, [], [], s) = (re, c', [r], [r], s')"
  using assms by (simp add: try_loop_Cons retryable_def failing_def)

text \<open>With factor 1.25 the first four delays are equal.\<close>

lemma first_delays_equal:
  assumes "q_pow q = (\<lambda>k. 5 ^ nat k div 4 ^ nat k)" "n \<in> {1, 2, 3, 4}"
  shows "retry_delay q n = retry_delay q 1"
  using assms by (auto simp: retry_delay_def)

text \<open>A failure to create the body file leaves the header file behind.\<close>

lemma header_left_behind:
  assumes "i = mm_ID (qm_MsgMeta meta)"
  shows "fst (storeNewMessage (os_fine\<lparr>os_create := (\<lambda>f. if f = body_file i then Some e else None)\<rparr>)
      None meta h b d) (hdr_file i) = Some (FHeader h)"
  using assms by (simp add: storeNewMessage_def os_Create_def os_Write_def os_fine_def Let_def)

end
