(* ===== verification/QueueProps.thy ===== *)
theory QueueProps
  imports Queue
begin

text \<open>
  Properties of the delivery queue: what an attempt reports against what the
  target was told, that no recipient is lost between attempts, the bound on the
  number of attempts, that an accepted message survives a restart and that an
  interrupted metadata update leaves a readable file.
\<close>

section \<open>A concrete queue\<close>

text \<open>A target that refuses the recipient \<open>b\<close> for the moment and takes the rest,
  counting the calls.\<close>

definition demo_busy :: go_err where
  "demo_busy = SMTPError 451 (4, 7, 1) ''busy'' [] [] None [] []"

definition demo_target :: "nat target" where
  "demo_target = \<lparr>t_Start = (\<lambda>w _ _. (w + 1, None)),
     t_AddRcpt = (\<lambda>w r. (w + 1, if r = ''b'' then Some demo_busy else None)),
     t_BodyNonAtomic = None, t_Body = (\<lambda>w _ _. (w + 1, None)),
     t_Abort = (\<lambda>w. (w + 1, None)), t_Commit = (\<lambda>w. (w + 1, None))\<rparr>"

definition demo_queue :: "nat queue" where
  "demo_queue = \<lparr>q_hostname = ''mx'', q_autogenMsgDomain = ''mx'', q_initialRetryTime = 900 * secondNs,
     q_pow = (\<lambda>k. 5 ^ nat k div 4 ^ nat k), q_maxTries = 20, q_postInitDelay = 10 * secondNs,
     q_Target = demo_target, q_dsnPipeline = None\<rparr>"

definition demo_env :: qenv where
  "demo_env = \<lparr>qe_os = os_fine, qe_lib = ascii_lib, qe_fmt = (\<lambda>_. []), qe_show = (\<lambda>_. []), qe_boundary = ''b'',
     qe_render = (\<lambda>_. []), qe_smtpText = (\<lambda>_. []), qe_rand = ([1, 2, 3, 4], None),
     qe_nowDeliver = 0, qe_nowLast = 1, qe_nowNext = 2\<rparr>"

definition demo_msg :: msg_meta where
  "demo_msg = \<lparr>mm_ID = ''m1'', mm_OriginalFrom = ''s'', mm_DontTraceSender = False, mm_Quarantine = False,
     mm_OriginalRcpts = Map.empty, mm_UTF8 = False, mm_RequireTLS = False, mm_Conn = None,
     mm_TLSRequireOverride = False\<rparr>"

definition demo_meta :: queue_meta where
  "demo_meta = \<lparr>qm_MsgMeta = demo_msg, qm_From = ''s'', qm_To = [''a'', ''b''], qm_FailedRcpts = [],
     qm_TemporaryFailedRcpts = [], qm_RcptErrs = Map.empty, qm_TriesCount = [],
     qm_FirstAttempt = 0, qm_LastAttempt = 0\<rparr>"

definition demo_state :: "nat qstate" where
  "demo_state = \<lparr>qs_disk = Map.empty, qs_wheel = NewTimeWheel 0, qs_world = 0\<rparr>"

definition demo_calls :: "dcall list" where
  "demo_calls = [CStart None, CRcpt ''a'' None, CRcpt ''b'' (Some demo_busy), CBody None, CCommit None]"

lemma demo_deliver:
  "deliver demo_env demo_queue demo_meta [] [] 0 = ([''b'' \<mapsto> demo_busy], 5, demo_calls)"
  by (simp add: deliver_def demo_queue_def demo_target_def demo_meta_def demo_calls_def send_body_def Let_def)

lemma demo_retryable:
  "retryable 20 [''b'' \<mapsto> demo_busy] [] r \<longleftrightarrow> r = ''b''"
  by (auto simp: retryable_def demo_busy_def IsTemporaryOrUnspec_def SMTPError_Temporary_def go_div_def)

section \<open>Properties\<close>

text \<open>C5: the attempt reports the truth. For a recipient of the message,
  \<open>deliver\<close> reports no error exactly when the target accepted the recipient
  and never refused it, took the body for it and committed the delivery. So no
  recipient is dropped as delivered when it was not, and none is retried after
  it was.\<close>

theorem deliver_reports_truth:
  assumes "deliver env q meta h b w = (errs, w', calls)" and "r \<in> set (qm_To meta)"
  shows "errs r = None \<longleftrightarrow> delivered calls r"
proof -
  have inr: "(r, None) \<in> set rcs \<or> (\<exists>e. (r, Some e) \<in> set rcs)" if "map fst rcs = qm_To meta" for rcs :: "(string \<times> go_err option) list"
    using assms(2) that by (metis (no_types, lifting) imageE list.set_map option.exhaust prod.collapse)
  from assms(1) show ?thesis
  proof (cases rule: deliver_cases)
    case (refused e)
    then show ?thesis using assms(2) by (simp add: delivered_def)
  next
    case (nobody rcs e)
    then show ?thesis using inr [of rcs] by (auto simp: delivered_def)
  next
    case (sent rcs x y)
    have br: "body_refused calls r = body_refused [x] r"
      using sent(1,5) by (auto simp: body_refused_def closes_def list_ex_iff split: dcall.splits)
    have rr: "rcpt_refused calls r \<longleftrightarrow> (\<exists>e. (r, Some e) \<in> set rcs)"
      using sent(4,5) by (force simp: sent(1) closes_def rcpt_refused_iff)
    have acc: "CRcpt r None \<in> set calls \<longleftrightarrow> (r, None) \<in> set rcs"
      using sent(4,5) by (force simp: sent(1) closes_def)
    have com: "CCommit None \<in> set calls \<longleftrightarrow> y = CCommit None"
      using sent(3) by (auto simp: sent(1) closes_def)
    show ?thesis
      unfolding delivered_def br rr acc com
      using sent(6) [of r] sent(7) [of r] inr [OF sent(2)] by blast
  qed
qed

theorem deliver_reports_truth_witness:
  "deliver demo_env demo_queue demo_meta [] [] 0 = ([''b'' \<mapsto> demo_busy], 5, demo_calls)
    \<and> ''a'' \<in> set (qm_To demo_meta) \<and> delivered demo_calls ''a''"
  using deliver_reports_truth [OF demo_deliver, of "''a''"] demo_deliver by (simp add: demo_meta_def)

text \<open>C25: calls on the target follow the protocol of a delivery: a refused start is
  the only call; otherwise exactly one \<open>Abort\<close> or \<open>Commit\<close> is made and it
  is the last call.\<close>

theorem deliver_protocol:
  "(\<exists>e. snd (snd (deliver env q meta h b w)) = [CStart (Some e)])
    \<or> (\<exists>pre x. snd (snd (deliver env q meta h b w)) = CStart None # pre @ [x] \<and> closes x \<and> filter closes pre = [])"
proof -
  obtain errs w' calls where d: "deliver env q meta h b w = (errs, w', calls)"
    by (metis prod.collapse)
  have nc: "filter closes (map (\<lambda>(r, e). CRcpt r e) rcs) = []" for rcs
    by (auto simp: closes_def filter_empty_conv)
  from d show ?thesis
  proof (cases rule: deliver_cases)
    case (refused e)
    then show ?thesis by (simp add: d)
  next
    case (nobody rcs e)
    then have "snd (snd (deliver env q meta h b w)) = CStart None # map (\<lambda>(r, e). CRcpt r e) rcs @ [CAbort e]"
      by (simp add: d)
    with nc show ?thesis by (intro disjI2 exI conjI) (assumption, simp_all add: closes_def)
  next
    case (sent rcs x y)
    then have "snd (snd (deliver env q meta h b w)) = CStart None # (map (\<lambda>(r, e). CRcpt r e) rcs @ [x]) @ [y]"
      by (simp add: d)
    with nc sent(3,5) show ?thesis by (intro disjI2 exI conjI) (assumption, simp_all)
  qed
qed

text \<open>C6: nothing is lost in an attempt. For a message with distinct recipients, with
  storage that works without errors and renames files (not that of Windows) and a wheel
  that was not stopped, either nobody is left to retry and all files of the message are gone, or
  exactly the recipients with a temporary error and tries left are written back,
  each with its counter increased by one, and the message is scheduled again.\<close>

theorem attempt_loses_nothing:
  assumes "distinct (qm_To meta)" and "qe_os env = os_fine" and "\<not> tw_stopped (qs_wheel st)"
    and "deliver env q meta h b (qs_world st) = (errs, w, calls)"
    and "retry = filter (retryable (q_maxTries q) errs (qm_TriesCount meta)) (qm_To meta)"
    and "st' = fst (tryDelivery env q meta h b st)" and "i = mm_ID (qm_MsgMeta meta)"
  shows "if retry = [] then qs_wheel st' = qs_wheel st \<and> qs_disk st' (meta_file i) = None
      \<and> qs_disk st' (hdr_file i) = None \<and> qs_disk st' (body_file i) = None
    else (\<exists>t. mset (tw_slots (qs_wheel st')) =
          add_mset (TimeSlot t \<lparr>slot_ID = i, slot_Msg = None\<rparr>) (mset (tw_slots (qs_wheel st))))
      \<and> (\<exists>m. qs_disk st' (meta_file i) = Some (FMeta m) \<and> qm_To m = retry
          \<and> (\<forall>r \<in> set retry. tries (qm_TriesCount m) r = tries (qm_TriesCount meta) r + 1))
      \<and> qs_disk st' (hdr_file i) = qs_disk st (hdr_file i) \<and> qs_disk st' (body_file i) = qs_disk st (body_file i)"
  using assms(1,4,5)
proof (cases rule: tryDelivery_result [where st = st])
  case 1
  then show ?thesis using assms(2,6,7) by (simp add: removeFromDisk_fine)
next
  case (2 m)
  have "updateMetadataOnDisk (qe_os env) m (qs_disk st) = (qs_disk st', None)"
    using 2(5) assms(2,6) updateMetadataOnDisk_fine [of m "qs_disk st"] by (metis prod.collapse)
  note u = updateMetadataOnDisk_ok [OF this, unfolded 2(2) assms(7) [symmetric]]
  have "mset (tw_slots (qs_wheel st')) = add_mset
      (TimeSlot (qe_nowNext env + retry_delay q (fold min (map (\<lambda>r. tries (qm_TriesCount meta) r + 1) retry) 999999))
        \<lparr>slot_ID = i, slot_Msg = None\<rparr>) (mset (tw_slots (qs_wheel st)))"
    unfolding assms(6,7) 2(6) using assms(3) by (rule twq.pending_add)
  with u 2(1,3,4) show ?thesis by (auto simp: meta_copy_def)
qed

theorem attempt_loses_nothing_witness:
  "\<not> tw_stopped (qs_wheel demo_state)
    \<and> (\<exists>m. qs_disk (fst (tryDelivery demo_env demo_queue demo_meta [] [] demo_state)) ''m1.meta'' = Some (FMeta m)
          \<and> qm_To m = [''b''])"
proof -
  have 1: "distinct (qm_To demo_meta)" "qe_os demo_env = os_fine" "\<not> tw_stopped (qs_wheel demo_state)"
    by (simp_all add: demo_meta_def demo_env_def demo_state_def NewTimeWheel_def)
  have 2: "deliver demo_env demo_queue demo_meta [] [] (qs_world demo_state) = ([''b'' \<mapsto> demo_busy], 5, demo_calls)"
    by (simp add: demo_deliver demo_state_def)
  have 3: "[''b''] = filter (retryable (q_maxTries demo_queue) [''b'' \<mapsto> demo_busy] (qm_TriesCount demo_meta)) (qm_To demo_meta)"
    by (simp add: demo_queue_def demo_meta_def demo_retryable)
  from attempt_loses_nothing [OF 1 2 3 refl refl] 1(3) show ?thesis
    by (auto simp: demo_meta_def demo_msg_def)
qed

text \<open>C7: the number of attempts is bounded. Let the recipients of a stored message be
  distinct and each of them tried at least \<open>k\<close> times before. Whatever the target
  answers, after at least one dispatch and at least as many as the configured maximum
  exceeds \<open>k\<close>, the metadata of the message is gone from the disk. The storage works
  without errors in these dispatches and renames files (it is not that of Windows).\<close>

theorem dispatches_bounded:
  assumes "at_rest k i (qs_disk st)" and "\<forall>env \<in> set envs. qe_os env = os_fine"
    and "envs \<noteq> []" and "q_maxTries q \<le> k + int (length envs)"
  shows "qs_disk (foldl (\<lambda>st env. dispatch env q \<lparr>slot_ID = i, slot_Msg = None\<rparr> st) st envs) (meta_file i) = None"
  by (rule dispatch_run [OF assms(2,1,4,3)])

theorem dispatches_bounded_witness:
  "at_rest 0 ''m1'' [''m1.meta'' \<mapsto> FMeta demo_meta, ''m1.header'' \<mapsto> FHeader [], ''m1.body'' \<mapsto> FBody []]
    \<and> qs_disk (foldl (\<lambda>st env. dispatch env demo_queue \<lparr>slot_ID = ''m1'', slot_Msg = None\<rparr> st)
        (demo_state\<lparr>qs_disk := [''m1.meta'' \<mapsto> FMeta demo_meta, ''m1.header'' \<mapsto> FHeader [], ''m1.body'' \<mapsto> FBody []]\<rparr>)
        (replicate 20 demo_env)) (meta_file ''m1'') = None"
proof -
  have r: "at_rest 0 ''m1'' [''m1.meta'' \<mapsto> FMeta demo_meta, ''m1.header'' \<mapsto> FHeader [], ''m1.body'' \<mapsto> FBody []]"
    by (simp add: at_rest_def demo_meta_def demo_msg_def)
  show ?thesis
    by (rule conjI [OF r], rule dispatches_bounded [of 0]) (simp_all add: r, simp_all add: demo_env_def demo_queue_def)
qed

text \<open>An attempt never panics: every recipient it gives up on has an error to
  report, so the notification is built without a missing entry.\<close>

lemma attempt_never_panics: "\<not> snd (tryDelivery env q meta h b st)"
  by (simp add: tryDelivery_no_panic)

text \<open>C8: an accepted message survives a restart. Once \<open>Body\<close> has returned
  without an error, reading the directory after a restart schedules the message,
  whatever other entries the directory has.\<close>

theorem accepted_survives_restart:
  assumes "queue_Body env be header body qd d = Some (qd', d', None)" and "qd_meta qd = Some meta"
    and "i = mm_ID (qm_MsgMeta meta)"
    and "qs_disk st = d'" and "\<not> tw_stopped (qs_wheel st)" and "qe_os env' = os_fine"
    and "(meta_file i, False) \<in> set entries"
  shows "\<exists>t. TimeSlot t \<lparr>slot_ID = i, slot_Msg = None\<rparr>
    \<in> set (tw_slots (qs_wheel (fst (readDiskQueue env' q (Inr entries) st))))"
proof -
  from assms(1,2) obtain p where "storeNewMessage (qe_os env) be meta header body d = (d', Inr p)"
    by (auto simp: queue_Body_def split: prod.splits sum.splits)
  from storeNewMessage_ok [OF this] have "complete (qe_os env') i (qs_disk st)"
    unfolding assms(3,4,6)
    by (simp add: complete_def readMessageMeta_def os_Open_def os_Stat_def os_fine_def)
  from load_all [OF this assms(5) disjI1 [OF assms(7)], of q] show ?thesis
    by (simp add: readDiskQueue_def)
qed

definition demo_delivery :: queue_delivery where
  "demo_delivery = \<lparr>qd_meta = Some demo_meta, qd_header = [], qd_body = None\<rparr>"

definition demo_disk :: disk where
  "demo_disk = [''m1.meta'' \<mapsto> FMeta demo_meta, ''m1.header'' \<mapsto> FHeader [], ''m1.body'' \<mapsto> FBody []]"

lemma demo_body:
  "\<exists>qd'. queue_Body demo_env None [] [] demo_delivery Map.empty = Some (qd', demo_disk, None)"
  by (simp add: queue_Body_def demo_delivery_def storeNewMessage_def updateMetadataOnDisk_def update_states_def
      disk_defs demo_env_def os_fine_def demo_meta_def demo_msg_def demo_disk_def meta_copy_def DeepCopy_def Let_def
      fun_upd_twist)

theorem accepted_survives_restart_witness:
  "\<exists>t. TimeSlot t \<lparr>slot_ID = ''m1'', slot_Msg = None\<rparr>
    \<in> set (tw_slots (qs_wheel (fst (readDiskQueue demo_env demo_queue (Inr [(''x'', True), (''m1.meta'', False)])
        (demo_state\<lparr>qs_disk := demo_disk\<rparr>)))))"
proof -
  from demo_body obtain qd' where q: "queue_Body demo_env None [] [] demo_delivery Map.empty = Some (qd', demo_disk, None)" ..
  show ?thesis
    by (rule accepted_survives_restart [OF q, of demo_meta])
      (simp_all add: demo_delivery_def demo_meta_def demo_msg_def demo_state_def NewTimeWheel_def demo_env_def)
qed

text \<open>C29: an interrupted metadata update is harmless where files are renamed, that is
  on every system but Windows. There, through every directory state of an update, the
  metadata that is read for the message is the old one or the complete new one, so that
  a crash in between loses neither the message nor its list of recipients. On every
  system, Windows included, an update that reports no error ends with the new metadata.\<close>

theorem metadata_update_atomic:
  assumes "update_states env meta d = (ds, r)"
    and "d (meta_file (mm_ID (qm_MsgMeta meta))) = Some (FMeta old)"
    and "os_open env (meta_file (mm_ID (qm_MsgMeta meta))) = None"
  shows "(\<not> os_windows env \<longrightarrow> (\<forall>x \<in> set ds. readMessageMeta env (mm_ID (qm_MsgMeta meta)) x \<in> {Inr old, Inr (meta_copy meta)}))
    \<and> (r = None \<longrightarrow> readMessageMeta env (mm_ID (qm_MsgMeta meta)) (last ds) = Inr (meta_copy meta))"
proof (intro conjI impI ballI)
  fix x assume "\<not> os_windows env" "x \<in> set ds"
  from update_states_atomic [OF assms(1) this] show "readMessageMeta env (mm_ID (qm_MsgMeta meta)) x \<in> {Inr old, Inr (meta_copy meta)}"
    using assms(2,3) by (auto simp: readMessageMeta_stored)
next
  assume "r = None"
  with assms(1) have "updateMetadataOnDisk env meta d = (last ds, None)" by (simp add: updateMetadataOnDisk_def)
  from updateMetadataOnDisk_ok [OF this] show "readMessageMeta env (mm_ID (qm_MsgMeta meta)) (last ds) = Inr (meta_copy meta)"
    by (simp add: readMessageMeta_stored [OF assms(3)])
qed

theorem metadata_update_atomic_witness:
  "[demo_disk, demo_disk(''m1.meta.new'' \<mapsto> FEmpty), demo_disk(''m1.meta.new'' \<mapsto> FMeta demo_meta),
      demo_disk(''m1.meta.new'' := None)] = fst (update_states os_fine demo_meta demo_disk)
    \<and> readMessageMeta os_fine ''m1'' (demo_disk(''m1.meta.new'' \<mapsto> FEmpty)) \<in> {Inr demo_meta}
    \<and> readMessageMeta os_fine ''m1'' (demo_disk(''m1.meta.new'' := None)) = Inr demo_meta"
proof -
  have m: "meta_copy demo_meta = demo_meta" "mm_ID (qm_MsgMeta demo_meta) = ''m1''"
    by (simp_all add: meta_copy_def DeepCopy_def demo_meta_def demo_msg_def)
  have "demo_disk(''m1.meta.new'' := None, ''m1.meta'' \<mapsto> FMeta demo_meta) = demo_disk(''m1.meta.new'' := None)"
    by (auto simp: demo_disk_def)
  then have u: "update_states os_fine demo_meta demo_disk =
     ([demo_disk, demo_disk(''m1.meta.new'' \<mapsto> FEmpty), demo_disk(''m1.meta.new'' \<mapsto> FMeta demo_meta),
      demo_disk(''m1.meta.new'' := None)], None)"
    by (simp add: update_states_def m disk_defs os_fine_def Let_def)
  have d: "demo_disk (meta_file (mm_ID (qm_MsgMeta demo_meta))) = Some (FMeta demo_meta)" "os_open os_fine p = None" "\<not> os_windows os_fine" for p
    by (simp_all add: os_fine_def m demo_disk_def)
  from metadata_update_atomic [OF u d(1,2)] d(3) u show ?thesis by (simp add: m)
qed

text \<open>the delay before the next attempt. With the default parameters (a quarter
  of an hour, factor 1.25, twenty tries) the delay is the initial delay times the
  power of the factor truncated to an integer. It never wraps around, never
  shrinks, and is at most 70 times the initial one.\<close>

lemma retry_delay_default:
  assumes "q_initialRetryTime q = 900 * secondNs"
    and "\<forall>k \<in> {0..19}. q_pow q k = 5 ^ nat k div 4 ^ nat k"
    and "1 \<le> m" and "m \<le> n" and "n \<le> 20"
  shows "retry_delay q n = 900 * secondNs * (5 ^ nat (n - 1) div 4 ^ nat (n - 1))
    \<and> 900 * secondNs \<le> retry_delay q m \<and> retry_delay q m \<le> retry_delay q n \<and> retry_delay q n \<le> 70 * (900 * secondNs)"
proof -
  define g :: "int \<Rightarrow> int" where "g k = 5 ^ nat (k - 1) div 4 ^ nat (k - 1)" for k
  have vals: "map g [1..20] = [1, 1, 1, 1, 2, 3, 3, 4, 5, 7, 9, 11, 14, 18, 22, 28, 35, 44, 55, 69]"
    by (simp add: g_def upto_rec_numeral upto.simps)
  have nth: "g k = map g [1..20] ! nat (k - 1)" if "1 \<le> k" "k \<le> 20" for k
    using that by (subst nth_map) (auto simp: nth_upto)
  have sorted: "sorted (map g [1..20])" unfolding vals by simp
  have mono: "g m \<le> g n"
    using assms nth [of m] nth [of n] sorted_nth_mono [OF sorted, of "nat (m - 1)" "nat (n - 1)"] by simp
  have "g k \<in> set (map g [1..20])" if "1 \<le> k" "k \<le> 20" for k
    using that by simp
  then have rng: "1 \<le> g k" "g k \<le> 70" if "1 \<le> k" "k \<le> 20" for k
    using that unfolding vals by fastforce+
  have d: "retry_delay q k = 900 * secondNs * g k" if "1 \<le> k" "k \<le> 20" for k
    using that assms(1,2) rng [OF that]
    by (simp add: retry_delay_def g_def [symmetric] wrap64_id secondNs_def minInt64_def maxInt64_def)
  show ?thesis
    using d [of m] d [of n] rng [of m] rng [of n] mono assms by (simp add: g_def [symmetric] secondNs_def)
qed

lemma retry_delay_default_witness:
  "900 * secondNs \<le> retry_delay demo_queue 3 \<and> retry_delay demo_queue 3 \<le> retry_delay demo_queue 20"
  using retry_delay_default [of demo_queue 3 20] by (simp add: demo_queue_def)

end
