(* ===== verification/CfgNode.thy ===== *)
theory CfgNode
  imports GoText Exterrors Module
begin

text \<open>
  Configuration nodes (\<open>framework/cfgparser/parse.go\<close>, type \<open>Node\<close>): a name,
  arguments and an optional block of children, as all configuration code sees
  them.
\<close>

datatype node = Node (n_Name: string) (n_Args: "string list") (n_Children: "node list option")
  (n_Snippet: bool) (n_Macro: bool) (n_File: string) (n_Line: int)

definition children :: "node \<Rightarrow> node list" where
  "children n = (case n_Children n of None \<Rightarrow> [] | Some ns \<Rightarrow> ns)"

text \<open>\<open>NodeErr\<close> on a formatted message.\<close>

definition NodeErr :: "node \<Rightarrow> string \<Rightarrow> go_err" where
  "NodeErr n msg =
    (if n_File n = [] then ErrNew msg
     else ErrNew (n_File n @ '':'' @ FormatInt (n_Line n) 10 @ '': '' @ msg))"

text \<open>What the configuration code takes from the standard library without
  inspecting it: the parser of durations and the texts of number errors.\<close>

record cfg_lib =
  cl_ParseDuration :: "string \<Rightarrow> go_err + int"
  cl_atoiErr :: "string \<Rightarrow> go_err"

definition demo_cfg_lib :: cfg_lib where
  "demo_cfg_lib = \<lparr>cl_ParseDuration = (\<lambda>_. Inl (ErrNew ''invalid duration'')), cl_atoiErr = (\<lambda>_. ErrNew ''invalid syntax'')\<rparr>"

lemma size_children: "n \<in> set (children m) \<Longrightarrow> size n < size m"
  using size_list_estimation' [of n "children m" "size n" size]
  by (cases m; cases "n_Children m") (auto simp: children_def)

end
