(* ===== verification/CheckAction.thy ===== *)
theory CheckAction
  imports CfgNode
begin

text \<open>
  The actions of checks (\<open>framework/config/module/check_action.go\<close>): the
  directives that name an action and the merge of an action into the result of a
  check.
\<close>

section \<open>The reject directive\<close>

fun enh_parts :: "cfg_lib \<Rightarrow> string list \<Rightarrow> go_err + int list" where
  "enh_parts lib [] = Inr []"
| "enh_parts lib (part # parts) =
     (case Atoi part of
        None \<Rightarrow> Inl (cl_atoiErr lib part)
      | Some num \<Rightarrow> (case enh_parts lib parts of Inl e \<Rightarrow> Inl e | Inr nums \<Rightarrow> Inr (num # nums)))"

definition parseEnhancedCode :: "cfg_lib \<Rightarrow> string \<Rightarrow> go_err + enh_code" where
  "parseEnhancedCode lib s =
    (let parts = split_byte CHR ''.'' s in
     if length parts \<noteq> 3 then Inl (ErrNew ''wrong amount of enhanced code parts'')
     else (case enh_parts lib parts of
         Inl e \<Rightarrow> Inl e
       | Inr nums \<Rightarrow> Inr (nums ! 0, nums ! 1, nums ! 2)))"

definition reject_err :: "int \<Rightarrow> enh_code \<Rightarrow> string \<Rightarrow> go_err" where
  "reject_err code ench msg = SMTPError code ench msg [] [] None ''reject directive used'' []"

definition defaultRejectMsg :: string where
  "defaultRejectMsg = ''Message rejected due to a local policy''"

text \<open>The cases of the switch fall through from three arguments down to one.\<close>

definition reject_code :: "cfg_lib \<Rightarrow> string \<Rightarrow> enh_code \<Rightarrow> string \<Rightarrow> go_err + go_err" where
  "reject_code lib a ench msg =
    (case Atoi a of
       None \<Rightarrow> Inl (ErrNew (''invalid error code integer: '' @ err_string (cl_atoiErr lib a)))
     | Some code \<Rightarrow>
         if go_div code 100 \<noteq> 4 \<and> go_div code 100 \<noteq> 5
         then Inl (ErrNew ''error code should start with either 4 or 5'')
         else (let ench = (if fst ench = 0 then (go_div code 100, snd ench) else ench)
               in Inr (reject_err code ench msg)))"

definition reject_ench :: "cfg_lib \<Rightarrow> string \<Rightarrow> string \<Rightarrow> string \<Rightarrow> go_err + go_err" where
  "reject_ench lib a b msg =
    (case parseEnhancedCode lib b of
       Inl e \<Rightarrow> Inl e
     | Inr ench \<Rightarrow>
         if fst ench \<noteq> 4 \<and> fst ench \<noteq> 5
         then Inl (ErrNew ''enhanced code should use either 4 or 5 as a first number'')
         else reject_code lib a ench msg)"

definition ParseRejectDirective :: "cfg_lib \<Rightarrow> string list \<Rightarrow> go_err + go_err" where
  "ParseRejectDirective lib args =
    (case args of
       [] \<Rightarrow> Inr (reject_err 554 (5, 7, 0) defaultRejectMsg)
     | [a] \<Rightarrow> reject_code lib a (0, 7, 0) defaultRejectMsg
     | [a, b] \<Rightarrow> reject_ench lib a b defaultRejectMsg
     | [a, b, msg] \<Rightarrow> if msg = [] then Inl (ErrNew ''message can't be empty'') else reject_ench lib a b msg
     | _ \<Rightarrow> Inl (ErrNew ''invalid count of arguments''))"

section \<open>Actions\<close>

record fail_action =
  fa_Quarantine :: bool
  fa_Reject :: bool
  fa_ReasonOverride :: "go_err option"

definition ParseActionDirective :: "cfg_lib \<Rightarrow> string list \<Rightarrow> go_err + fail_action" where
  "ParseActionDirective lib args =
    (case args of
       [] \<Rightarrow> Inl (ErrNew ''expected at least 1 argument'')
     | act # rest \<Rightarrow>
         (let res = (\<lambda>override. \<lparr>fa_Quarantine = (act = ''quarantine''), fa_Reject = (act = ''reject''),
                fa_ReasonOverride = override\<rparr>)
          in if act = ''reject'' \<or> act = ''quarantine'' then
               (if rest \<noteq> [] then
                  (case ParseRejectDirective lib rest of Inl err \<Rightarrow> Inl err | Inr e \<Rightarrow> Inr (res (Some e)))
                else Inr (res None))
             else if act = ''ignore'' then Inr (res None)
             else Inl (ErrNew ''invalid action'')))"

definition FailActionDirective :: "cfg_lib \<Rightarrow> node \<Rightarrow> go_err + fail_action" where
  "FailActionDirective lib node =
    (if children node \<noteq> [] then Inl (NodeErr node ''can't declare block here'')
     else (case ParseActionDirective lib (n_Args node) of
         Inl err \<Rightarrow> Inl (NodeErr node (err_string err))
       | Inr val \<Rightarrow> Inr val))"

definition Apply_action :: "fail_action \<Rightarrow> 'a check_result \<Rightarrow> 'a check_result" where
  "Apply_action cfa res =
    (case cr_Reason res of
       None \<Rightarrow> res
     | Some reason \<Rightarrow>
         (let res = (case fa_ReasonOverride cfa of
                None \<Rightarrow> res
              | Some o' \<Rightarrow> res\<lparr>cr_Reason :=
                  Some (SMTPError (se_Code o') (se_EnhancedCode o') (se_Message o') [] [] (Some reason) [] [])\<rparr>)
          in res\<lparr>cr_Quarantine := fa_Quarantine cfa \<or> cr_Quarantine res,
                 cr_Reject := fa_Reject cfa \<or> cr_Reject res\<rparr>))"

section \<open>Properties\<close>

definition failure_err :: "string \<Rightarrow> go_err \<Rightarrow> bool" where
  "failure_err msg e \<longleftrightarrow> go_div (se_Code e) 100 \<in> {4, 5} \<and> fst (se_EnhancedCode e) \<in> {4, 5} \<and> se_Message e = msg"

lemma reject_code_class:
  assumes "reject_code lib a ench msg = Inr e" "fst ench \<in> {0, 4, 5}"
  shows "failure_err msg e"
  using assms by (auto simp: reject_code_def reject_err_def failure_err_def Let_def split: option.splits if_splits)

lemma reject_ench_class: "reject_ench lib a b msg = Inr e \<Longrightarrow> failure_err msg e"
  by (auto simp: reject_ench_def split: sum.splits if_splits intro!: reject_code_class)

text \<open>a parsed reject directive always carries failure codes: the code and the
  enhanced code have class 4 or 5 and the message is not empty.\<close>

lemma reject_directive_is_failure:
  assumes "ParseRejectDirective lib args = Inr e"
  shows "go_div (se_Code e) 100 \<in> {4, 5} \<and> fst (se_EnhancedCode e) \<in> {4, 5} \<and> se_Message e \<noteq> []"
proof -
  have "\<exists>msg. msg \<noteq> [] \<and> failure_err msg e"
  proof -
    have d: "defaultRejectMsg \<noteq> []" by (simp add: defaultRejectMsg_def)
    consider "args = []" | a where "args = [a]" | a b where "args = [a, b]" | a b m where "args = [a, b, m]" "m \<noteq> []"
      using assms by (auto simp: ParseRejectDirective_def split: list.splits if_splits)
    then show ?thesis
    proof cases
      case 1
      with assms d show ?thesis
        by (intro exI [of _ defaultRejectMsg]) (auto simp: ParseRejectDirective_def failure_err_def reject_err_def go_div_def)
    next
      case 2
      with assms d show ?thesis
        using reject_code_class [of lib _ "(0, 7, 0)"] by (auto simp: ParseRejectDirective_def)
    next
      case 3
      with assms d show ?thesis using reject_ench_class by (auto simp: ParseRejectDirective_def)
    next
      case 4
      with assms show ?thesis using reject_ench_class by (auto simp: ParseRejectDirective_def)
    qed
  qed
  then show ?thesis by (auto simp: failure_err_def)
qed

lemma reject_directive_is_failure_witness:
  "ParseRejectDirective demo_cfg_lib [] = Inr (reject_err 554 (5, 7, 0) defaultRejectMsg)
    \<and> go_div (se_Code (reject_err 554 (5, 7, 0) defaultRejectMsg)) 100 \<in> {4, 5}"
proof -
  have "ParseRejectDirective demo_cfg_lib [] = Inr (reject_err 554 (5, 7, 0) defaultRejectMsg)"
    by (simp add: ParseRejectDirective_def)
  from reject_directive_is_failure [OF this] this show ?thesis by blast
qed

text \<open>Applying an action never weakens a result. A result without a reason is
  left alone; otherwise the flags of the check and of the action are combined, the
  reason stays a reason, and an override keeps the original one as its cause.\<close>

lemma Apply_action_strengthens:
  "cr_Reject (Apply_action cfa res) = (cr_Reject res \<or> (cr_Reason res \<noteq> None \<and> fa_Reject cfa))
    \<and> cr_Quarantine (Apply_action cfa res) = (cr_Quarantine res \<or> (cr_Reason res \<noteq> None \<and> fa_Quarantine cfa))
    \<and> (cr_Reason (Apply_action cfa res) = None) = (cr_Reason res = None)
    \<and> cr_AuthResult (Apply_action cfa res) = cr_AuthResult res \<and> cr_Header (Apply_action cfa res) = cr_Header res
    \<and> (fa_ReasonOverride cfa = None \<or> cr_Reason res = None \<or>
        unwrap (the (cr_Reason (Apply_action cfa res))) = cr_Reason res)"
  by (auto simp: Apply_action_def Let_def split: option.splits)

end
