(* ===== verification/Limiters.thy ===== *)
theory Limiters
  imports Exterrors TimeWheel "HOL-Library.AList"
begin

text \<open>
  The limiters of \<open>internal/limits/limiters\<close>: \<open>Semaphore\<close>, \<open>Rate\<close>,
  \<open>MultiLimit\<close> and \<open>BucketSet\<close>. A blocking operation is the list of its
  possible outcomes in the current state; the empty list means that it blocks.
  The argument \<open>ctx\<close> of \<open>TakeContext\<close> is the error the context may end
  with at this moment (\<open>None\<close> for a context that is not done). An outcome
  \<open>None\<close> is a panic.
\<close>

section \<open>Semaphore\<close>

text \<open>A channel of capacity \<open>sem_cap\<close> that holds \<open>sem_len\<close> elements; \<open>make\<close>
  panics for a negative capacity.\<close>

record semaphore =
  sem_cap :: nat
  sem_len :: nat

definition NewSemaphore :: "int \<Rightarrow> semaphore option" where
  "NewSemaphore mx = (if mx < 0 then None else Some \<lparr>sem_cap = nat mx, sem_len = 0\<rparr>)"

definition sem_Take :: "semaphore \<Rightarrow> (semaphore \<times> bool) list" where
  "sem_Take s =
    (if sem_cap s \<le> 0 then [(s, True)]
     else if sem_len s < sem_cap s then [(s\<lparr>sem_len := sem_len s + 1\<rparr>, True)] else [])"

definition sem_TakeContext :: "go_err option \<Rightarrow> semaphore \<Rightarrow> (semaphore \<times> go_err option) list" where
  "sem_TakeContext ctx s =
    (if sem_cap s \<le> 0 then [(s, None)]
     else (if sem_len s < sem_cap s then [(s\<lparr>sem_len := sem_len s + 1\<rparr>, None)] else [])
        @ (case ctx of None \<Rightarrow> [] | Some e \<Rightarrow> [(s, Some e)]))"

definition sem_Release :: "semaphore \<Rightarrow> semaphore option" where
  "sem_Release s =
    (if sem_cap s \<le> 0 then Some s
     else if 0 < sem_len s then Some (s\<lparr>sem_len := sem_len s - 1\<rparr>) else None)"

section \<open>Rate\<close>

text \<open>\<open>rt_len\<close> tokens in a bucket of capacity \<open>rt_cap\<close>; \<open>rt_stop\<close> and
  \<open>rt_closed\<close> tell whether the channels are closed. \<open>rt_fill\<close> is the index
  of the loop of the goroutine while it fills the bucket.\<close>

record rate =
  rt_cap :: nat
  rt_len :: nat
  rt_stop :: bool
  rt_closed :: bool
  rt_fill :: "nat option"

definition ErrClosed :: go_err where
  "ErrClosed = ErrNew ''limiters: Rate bucket is closed''"

definition NewRate :: "int \<Rightarrow> rate option" where
  "NewRate burstSize =
    (if burstSize < 0 then None
     else Some \<lparr>rt_cap = nat burstSize, rt_len = nat burstSize, rt_stop = False, rt_closed = False, rt_fill = None\<rparr>)"

definition rate_Take :: "rate \<Rightarrow> (rate \<times> bool) list" where
  "rate_Take r =
    (if rt_cap r = 0 then [(r, True)]
     else if 0 < rt_len r then [(r\<lparr>rt_len := rt_len r - 1\<rparr>, True)]
     else if rt_closed r then [(r, False)] else [])"

definition rate_TakeContext :: "go_err option \<Rightarrow> rate \<Rightarrow> (rate \<times> go_err option) list" where
  "rate_TakeContext ctx r =
    (if rt_cap r = 0 then [(r, None)]
     else (if 0 < rt_len r then [(r\<lparr>rt_len := rt_len r - 1\<rparr>, None)]
           else if rt_closed r then [(r, Some ErrClosed)] else [])
        @ (case ctx of None \<Rightarrow> [] | Some e \<Rightarrow> [(r, Some e)]))"

definition rate_Release :: "rate \<Rightarrow> rate" where
  "rate_Release r = r"

definition rate_Close :: "rate \<Rightarrow> rate option" where
  "rate_Close r = (if rt_stop r then None else Some (r\<lparr>rt_stop := True\<rparr>))"

text \<open>The goroutine: the timer fires, the loop puts a token into the bucket or ends
  when the bucket is full or the burst is used up, a stop request closes the
  bucket. It does not run for an empty burst.\<close>

definition fill_tick :: "rate \<Rightarrow> rate option" where
  "fill_tick r =
    (if rt_cap r \<noteq> 0 \<and> \<not> rt_closed r \<and> rt_fill r = None then Some (r\<lparr>rt_fill := Some 0\<rparr>) else None)"

definition fill_iter :: "rate \<Rightarrow> rate option" where
  "fill_iter r =
    (case rt_fill r of
       None \<Rightarrow> None
     | Some i \<Rightarrow>
         if i < rt_cap r then
           (if rt_len r < rt_cap r then Some (r\<lparr>rt_len := rt_len r + 1, rt_fill := Some (i + 1)\<rparr>)
            else Some (r\<lparr>rt_fill := None\<rparr>))
         else Some (r\<lparr>rt_fill := None\<rparr>))"

definition fill_stop :: "rate \<Rightarrow> rate option" where
  "fill_stop r =
    (if rt_cap r \<noteq> 0 \<and> \<not> rt_closed r \<and> rt_fill r = None \<and> rt_stop r then Some (r\<lparr>rt_closed := True\<rparr>) else None)"

section \<open>MultiLimit\<close>

text \<open>The values behind the interface \<open>L\<close>.\<close>

datatype limiter = LSem semaphore | LRate rate | LMulti "limiter list"

fun L_Release :: "limiter \<Rightarrow> limiter option"
  and multi_Release :: "limiter list \<Rightarrow> limiter list option" where
  "L_Release (LSem s) = map_option LSem (sem_Release s)"
| "L_Release (LRate r) = Some (LRate (rate_Release r))"
| "L_Release (LMulti ls) = map_option LMulti (multi_Release ls)"
| "multi_Release [] = Some []"
| "multi_Release (l # ls) =
     (case L_Release l of
        None \<Rightarrow> None
      | Some l' \<Rightarrow> map_option (\<lambda>ls'. l' # ls') (multi_Release ls))"

fun L_TakeContext :: "go_err option \<Rightarrow> limiter \<Rightarrow> (limiter \<times> go_err option) option list"
  and multi_TakeContext ::
    "go_err option \<Rightarrow> limiter list \<Rightarrow> limiter list \<Rightarrow> (limiter list \<times> go_err option) option list" where
  "L_TakeContext ctx (LSem s) = map (\<lambda>(s', e). Some (LSem s', e)) (sem_TakeContext ctx s)"
| "L_TakeContext ctx (LRate r) = map (\<lambda>(r', e). Some (LRate r', e)) (rate_TakeContext ctx r)"
| "L_TakeContext ctx (LMulti ls) =
     map (map_option (\<lambda>(ls', e). (LMulti ls', e))) (multi_TakeContext ctx [] ls)"
| "multi_TakeContext ctx got [] = [Some (got, None)]"
| "multi_TakeContext ctx got (l # ls) =
     concat (map (\<lambda>out. case out of
         None \<Rightarrow> [None]
       | Some (l', None) \<Rightarrow> multi_TakeContext ctx (got @ [l']) ls
       | Some (l', Some err) \<Rightarrow>
           [map_option (\<lambda>got'. (got' @ l' # ls, Some err)) (multi_Release got)])
       (L_TakeContext ctx l))"

fun L_Take :: "limiter \<Rightarrow> (limiter \<times> bool) option list"
  and multi_Take :: "limiter list \<Rightarrow> limiter list \<Rightarrow> (limiter list \<times> bool) option list" where
  "L_Take (LSem s) = map (\<lambda>(s', b). Some (LSem s', b)) (sem_Take s)"
| "L_Take (LRate r) = map (\<lambda>(r', b). Some (LRate r', b)) (rate_Take r)"
| "L_Take (LMulti ls) = map (map_option (\<lambda>(ls', b). (LMulti ls', b))) (multi_Take [] ls)"
| "multi_Take got [] = [Some (got, True)]"
| "multi_Take got (l # ls) =
     concat (map (\<lambda>out. case out of
         None \<Rightarrow> [None]
       | Some (l', True) \<Rightarrow> multi_Take (got @ [l']) ls
       | Some (l', False) \<Rightarrow>
           [map_option (\<lambda>got'. (got' @ l' # ls, False)) (multi_Release got)])
       (L_Take l))"

fun L_Close :: "limiter \<Rightarrow> limiter option"
  and multi_Close :: "limiter list \<Rightarrow> limiter list option" where
  "L_Close (LSem s) = Some (LSem s)"
| "L_Close (LRate r) = map_option LRate (rate_Close r)"
| "L_Close (LMulti ls) = map_option LMulti (multi_Close ls)"
| "multi_Close [] = Some []"
| "multi_Close (l # ls) =
     (case L_Close l of
        None \<Rightarrow> None
      | Some l' \<Rightarrow> map_option (\<lambda>ls'. l' # ls') (multi_Close ls))"

section \<open>BucketSet\<close>

text \<open>\<open>bs_New\<close> is the constructor of the limiters (\<open>None\<close> for a nil function;
  its result \<open>None\<close> is a panic of the constructor). The order of the
  association list is the iteration order of the map.\<close>

record bucketset =
  bs_New :: "limiter option option"
  bs_ReapInterval :: int
  bs_MaxBuckets :: int
  bs_m :: "(string \<times> limiter \<times> int) list"

definition NewBucketSet :: "limiter option option \<Rightarrow> int \<Rightarrow> int \<Rightarrow> bucketset" where
  "NewBucketSet new reapInterval maxBuckets =
    \<lparr>bs_New = new, bs_ReapInterval = reapInterval, bs_MaxBuckets = maxBuckets, bs_m = []\<rparr>"

fun close_all :: "(string \<times> limiter \<times> int) list \<Rightarrow> (string \<times> limiter \<times> int) list option" where
  "close_all [] = Some []"
| "close_all ((k, l, t) # m) =
     (case L_Close l of
        None \<Rightarrow> None
      | Some l' \<Rightarrow> map_option (\<lambda>m'. (k, l', t) # m') (close_all m))"

definition bucket_Close :: "bucketset \<Rightarrow> bucketset option" where
  "bucket_Close r = map_option (\<lambda>m. r\<lparr>bs_m := m\<rparr>) (close_all (bs_m r))"

text \<open>The loop that drops stale buckets.\<close>

fun reap :: "int \<Rightarrow> int \<Rightarrow> (string \<times> limiter \<times> int) list \<Rightarrow> (string \<times> limiter \<times> int) list option" where
  "reap now interval [] = Some []"
| "reap now interval ((k, l, lastUse) # m) =
     (if time_Sub lastUse now > interval
      then (case L_Close l of None \<Rightarrow> None | Some _ \<Rightarrow> reap now interval m)
      else map_option (\<lambda>m'. (k, l, lastUse) # m') (reap now interval m))"

text \<open>\<open>take\<close>: the result is the set and the limiter of the bucket, \<open>None\<close> for
  nil; the outer \<open>None\<close> is a panic.\<close>

definition bucket_get :: "int \<Rightarrow> string \<Rightarrow> bucketset \<Rightarrow> (bucketset \<times> limiter option) option" where
  "bucket_get now key r =
    (let find = (\<lambda>r. case map_of (bs_m r) key of
           Some (l, _) \<Rightarrow> Some (r\<lparr>bs_m := AList.update key (l, now) (bs_m r)\<rparr>, Some l)
         | None \<Rightarrow> (case bs_New r of
             Some (Some l) \<Rightarrow> Some (r\<lparr>bs_m := AList.update key (l, now) (bs_m r)\<rparr>, Some l)
           | _ \<Rightarrow> None))
     in if int (length (bs_m r)) > bs_MaxBuckets r then
          (case reap now (bs_ReapInterval r) (bs_m r) of
             None \<Rightarrow> None
           | Some m \<Rightarrow>
               (let r = r\<lparr>bs_m := m\<rparr> in
                if int (length m) > bs_MaxBuckets r then Some (r, None) else find r))
        else find r)"

definition bucket_set :: "string \<Rightarrow> limiter \<Rightarrow> bucketset \<Rightarrow> bucketset" where
  "bucket_set key l r =
    r\<lparr>bs_m := AList.update key (l, case map_of (bs_m r) key of Some (_, t) \<Rightarrow> t | None \<Rightarrow> 0) (bs_m r)\<rparr>"

text \<open>A method call on the nil limiter panics.\<close>

definition bucket_Take :: "int \<Rightarrow> string \<Rightarrow> bucketset \<Rightarrow> (bucketset \<times> bool) option list" where
  "bucket_Take now key r =
    (if bs_New r = None then [Some (r, True)]
     else (case bucket_get now key r of
         None \<Rightarrow> [None]
       | Some (r', None) \<Rightarrow> [None]
       | Some (r', Some l) \<Rightarrow> map (map_option (\<lambda>(l', b). (bucket_set key l' r', b))) (L_Take l)))"

definition bucket_TakeContext ::
  "go_err option \<Rightarrow> int \<Rightarrow> string \<Rightarrow> bucketset \<Rightarrow> (bucketset \<times> go_err option) option list" where
  "bucket_TakeContext ctx now key r =
    (if bs_New r = None then [Some (r, None)]
     else (case bucket_get now key r of
         None \<Rightarrow> [None]
       | Some (r', None) \<Rightarrow> [None]
       | Some (r', Some l) \<Rightarrow> map (map_option (\<lambda>(l', e). (bucket_set key l' r', e))) (L_TakeContext ctx l)))"

definition bucket_Release :: "string \<Rightarrow> bucketset \<Rightarrow> bucketset option" where
  "bucket_Release key r =
    (if bs_New r = None then Some r
     else (case map_of (bs_m r) key of
         None \<Rightarrow> Some r
       | Some (l, _) \<Rightarrow> map_option (\<lambda>l'. bucket_set key l' r) (L_Release l)))"

section \<open>The contract of a limiter\<close>

text \<open>
  \<open>may n s\<close>: in state \<open>s\<close> there are \<open>n\<close> takes that may still be
  released. A successful take adds one, a failed one changes nothing, and a
  release uses one up and does not panic.
\<close>

locale limiter_contract =
  fixes take :: "go_err option \<Rightarrow> 's \<Rightarrow> ('s \<times> go_err option) option list"
    and release :: "'s \<Rightarrow> 's option"
    and may :: "nat \<Rightarrow> 's \<Rightarrow> bool"
  assumes take_no_panic: "may n s \<Longrightarrow> None \<notin> set (take ctx s)"
    and take_ok: "may n s \<Longrightarrow> Some (s', None) \<in> set (take ctx s) \<Longrightarrow> may (Suc n) s'"
    and take_err: "may n s \<Longrightarrow> Some (s', Some e) \<in> set (take ctx s) \<Longrightarrow> may n s'"
    and release_ok: "may (Suc n) s \<Longrightarrow> \<exists>s'. release s = Some s' \<and> may n s'"
begin

text \<open>An interleaving of takes and releases of any number of clients: the next
  event takes (with the given context) or releases.\<close>

inductive run :: "nat \<Rightarrow> 's \<Rightarrow> nat \<Rightarrow> 's \<Rightarrow> bool" where
  run_refl: "run n s n s"
| run_take: "run n s k s' \<Longrightarrow> Some (s'', None) \<in> set (take ctx s') \<Longrightarrow> run n s (Suc k) s''"
| run_fail: "run n s k s' \<Longrightarrow> Some (s'', Some e) \<in> set (take ctx s') \<Longrightarrow> run n s k s''"
| run_release: "run n s (Suc k) s' \<Longrightarrow> release s' = Some s'' \<Longrightarrow> run n s k s''"

lemma run_may: "run n s k s' \<Longrightarrow> may n s \<Longrightarrow> may k s'"
proof (induction rule: run.induct)
  case (run_release n s k s' s'')
  then show ?case using release_ok [of k s'] by auto
qed (auto intro: take_ok take_err)

text \<open>In a balanced run no operation panics.\<close>

lemma run_never_panics:
  assumes "run n s k s'" "may n s"
  shows "None \<notin> set (take ctx s') \<and> (0 < k \<longrightarrow> release s' \<noteq> None)"
  using run_may [OF assms] take_no_panic [of k s'] release_ok [of "k - 1" s'] by (cases k) auto

end

section \<open>The limiters meet the contract\<close>

text \<open>Exactly \<open>n\<close> takes are held in every semaphore of the limiter that limits at all.\<close>

fun L_may :: "nat \<Rightarrow> limiter \<Rightarrow> bool" where
  "L_may n (LSem s) \<longleftrightarrow> sem_cap s = 0 \<or> sem_len s = n"
| "L_may n (LRate r) \<longleftrightarrow> True"
| "L_may n (LMulti ls) \<longleftrightarrow> (\<forall>l \<in> set ls. L_may n l)"

definition outs_ok :: "(nat \<Rightarrow> 's \<Rightarrow> bool) \<Rightarrow> nat \<Rightarrow> ('s \<times> go_err option) option list \<Rightarrow> bool" where
  "outs_ok may n outs \<longleftrightarrow>
    (\<forall>out \<in> set outs. case out of
       None \<Rightarrow> False | Some (x, None) \<Rightarrow> may (Suc n) x | Some (x, Some e) \<Rightarrow> may n x)"

lemma outs_okD:
  assumes "outs_ok may n outs"
  shows "None \<notin> set outs" "Some (x, None) \<in> set outs \<Longrightarrow> may (Suc n) x"
    "Some (x, Some e) \<in> set outs \<Longrightarrow> may n x"
  using assms by (force simp: outs_ok_def)+

lemma outs_ok_map:
  assumes "outs_ok may n outs" "\<And>k x. may k x \<Longrightarrow> may' k (f x)"
  shows "outs_ok may' n (map (map_option (\<lambda>(x, e). (f x, e))) outs)"
  using assms by (fastforce simp: outs_ok_def split: option.splits)

lemma release_may:
  "L_may (Suc n) l \<Longrightarrow> \<exists>l'. L_Release l = Some l' \<and> L_may n l'"
  "\<forall>l \<in> set ls. L_may (Suc n) l \<Longrightarrow> \<exists>ls'. multi_Release ls = Some ls' \<and> (\<forall>l \<in> set ls'. L_may n l)"
proof (induction l and ls rule: L_Release_multi_Release.induct)
  case (5 l ls)
  then obtain l' ls' where "L_Release l = Some l'" "L_may n l'" "multi_Release ls = Some ls'" "\<forall>l \<in> set ls'. L_may n l"
    by auto
  then show ?case by simp
qed (auto simp: sem_Release_def rate_Release_def)

lemma take_may:
  "L_may n l \<Longrightarrow> outs_ok L_may n (L_TakeContext ctx l)"
  "\<forall>g \<in> set got. L_may (Suc n) g \<Longrightarrow> \<forall>l \<in> set ls. L_may n l \<Longrightarrow>
    outs_ok (\<lambda>n ls. \<forall>l \<in> set ls. L_may n l) n (multi_TakeContext ctx got ls)"
proof (induction ctx l and ctx got ls rule: L_TakeContext_multi_TakeContext.induct)
  case (1 ctx s)
  then show ?case by (auto simp: outs_ok_def sem_TakeContext_def split: option.splits)
next
  case (2 ctx r)
  then show ?case by (auto simp: outs_ok_def split: option.splits)
next
  case (3 ctx ls)
  then show ?case by (auto intro!: outs_ok_map [where f = LMulti])
next
  case (4 ctx got)
  then show ?case by (simp add: outs_ok_def)
next
  case (5 ctx got l ls)
  from release_may(2) [OF "5.prems"(1)] obtain got' where got':
    "multi_Release got = Some got'" "\<forall>l \<in> set got'. L_may n l" by blast
  from 5 have hd: "outs_ok L_may n (L_TakeContext ctx l)" by simp
  have ok: "outs_ok (\<lambda>n ls. \<forall>l \<in> set ls. L_may n l) n (multi_TakeContext ctx (got @ [l']) ls)"
    if "Some (l', None) \<in> set (L_TakeContext ctx l)" for l'
    using "5.IH"(2) [OF that] "5.prems" outs_okD(2) [OF hd that] by auto
  show ?case
    unfolding outs_ok_def
  proof (intro ballI)
    fix out assume "out \<in> set (multi_TakeContext ctx got (l # ls))"
    then obtain o' where o': "o' \<in> set (L_TakeContext ctx l)" "out \<in> set (case o' of
         None \<Rightarrow> [None]
       | Some (l', None) \<Rightarrow> multi_TakeContext ctx (got @ [l']) ls
       | Some (l', Some err) \<Rightarrow> [map_option (\<lambda>got'. (got' @ l' # ls, Some err)) (multi_Release got)])"
      by auto
    show "case out of None \<Rightarrow> False | Some (x, None) \<Rightarrow> \<forall>l \<in> set x. L_may (Suc n) l
        | Some (x, Some e) \<Rightarrow> \<forall>l \<in> set x. L_may n l"
    proof (cases o')
      case None
      then show ?thesis using o'(1) outs_okD(1) [OF hd] by blast
    next
      case (Some r)
      obtain l' e where r: "r = (l', e)" by fastforce
      show ?thesis
      proof (cases e)
        case None
        then show ?thesis using o' ok [of l'] Some r by (auto simp: outs_ok_def)
      next
        case (Some err)
        then have "L_may n l'" using o'(1) outs_okD(3) [OF hd] \<open>o' = Some r\<close> r by blast
        then show ?thesis using o'(2) Some \<open>o' = Some r\<close> r got' "5.prems"(2) by auto
      qed
    qed
  qed
qed

interpretation lim: limiter_contract L_TakeContext L_Release L_may
proof unfold_locales
  show "\<And>n s ctx. L_may n s \<Longrightarrow> None \<notin> set (L_TakeContext ctx s)"
    by (rule outs_okD(1) [OF take_may(1)])
  show "\<And>n s s' ctx. L_may n s \<Longrightarrow> Some (s', None) \<in> set (L_TakeContext ctx s) \<Longrightarrow> L_may (Suc n) s'"
    by (rule outs_okD(2) [OF take_may(1)])
  show "\<And>n s s' e ctx. L_may n s \<Longrightarrow> Some (s', Some e) \<in> set (L_TakeContext ctx s) \<Longrightarrow> L_may n s'"
    by (rule outs_okD(3) [OF take_may(1)])
  show "\<And>n s. L_may (Suc n) s \<Longrightarrow> \<exists>s'. L_Release s = Some s' \<and> L_may n s'"
    by (rule release_may(1))
qed

section \<open>Buckets\<close>

text \<open>The contract per key: \<open>f k\<close> takes of key \<open>k\<close> are held, and a new bucket is free.\<close>

definition bucket_may :: "(string \<Rightarrow> nat) \<Rightarrow> bucketset \<Rightarrow> bool" where
  "bucket_may f r \<longleftrightarrow> bs_New r = None \<or>
    (\<forall>l. bs_New r = Some (Some l) \<longrightarrow> L_may 0 l) \<and>
    (\<forall>k. case map_of (bs_m r) k of None \<Rightarrow> f k = 0 | Some (l, _) \<Rightarrow> L_may (f k) l)"

definition bucket_room :: "bucketset \<Rightarrow> bool" where
  "bucket_room r \<longleftrightarrow> bs_New r = None \<or> (bs_New r \<noteq> Some None \<and> int (length (bs_m r)) \<le> bs_MaxBuckets r)"

lemma bucket_get_room:
  assumes "bucket_may f r" "bucket_room r" "bs_New r \<noteq> None"
  obtains r' l where "bucket_get now key r = Some (r', Some l)" "L_may (f key) l" "bs_New r' = bs_New r"
    "\<And>k. k \<noteq> key \<Longrightarrow> map_of (bs_m r') k = map_of (bs_m r) k"
proof (cases "map_of (bs_m r) key")
  case None
  from assms obtain l where "bs_New r = Some (Some l)" by (auto simp: bucket_room_def)
  moreover from None assms(1,3) have "f key = 0" by (auto simp: bucket_may_def dest: spec [of _ key])
  moreover from calculation assms(1,3) have "L_may 0 l" by (auto simp: bucket_may_def)
  ultimately show thesis
    using None assms(2)
    by (intro that [of "r\<lparr>bs_m := AList.update key (l, now) (bs_m r)\<rparr>" l]) (auto simp: bucket_get_def bucket_room_def Let_def update_conv')
next
  case (Some x)
  obtain l t where x: "x = (l, t)" by fastforce
  from Some x assms(1,3) have "L_may (f key) l" by (auto simp: bucket_may_def dest: spec [of _ key])
  then show thesis
    using Some x assms(2,3)
    by (intro that [of "r\<lparr>bs_m := AList.update key (l, now) (bs_m r)\<rparr>" l]) (auto simp: bucket_get_def bucket_room_def Let_def update_conv')
qed

lemma bucket_may_set:
  assumes "bucket_may f r" "bs_New r' = bs_New r" "\<And>k. k \<noteq> key \<Longrightarrow> map_of (bs_m r') k = map_of (bs_m r) k" "L_may n l"
  shows "bucket_may (f(key := n)) (bucket_set key l r')"
proof (cases "bs_New r = None")
  case True
  then show ?thesis using assms(2) by (simp add: bucket_may_def bucket_set_def)
next
  case False
  have "case map_of (bs_m (bucket_set key l r')) k of None \<Rightarrow> (f(key := n)) k = 0 | Some (l, _) \<Rightarrow> L_may ((f(key := n)) k) l"
    for k
    using assms(1,3,4) False by (cases "k = key") (auto simp: bucket_may_def bucket_set_def update_conv' cong: option.case_cong)
  then show ?thesis using assms(1,2) False by (auto simp: bucket_may_def bucket_set_def)
qed

lemma bucket_take_may:
  assumes "bucket_may f r" "bucket_room r"
  shows "outs_ok (\<lambda>n. bucket_may (f(key := n))) (f key) (bucket_TakeContext ctx now key r)"
proof (cases "bs_New r = None")
  case True
  then show ?thesis by (simp add: bucket_TakeContext_def outs_ok_def bucket_may_def)
next
  case False
  from bucket_get_room [OF assms False, where now = now and key = key] obtain r' l where
    g: "bucket_get now key r = Some (r', Some l)" "L_may (f key) l" "bs_New r' = bs_New r"
      "\<And>k. k \<noteq> key \<Longrightarrow> map_of (bs_m r') k = map_of (bs_m r) k" by blast
  show ?thesis
    using False g(1) take_may(1) [OF g(2)] bucket_may_set [OF assms(1) g(3,4)]
    by (auto simp: bucket_TakeContext_def intro!: outs_ok_map [where f = "\<lambda>l'. bucket_set key l' r'"])
qed

lemma bucket_release_may:
  assumes "bucket_may (f(key := Suc n)) r"
  shows "\<exists>r'. bucket_Release key r = Some r' \<and> bucket_may (f(key := n)) r'"
proof (cases "bs_New r = None")
  case True
  then show ?thesis by (simp add: bucket_Release_def bucket_may_def)
next
  case False
  with assms obtain l t where m: "map_of (bs_m r) key = Some (l, t)" and l: "L_may (Suc n) l"
    by (auto simp: bucket_may_def dest!: spec [of _ key] split: option.splits)
  from release_may(1) [OF l] obtain l' where l': "L_Release l = Some l'" "L_may n l'" by blast
  have "bucket_may (f(key := Suc n, key := n)) (bucket_set key l' r)"
    by (rule bucket_may_set [OF assms]) (simp_all add: l')
  with False m l'(1) show ?thesis by (auto simp: bucket_Release_def)
qed

section \<open>Histories\<close>

text \<open>A history of a rate limiter: the number of successful takes and the number of
  times the timer fired.\<close>

inductive rate_run :: "rate \<Rightarrow> nat \<Rightarrow> nat \<Rightarrow> rate \<Rightarrow> bool" where
  rate_refl: "rate_run r 0 0 r"
| rate_take: "rate_run r n t r' \<Longrightarrow> (r'', None) \<in> set (rate_TakeContext ctx r') \<Longrightarrow> rate_run r (Suc n) t r''"
| rate_tick: "rate_run r n t r' \<Longrightarrow> fill_tick r' = Some r'' \<Longrightarrow> rate_run r n (Suc t) r''"
| rate_iter: "rate_run r n t r' \<Longrightarrow> fill_iter r' = Some r'' \<Longrightarrow> rate_run r n t r''"
| rate_stop: "rate_run r n t r' \<Longrightarrow> fill_stop r' = Some r'' \<Longrightarrow> rate_run r n t r''"
| rate_close: "rate_run r n t r' \<Longrightarrow> rate_Close r' = Some r'' \<Longrightarrow> rate_run r n t r''"

definition rate_inv :: "nat \<Rightarrow> nat \<Rightarrow> nat \<Rightarrow> rate \<Rightarrow> bool" where
  "rate_inv b n t r \<longleftrightarrow> rt_cap r = b
    \<and> n + rt_len r + (case rt_fill r of None \<Rightarrow> 0 | Some i \<Rightarrow> b - i) \<le> b * (t + 1)
    \<and> (case rt_fill r of None \<Rightarrow> True | Some i \<Rightarrow> i \<le> b)"

lemma rate_run_inv:
  assumes "rate_run r n t r'" "rate_inv b 0 0 r" "0 < b"
  shows "rate_inv b n t r'"
  using assms
proof (induction rule: rate_run.induct)
  case (rate_take r n t r' r'' ctx)
  then show ?case by (auto simp: rate_inv_def rate_TakeContext_def split: if_splits option.splits)
next
  case (rate_tick r n t r' r'')
  then show ?case by (auto simp: rate_inv_def fill_tick_def split: if_splits)
next
  case (rate_iter r n t r' r'')
  then show ?case by (auto simp: rate_inv_def fill_iter_def split: if_splits option.splits)
next
  case (rate_stop r n t r' r'')
  then show ?case by (auto simp: rate_inv_def fill_stop_def split: if_splits)
next
  case (rate_close r n t r' r'')
  then show ?case by (auto simp: rate_inv_def rate_Close_def split: if_splits)
qed

text \<open>The holders of a semaphore.\<close>

lemma sem_run_inv:
  assumes "lim.run n l k l'" "l = LSem s" "n = sem_len s" "0 < sem_cap s" "sem_len s \<le> sem_cap s"
  shows "\<exists>s'. l' = LSem s' \<and> k = sem_len s' \<and> sem_cap s' = sem_cap s \<and> sem_len s' \<le> sem_cap s"
  using assms
proof (induction rule: lim.run.induct)
  case (run_take n s0 k s' s'' ctx)
  then show ?case by (auto simp: sem_TakeContext_def split: if_splits option.splits)
next
  case (run_fail n s0 k s' s'' e ctx)
  then show ?case by (auto simp: sem_TakeContext_def split: if_splits option.splits)
next
  case (run_release n s0 k s' s'')
  then show ?case by (auto simp: sem_Release_def split: if_splits)
qed auto

section \<open>Properties\<close>

text \<open>balanced use of a limiter is safe and leaks nothing. For every limiter built
  from semaphores, rates and groups of them that nobody holds, and every interleaving
  of takes and releases of its clients in which there are never more releases than
  successful takes, each semaphore in it counts exactly the takes not yet released,
  and no operation panics; in particular a failed take of a group gives back exactly
  what it had taken.\<close>

lemma limiter_balanced_safe:
  assumes "lim.run 0 l k l'" and "L_may 0 l"
  shows "L_may k l' \<and> None \<notin> set (L_TakeContext ctx l') \<and> (0 < k \<longrightarrow> L_Release l' \<noteq> None)"
  using lim.run_may [OF assms] lim.run_never_panics [OF assms] by blast

lemma limiter_balanced_safe_witness:
  "L_Release (LMulti [LSem \<lparr>sem_cap = 1, sem_len = 1\<rparr>]) \<noteq> None"
proof -
  let ?l = "LMulti [LSem \<lparr>sem_cap = 1, sem_len = 0\<rparr>]"
  have "lim.run 0 ?l (Suc 0) (LMulti [LSem \<lparr>sem_cap = 1, sem_len = 1\<rparr>])"
    by (rule lim.run_take [OF lim.run_refl, of _ None]) (simp add: sem_TakeContext_def)
  from limiter_balanced_safe [OF this, of None] show ?thesis by simp
qed

text \<open>a semaphore never has more holders than its maximum.\<close>

lemma semaphore_bounds_holders:
  assumes "NewSemaphore mx = Some s" and "0 < mx" and "lim.run 0 (LSem s) k l"
  shows "int k \<le> mx"
proof -
  from assms(1,2) have "sem_cap s = nat mx" "sem_len s = 0" by (auto simp: NewSemaphore_def)
  with sem_run_inv [OF assms(3) refl] assms(2) show ?thesis by auto
qed

lemma semaphore_bounds_holders_witness:
  "NewSemaphore 1 = Some \<lparr>sem_cap = 1, sem_len = 0\<rparr> \<and> int (Suc 0) \<le> 1"
proof -
  have n: "NewSemaphore 1 = Some \<lparr>sem_cap = 1, sem_len = 0\<rparr>" by (simp add: NewSemaphore_def)
  have "lim.run 0 (LSem \<lparr>sem_cap = 1, sem_len = 0\<rparr>) (Suc 0) (LSem \<lparr>sem_cap = 1, sem_len = 1\<rparr>)"
    by (rule lim.run_take [OF lim.run_refl, of _ None]) (simp add: sem_TakeContext_def)
  from semaphore_bounds_holders [OF n _ this] n show ?thesis by simp
qed

text \<open>a rate limiter lets at most a burst through per interval: after the
  timer fired \<open>t\<close> times at most \<open>t + 1\<close> bursts of takes have succeeded,
  whatever the interleaving of the clients with the goroutine that fills the
  bucket.\<close>

lemma rate_bounds_takes:
  assumes "NewRate burst = Some r" and "0 < burst" and "rate_run r n t r'"
  shows "int n \<le> burst * (int t + 1)"
proof -
  from assms(1,2) have "rate_inv (nat burst) 0 0 r" "0 < nat burst"
    by (auto simp: NewRate_def rate_inv_def)
  from rate_run_inv [OF assms(3) this] have "n \<le> nat burst * (t + 1)"
    by (auto simp: rate_inv_def)
  then have "int n \<le> int (nat burst * (t + 1))" by (rule zle_int [THEN iffD2])
  with assms(2) show ?thesis by (simp add: distrib_left)
qed

lemma rate_bounds_takes_witness:
  "NewRate 2 = Some \<lparr>rt_cap = 2, rt_len = 2, rt_stop = False, rt_closed = False, rt_fill = None\<rparr>
    \<and> int (Suc 0) \<le> 2 * (int 0 + 1)"
proof -
  let ?r = "\<lparr>rt_cap = 2, rt_len = 2, rt_stop = False, rt_closed = False, rt_fill = None\<rparr>"
  have n: "NewRate 2 = Some ?r" by (simp add: NewRate_def)
  have "rate_run ?r (Suc 0) 0 (?r\<lparr>rt_len := 1\<rparr>)"
    by (rule rate_take [OF rate_refl, of _ None]) (simp add: rate_TakeContext_def)
  from rate_bounds_takes [OF n _ this] n show ?thesis by simp
qed

section \<open>Observations\<close>

text \<open>Buckets are never dropped: the loop asks for the last use to lie in the
  future.\<close>

lemma reap_drops_nothing:
  assumes "0 \<le> interval" "\<forall>(k, l, t) \<in> set m. t \<le> now"
  shows "reap now interval m = Some m"
  using assms
proof (induction m)
  case (Cons x m)
  obtain k l t where x: "x = (k, l, t)" by (metis prod.collapse)
  with Cons.prems have "time_Sub t now \<le> 0"
    by (auto simp: time_Sub_def sat64_def minInt64_def maxInt64_def)
  with Cons x show ?case by auto
qed simp

text \<open>A set with too many buckets panics instead of returning false.\<close>

lemma full_set_panics:
  assumes "bs_New r \<noteq> None" "0 \<le> bs_ReapInterval r" "\<forall>(k, l, t) \<in> set (bs_m r). t \<le> now"
    "int (length (bs_m r)) > bs_MaxBuckets r"
  shows "bucket_Take now key r = [None]"
  using assms by (simp add: bucket_Take_def bucket_get_def reap_drops_nothing Let_def)

text \<open>A negative maximum is not a no-op.\<close>

lemma negative_semaphore_panics: "mx < 0 \<Longrightarrow> NewSemaphore mx = None"
  by (simp add: NewSemaphore_def)

end
