(* ===== verification/Limits.thy ===== *)
theory Limits
  imports Limiters CfgNode
begin

text \<open>
  The module \<open>limits\<close> (\<open>internal/limits/limits.go\<close>): limits on the message
  flow, globally and per source address, source domain and destination domain.
\<close>

section \<open>Configuration\<close>

record group =
  g_global :: "limiter list"
  g_ip :: "bucketset option"
  g_source :: "bucketset option"
  g_dest :: "bucketset option"

text \<open>The constructors the directives are turned into, and what calling them gives
  (\<open>None\<close> is a panic).\<close>

datatype ctor = RateCtor int int | ConcurrencyCtor int

fun call_ctor :: "ctor \<Rightarrow> limiter option" where
  "call_ctor (RateCtor burst period) = map_option LRate (NewRate burst)"
| "call_ctor (ConcurrencyCtor mx) = map_option LSem (NewSemaphore mx)"

definition rateCtor :: "cfg_lib \<Rightarrow> node \<Rightarrow> string list \<Rightarrow> go_err + ctor" where
  "rateCtor lib node args =
    (case args of
       [] \<Rightarrow> Inl (NodeErr node ''at least burst size is needed'')
     | [b] \<Rightarrow> (case Atoi b of
         None \<Rightarrow> Inl (NodeErr node (err_string (cl_atoiErr lib b)))
       | Some burst \<Rightarrow> Inr (RateCtor burst secondNs))
     | [b, p] \<Rightarrow> (case cl_ParseDuration lib p of
         Inl err \<Rightarrow> Inl (NodeErr node (err_string err))
       | Inr period \<Rightarrow> (case Atoi b of
           None \<Rightarrow> Inl (NodeErr node (err_string (cl_atoiErr lib b)))
         | Some burst \<Rightarrow> Inr (RateCtor burst period)))
     | _ \<Rightarrow> Inl (NodeErr node ''too many arguments''))"

definition concurrencyCtor :: "cfg_lib \<Rightarrow> node \<Rightarrow> string list \<Rightarrow> go_err + ctor" where
  "concurrencyCtor lib node args =
    (case args of
       [a] \<Rightarrow> (case Atoi a of
         None \<Rightarrow> Inl (NodeErr node (err_string (cl_atoiErr lib a)))
       | Some mx \<Rightarrow> Inr (ConcurrencyCtor mx))
     | _ \<Rightarrow> Inl (NodeErr node ''max concurrency value is needed''))"

definition limit_kind :: "cfg_lib \<Rightarrow> node \<Rightarrow> go_err + ctor" where
  "limit_kind lib child =
    (case n_Args child of
       [] \<Rightarrow> Inl (NodeErr child ''at least two arguments are required'')
     | kind # args \<Rightarrow>
         if kind = ''rate'' then rateCtor lib child args
         else if kind = ''concurrency'' then concurrencyCtor lib child args
         else Inl (NodeErr child (''unknown limit kind: '' @ kind)))"

text \<open>The loop over the directives; the accumulators are \<open>globalL\<close>,
  \<open>ipL\<close>, \<open>sourceL\<close> and \<open>destL\<close>.\<close>

fun limit_loop ::
  "cfg_lib \<Rightarrow> node list \<Rightarrow> limiter list \<times> ctor list \<times> ctor list \<times> ctor list
    \<Rightarrow> (go_err + limiter list \<times> ctor list \<times> ctor list \<times> ctor list) option" where
  "limit_loop lib [] acc = Some (Inr acc)"
| "limit_loop lib (child # cs) (globalL, ipL, sourceL, destL) =
     (case limit_kind lib child of
        Inl err \<Rightarrow> Some (Inl err)
      | Inr ctor \<Rightarrow>
          if n_Name child = ''all'' then
            (case call_ctor ctor of
               None \<Rightarrow> None
             | Some l \<Rightarrow> limit_loop lib cs (globalL @ [l], ipL, sourceL, destL))
          else if n_Name child = ''ip'' then limit_loop lib cs (globalL, ipL @ [ctor], sourceL, destL)
          else if n_Name child = ''source'' then limit_loop lib cs (globalL, ipL, sourceL @ [ctor], destL)
          else if n_Name child = ''destination'' then limit_loop lib cs (globalL, ipL, sourceL, destL @ [ctor])
          else Some (Inl (NodeErr child (''unknown limit scope: '' @ n_Name child))))"

definition new_multi :: "ctor list \<Rightarrow> limiter option" where
  "new_multi ctors = map_option LMulti (those (map call_ctor ctors))"

definition minuteNs :: int where
  "minuteNs = 60 * secondNs"

definition limits_Init :: "cfg_lib \<Rightarrow> node \<Rightarrow> (go_err + group) option" where
  "limits_Init lib block =
    (case limit_loop lib (children block) ([], [], [], []) of
       None \<Rightarrow> None
     | Some (Inl err) \<Rightarrow> Some (Inl err)
     | Some (Inr (globalL, ipL, sourceL, destL)) \<Rightarrow>
         Some (Inr \<lparr>g_global = globalL,
           g_ip = (if ipL \<noteq> [] then Some (NewBucketSet (Some (new_multi ipL)) minuteNs 20010) else None),
           g_source = (if sourceL \<noteq> [] then Some (NewBucketSet (Some (new_multi sourceL)) minuteNs 20010) else None),
           g_dest = (if destL \<noteq> [] then Some (NewBucketSet (Some (new_multi sourceL)) minuteNs 20010) else None)\<rparr>))"

section \<open>Operations\<close>

text \<open>\<open>addr\<close> is the text of the source address. As for the limiters the results
  are the possible outcomes, \<open>None\<close> is a panic.\<close>

definition TakeDest :: "go_err option \<Rightarrow> int \<Rightarrow> string \<Rightarrow> group \<Rightarrow> (group \<times> go_err option) option list" where
  "TakeDest ctx now domain g =
    (case g_dest g of
       None \<Rightarrow> [Some (g, None)]
     | Some dest \<Rightarrow> map (map_option (\<lambda>(dest', e). (g\<lparr>g_dest := Some dest'\<rparr>, e)))
         (bucket_TakeContext ctx now domain dest))"

definition ReleaseDest :: "string \<Rightarrow> group \<Rightarrow> group option" where
  "ReleaseDest domain g =
    (case g_dest g of
       None \<Rightarrow> Some g
     | Some dest \<Rightarrow> map_option (\<lambda>dest'. g\<lparr>g_dest := Some dest'\<rparr>) (bucket_Release domain dest))"

definition global_Release :: "group \<Rightarrow> group option" where
  "global_Release g = map_option (\<lambda>ls. g\<lparr>g_global := ls\<rparr>) (multi_Release (g_global g))"

text \<open>\<open>g.ip.Release\<close>: the set pointer is dereferenced, so a nil set panics.\<close>

definition ip_Release :: "string \<Rightarrow> group \<Rightarrow> group option" where
  "ip_Release addr g =
    (case g_ip g of
       None \<Rightarrow> None
     | Some ip \<Rightarrow> map_option (\<lambda>ip'. g\<lparr>g_ip := Some ip'\<rparr>) (bucket_Release addr ip))"

definition source_Release :: "string \<Rightarrow> group \<Rightarrow> group option" where
  "source_Release domain g =
    (case g_source g of
       None \<Rightarrow> None
     | Some s \<Rightarrow> map_option (\<lambda>s'. g\<lparr>g_source := Some s'\<rparr>) (bucket_Release domain s))"

definition take_source ::
  "go_err option \<Rightarrow> int \<Rightarrow> string \<Rightarrow> string \<Rightarrow> group \<Rightarrow> (group \<times> go_err option) option list" where
  "take_source ctx now addr sourceDomain g =
    (case g_source g of
       None \<Rightarrow> [Some (g, None)]
     | Some s \<Rightarrow> map (\<lambda>out. case out of
           None \<Rightarrow> None
         | Some (s', None) \<Rightarrow> Some (g\<lparr>g_source := Some s'\<rparr>, None)
         | Some (s', Some err) \<Rightarrow>
             (case global_Release (g\<lparr>g_source := Some s'\<rparr>) of
                None \<Rightarrow> None
              | Some g' \<Rightarrow> map_option (\<lambda>g''. (g'', Some err)) (ip_Release addr g')))
         (bucket_TakeContext ctx now sourceDomain s))"

definition take_ip ::
  "go_err option \<Rightarrow> int \<Rightarrow> string \<Rightarrow> group \<Rightarrow> (group \<times> go_err option) option list" where
  "take_ip ctx now addr g =
    (case g_ip g of
       None \<Rightarrow> [Some (g, None)]
     | Some ip \<Rightarrow> map (\<lambda>out. case out of
           None \<Rightarrow> None
         | Some (ip', None) \<Rightarrow> Some (g\<lparr>g_ip := Some ip'\<rparr>, None)
         | Some (ip', Some err) \<Rightarrow>
             map_option (\<lambda>g'. (g', Some err)) (global_Release (g\<lparr>g_ip := Some ip'\<rparr>)))
         (bucket_TakeContext ctx now addr ip))"

text \<open>Continue with the next stage after success.\<close>

definition outs_bind ::
  "('s \<times> go_err option) option list \<Rightarrow> ('s \<Rightarrow> ('s \<times> go_err option) option list) \<Rightarrow> ('s \<times> go_err option) option list" where
  "outs_bind outs f = concat (map (\<lambda>out. case out of Some (s, None) \<Rightarrow> f s | _ \<Rightarrow> [out]) outs)"

definition TakeMsg ::
  "go_err option \<Rightarrow> int \<Rightarrow> string \<Rightarrow> string \<Rightarrow> group \<Rightarrow> (group \<times> go_err option) option list" where
  "TakeMsg ctx now addr sourceDomain g =
    outs_bind (map (map_option (\<lambda>(ls, e). (g\<lparr>g_global := ls\<rparr>, e))) (multi_TakeContext ctx [] (g_global g)))
      (\<lambda>g. outs_bind (take_ip ctx now addr g) (take_source ctx now addr sourceDomain))"

definition ReleaseMsg :: "string \<Rightarrow> string \<Rightarrow> group \<Rightarrow> group option" where
  "ReleaseMsg addr sourceDomain g =
    (case global_Release g of
       None \<Rightarrow> None
     | Some g \<Rightarrow>
        (case (if g_ip g \<noteq> None then ip_Release addr g else Some g) of
           None \<Rightarrow> None
         | Some g \<Rightarrow> if g_source g \<noteq> None then source_Release sourceDomain g else Some g))"

section \<open>The accounts of a group\<close>

text \<open>\<open>n\<close> messages in flight globally, \<open>fi\<close> per address and \<open>fs\<close> per
  source domain.\<close>

definition set_may :: "(string \<Rightarrow> nat) \<Rightarrow> bucketset option \<Rightarrow> bool" where
  "set_may f b = (case b of None \<Rightarrow> True | Some r \<Rightarrow> bucket_may f r)"

definition set_room :: "bucketset option \<Rightarrow> bool" where
  "set_room b = (case b of None \<Rightarrow> True | Some r \<Rightarrow> bucket_room r)"

definition group_may :: "nat \<Rightarrow> (string \<Rightarrow> nat) \<Rightarrow> (string \<Rightarrow> nat) \<Rightarrow> group \<Rightarrow> bool" where
  "group_may n fi fs g \<longleftrightarrow> (\<forall>l \<in> set (g_global g). L_may n l) \<and> set_may fi (g_ip g) \<and> set_may fs (g_source g)"

definition inc :: "string \<Rightarrow> (string \<Rightarrow> nat) \<Rightarrow> string \<Rightarrow> nat" where
  "inc k f = f(k := Suc (f k))"

fun out_good :: "('s \<Rightarrow> bool) \<Rightarrow> ('s \<Rightarrow> bool) \<Rightarrow> ('s \<times> go_err option) option \<Rightarrow> bool" where
  "out_good P Q None = False"
| "out_good P Q (Some (x, None)) = P x"
| "out_good P Q (Some (x, Some e)) = Q x"

definition outs_all ::
  "('s \<Rightarrow> bool) \<Rightarrow> ('s \<Rightarrow> bool) \<Rightarrow> ('s \<times> go_err option) option list \<Rightarrow> bool" where
  "outs_all P Q outs = list_all (out_good P Q) outs"

lemma outs_all_simps [simp]:
  "outs_all P Q [] \<longleftrightarrow> True" "outs_all P Q (x # xs) \<longleftrightarrow> out_good P Q x \<and> outs_all P Q xs"
  "outs_all P Q (xs @ ys) \<longleftrightarrow> outs_all P Q xs \<and> outs_all P Q ys"
  by (simp_all add: outs_all_def)

lemma outs_ok_all: "outs_ok may n outs = outs_all (may (Suc n)) (may n) outs"
proof -
  have "out_good (may (Suc n)) (may n) out =
    (case out of None \<Rightarrow> False | Some (x, None) \<Rightarrow> may (Suc n) x | Some (x, Some e) \<Rightarrow> may n x)" for out
    by (cases "(may (Suc n), may n, out)" rule: out_good.cases) auto
  then show ?thesis by (simp add: outs_ok_def outs_all_def list_all_iff)
qed

lemma outs_all_bind:
  assumes "outs_all P Q outs" "\<And>x. P x \<Longrightarrow> outs_all P' Q (f x)"
  shows "outs_all P' Q (outs_bind outs f)"
  using assms(1)
proof (induction outs)
  case (Cons out outs)
  then show ?case
    using assms(2) by (cases "(P, Q, out)" rule: out_good.cases) (simp_all add: outs_bind_def)
qed (simp add: outs_bind_def)

lemma outs_all_map:
  assumes "outs_ok may n outs"
    and "\<And>x. may (Suc n) x \<Longrightarrow> out_good P Q (h (Some (x, None)))"
    and "\<And>x e. may n x \<Longrightarrow> out_good P Q (h (Some (x, Some e)))"
  shows "outs_all P Q (map h outs)"
  using assms(1) unfolding outs_ok_all
proof (induction outs)
  case (Cons out outs)
  then show ?case
    using assms(2,3) by (cases "(may (Suc n), may n, out)" rule: out_good.cases) simp_all
qed simp

lemma global_Release_may:
  assumes "\<forall>l \<in> set (g_global g). L_may (Suc n) l"
  shows "\<exists>ls. global_Release g = Some (g\<lparr>g_global := ls\<rparr>) \<and> (\<forall>l \<in> set ls. L_may n l)"
  using release_may(2) [OF assms] by (auto simp: global_Release_def)

lemma bucket_release_inc:
  assumes "bucket_may (inc key f) r"
  shows "\<exists>r'. bucket_Release key r = Some r' \<and> bucket_may f r'"
  using bucket_release_may [OF assms [unfolded inc_def]] by simp

lemma ip_Release_may:
  assumes "set_may (inc addr fi) (g_ip g)" "g_ip g \<noteq> None"
  shows "\<exists>b. ip_Release addr g = Some (g\<lparr>g_ip := Some b\<rparr>) \<and> bucket_may fi b"
  using assms bucket_release_inc [of addr fi "the (g_ip g)"] by (auto simp: ip_Release_def set_may_def) blast

lemma source_Release_may:
  assumes "set_may (inc domain fs) (g_source g)" "g_source g \<noteq> None"
  shows "\<exists>b. source_Release domain g = Some (g\<lparr>g_source := Some b\<rparr>) \<and> bucket_may fs b"
  using assms bucket_release_inc [of domain fs "the (g_source g)"] by (auto simp: source_Release_def set_may_def) blast

lemma bucket_take_inc:
  assumes "bucket_may f r" "bucket_room r"
  shows "outs_ok (\<lambda>n b. bucket_may (f(key := n)) b) (f key) (bucket_TakeContext ctx now key r)"
    "bucket_may (f(key := Suc (f key))) x \<Longrightarrow> bucket_may (inc key f) x"
    "bucket_may (f(key := f key)) x \<Longrightarrow> bucket_may f x"
  using bucket_take_may [OF assms] by (simp_all add: inc_def)

lemma take_ip_may:
  assumes "group_may (Suc n) fi fs g" "set_room (g_ip g)"
  shows "outs_all
    (\<lambda>g'. group_may (Suc n) (inc addr fi) fs g' \<and> g_source g' = g_source g \<and> (g_ip g' = None \<longleftrightarrow> g_ip g = None))
    (group_may n fi fs) (take_ip ctx now addr g)"
proof (cases "g_ip g")
  case None
  with assms show ?thesis by (simp add: take_ip_def group_may_def set_may_def)
next
  case (Some ip)
  from assms Some have b: "bucket_may fi ip" "bucket_room ip"
    and g: "\<forall>l \<in> set (g_global g). L_may (Suc n) l" "set_may fs (g_source g)"
    by (auto simp: group_may_def set_may_def set_room_def)
  note T = bucket_take_inc [OF b, where key = addr]
  show ?thesis
    unfolding take_ip_def Some option.case
  proof (rule outs_all_map [OF T(1)], goal_cases)
    case (1 x)
    with T(2) g show ?case by (auto simp: group_may_def set_may_def Some)
  next
    case (2 x e)
    from global_Release_may [of "g\<lparr>g_ip := Some x\<rparr>" n] g(1) obtain ls where
      "global_Release (g\<lparr>g_ip := Some x\<rparr>) = Some (g\<lparr>g_ip := Some x, g_global := ls\<rparr>)" "\<forall>l \<in> set ls. L_may n l" by auto
    with 2 T(3) g show ?case by (auto simp: group_may_def set_may_def)
  qed
qed

lemma take_source_may:
  assumes "group_may (Suc n) (inc addr fi) fs g" "set_room (g_source g)" "g_source g \<noteq> None \<longrightarrow> g_ip g \<noteq> None"
  shows "outs_all (group_may (Suc n) (inc addr fi) (inc domain fs)) (group_may n fi fs)
    (take_source ctx now addr domain g)"
proof (cases "g_source g")
  case None
  with assms show ?thesis by (simp add: take_source_def group_may_def set_may_def)
next
  case (Some s)
  from assms Some have b: "bucket_may fs s" "bucket_room s"
    and g: "\<forall>l \<in> set (g_global g). L_may (Suc n) l" "set_may (inc addr fi) (g_ip g)" "g_ip g \<noteq> None"
    by (auto simp: group_may_def set_may_def set_room_def)
  note T = bucket_take_inc [OF b, where key = domain]
  show ?thesis
    unfolding take_source_def Some option.case
  proof (rule outs_all_map [OF T(1)], goal_cases)
    case (1 x)
    with T(2) g show ?case by (auto simp: group_may_def set_may_def)
  next
    case (2 x e)
    from global_Release_may [of "g\<lparr>g_source := Some x\<rparr>" n] g(1) obtain ls where
      ls: "global_Release (g\<lparr>g_source := Some x\<rparr>) = Some (g\<lparr>g_source := Some x, g_global := ls\<rparr>)" "\<forall>l \<in> set ls. L_may n l"
      by auto
    from ip_Release_may [of addr fi "g\<lparr>g_source := Some x, g_global := ls\<rparr>"] g(2,3) obtain ip where
      "ip_Release addr (g\<lparr>g_source := Some x, g_global := ls\<rparr>) = Some (g\<lparr>g_source := Some x, g_global := ls, g_ip := Some ip\<rparr>)"
      "bucket_may fi ip" by auto
    with 2 T(3) g ls show ?case by (auto simp: group_may_def set_may_def)
  qed
qed

section \<open>Taking and releasing\<close>

lemma TakeMsg_may:
  assumes "group_may n fi fs g" and "set_room (g_ip g)" and "set_room (g_source g)"
    and "g_source g \<noteq> None \<longrightarrow> g_ip g \<noteq> None"
  shows "outs_all (group_may (Suc n) (inc addr fi) (inc domain fs)) (group_may n fi fs)
    (TakeMsg ctx now addr domain g)"
proof -
  from assms(1) have l: "\<forall>l \<in> set (g_global g). L_may n l" and b: "set_may fi (g_ip g)" "set_may fs (g_source g)"
    by (auto simp: group_may_def)
  have "outs_ok (\<lambda>n ls. \<forall>l \<in> set ls. L_may n l) n (multi_TakeContext ctx [] (g_global g))"
    by (rule take_may(2) [OF _ l]) simp
  then have 1: "outs_all (\<lambda>g'. group_may (Suc n) fi fs g' \<and> g_ip g' = g_ip g \<and> g_source g' = g_source g)
      (group_may n fi fs)
      (map (map_option (\<lambda>(ls, e). (g\<lparr>g_global := ls\<rparr>, e))) (multi_TakeContext ctx [] (g_global g)))"
    by (rule outs_all_map) (simp_all add: group_may_def b)
  show ?thesis
    unfolding TakeMsg_def
    by (rule outs_all_bind [OF 1], rule outs_all_bind [OF take_ip_may])
      (use assms in \<open>auto intro!: take_source_may\<close>)
qed

lemma ReleaseMsg_may:
  assumes "group_may (Suc n) (inc addr fi) (inc domain fs) g"
  shows "\<exists>g'. ReleaseMsg addr domain g = Some g' \<and> group_may n fi fs g'"
proof -
  from assms have a: "\<forall>l \<in> set (g_global g). L_may (Suc n) l" "set_may (inc addr fi) (g_ip g)"
    "set_may (inc domain fs) (g_source g)" by (auto simp: group_may_def)
  from global_Release_may [OF a(1)] obtain ls where
    1: "global_Release g = Some (g\<lparr>g_global := ls\<rparr>)" "\<forall>l \<in> set ls. L_may n l" by blast
  define g1 where "g1 = g\<lparr>g_global := ls\<rparr>"
  have "\<exists>g2. (if g_ip g1 \<noteq> None then ip_Release addr g1 else Some g1) = Some g2
      \<and> set_may fi (g_ip g2) \<and> g_global g2 = ls \<and> g_source g2 = g_source g"
    using ip_Release_may [of addr fi g1] a(2) by (auto simp: g1_def set_may_def)
  then obtain g2 where 2: "(if g_ip g1 \<noteq> None then ip_Release addr g1 else Some g1) = Some g2"
    "set_may fi (g_ip g2)" "g_global g2 = ls" "g_source g2 = g_source g" by blast
  have "\<exists>g3. (if g_source g2 \<noteq> None then source_Release domain g2 else Some g2) = Some g3
      \<and> set_may fs (g_source g3) \<and> g_global g3 = ls \<and> g_ip g3 = g_ip g2"
    using source_Release_may [of domain fs g2] a(3) 2(3,4) by (auto simp: set_may_def)
  then show ?thesis
    using 1 2 unfolding ReleaseMsg_def g1_def [symmetric] by (auto simp: group_may_def)
qed

section \<open>The contract of a quota\<close>

text \<open>What the endpoints rely on: a quota with the keys in \<open>M\<close> held can be acquired
  for one more key, or refuses and is unchanged, and a held key can be released.\<close>

locale quota =
  fixes acquire :: "'c \<Rightarrow> 'k \<Rightarrow> 'g \<Rightarrow> ('g \<times> go_err option) option list"
    and release :: "'k \<Rightarrow> 'g \<Rightarrow> 'g option"
    and held :: "'k multiset \<Rightarrow> 'g \<Rightarrow> bool"
    and room :: "'g \<Rightarrow> bool"
  assumes acquire_held: "held M g \<Longrightarrow> room g \<Longrightarrow> outs_all (held (add_mset k M)) (held M) (acquire c k g)"
    and release_held: "held (add_mset k M) g \<Longrightarrow> \<exists>g'. release k g = Some g' \<and> held M g'"
begin

lemma acquire_cases:
  assumes "held M g" "room g" "out \<in> set (acquire c k g)"
  obtains g' where "out = Some (g', None)" "held (add_mset k M) g'"
  | g' e where "out = Some (g', Some e)" "held M g'"
proof -
  from acquire_held [OF assms(1,2)] assms(3) have "out_good (held (add_mset k M)) (held M) out"
    by (auto simp: outs_all_def list_all_iff)
  then show thesis
    using that by (cases "(held (add_mset k M), held M, out)" rule: out_good.cases) auto
qed

lemma release_cases:
  assumes "held M g" "k \<in># M"
  obtains g' where "release k g = Some g'" "held (M - {#k#}) g'"
  using release_held [of k "M - {#k#}" g] assms by auto

lemma release_same:
  assumes "held (add_mset k M) g" "release k g = r"
  obtains g' where "r = Some g'" "held M g'"
  using release_held [OF assms(1)] assms(2) by auto

end

text \<open>The group of limiters: a key is an address with a source domain.\<close>

definition held_msgs :: "(string \<times> string) multiset \<Rightarrow> group \<Rightarrow> bool" where
  "held_msgs M g = group_may (size M) (count (image_mset fst M)) (count (image_mset snd M)) g"

definition limits_room :: "group \<Rightarrow> bool" where
  "limits_room g \<longleftrightarrow> set_room (g_ip g) \<and> set_room (g_source g) \<and> (g_source g \<noteq> None \<longrightarrow> g_ip g \<noteq> None)"

lemma inc_count: "inc x (count M) = count (add_mset x M)"
  by (auto simp: inc_def fun_eq_iff)

interpretation lims: quota "\<lambda>(ctx, now) (addr, domain). TakeMsg ctx now addr domain"
  "\<lambda>(addr, domain). ReleaseMsg addr domain" held_msgs limits_room
proof (unfold_locales, goal_cases)
  case (1 M g k c)
  then show ?case
    using TakeMsg_may [of "size M" "count (image_mset fst M)" "count (image_mset snd M)" g "fst k" "snd k" "fst c" "snd c"]
    by (simp add: held_msgs_def [abs_def] limits_room_def inc_count case_prod_beta)
next
  case (2 k M g)
  then show ?case
    using ReleaseMsg_may [of "size M" "fst k" "count (image_mset fst M)" "snd k" "count (image_mset snd M)" g]
    by (simp add: held_msgs_def inc_count case_prod_beta)
qed

section \<open>Properties\<close>

text \<open>limits are taken completely or not at all. When \<open>TakeMsg\<close> succeeds the
  message is counted globally, for its address and for its source domain; when it
  fails every counter is as before; it does not panic. This needs room in the
  bucket sets and an address limit beside every source limit.\<close>

lemma TakeMsg_all_or_nothing:
  assumes "group_may n fi fs g" and "set_room (g_ip g)" and "set_room (g_source g)"
    and "g_source g \<noteq> None \<longrightarrow> g_ip g \<noteq> None"
  shows "outs_all (group_may (Suc n) (inc addr fi) (inc domain fs)) (group_may n fi fs)
    (TakeMsg ctx now addr domain g)"
  using assms by (rule TakeMsg_may)

definition demo_group :: group where
  "demo_group = \<lparr>g_global = [LSem \<lparr>sem_cap = 1, sem_len = 0\<rparr>], g_ip = None, g_source = None, g_dest = None\<rparr>"

lemma TakeMsg_all_or_nothing_witness:
  "group_may 0 (\<lambda>_. 0) (\<lambda>_. 0) demo_group
    \<and> TakeMsg None 0 [] [] demo_group = [Some (demo_group\<lparr>g_global := [LSem \<lparr>sem_cap = 1, sem_len = 1\<rparr>]\<rparr>, None)]
    \<and> group_may (Suc 0) (inc [] (\<lambda>_. 0)) (inc [] (\<lambda>_. 0)) (demo_group\<lparr>g_global := [LSem \<lparr>sem_cap = 1, sem_len = 1\<rparr>]\<rparr>)"
proof -
  have m: "group_may 0 (\<lambda>_. 0) (\<lambda>_. 0) demo_group" by (simp add: demo_group_def group_may_def set_may_def)
  have t: "TakeMsg None 0 [] [] demo_group = [Some (demo_group\<lparr>g_global := [LSem \<lparr>sem_cap = 1, sem_len = 1\<rparr>]\<rparr>, None)]"
    by (simp add: TakeMsg_def demo_group_def sem_TakeContext_def outs_bind_def take_ip_def take_source_def)
  have "outs_all (group_may (Suc 0) (inc [] (\<lambda>_. 0)) (inc [] (\<lambda>_. 0))) (group_may 0 (\<lambda>_. 0) (\<lambda>_. 0))
      (TakeMsg None 0 [] [] demo_group)"
    by (rule TakeMsg_all_or_nothing [OF m]) (simp_all add: demo_group_def set_room_def)
  with m t show ?thesis by simp
qed

section \<open>Observations\<close>

text \<open>Without an address limit, a failed source limit is undone on a nil set.\<close>

lemma TakeMsg_nil_ip:
  assumes "g_global g = []" "g_ip g = None" "g_source g = Some s"
    "Some (s', Some e) \<in> set (bucket_TakeContext ctx now domain s)"
  shows "None \<in> set (TakeMsg ctx now addr domain g)"
proof -
  have "None \<in> set (take_source ctx now addr domain (g\<lparr>g_global := []\<rparr>))"
    using assms(2-4) unfolding take_source_def
    by (force simp: global_Release_def ip_Release_def assms(1) intro!: image_eqI [where x = "Some (s', Some e)"])
  with assms show ?thesis by (simp add: TakeMsg_def outs_bind_def take_ip_def)
qed

text \<open>A destination limit is built from the source limits: alone it limits
  nothing.\<close>

lemma destination_uses_source:
  assumes "limit_loop lib (children block) ([], [], [], []) = Some (Inr (gl, il, [], dl))" "dl \<noteq> []"
  shows "\<exists>g b. limits_Init lib block = Some (Inr g) \<and> g_dest g = Some b \<and> bs_New b = Some (Some (LMulti []))"
  using assms by (simp add: limits_Init_def NewBucketSet_def new_multi_def)

end
