(* ===== verification/Dmarc.thy ===== *)
theory Dmarc
  imports Address Module
begin

text \<open>
  DMARC (\<open>internal/dmarc\<close>): fetching the policy record of the author domain,
  alignment of the authenticated identifiers and the resulting policy. Parameters
  (record \<open>dmarc_lib\<close>): Unicode case folding, the public suffix list, the
  parser of policy records and the parser of address lists, all third-party or
  standard tables.
\<close>

section \<open>Data\<close>

text \<open>Results of checks as they appear in \<open>Authentication-Results\<close>; the value is
  the text of the result, empty when not set.\<close>

record dkim_result =
  dk_Value :: string
  dk_Domain :: string

record spf_result =
  sp_Value :: string
  sp_From :: string
  sp_Helo :: string

record dmarc_result =
  dm_Value :: string
  dm_Reason :: string
  dm_From :: string

datatype auth_result = ADkim dkim_result | ASpf spf_result | ADmarc dmarc_result | AOther string

datatype policy = PolicyNone | PolicyReject | PolicyQuarantine

record dmarc_record =
  dr_Policy :: policy
  dr_SubdomainPolicy :: "policy option"
  dr_DKIMStrict :: bool
  dr_SPFStrict :: bool
  dr_Percent :: "int option"

record dmarc_lib =
  dl_fold :: "rune \<Rightarrow> rune \<Rightarrow> bool"
  dl_PublicSuffix :: "string \<Rightarrow> string"
  dl_ETLDPlusOne :: "string \<Rightarrow> go_err + string"
  dl_Parse :: "string \<Rightarrow> go_err + dmarc_record"
  dl_FQDN :: "string \<Rightarrow> string"
  dl_ParseAddressList :: "string \<Rightarrow> go_err + string list"

definition resPass :: string where "resPass = ''pass''"
definition resFail :: string where "resFail = ''fail''"
definition resNone :: string where "resNone = ''none''"
definition resTempError :: string where "resTempError = ''temperror''"
definition resPermError :: string where "resPermError = ''permerror''"

text \<open>\<open>strings.EqualFold\<close> over the folding of the library.\<close>

definition eqFold :: "dmarc_lib \<Rightarrow> string \<Rightarrow> string \<Rightarrow> bool" where
  "eqFold lib s t = list_all2 (dl_fold lib) (runes s) (runes t)"

section \<open>The policy record\<close>

text \<open>The answers of the resolver are \<open>lookup\<close>; the texts may come with an error.
  The result is the policy domain, the record and the error.\<close>

definition not_found :: "go_err \<Rightarrow> bool" where
  "not_found e = (case e of DNSError _ _ _ _ _ nf \<Rightarrow> nf | _ \<Rightarrow> False)"

definition select_record ::
  "dmarc_lib \<Rightarrow> string \<Rightarrow> string list \<Rightarrow> string \<times> dmarc_record option \<times> go_err option" where
  "select_record lib policyDomain txts =
    (let records = filter (\<lambda>txt. HasPrefix txt ''v=DMARC1'') txts in
     if length records > 1 \<or> length records = 0 then ([], None, None)
     else (case dl_Parse lib (hd records) of
         Inl err \<Rightarrow> (policyDomain, None, Some err)
       | Inr rec \<Rightarrow> (policyDomain, Some rec, None)))"

definition FetchRecord ::
  "dmarc_lib \<Rightarrow> (string \<Rightarrow> string list \<times> go_err option) \<Rightarrow> string
    \<Rightarrow> string \<times> dmarc_record option \<times> go_err option" where
  "FetchRecord lib lookup fromDomain =
    (case lookup (dl_FQDN lib (''_dmarc.'' @ fromDomain)) of
       (txts, err) \<Rightarrow>
        if err \<noteq> None \<and> \<not> not_found (the err) then ([], None, err)
        else if txts \<noteq> [] then select_record lib fromDomain txts
        else (case dl_ETLDPlusOne lib fromDomain of
            Inl err \<Rightarrow> ([], None, Some err)
          | Inr orgDomain \<Rightarrow>
             (case lookup (dl_FQDN lib (''_dmarc.'' @ orgDomain)) of
                (txts, err) \<Rightarrow>
                  if err \<noteq> None \<and> \<not> not_found (the err) then ([], None, err)
                  else if txts = [] then ([], None, None)
                  else select_record lib orgDomain txts)))"

section \<open>Alignment\<close>

definition isAligned :: "dmarc_lib \<Rightarrow> string \<Rightarrow> string \<Rightarrow> bool \<Rightarrow> bool" where
  "isAligned lib fromDomain authDomain strict =
    (if strict then eqFold lib fromDomain authDomain
     else if eqFold lib fromDomain (dl_PublicSuffix lib fromDomain) then eqFold lib fromDomain authDomain
     else (case dl_ETLDPlusOne lib fromDomain of
         Inl _ \<Rightarrow> False
       | Inr orgDomainFrom \<Rightarrow> (case dl_ETLDPlusOne lib authDomain of
           Inl _ \<Rightarrow> False
         | Inr authDomainFrom \<Rightarrow> eqFold lib orgDomainFrom authDomainFrom)))"

record eval_result =
  ev_Authres :: dmarc_result
  ev_SPFResult :: spf_result
  ev_SPFAligned :: bool
  ev_DKIMResult :: dkim_result
  ev_DKIMAligned :: bool

text \<open>The variables of the loop over the results.\<close>

record align_state =
  al_spfAligned :: bool
  al_spfResult :: spf_result
  al_dkimAligned :: bool
  al_dkimResult :: dkim_result
  al_dkimPresent :: bool
  al_dkimTempFail :: bool

definition align_init :: align_state where
  "align_init = \<lparr>al_spfAligned = False, al_spfResult = \<lparr>sp_Value = [], sp_From = [], sp_Helo = []\<rparr>,
     al_dkimAligned = False, al_dkimResult = \<lparr>dk_Value = [], dk_Domain = []\<rparr>, al_dkimPresent = False,
     al_dkimTempFail = False\<rparr>"

definition align_dkim :: "dmarc_lib \<Rightarrow> string \<Rightarrow> dmarc_record \<Rightarrow> dkim_result \<Rightarrow> align_state \<Rightarrow> align_state" where
  "align_dkim lib fromDomain record dkimRes st =
    (let st = st\<lparr>al_dkimPresent := True\<rparr>;
         st = (if dk_Value (al_dkimResult st) = [] then st\<lparr>al_dkimResult := dkimRes\<rparr> else st)
     in if isAligned lib fromDomain (dk_Domain dkimRes) (dr_DKIMStrict record) then
          (let st = st\<lparr>al_dkimResult := dkimRes\<rparr> in
           if dk_Value dkimRes = resPass then st\<lparr>al_dkimAligned := True\<rparr>
           else if dk_Value dkimRes = resTempError then st\<lparr>al_dkimTempFail := True\<rparr> else st)
        else st)"

definition spf_aligned :: "dmarc_lib \<Rightarrow> string \<Rightarrow> dmarc_record \<Rightarrow> spf_result \<Rightarrow> bool" where
  "spf_aligned lib fromDomain record spfRes =
    isAligned lib fromDomain (if sp_From spfRes = [] then sp_Helo spfRes else sp_From spfRes) (dr_SPFStrict record)"

definition align_spf :: "dmarc_lib \<Rightarrow> string \<Rightarrow> dmarc_record \<Rightarrow> spf_result \<Rightarrow> align_state \<Rightarrow> align_state" where
  "align_spf lib fromDomain record spfRes st =
    (let st = st\<lparr>al_spfResult := spfRes\<rparr> in
     if spf_aligned lib fromDomain record spfRes \<and> sp_Value spfRes = resPass
     then st\<lparr>al_spfAligned := True\<rparr> else st)"

definition align_step :: "dmarc_lib \<Rightarrow> string \<Rightarrow> dmarc_record \<Rightarrow> align_state \<Rightarrow> auth_result \<Rightarrow> align_state" where
  "align_step lib fromDomain record st res =
    (case res of
       ADkim d \<Rightarrow> align_dkim lib fromDomain record d st
     | ASpf s \<Rightarrow> align_spf lib fromDomain record s st
     | _ \<Rightarrow> st)"

definition EvaluateAlignment :: "dmarc_lib \<Rightarrow> string \<Rightarrow> dmarc_record \<Rightarrow> auth_result list \<Rightarrow> eval_result" where
  "EvaluateAlignment lib fromDomain record results =
    (let st = foldl (align_step lib fromDomain record) align_init results;
         res = (\<lambda>v r. \<lparr>ev_Authres = \<lparr>dm_Value = v, dm_Reason = r, dm_From = fromDomain\<rparr>,
                  ev_SPFResult = al_spfResult st, ev_SPFAligned = al_spfAligned st,
                  ev_DKIMResult = al_dkimResult st, ev_DKIMAligned = al_dkimAligned st\<rparr>)
     in if \<not> al_dkimPresent st \<or> sp_Value (al_spfResult st) = [] then
          res resNone ''Not enough information (required checks are disabled)''
        else if al_dkimTempFail st \<and> \<not> al_dkimAligned st \<and> \<not> al_spfAligned st then
          res resTempError ''DKIM authentication temp error''
        else if \<not> al_dkimAligned st \<and> sp_Value (al_spfResult st) = resTempError then
          res resTempError ''SPF authentication temp error''
        else if al_dkimAligned st \<or> al_spfAligned st then res resPass []
        else res resFail ''No aligned identifiers'')"

section \<open>The author domain\<close>

text \<open>Header keys are compared without case; \<open>From\<close> is ASCII.\<close>

definition FieldsByKey :: "header \<Rightarrow> string \<Rightarrow> string list" where
  "FieldsByKey h k =
    map snd (filter (\<lambda>(k', v). map (lower_ascii \<circ> byte_of) k' = map (lower_ascii \<circ> byte_of) k) h)"

text \<open>The loop over the fields: an empty value does not count as the first one.\<close>

fun first_from :: "string \<Rightarrow> string list \<Rightarrow> go_err + string" where
  "first_from firstFrom [] = Inr firstFrom"
| "first_from firstFrom (v # vs) =
     (if firstFrom = [] then first_from v vs
      else Inl (ErrNew ''dmarc: multiple From header fields are not allowed''))"

definition TrimPrefix :: "string \<Rightarrow> string \<Rightarrow> string" where
  "TrimPrefix s p = (if HasPrefix s p then drop (length p) s else s)"

definition ExtractFromDomain :: "dmarc_lib \<Rightarrow> header \<Rightarrow> go_err + string" where
  "ExtractFromDomain lib hdr =
    (case first_from [] (FieldsByKey hdr ''From'') of
       Inl err \<Rightarrow> Inl err
     | Inr firstFrom \<Rightarrow>
        if firstFrom = [] then Inl (ErrNew ''dmarc: missing From header field'')
        else (case dl_ParseAddressList lib firstFrom of
            Inl err \<Rightarrow> Inl (ErrNew (''dmarc: malformed From header field: '' @ TrimPrefix (err_string err) ''mail: ''))
          | Inr [] \<Rightarrow> Inl (ErrNew ''dmarc: missing address in From field'')
          | Inr [a] \<Rightarrow> (case Split a of
              (_, _, Some err) \<Rightarrow> Inl (ErrWrap ''dmarc: malformed From header field: '' err)
            | (_, domain, None) \<Rightarrow> Inr domain)
          | Inr _ \<Rightarrow> Inl (ErrNew ''dmarc: multiple addresses in From field are not allowed'')))"

section \<open>The verifier\<close>

record verify_data =
  vd_policyDomain :: string
  vd_fromDomain :: string
  vd_record :: "dmarc_record option"
  vd_recordErr :: "go_err option"

text \<open>\<open>errPanic\<close>, an error of its own type without further methods.\<close>

definition errPanic :: go_err where
  "errPanic = ErrNew ''panic during policy fetch''"

text \<open>What the goroutine of \<open>FetchRecord\<close> puts into the channel; \<open>lookup\<close> is
  \<open>None\<close> when it panics.\<close>

definition Verifier_FetchRecord ::
  "dmarc_lib \<Rightarrow> (string \<Rightarrow> string list \<times> go_err option) option \<Rightarrow> header \<Rightarrow> verify_data" where
  "Verifier_FetchRecord lib lookup hdr =
    (case ExtractFromDomain lib hdr of
       Inl err \<Rightarrow> \<lparr>vd_policyDomain = [], vd_fromDomain = [], vd_record = None, vd_recordErr = Some err\<rparr>
     | Inr fromDomain \<Rightarrow>
        (case lookup of
           None \<Rightarrow> \<lparr>vd_policyDomain = [], vd_fromDomain = [], vd_record = None, vd_recordErr = Some errPanic\<rparr>
         | Some lk \<Rightarrow>
            (case FetchRecord lib lk fromDomain of
               (policyDomain, record, err) \<Rightarrow>
                 \<lparr>vd_policyDomain = policyDomain, vd_fromDomain = fromDomain, vd_record = record,
                  vd_recordErr = err\<rparr>)))"

definition dns_temporary :: "go_err \<Rightarrow> bool" where
  "dns_temporary e = (case e of DNSError _ _ _ tmo tmp _ \<Rightarrow> tmo \<or> tmp | _ \<Rightarrow> False)"

definition bare_eval :: "dmarc_result \<Rightarrow> eval_result" where
  "bare_eval a = \<lparr>ev_Authres = a, ev_SPFResult = \<lparr>sp_Value = [], sp_From = [], sp_Helo = []\<rparr>, ev_SPFAligned = False,
     ev_DKIMResult = \<lparr>dk_Value = [], dk_Domain = []\<rparr>, ev_DKIMAligned = False\<rparr>"

text \<open>\<open>Apply\<close>; \<open>rnd\<close> is the value of \<open>rand.Int31n(100)\<close>.\<close>

definition Apply_policy :: "dmarc_lib \<Rightarrow> int \<Rightarrow> verify_data \<Rightarrow> auth_result list \<Rightarrow> eval_result \<times> policy" where
  "Apply_policy lib rnd data authRes =
    (case vd_recordErr data of
       Some err \<Rightarrow>
        (let result = \<lparr>dm_Value = resPermError, dm_Reason = ''Policy lookup failed: '' @ err_string err,
               dm_From = vd_fromDomain data\<rparr>
         in if dns_temporary err then (bare_eval (result\<lparr>dm_Value := resTempError\<rparr>), PolicyReject)
            else (bare_eval result, PolicyNone))
     | None \<Rightarrow>
        (case vd_record data of
           None \<Rightarrow> (bare_eval \<lparr>dm_Value = resNone, dm_Reason = [], dm_From = vd_fromDomain data\<rparr>, PolicyNone)
         | Some record \<Rightarrow>
            (let result = EvaluateAlignment lib (vd_fromDomain data) record authRes in
             if dm_Value (ev_Authres result) = resPass \<or> dm_Value (ev_Authres result) = resNone
             then (result, PolicyNone)
             else if (case dr_Percent record of None \<Rightarrow> False | Some pct \<Rightarrow> rnd > pct) then (result, PolicyNone)
             else (result,
               case dr_SubdomainPolicy record of
                 Some sp \<Rightarrow> if \<not> eqFold lib (vd_policyDomain data) (vd_fromDomain data) then sp else dr_Policy record
               | None \<Rightarrow> dr_Policy record))))"

section \<open>The loop over the results\<close>

lemmas res_defs = resPass_def resFail_def resNone_def resTempError_def resPermError_def

definition dkim_ok :: "dmarc_lib \<Rightarrow> string \<Rightarrow> dmarc_record \<Rightarrow> string \<Rightarrow> auth_result \<Rightarrow> bool" where
  "dkim_ok lib d record v res =
    (case res of ADkim r \<Rightarrow> dk_Value r = v \<and> isAligned lib d (dk_Domain r) (dr_DKIMStrict record) | _ \<Rightarrow> False)"

definition spf_ok :: "dmarc_lib \<Rightarrow> string \<Rightarrow> dmarc_record \<Rightarrow> auth_result \<Rightarrow> bool" where
  "spf_ok lib d record res =
    (case res of ASpf r \<Rightarrow> sp_Value r = resPass \<and> spf_aligned lib d record r | _ \<Rightarrow> False)"

lemma align_step_flags:
  "al_dkimAligned (align_step lib d record st res) = (al_dkimAligned st \<or> dkim_ok lib d record resPass res)"
  "al_dkimTempFail (align_step lib d record st res) = (al_dkimTempFail st \<or> dkim_ok lib d record resTempError res)"
  "al_spfAligned (align_step lib d record st res) = (al_spfAligned st \<or> spf_ok lib d record res)"
  "al_dkimPresent (align_step lib d record st res) = (al_dkimPresent st \<or> (\<exists>r. res = ADkim r))"
  "al_spfResult (align_step lib d record st res) = (case res of ASpf r \<Rightarrow> r | _ \<Rightarrow> al_spfResult st)"
  by (auto simp: align_step_def align_dkim_def align_spf_def dkim_ok_def spf_ok_def Let_def res_defs
      split: auth_result.splits)

lemma align_flags:
  "al_dkimAligned (foldl (align_step lib d record) st results) = (al_dkimAligned st \<or> list_ex (dkim_ok lib d record resPass) results)"
  "al_dkimTempFail (foldl (align_step lib d record) st results) = (al_dkimTempFail st \<or> list_ex (dkim_ok lib d record resTempError) results)"
  "al_spfAligned (foldl (align_step lib d record) st results) = (al_spfAligned st \<or> list_ex (spf_ok lib d record) results)"
  by (induction results arbitrary: st) (auto simp: align_step_flags)

lemma align_present:
  "al_dkimPresent (foldl (align_step lib d record) st results) = (al_dkimPresent st \<or> (\<exists>r. ADkim r \<in> set results))"
  by (induction results arbitrary: st) (auto simp: align_step_flags)

lemma evaluate_values:
  "dm_Value (ev_Authres (EvaluateAlignment lib d record results)) \<in> {resPass, resNone, resFail, resTempError}"
  by (simp add: EvaluateAlignment_def Let_def)

section \<open>Properties\<close>

text \<open>when DMARC passes. The evaluation gives pass exactly when both mechanisms
  were evaluated and a DKIM signature with an aligned domain has passed, or an SPF
  result with an aligned domain has passed and the last SPF result is not a
  temporary error.\<close>

lemma dmarc_pass_iff_aligned:
  "dm_Value (ev_Authres (EvaluateAlignment lib d record results)) = resPass \<longleftrightarrow>
    (\<exists>r. ADkim r \<in> set results) \<and> sp_Value (ev_SPFResult (EvaluateAlignment lib d record results)) \<noteq> []
    \<and> (list_ex (dkim_ok lib d record resPass) results
       \<or> (list_ex (spf_ok lib d record) results
          \<and> sp_Value (ev_SPFResult (EvaluateAlignment lib d record results)) \<noteq> resTempError))"
  by (auto simp: EvaluateAlignment_def Let_def align_flags align_present align_init_def res_defs)







definition demo_dmarc_lib :: dmarc_lib where
  "demo_dmarc_lib = \<lparr>dl_fold = (=), dl_PublicSuffix = (\<lambda>_. ''com''), dl_ETLDPlusOne = Inr, dl_Parse = (\<lambda>_. Inl errPanic),
     dl_FQDN = (\<lambda>s. s), dl_ParseAddressList = (\<lambda>_. Inr [])\<rparr>"

section \<open>Observations\<close>

text \<open>The percentage is off by one: at zero percent the policy is still applied when
  the random number is zero.\<close>

lemma zero_percent_applies:
  assumes "vd_recordErr data = None" "vd_record data = Some record" "dr_Percent record = Some 0"
    "dr_SubdomainPolicy record = None"
    "dm_Value (ev_Authres (EvaluateAlignment lib (vd_fromDomain data) record authRes)) = resFail"
  shows "snd (Apply_policy lib 0 data authRes) = dr_Policy record"
  using assms by (simp add: Apply_policy_def Let_def res_defs)

text \<open>A panic of the lookup does not panic in \<open>Apply\<close>: it lets the message
  through.\<close>

lemma lookup_panic_is_open:
  assumes "ExtractFromDomain lib hdr = Inr d"
  shows "snd (Apply_policy lib rnd (Verifier_FetchRecord lib None hdr) authRes) = PolicyNone"
  using assms by (simp add: Verifier_FetchRecord_def Apply_policy_def dns_temporary_def errPanic_def Let_def)

end
