(* ===== verification/CheckRunner.thy ===== *)
theory CheckRunner
  imports Dmarc "HOL-Library.AList"
begin

text \<open>
  The check runner of the message pipeline
  (\<open>internal/msgpipeline/check_runner.go\<close>): state objects of checks, the
  concurrent execution of a group of checks and the merge of their results.

  Checks are named by numbers (object identities); a state object is a check with
  a serial number. The methods of checks act on a world \<open>'w\<close>; a method that
  panics has no result. Goroutines run in the order given by \<open>pe_sched\<close>; what
  follows a call in a goroutine (the merge of its result) is done before the next
  goroutine of that order runs.
\<close>

section \<open>Checks and their environment\<close>

type_synonym cstate = "nat \<times> nat"

type_synonym result = "auth_result check_result"

record 'w checks =
  ck_StateForMsg :: "nat \<Rightarrow> msg_meta \<Rightarrow> 'w \<Rightarrow> 'w \<times> go_err option"
  ck_Connection :: "cstate \<Rightarrow> 'w \<Rightarrow> 'w \<times> result option"
  ck_Sender :: "cstate \<Rightarrow> string \<Rightarrow> 'w \<Rightarrow> 'w \<times> result option"
  ck_Rcpt :: "cstate \<Rightarrow> string \<Rightarrow> 'w \<Rightarrow> 'w \<times> result option"
  ck_Body :: "cstate \<Rightarrow> header \<Rightarrow> string \<Rightarrow> 'w \<Rightarrow> 'w \<times> result option"
  ck_Close :: "cstate \<Rightarrow> 'w \<Rightarrow> 'w"

record 'w penv =
  pe_checks :: "'w checks"
  pe_sched :: "cstate list \<Rightarrow> cstate list"
  pe_dmarc :: dmarc_lib
  pe_lookup :: "(string \<Rightarrow> string list \<times> go_err option) option"
  pe_rnd :: int
  pe_authres :: "string \<Rightarrow> auth_result list \<Rightarrow> string"

text \<open>The runner. \<open>rn_msgMeta\<close> is the metadata object it shares with the
  pipeline, \<open>rn_fetch\<close> the contents of the channel of the DMARC verifier.\<close>

record runner =
  rn_msgMeta :: msg_meta
  rn_mailFrom :: string
  rn_mailFromReceived :: bool
  rn_checkedRcpts :: "string list"
  rn_perCheck :: "cstate \<Rightarrow> string list"
  rn_doDMARC :: bool
  rn_didDMARCFetch :: bool
  rn_fetch :: "verify_data option"
  rn_states :: "(nat \<times> cstate) list"
  rn_serial :: nat
  rn_merged :: result

definition newCheckRunner :: "msg_meta \<Rightarrow> runner" where
  "newCheckRunner msgMeta =
    \<lparr>rn_msgMeta = msgMeta, rn_mailFrom = [], rn_mailFromReceived = False, rn_checkedRcpts = [],
     rn_perCheck = (\<lambda>_. []), rn_doDMARC = False, rn_didDMARCFetch = False, rn_fetch = None, rn_states = [],
     rn_serial = 0, rn_merged = empty_result\<rparr>"

section \<open>Running a group of checks\<close>

type_synonym 'w run = "cstate \<Rightarrow> runner \<Rightarrow> 'w \<Rightarrow> runner \<times> 'w \<times> result option"

definition merge_result :: "result \<Rightarrow> runner \<Rightarrow> runner" where
  "merge_result res rn =
    rn\<lparr>rn_merged := (rn_merged rn)
      \<lparr>cr_AuthResult := cr_AuthResult (rn_merged rn) @ cr_AuthResult res,
       cr_Header := foldl (\<lambda>h (k, v). hdr_Add h k v) (cr_Header (rn_merged rn)) (cr_Header res)\<rparr>\<rparr>"

text \<open>\<open>sync.Once\<close>: the first call sets the value, also when it sets nil.\<close>

definition once :: "'a option option \<Rightarrow> 'a option \<Rightarrow> 'a option option" where
  "once cell v = (case cell of None \<Rightarrow> Some v | Some old \<Rightarrow> Some old)"

fun merge_loop ::
  "'w run \<Rightarrow> cstate list \<Rightarrow> go_err option option \<Rightarrow> go_err option option \<Rightarrow> runner \<Rightarrow> 'w
    \<Rightarrow> go_err option option \<times> go_err option option \<times> runner \<times> 'w" where
  "merge_loop run [] quar rej rn w = (quar, rej, rn, w)"
| "merge_loop run (s # ss) quar rej rn w =
     (case run s rn w of
        (rn, w, None) \<Rightarrow> merge_loop run ss quar rej rn w
      | (rn, w, Some res) \<Rightarrow>
          (let rn = merge_result res rn in
           if cr_Quarantine res then merge_loop run ss (once quar (cr_Reason res)) rej rn w
           else if cr_Reject res then merge_loop run ss quar (once rej (cr_Reason res)) rn w
           else merge_loop run ss quar rej rn w))"

definition runAndMergeResults ::
  "'w penv \<Rightarrow> cstate list \<Rightarrow> 'w run \<Rightarrow> runner \<Rightarrow> 'w \<Rightarrow> runner \<times> 'w \<times> go_err option" where
  "runAndMergeResults env states run rn w =
    (case merge_loop run (pe_sched env states) None None rn w of
       (quar, rej, rn, w) \<Rightarrow>
         (case rej of
            Some (Some err) \<Rightarrow> (rn, w, Some err)
          | _ \<Rightarrow> (case quar of
              Some (Some _) \<Rightarrow> (rn\<lparr>rn_merged := (rn_merged rn)\<lparr>cr_Quarantine := True\<rparr>\<rparr>, w, None)
            | _ \<Rightarrow> (rn, w, None))))"

section \<open>State objects\<close>

definition close_states :: "'w penv \<Rightarrow> cstate list \<Rightarrow> 'w \<Rightarrow> 'w" where
  "close_states env states w = foldl (\<lambda>w s. ck_Close (pe_checks env) s w) w states"

text \<open>The first loop: existing states are taken over, new ones are created.\<close>

fun init_states ::
  "'w penv \<Rightarrow> nat list \<Rightarrow> cstate list \<Rightarrow> cstate list \<Rightarrow> (nat \<times> cstate) list \<Rightarrow> runner \<Rightarrow> 'w
    \<Rightarrow> runner \<times> 'w \<times> (go_err + cstate list \<times> cstate list \<times> (nat \<times> cstate) list)" where
  "init_states env [] states news newMap rn w = (rn, w, Inr (states, news, newMap))"
| "init_states env (check # checks) states news newMap rn w =
     (case map_of (rn_states rn) check of
        Some state \<Rightarrow> init_states env checks (states @ [state]) news newMap rn w
      | None \<Rightarrow>
         (case ck_StateForMsg (pe_checks env) check (rn_msgMeta rn) w of
            (w, Some err) \<Rightarrow> (rn, close_states env states w, Inl err)
          | (w, None) \<Rightarrow>
             (let state = (check, rn_serial rn) in
              init_states env checks (states @ [state]) (news @ [state]) (AList.update check state newMap)
                (rn\<lparr>rn_serial := Suc (rn_serial rn)\<rparr>) w)))"

definition run_connection :: "'w penv \<Rightarrow> 'w run" where
  "run_connection env s rn w = (case ck_Connection (pe_checks env) s w of (w, res) \<Rightarrow> (rn, w, res))"

definition run_sender :: "'w penv \<Rightarrow> 'w run" where
  "run_sender env s rn w = (case ck_Sender (pe_checks env) s (rn_mailFrom rn) w of (w, res) \<Rightarrow> (rn, w, res))"

text \<open>\<open>CheckRcpt\<close> is not called twice for the same state and recipient.\<close>

definition run_rcpt :: "'w penv \<Rightarrow> string \<Rightarrow> 'w run" where
  "run_rcpt env rcpt s rn w =
    (if rcpt \<in> set (rn_perCheck rn s) then (rn, w, Some empty_result)
     else (let rn = rn\<lparr>rn_perCheck := (rn_perCheck rn)(s := rn_perCheck rn s @ [rcpt])\<rparr>
           in case ck_Rcpt (pe_checks env) s rcpt w of (w, res) \<Rightarrow> (rn, w, res)))"

definition run_body :: "'w penv \<Rightarrow> header \<Rightarrow> string \<Rightarrow> 'w run" where
  "run_body env header body s rn w =
    (case ck_Body (pe_checks env) s header body w of (w, res) \<Rightarrow> (rn, w, res))"

fun replay_rcpts ::
  "'w penv \<Rightarrow> cstate list \<Rightarrow> string list \<Rightarrow> runner \<Rightarrow> 'w \<Rightarrow> runner \<times> 'w \<times> go_err option" where
  "replay_rcpts env states [] rn w = (rn, w, None)"
| "replay_rcpts env states (rcpt # rcpts) rn w =
     (case runAndMergeResults env states (run_rcpt env rcpt) rn w of
        (rn, w, Some err) \<Rightarrow> (rn, w, Some err)
      | (rn, w, None) \<Rightarrow> replay_rcpts env states rcpts rn w)"

definition replay_sender ::
  "'w penv \<Rightarrow> cstate list \<Rightarrow> runner \<Rightarrow> 'w \<Rightarrow> runner \<times> 'w \<times> go_err option" where
  "replay_sender env news rn w =
    (if rn_mailFromReceived rn then
       (case runAndMergeResults env news (run_connection env) rn w of
          (rn, w, Some err) \<Rightarrow> (rn, w, Some err)
        | (rn, w, None) \<Rightarrow> runAndMergeResults env news (run_sender env) rn w)
     else (rn, w, None))"

definition checkStates ::
  "'w penv \<Rightarrow> nat list \<Rightarrow> runner \<Rightarrow> 'w \<Rightarrow> runner \<times> 'w \<times> (go_err + cstate list)" where
  "checkStates env checks rn w =
    (case init_states env checks [] [] [] rn w of
       (rn, w, Inl err) \<Rightarrow> (rn, w, Inl err)
     | (rn, w, Inr (states, news, newMap)) \<Rightarrow>
        if news = [] then (rn, w, Inr states)
        else (case replay_sender env news rn w of
            (rn, w, Some err) \<Rightarrow> (rn, close_states env states w, Inl err)
          | (rn, w, None) \<Rightarrow>
             (case replay_rcpts env states (rn_checkedRcpts rn) rn w of
                (rn, w, Some err) \<Rightarrow> (rn, close_states env states w, Inl err)
              | (rn, w, None) \<Rightarrow>
                  (rn\<lparr>rn_states := foldl (\<lambda>m (c, s). AList.update c s m) (rn_states rn) newMap\<rparr>, w, Inr states))))"

section \<open>The stages\<close>

definition checkConnSender ::
  "'w penv \<Rightarrow> nat list \<Rightarrow> string \<Rightarrow> runner \<Rightarrow> 'w \<Rightarrow> runner \<times> 'w \<times> go_err option" where
  "checkConnSender env checks mailFrom rn w =
    (case checkStates env checks (rn\<lparr>rn_mailFrom := mailFrom, rn_mailFromReceived := True\<rparr>) w of
       (rn, w, Inl err) \<Rightarrow> (rn, w, Some err)
     | (rn, w, Inr _) \<Rightarrow> (rn, w, None))"

definition checkRcpt ::
  "'w penv \<Rightarrow> nat list \<Rightarrow> string \<Rightarrow> runner \<Rightarrow> 'w \<Rightarrow> runner \<times> 'w \<times> go_err option" where
  "checkRcpt env checks rcptTo rn w =
    (case checkStates env checks rn w of
       (rn, w, Inl err) \<Rightarrow> (rn, w, Some err)
     | (rn, w, Inr states) \<Rightarrow>
        (case runAndMergeResults env states (run_rcpt env rcptTo) rn w of
           (rn, w, err) \<Rightarrow> (rn\<lparr>rn_checkedRcpts := rn_checkedRcpts rn @ [rcptTo]\<rparr>, w, err)))"

definition checkBody ::
  "'w penv \<Rightarrow> nat list \<Rightarrow> header \<Rightarrow> string \<Rightarrow> runner \<Rightarrow> 'w \<Rightarrow> runner \<times> 'w \<times> go_err option" where
  "checkBody env checks header body rn w =
    (case checkStates env checks rn w of
       (rn, w, Inl err) \<Rightarrow> (rn, w, Some err)
     | (rn, w, Inr states) \<Rightarrow>
        (let rn = (if rn_doDMARC rn \<and> \<not> rn_didDMARCFetch rn
               then rn\<lparr>rn_fetch := Some (Verifier_FetchRecord (pe_dmarc env) (pe_lookup env) header),
                      rn_didDMARCFetch := True\<rparr>
               else rn)
         in runAndMergeResults env states (run_body env header body) rn w))"

definition dmarc_reject :: "eval_result \<Rightarrow> go_err" where
  "dmarc_reject dmarcRes =
    (let temp = (dm_Value (ev_Authres dmarcRes) = resTempError)
     in SMTPError (if temp then 450 else 550) (if temp then 4 else 5, 7, 1) ''DMARC check failed'' ''dmarc'' [] None []
          [(''reason'', FStr (dm_Reason (ev_Authres dmarcRes))),
           (''dkim_res'', FStr (dk_Value (ev_DKIMResult dmarcRes))),
           (''dkim_domain'', FStr (dk_Domain (ev_DKIMResult dmarcRes))),
           (''spf_res'', FStr (sp_Value (ev_SPFResult dmarcRes))),
           (''spf_from'', FStr (sp_From (ev_SPFResult dmarcRes)))])"

definition set_quarantine :: "runner \<Rightarrow> runner" where
  "set_quarantine rn = rn\<lparr>rn_msgMeta := (rn_msgMeta rn)\<lparr>mm_Quarantine := True\<rparr>\<rparr>"

text \<open>\<open>applyResults\<close>; without a fetched record the verifier waits forever, the
  result \<open>None\<close>.\<close>

definition apply_header :: "'w penv \<Rightarrow> string \<Rightarrow> runner \<Rightarrow> header \<Rightarrow> header" where
  "apply_header env hostname rn header =
    (let m = rn_merged rn;
         header = (if cr_AuthResult m \<noteq> []
           then hdr_Add header ''Authentication-Results'' (pe_authres env hostname (cr_AuthResult m)) else header)
     in foldl (\<lambda>h (k, v). hdr_Add h k v) header (cr_Header m))"

definition applyResults ::
  "'w penv \<Rightarrow> string \<Rightarrow> header \<Rightarrow> runner \<Rightarrow> (runner \<times> (go_err + header)) option" where
  "applyResults env hostname header rn =
    (let rn = (if cr_Quarantine (rn_merged rn) then set_quarantine rn else rn) in
     if \<not> rn_doDMARC rn then Some (rn, Inr (apply_header env hostname rn header))
     else (case rn_fetch rn of
         None \<Rightarrow> None
       | Some data \<Rightarrow>
          (case Apply_policy (pe_dmarc env) (pe_rnd env) data (cr_AuthResult (rn_merged rn)) of
             (dmarcRes, pol) \<Rightarrow>
              (let rn = rn\<lparr>rn_fetch := None, rn_merged := (rn_merged rn)
                     \<lparr>cr_AuthResult := cr_AuthResult (rn_merged rn) @ [ADmarc (ev_Authres dmarcRes)]\<rparr>\<rparr>
               in case pol of
                    PolicyReject \<Rightarrow> Some (rn, Inl (dmarc_reject dmarcRes))
                  | PolicyQuarantine \<Rightarrow>
                      (let rn = set_quarantine rn in Some (rn, Inr (apply_header env hostname rn header)))
                  | PolicyNone \<Rightarrow> Some (rn, Inr (apply_header env hostname rn header))))))"

definition runner_close :: "'w penv \<Rightarrow> runner \<Rightarrow> 'w \<Rightarrow> 'w" where
  "runner_close env rn w = close_states env (map snd (rn_states rn)) w"

section \<open>The outcome of a group\<close>

text \<open>The results of the goroutines, in the order in which they run.\<close>

fun run_results :: "'w run \<Rightarrow> cstate list \<Rightarrow> runner \<Rightarrow> 'w \<Rightarrow> result list" where
  "run_results run [] rn w = []"
| "run_results run (s # ss) rn w =
     (case run s rn w of
        (rn, w, None) \<Rightarrow> run_results run ss rn w
      | (rn, w, Some res) \<Rightarrow> res # run_results run ss (merge_result res rn) w)"

definition rejecting :: "result \<Rightarrow> bool" where
  "rejecting res \<longleftrightarrow> cr_Reject res \<and> \<not> cr_Quarantine res"

definition first_reason :: "(result \<Rightarrow> bool) \<Rightarrow> result list \<Rightarrow> go_err option option" where
  "first_reason P rs = map_option cr_Reason (find P rs)"

lemma once_simps [simp]: "once None v = Some v" "once (Some x) v = Some x"
  by (simp_all add: once_def)

lemma merge_loop_cells:
  assumes "merge_loop run ss quar rej rn w = (quar', rej', rn', w')"
  shows "rej' = (case rej of None \<Rightarrow> first_reason rejecting (run_results run ss rn w) | Some x \<Rightarrow> Some x)
    \<and> quar' = (case quar of None \<Rightarrow> first_reason cr_Quarantine (run_results run ss rn w) | Some x \<Rightarrow> Some x)"
  using assms
proof (induction ss arbitrary: quar rej rn w)
  case Nil
  then show ?case by (auto simp: first_reason_def split: option.splits)
next
  case (Cons s ss)
  obtain rn1 w1 r where run: "run s rn w = (rn1, w1, r)" by (metis prod.collapse)
  show ?case
  proof (cases r)
    case None
    with Cons.prems run have "merge_loop run ss quar rej rn1 w1 = (quar', rej', rn', w')" by simp
    from Cons.IH [OF this] None run show ?thesis by (simp split: option.split)
  next
    case (Some res)
    let ?rn = "merge_result res rn1"
    have "merge_loop run ss (if cr_Quarantine res then once quar (cr_Reason res) else quar)
        (if rejecting res then once rej (cr_Reason res) else rej) ?rn w1 = (quar', rej', rn', w')"
      using Cons.prems run Some by (auto simp: Let_def rejecting_def split: if_splits)
    from Cons.IH [OF this] show ?thesis
      by (cases quar; cases rej) (auto simp: run Some first_reason_def rejecting_def)
  qed
qed

lemma first_reason_None: "first_reason P rs = None \<longleftrightarrow> \<not> list_ex P rs"
  by (auto simp: first_reason_def find_None_iff list_ex_iff)

lemma first_reason_Some:
  "first_reason P rs = Some r \<Longrightarrow> \<exists>res \<in> set rs. P res \<and> cr_Reason res = r"
  by (auto simp: first_reason_def find_Some_iff)

lemma runAndMerge_error:
  assumes "runAndMergeResults env states run rn w = (rn', w', err)"
  shows "err = (case find rejecting (run_results run (pe_sched env states) rn w) of None \<Rightarrow> None | Some res \<Rightarrow> cr_Reason res)"
proof -
  obtain q r rn1 w1 where m: "merge_loop run (pe_sched env states) None None rn w = (q, r, rn1, w1)"
    by (metis prod.collapse)
  from merge_loop_cells [OF m] have "r = first_reason rejecting (run_results run (pe_sched env states) rn w)" by simp
  with assms m show ?thesis
    by (auto simp: runAndMergeResults_def first_reason_def split: option.splits)
qed

lemma runAndMerge_outcome:
  assumes "runAndMergeResults env states run rn w = (rn', w', err)"
    and "\<forall>res \<in> set (run_results run (pe_sched env states) rn w). rejecting res \<longrightarrow> cr_Reason res \<noteq> None"
  shows "(err = None \<longleftrightarrow> \<not> list_ex rejecting (run_results run (pe_sched env states) rn w))
    \<and> (\<forall>e. err = Some e \<longrightarrow> (\<exists>res \<in> set (run_results run (pe_sched env states) rn w). rejecting res \<and> cr_Reason res = Some e))"
proof -
  obtain q r rn1 w1 where m: "merge_loop run (pe_sched env states) None None rn w = (q, r, rn1, w1)"
    by (metis prod.collapse)
  from merge_loop_cells [OF m] have r: "r = first_reason rejecting (run_results run (pe_sched env states) rn w)" by simp
  show ?thesis
  proof (cases r)
    case None
    with assms(1) m have "err = None" by (auto simp: runAndMergeResults_def split: option.splits)
    with r None show ?thesis by (simp add: first_reason_None flip: first_reason_None)
  next
    case (Some x)
    with r first_reason_Some obtain res where res: "res \<in> set (run_results run (pe_sched env states) rn w)"
      "rejecting res" "cr_Reason res = x" by metis
    with assms(2) obtain e where "x = Some e" by auto
    with Some assms(1) m have "err = Some e" by (auto simp: runAndMergeResults_def)
    with res \<open>x = Some e\<close> show ?thesis by (auto simp: list_ex_iff)
  qed
qed

text \<open>Every result comes from a run of a scheduled state, and every scheduled state ran.\<close>

lemma run_results_from:
  "res \<in> set (run_results run ss rn w) \<Longrightarrow> \<exists>s \<in> set ss. \<exists>rn w. snd (snd (run s rn w)) = Some res"
proof (induction ss arbitrary: rn w)
  case (Cons s ss)
  obtain rn1 w1 r where run: "run s rn w = (rn1, w1, r)" by (metis prod.collapse)
  then have r: "snd (snd (run s rn w)) = r" by simp
  show ?case
  proof (cases "r = Some res")
    case True
    with r show ?thesis by auto
  next
    case False
    with Cons.prems run have "\<exists>rn w. res \<in> set (run_results run ss rn w)" by (cases r) auto
    with Cons.IH show ?thesis by fastforce
  qed
qed simp

lemma run_results_ran:
  "s \<in> set ss \<Longrightarrow> \<exists>rn1 w1. \<forall>res. snd (snd (run s rn1 w1)) = Some res \<longrightarrow> res \<in> set (run_results run ss rn w)"
proof (induction ss arbitrary: rn w)
  case (Cons t ss)
  obtain rn1 w1 r where run: "run t rn w = (rn1, w1, r)" by (metis prod.collapse)
  show ?case
  proof (cases "s = t")
    case True
    with run show ?thesis by (intro exI [of _ rn] exI [of _ w]) auto
  next
    case False
    with Cons.prems have "s \<in> set ss" by simp
    note IH = Cons.IH [OF this]
    show ?thesis
    proof (cases r)
      case None
      with IH [of rn1 w1] run show ?thesis by simp
    next
      case (Some x)
      with IH [of "merge_result x rn1" w1] run show ?thesis by auto
    qed
  qed
qed simp

text \<open>When the result of a check does not depend on the other goroutines, the
  results are those of the states in the order of the schedule.\<close>

lemma run_results_pure:
  assumes "\<And>s rn w. snd (snd (run s rn w)) = f s"
  shows "run_results run ss rn w = List.map_filter f ss"
proof (induction ss arbitrary: rn w)
  case (Cons s ss)
  obtain rn1 w1 r where run: "run s rn w = (rn1, w1, r)" by (metis prod.collapse)
  with assms [of s rn w] have "f s = r" by simp
  with Cons.IH run show ?case by (cases r) (simp_all add: List.map_filter_simps)
qed (simp add: List.map_filter_simps)

lemma set_map_filter_iff: "set (List.map_filter f xs) = {y. \<exists>x \<in> set xs. f x = Some y}"
  by (induction xs) (auto simp: List.map_filter_simps split: option.splits)

section \<open>State objects\<close>

lemma merge_loop_states:
  assumes "\<And>s rn w. rn_states (fst (run s rn w)) = rn_states rn"
  shows "merge_loop run ss q r rn w = (q', r', rn', w') \<Longrightarrow> rn_states rn' = rn_states rn"
proof (induction ss arbitrary: q r rn w)
  case (Cons s ss)
  obtain rn1 w1 res where run: "run s rn w = (rn1, w1, res)" by (metis prod.collapse)
  with assms [of s rn w] have st: "rn_states rn1 = rn_states rn" by simp
  show ?case
  proof (cases res)
    case None
    with Cons.prems run st show ?thesis by (auto dest!: Cons.IH)
  next
    case (Some x)
    with Cons.prems run st show ?thesis
      by (auto dest!: Cons.IH simp: merge_result_def Let_def split: if_splits)
  qed
qed simp

lemma runAndMerge_states:
  assumes "\<And>s rn w. rn_states (fst (run s rn w)) = rn_states rn"
    and "runAndMergeResults env states run rn w = (rn', w', err)"
  shows "rn_states rn' = rn_states rn"
  using assms(2) merge_loop_states [OF assms(1), where ss = "pe_sched env states" and q = None and r = None and rn = rn and w = w]
  by (auto simp: runAndMergeResults_def split: prod.splits option.splits)

lemma run_keeps_states [simp]:
  "rn_states (fst (run_connection env s rn w)) = rn_states rn"
  "rn_states (fst (run_sender env s rn w)) = rn_states rn"
  "rn_states (fst (run_rcpt env rcpt s rn w)) = rn_states rn"
  "rn_states (fst (run_body env header body s rn w)) = rn_states rn"
  by (simp_all add: run_connection_def run_sender_def run_rcpt_def run_body_def split: prod.split)

lemma replay_states:
  "replay_sender env news rn w = (rn', w', err) \<Longrightarrow> rn_states rn' = rn_states rn"
  "replay_rcpts env states rcpts rn w = (rn', w', err) \<Longrightarrow> rn_states rn' = rn_states rn"
proof -
  show "replay_sender env news rn w = (rn', w', err) \<Longrightarrow> rn_states rn' = rn_states rn"
    by (auto simp: replay_sender_def split: if_splits prod.splits option.splits dest!: runAndMerge_states [rotated])
  show "replay_rcpts env states rcpts rn w = (rn', w', err) \<Longrightarrow> rn_states rn' = rn_states rn"
    by (induction rcpts arbitrary: rn w)
      (auto split: prod.splits option.splits dest!: runAndMerge_states [rotated])
qed

lemma init_states_keeps:
  "init_states env checks states news newMap rn w = (rn', w', r) \<Longrightarrow> rn_states rn' = rn_states rn"
proof (induction checks arbitrary: states news newMap rn w)
  case (Cons c cs)
  then show ?case
    by (cases "map_of (rn_states rn) c") (auto simp: Let_def split: prod.splits option.splits dest!: Cons.IH)
qed simp

lemma init_states_spec:
  assumes "init_states env checks states news newMap rn w = (rn', w', Inr (states', news', newMap'))"
  shows "rn_states rn' = rn_states rn \<and> dom (map_of newMap) \<subseteq> dom (map_of newMap')
    \<and> (\<forall>c \<in> set checks. map_of (rn_states rn) c \<noteq> None \<or> map_of newMap' c \<noteq> None)
    \<and> (\<forall>c. map_of newMap' c \<noteq> None \<longrightarrow> map_of newMap c \<noteq> None \<or> map_of (rn_states rn) c = None)
    \<and> length states' = length states + length checks \<and> (news \<noteq> [] \<longrightarrow> news' \<noteq> [])
    \<and> (newMap' \<noteq> [] \<longrightarrow> newMap \<noteq> [] \<or> news' \<noteq> [])"
  using assms
proof (induction checks arbitrary: states news newMap rn w)
  case (Cons c cs)
  show ?case
  proof (cases "map_of (rn_states rn) c")
    case (Some s)
    with Cons.prems have "init_states env cs (states @ [s]) news newMap rn w = (rn', w', Inr (states', news', newMap'))"
      by simp
    from Cons.IH [OF this] Some show ?thesis by auto
  next
    case None
    obtain w1 e where ck: "ck_StateForMsg (pe_checks env) c (rn_msgMeta rn) w = (w1, e)" by fastforce
    with Cons.prems None have e: "e = None" by (auto split: option.splits)
    with Cons.prems None ck have
      "init_states env cs (states @ [(c, rn_serial rn)]) (news @ [(c, rn_serial rn)])
        (AList.update c (c, rn_serial rn) newMap) (rn\<lparr>rn_serial := Suc (rn_serial rn)\<rparr>) w1
        = (rn', w', Inr (states', news', newMap'))" by (simp add: Let_def)
    note IH = Cons.IH [OF this]
    from IH have "map_of newMap' c \<noteq> None" by (auto simp: update_conv' dom_def)
    moreover have "map_of newMap' k \<noteq> None \<longrightarrow> map_of newMap k \<noteq> None \<or> map_of (rn_states rn) k = None" for k
    proof (cases "k = c")
      case False
      then have "map_of (AList.update c (c, rn_serial rn) newMap) k = map_of newMap k" by (simp add: update_conv')
      with IH show ?thesis by (metis runner.select_convs(9) runner.surjective runner.update_convs(10))
    qed (simp add: None)
    moreover have "dom (map_of (AList.update c (c, rn_serial rn) newMap)) = insert c (dom (map_of newMap))"
      by (simp add: update_conv')
    with IH have "dom (map_of newMap) \<subseteq> dom (map_of newMap')" by (elim conjE) simp
    ultimately show ?thesis using IH by auto
  qed
qed simp

lemma foldl_update_dom:
  "map_of (foldl (\<lambda>m (c, s). AList.update c s m) m xs) k =
    (case map_of (rev xs) k of Some s \<Rightarrow> Some s | None \<Rightarrow> map_of m k)"
  by (induction xs arbitrary: m) (auto simp: update_conv' map_add_def split: option.splits)

lemma map_of_rev_None: "map_of (rev xs) k = None \<longleftrightarrow> map_of xs k = None"
  by (simp add: map_of_eq_None_iff)

lemma merge_rejects:
  assumes "runAndMergeResults env states run rn w = (rn', w', err)"
    and "mset (pe_sched env states) = mset states"
    and "\<forall>s rn w. snd (snd (run s rn w)) = f s"
    and "\<forall>s res. f s = Some res \<longrightarrow> rejecting res \<longrightarrow> cr_Reason res \<noteq> None"
  shows "(err \<noteq> None) = (\<exists>s \<in> set states. \<exists>res. f s = Some res \<and> rejecting res)
    \<and> (\<forall>e. err = Some e \<longrightarrow> (\<exists>s \<in> set states. \<exists>res. f s = Some res \<and> rejecting res \<and> cr_Reason res = Some e))"
proof -
  have rs: "set (run_results run (pe_sched env states) rn w) = {res. \<exists>s \<in> set states. f s = Some res}"
    unfolding run_results_pure [where run = run and f = f, OF assms(3) [rule_format]]
    using mset_eq_setD [OF assms(2)] by (simp add: set_map_filter_iff)
  have "\<forall>res \<in> set (run_results run (pe_sched env states) rn w). rejecting res \<longrightarrow> cr_Reason res \<noteq> None"
    using assms(4) rs by auto
  from runAndMerge_outcome [OF assms(1) this] show ?thesis
    unfolding list_ex_iff rs by blast
qed

section \<open>Properties\<close>

text \<open>C32: the verdict of a group of checks. The error of a group is the reason of the first
  rejecting result in the order in which the goroutines ran; it is nil when no result rejects or when
  that one has no reason, whatever the others say. Hence the order does not matter for checks whose
  results depend on neither the others nor the world and that give a reason with every reject: then
  the group fails exactly when one of them rejects.\<close>

theorem reject_is_decisive:
  assumes "runAndMergeResults env states run rn w = (rn', w', err)"
  shows "err = (case find rejecting (run_results run (pe_sched env states) rn w) of None \<Rightarrow> None | Some res \<Rightarrow> cr_Reason res)
    \<and> (mset (pe_sched env states) = mset states \<and> (\<forall>s rn w. snd (snd (run s rn w)) = f s)
        \<and> (\<forall>s res. f s = Some res \<longrightarrow> rejecting res \<longrightarrow> cr_Reason res \<noteq> None)
      \<longrightarrow> (err \<noteq> None) = (\<exists>s \<in> set states. \<exists>res. f s = Some res \<and> rejecting res))"
proof (intro conjI impI)
  show "err = (case find rejecting (run_results run (pe_sched env states) rn w) of None \<Rightarrow> None | Some res \<Rightarrow> cr_Reason res)"
    by (rule runAndMerge_error [OF assms])
qed (use merge_rejects [OF assms] in blast)

text \<open>each check gets one state object. A successful \<open>checkStates\<close> leaves a
  state for every check it was asked for and keeps the states that existed before;
  a failed one registers nothing.\<close>

lemma one_state_per_check:
  assumes "checkStates env checks rn w = (rn', w', r)"
  shows "(\<forall>c s. map_of (rn_states rn) c = Some s \<longrightarrow> map_of (rn_states rn') c = Some s)
    \<and> (case r of Inl e \<Rightarrow> rn_states rn' = rn_states rn
       | Inr states \<Rightarrow> (\<forall>c \<in> set checks. map_of (rn_states rn') c \<noteq> None) \<and> length states = length checks)"
proof -
  obtain rn1 w1 i where i: "init_states env checks [] [] [] rn w = (rn1, w1, i)" by (metis prod.collapse)
  note k = init_states_keeps [OF i]
  show ?thesis
  proof (cases i)
    case (Inl e)
    with i assms k show ?thesis by (auto simp: checkStates_def)
  next
    case (Inr x)
    obtain states news newMap where x: "x = (states, news, newMap)" by (metis prod.collapse)
    note sp = init_states_spec [OF i [unfolded Inr x]]
    show ?thesis
    proof (cases "news = []")
      case True
      with sp have "newMap = []" by auto
      with True i Inr x assms sp show ?thesis by (auto simp: checkStates_def)
    next
      case False
      obtain rn2 w2 e2 where s: "replay_sender env news rn1 w1 = (rn2, w2, e2)" by (metis prod.collapse)
      obtain rn3 w3 e3 where rc: "replay_rcpts env states (rn_checkedRcpts rn2) rn2 w2 = (rn3, w3, e3)" by (metis prod.collapse)
      from replay_states(1) [OF s] replay_states(2) [OF rc] k have st: "rn_states rn2 = rn_states rn" "rn_states rn3 = rn_states rn"
        by simp_all
      consider "r \<noteq> Inr states" "\<exists>e. r = Inl e" "rn_states rn' = rn_states rn"
        | "r = Inr states" "rn_states rn' = foldl (\<lambda>m (c, s). AList.update c s m) (rn_states rn) newMap"
        using assms i Inr x False s rc st
        by (cases e2; cases e3) (auto simp: checkStates_def)
      then show ?thesis
      proof cases
        case 1
        then show ?thesis by auto
      next
        case 2
        have m: "map_of (rn_states rn') c = (case map_of (rev newMap) c of Some s \<Rightarrow> Some s | None \<Rightarrow> map_of (rn_states rn) c)" for c
          unfolding 2(2) foldl_update_dom by (rule refl)
        have n: "map_of (rev newMap) c = None" if "map_of (rn_states rn) c = Some s" for c s
          using sp that by (cases "map_of newMap c") (auto simp: map_of_rev_None)
        have h: "map_of (rev newMap) c \<noteq> None \<or> map_of (rn_states rn) c \<noteq> None" if "c \<in> set checks" for c
          using sp that by (auto simp: map_of_rev_None)
        have "map_of (rn_states rn') c \<noteq> None" if "c \<in> set checks" for c
          using h [OF that] m [of c] by (cases "map_of (rev newMap) c") auto
        then show ?thesis using 2(1) sp m n by auto
      qed
    qed
  qed
qed

text \<open>A check that rejects a recipient \<open>b\<close> and has nothing to say otherwise.\<close>

definition demo_reject :: result where
  "demo_reject = empty_result\<lparr>cr_Reject := True, cr_Reason := Some (ErrNew ''no'')\<rparr>"

definition demo_checks :: "nat checks" where
  "demo_checks = \<lparr>ck_StateForMsg = (\<lambda>_ _ w. (w, None)), ck_Connection = (\<lambda>_ w. (w, None)), ck_Sender = (\<lambda>_ _ w. (w, None)),
     ck_Rcpt = (\<lambda>_ r w. (w + 1, if r = ''b'' then Some demo_reject else None)), ck_Body = (\<lambda>_ _ _ w. (w, None)),
     ck_Close = (\<lambda>_ w. w)\<rparr>"

definition demo_penv :: "nat penv" where
  "demo_penv = \<lparr>pe_checks = demo_checks, pe_sched = rev, pe_dmarc = demo_dmarc_lib, pe_lookup = None, pe_rnd = 0,
     pe_authres = (\<lambda>_ _. [])\<rparr>"

definition demo_runner :: runner where
  "demo_runner = newCheckRunner \<lparr>mm_ID = ''m1'', mm_OriginalFrom = ''s'', mm_DontTraceSender = False, mm_Quarantine = False,
     mm_OriginalRcpts = Map.empty, mm_UTF8 = False, mm_RequireTLS = False, mm_Conn = None, mm_TLSRequireOverride = False\<rparr>"

text \<open>Two checks that reject; then the one that runs first gives no reason and hides the other.\<close>

definition demo_mute :: result where
  "demo_mute = demo_reject\<lparr>cr_Reason := None\<rparr>"

theorem reject_is_decisive_witness:
  "snd (snd (runAndMergeResults demo_penv [(0, 0), (1, 1)] (\<lambda>s rn w. (rn, w, Some demo_reject)) demo_runner 0)) \<noteq> None
    \<and> snd (snd (runAndMergeResults demo_penv [(0, 0), (1, 1)] (\<lambda>s rn w. (rn, w, Some (if s = (0, 0) then demo_reject else demo_mute))) demo_runner 0)) = None"
proof
  note ev = demo_penv_def demo_reject_def demo_mute_def rejecting_def empty_result_def
  obtain rn' w' err where r: "runAndMergeResults demo_penv [(0, 0), (1, 1)] (\<lambda>s rn w. (rn, w, Some demo_reject)) demo_runner 0
    = (rn', w', err)" by (metis prod.collapse)
  from conjunct1 [OF reject_is_decisive [OF r, of "\<lambda>_. Some demo_reject"]] have "err = Some (ErrNew ''no'')"
    by (simp add: ev)
  then show "snd (snd (runAndMergeResults demo_penv [(0, 0), (1, 1)] (\<lambda>s rn w. (rn, w, Some demo_reject)) demo_runner 0)) \<noteq> None"
    using r by (auto simp: ev)
  let ?run = "\<lambda>s rn w. (rn, w, Some (if s = (0, 0) then demo_reject else demo_mute))"
  obtain rn' w' err where r: "runAndMergeResults demo_penv [(0, 0), (1, 1)] ?run demo_runner 0 = (rn', w', err)"
    by (metis prod.collapse)
  from conjunct1 [OF reject_is_decisive [OF r]] have "err = None" by (simp add: ev)
  with r show "snd (snd (runAndMergeResults demo_penv [(0, 0), (1, 1)] ?run demo_runner 0)) = None" by simp
qed

lemma one_state_per_check_witness:
  "map_of (rn_states (fst (checkStates demo_penv [7] demo_runner 0))) 7 = Some (7, 0)"
proof -
  obtain rn' w' r where c: "checkStates demo_penv [7] demo_runner 0 = (rn', w', r)" by (metis prod.collapse)
  then have "r = Inr [(7, 0)]" "map_of (rn_states rn') 7 \<noteq> None \<longrightarrow> map_of (rn_states rn') 7 = Some (7, 0)"
    by (auto simp: checkStates_def demo_runner_def newCheckRunner_def demo_penv_def demo_checks_def replay_sender_def Let_def)
  with one_state_per_check [OF c] c show ?thesis by simp
qed

lemma foldl_hdr_Add: "foldl (\<lambda>h (k, v). hdr_Add h k v) h fs = rev fs @ h"
  by (induction fs arbitrary: h) (auto simp: hdr_Add_def)

text \<open>results are applied completely. When the pipeline goes on, a message that
  a check or the DMARC policy quarantined is marked, the header is the old one with
  one \<open>Authentication-Results\<close> field for all collected results and every field the
  checks asked for on top, and DMARC has not asked for a reject.\<close>

lemma applyResults_complete:
  assumes "applyResults env hostname header rn = Some (rn', Inr header')"
  shows "header' = rev (cr_Header (rn_merged rn))
      @ (if cr_AuthResult (rn_merged rn') = [] then []
         else [(''Authentication-Results'', pe_authres env hostname (cr_AuthResult (rn_merged rn')))]) @ header
    \<and> (cr_Quarantine (rn_merged rn) \<longrightarrow> mm_Quarantine (rn_msgMeta rn'))
    \<and> (rn_doDMARC rn \<longrightarrow> (\<exists>data. rn_fetch rn = Some data \<and>
        (case snd (Apply_policy (pe_dmarc env) (pe_rnd env) data (cr_AuthResult (rn_merged rn))) of
           PolicyReject \<Rightarrow> False | PolicyQuarantine \<Rightarrow> mm_Quarantine (rn_msgMeta rn') | PolicyNone \<Rightarrow> True)))"
proof -
  have ap: "apply_header env hostname rn header = rev (cr_Header (rn_merged rn))
      @ (if cr_AuthResult (rn_merged rn) = [] then []
         else [(''Authentication-Results'', pe_authres env hostname (cr_AuthResult (rn_merged rn)))]) @ header" for rn
    by (simp add: apply_header_def Let_def foldl_hdr_Add) (simp add: hdr_Add_def)
  let ?rn = "if cr_Quarantine (rn_merged rn) then set_quarantine rn else rn"
  have f: "rn_doDMARC ?rn = rn_doDMARC rn" "rn_fetch ?rn = rn_fetch rn" "rn_merged ?rn = rn_merged rn"
    "cr_Quarantine (rn_merged rn) \<longrightarrow> mm_Quarantine (rn_msgMeta ?rn)"
    by (simp_all add: set_quarantine_def)
  show ?thesis
  proof (cases "rn_doDMARC rn")
    case False
    with assms f ap show ?thesis by (auto simp: applyResults_def Let_def split del: if_split)
  next
    case True
    with assms f obtain data where d: "rn_fetch rn = Some data"
      by (auto simp: applyResults_def Let_def split: option.splits)
    obtain res pol where p: "Apply_policy (pe_dmarc env) (pe_rnd env) data (cr_AuthResult (rn_merged rn)) = (res, pol)"
      by fastforce
    from True d p assms f ap show ?thesis
      by (cases pol) (auto simp: applyResults_def Let_def set_quarantine_def split del: if_split)
  qed
qed

lemma applyResults_complete_witness:
  "\<exists>rn'. applyResults demo_penv ''h'' [(''a'', ''1'')]
      (demo_runner\<lparr>rn_merged := empty_result\<lparr>cr_Quarantine := True\<rparr>\<rparr>) = Some (rn', Inr [(''a'', ''1'')])
    \<and> mm_Quarantine (rn_msgMeta rn')"
proof -
  let ?rn = "demo_runner\<lparr>rn_merged := empty_result\<lparr>cr_Quarantine := True\<rparr>\<rparr>"
  have a: "applyResults demo_penv ''h'' [(''a'', ''1'')] ?rn = Some (set_quarantine ?rn, Inr [(''a'', ''1'')])"
    by (simp add: applyResults_def apply_header_def empty_result_def demo_runner_def newCheckRunner_def set_quarantine_def)
  from applyResults_complete [OF a] a show ?thesis by (simp add: empty_result_def)
qed

section \<open>Observations\<close>

text \<open>A reject without a reason is ignored, and it hides a later reject with one.\<close>

lemma reject_without_reason_hides:
  assumes "pe_sched env [s, t] = [s, t]" "\<And>rn w. run s rn w = (rn, w, Some (empty_result\<lparr>cr_Reject := True\<rparr>))"
    "\<And>rn w. run t rn w = (rn, w, Some demo_reject)"
  shows "snd (snd (runAndMergeResults env [s, t] run rn w)) = None"
  using assms by (simp add: runAndMergeResults_def empty_result_def demo_reject_def Let_def)

end
