(* ===== verification/ModifyGroup.thy ===== *)
theory ModifyGroup
  imports Module
begin

text \<open>
  Groups of modifiers (\<open>internal/modify/group.go\<close>): modifiers run one after the
  other. Modifiers are named by numbers; a state object is a modifier with a serial
  number; their methods act on a world \<open>'w\<close>.
\<close>

type_synonym mstate = "nat \<times> nat"

record 'w modifiers =
  md_StateForMsg :: "nat \<Rightarrow> msg_meta \<Rightarrow> 'w \<Rightarrow> 'w \<times> go_err option"
  md_Sender :: "mstate \<Rightarrow> string \<Rightarrow> 'w \<Rightarrow> 'w \<times> (go_err + string)"
  md_Rcpt :: "mstate \<Rightarrow> string \<Rightarrow> 'w \<Rightarrow> 'w \<times> (go_err + string list)"
  md_Body :: "mstate \<Rightarrow> header \<Rightarrow> string \<Rightarrow> 'w \<Rightarrow> 'w \<times> (go_err + header)"
  md_Close :: "mstate \<Rightarrow> 'w \<Rightarrow> 'w \<times> go_err option"

section \<open>State objects\<close>

fun gs_Close :: "'w modifiers \<Rightarrow> mstate list \<Rightarrow> go_err option \<Rightarrow> 'w \<Rightarrow> 'w \<times> go_err option" where
  "gs_Close md [] lastErr w = (w, lastErr)"
| "gs_Close md (s # ss) lastErr w =
     (case md_Close md s w of
        (w, Some err) \<Rightarrow> gs_Close md ss (Some err) w
      | (w, None) \<Rightarrow> gs_Close md ss lastErr w)"

text \<open>\<open>ModStateForMsg\<close>; \<open>n\<close> is the next serial number.\<close>

fun mod_states ::
  "'w modifiers \<Rightarrow> nat list \<Rightarrow> msg_meta \<Rightarrow> mstate list \<Rightarrow> nat \<Rightarrow> 'w \<Rightarrow> nat \<times> 'w \<times> (go_err + mstate list)" where
  "mod_states md [] meta states n w = (n, w, Inr states)"
| "mod_states md (m # ms) meta states n w =
     (case md_StateForMsg md m meta w of
        (w, Some err) \<Rightarrow> (n, fst (gs_Close md states None w), Inl err)
      | (w, None) \<Rightarrow> mod_states md ms meta (states @ [(m, n)]) (Suc n) w)"

definition ModStateForMsg ::
  "'w modifiers \<Rightarrow> nat list \<Rightarrow> msg_meta \<Rightarrow> nat \<Rightarrow> 'w \<Rightarrow> nat \<times> 'w \<times> (go_err + mstate list)" where
  "ModStateForMsg md ms meta n w = mod_states md ms meta [] n w"

section \<open>Rewriting\<close>

fun gs_RewriteSender :: "'w modifiers \<Rightarrow> mstate list \<Rightarrow> string \<Rightarrow> 'w \<Rightarrow> 'w \<times> (go_err + string)" where
  "gs_RewriteSender md [] mailFrom w = (w, Inr mailFrom)"
| "gs_RewriteSender md (s # ss) mailFrom w =
     (case md_Sender md s mailFrom w of
        (w, Inl err) \<Rightarrow> (w, Inl err)
      | (w, Inr mailFrom) \<Rightarrow> gs_RewriteSender md ss mailFrom w)"

text \<open>One modifier on all the addresses produced so far.\<close>

fun rewrite_each ::
  "('w \<Rightarrow> string \<Rightarrow> 'w \<times> (go_err + string list)) \<Rightarrow> string list \<Rightarrow> 'w \<Rightarrow> 'w \<times> (go_err + string list)" where
  "rewrite_each f [] w = (w, Inr [])"
| "rewrite_each f (p # ps) w =
     (case f w p of
        (w, Inl err) \<Rightarrow> (w, Inl err)
      | (w, Inr rs) \<Rightarrow>
          (case rewrite_each f ps w of
             (w, Inl err) \<Rightarrow> (w, Inl err)
           | (w, Inr rest) \<Rightarrow> (w, Inr (rs @ rest))))"

fun rewrite_rcpts :: "'w modifiers \<Rightarrow> mstate list \<Rightarrow> string list \<Rightarrow> 'w \<Rightarrow> 'w \<times> (go_err + string list)" where
  "rewrite_rcpts md [] res w = (w, Inr res)"
| "rewrite_rcpts md (s # ss) res w =
     (case rewrite_each (\<lambda>w p. md_Rcpt md s p w) res w of
        (w, Inl err) \<Rightarrow> (w, Inl err)
      | (w, Inr res') \<Rightarrow> rewrite_rcpts md ss res' w)"

definition gs_RewriteRcpt :: "'w modifiers \<Rightarrow> mstate list \<Rightarrow> string \<Rightarrow> 'w \<Rightarrow> 'w \<times> (go_err + string list)" where
  "gs_RewriteRcpt md ss rcptTo w = rewrite_rcpts md ss [rcptTo] w"

fun gs_RewriteBody :: "'w modifiers \<Rightarrow> mstate list \<Rightarrow> header \<Rightarrow> string \<Rightarrow> 'w \<Rightarrow> 'w \<times> (go_err + header)" where
  "gs_RewriteBody md [] h body w = (w, Inr h)"
| "gs_RewriteBody md (s # ss) h body w =
     (case md_Body md s h body w of
        (w, Inl err) \<Rightarrow> (w, Inl err)
      | (w, Inr h) \<Rightarrow> gs_RewriteBody md ss h body w)"

section \<open>Facts\<close>

text \<open>A predicate on addresses that every modifier keeps holds of all results, and
  no recipient vanishes when no modifier drops one.\<close>

lemma rewrite_each_all:
  assumes "rewrite_each f ps w = (w', Inr rs)" "\<forall>p \<in> set ps. P p"
    and "\<And>w p w' rs. f w p = (w', Inr rs) \<Longrightarrow> P p \<Longrightarrow> rs \<noteq> [] \<and> (\<forall>r \<in> set rs. P r)"
  shows "(\<forall>r \<in> set rs. P r) \<and> (ps \<noteq> [] \<longrightarrow> rs \<noteq> [])"
  using assms(1,2)
proof (induction ps arbitrary: w w' rs)
  case (Cons p ps)
  obtain w1 r1 where f: "f w p = (w1, r1)" by fastforce
  with Cons.prems(1) obtain as where as: "r1 = Inr as" by (cases r1) auto
  obtain w2 r2 where re: "rewrite_each f ps w1 = (w2, r2)" by fastforce
  with Cons.prems(1) f as obtain bs where bs: "r2 = Inr bs" "rs = as @ bs" by (cases r2) auto
  from assms(3) [OF f [unfolded as]] Cons.IH [OF re [unfolded bs(1)]] Cons.prems(2) bs(2) show ?case by auto
qed simp

lemma rewrite_rcpts_all:
  assumes "rewrite_rcpts md ss ps w = (w', Inr rs)" "\<forall>p \<in> set ps. P p" "ps \<noteq> []"
    and "\<And>s w p w' rs. md_Rcpt md s p w = (w', Inr rs) \<Longrightarrow> P p \<Longrightarrow> rs \<noteq> [] \<and> (\<forall>r \<in> set rs. P r)"
  shows "(\<forall>r \<in> set rs. P r) \<and> rs \<noteq> []"
  using assms(1-3)
proof (induction ss arbitrary: ps w)
  case (Cons s ss)
  obtain w1 r1 where f: "rewrite_each (\<lambda>w p. md_Rcpt md s p w) ps w = (w1, r1)" by fastforce
  with Cons.prems(1) obtain qs where qs: "r1 = Inr qs" by (cases r1) auto
  have "(\<forall>r \<in> set qs. P r) \<and> qs \<noteq> []"
    using rewrite_each_all [OF f [unfolded qs] Cons.prems(2)] assms(4) Cons.prems(3) by blast
  with Cons.IH Cons.prems(1) f qs show ?case by auto
qed simp

section \<open>Properties\<close>

text \<open>rewriting keeps what its modifiers keep. If every modifier maps an
  address with a property to one or more addresses with that property, so does the
  group; in particular no recipient is lost by the group itself.\<close>

lemma group_rewrite_invariant:
  assumes "gs_RewriteRcpt md ss rcpt w = (w', Inr rs)" and "P rcpt"
    and "\<forall>s w p w' rs. md_Rcpt md s p w = (w', Inr rs) \<and> P p \<longrightarrow> rs \<noteq> [] \<and> (\<forall>r \<in> set rs. P r)"
  shows "rs \<noteq> [] \<and> (\<forall>r \<in> set rs. P r)"
  using rewrite_rcpts_all [OF assms(1) [unfolded gs_RewriteRcpt_def], of P] assms(2,3) by auto

definition demo_mods :: "unit modifiers" where
  "demo_mods = \<lparr>md_StateForMsg = (\<lambda>_ _ w. (w, None)), md_Sender = (\<lambda>_ s w. (w, Inr s)),
     md_Rcpt = (\<lambda>_ r w. (w, Inr [r, r])), md_Body = (\<lambda>_ h _ w. (w, Inr h)), md_Close = (\<lambda>_ w. (w, None))\<rparr>"

lemma group_rewrite_invariant_witness:
  "gs_RewriteRcpt demo_mods [(0, 0), (1, 1)] ''a'' () = ((), Inr [''a'', ''a'', ''a'', ''a''])
    \<and> list_all (\<lambda>r. r = ''a'') [''a'', ''a'', ''a'', ''a'']"
proof -
  have g: "gs_RewriteRcpt demo_mods [(0, 0), (1, 1)] ''a'' () = ((), Inr [''a'', ''a'', ''a'', ''a''])"
    by (simp add: gs_RewriteRcpt_def demo_mods_def)
  from group_rewrite_invariant [OF g, of "\<lambda>r. r = ''a''"] g show ?thesis
    by (simp add: demo_mods_def)
qed

end
