(* ===== verification/MsgPipeline.thy ===== *)
theory MsgPipeline
  imports CheckRunner ModifyGroup
begin

text \<open>
  The message pipeline (\<open>internal/msgpipeline/msgpipeline.go\<close>) and the
  \<open>Received\<close> field it adds (\<open>internal/target/received.go\<close>): selection of the
  source and recipient blocks, the stages of a delivery and the calls to the
  targets. Recipient blocks, targets and tables are named by numbers (object
  identities). The ghost field \<open>pd_log\<close> records the calls made to the targets.
\<close>

section \<open>The Received field\<close>

definition SanitizeForHeader :: "string \<Rightarrow> string" where
  "SanitizeForHeader raw = filter (\<lambda>c. c \<noteq> CHR 0x0A) raw"

text \<open>\<open>strings.TrimSpace\<close> on text that begins and ends with ASCII.\<close>

definition ascii_space :: "char \<Rightarrow> bool" where
  "ascii_space c \<longleftrightarrow> c \<in> {CHR '' '', CHR 0x09, CHR 0x0A, CHR 0x0B, CHR 0x0C, CHR 0x0D}"

definition TrimSpace :: "string \<Rightarrow> string" where
  "TrimSpace s = rev (dropWhile ascii_space (rev (dropWhile ascii_space s)))"

definition received_from :: "text_lib \<Rightarrow> msg_meta \<Rightarrow> conn_state \<Rightarrow> string" where
  "received_from lib meta conn =
    (if \<not> mm_DontTraceSender meta \<and> (Contains (cs_Proto conn) ''SMTP'' \<or> Contains (cs_Proto conn) ''LMTP'') then
       (case dns_SelectIDNA lib (mm_UTF8 meta) (cs_Hostname conn) of
          (hostname, None) \<Rightarrow> ''from '' @ hostname | (_, Some _) \<Rightarrow> [])
       @ (case cs_RemoteAddr conn of
            None \<Rightarrow> []
          | Some ip \<Rightarrow> '' ('' @
             (case cs_RDNSName conn of
                None \<Rightarrow> []
              | Some rdnsName \<Rightarrow>
                  if rdnsName \<noteq> [] then
                    (case dns_SelectIDNA lib (mm_UTF8 meta) rdnsName of
                       (encoded, None) \<Rightarrow> encoded @ '' '' | (_, Some _) \<Rightarrow> [])
                  else [])
             @ ''['' @ ip @ ''])'')
     else [])"

definition GenerateReceived :: "text_lib \<Rightarrow> string \<Rightarrow> msg_meta \<Rightarrow> string \<Rightarrow> string \<Rightarrow> go_err + string" where
  "GenerateReceived lib now meta ourHostname mailFrom =
    (case mm_Conn meta of
       None \<Rightarrow> Inl (ErrNew ''can't generate Received for a locally generated message'')
     | Some conn \<Rightarrow> Inr (TrimSpace (received_from lib meta conn
         @ (if ourHostname \<noteq> [] then
              (case dns_SelectIDNA lib (mm_UTF8 meta) ourHostname of
                 (h, None) \<Rightarrow> '' by '' @ SanitizeForHeader h | (_, Some _) \<Rightarrow> [])
            else [])
         @ (if mailFrom \<noteq> [] then
              (case SelectIDNA lib (mm_UTF8 meta) mailFrom of
                 (f, None) \<Rightarrow> '' (envelope-sender <'' @ SanitizeForHeader f @ ''>)'' | (_, Some _) \<Rightarrow> [])
            else [])
         @ (if cs_Proto conn \<noteq> [] then '' with '' @ (if mm_UTF8 meta then ''UTF8'' else []) @ cs_Proto conn else [])
         @ '' id '' @ mm_ID meta @ ''; '' @ now)))"

section \<open>Configuration and state\<close>

record rcpt_block =
  rb_checks :: "nat list"
  rb_modifiers :: "nat list"
  rb_rejectErr :: "go_err option"
  rb_targets :: "nat list"

record source_block =
  sb_checks :: "nat list"
  sb_modifiers :: "nat list"
  sb_rejectErr :: "go_err option"
  sb_rcptIn :: "(nat \<times> nat) list"
  sb_perRcpt :: "string \<rightharpoonup> nat"
  sb_defaultRcpt :: nat

record pipeline =
  pl_globalChecks :: "nat list"
  pl_globalModifiers :: "nat list"
  pl_sourceIn :: "(nat \<times> source_block) list"
  pl_perSource :: "string \<rightharpoonup> source_block"
  pl_defaultSource :: source_block
  pl_doDMARC :: bool
  pl_Hostname :: string
  pl_FirstPipeline :: bool
  pl_blocks :: "rcpt_block list"

text \<open>The recipient blocks are the objects the parser allocated; a block is its index among
  them, and equal indices are equal pointers. There is no block behind another index: a route to
  it would be a nil pointer, here a block that rejects.\<close>

definition nil_block :: rcpt_block where
  "nil_block = \<lparr>rb_checks = [], rb_modifiers = [],
     rb_rejectErr = Some (ErrNew ''runtime error: invalid memory address or nil pointer dereference''), rb_targets = []\<rparr>"

definition pl_block :: "pipeline \<Rightarrow> nat \<Rightarrow> rcpt_block" where
  "pl_block d blk = (if blk < length (pl_blocks d) then pl_blocks d ! blk else nil_block)"

text \<open>The environment: checks, modifiers, targets and tables as records of methods;
  \<open>mp_ordBlocks\<close> and \<open>mp_ordDeliv\<close> are the iteration orders of the maps.\<close>

record 'w mpenv =
  mp_run :: "'w penv"
  mp_mods :: "'w modifiers"
  mp_target :: "nat \<Rightarrow> 'w target"
  mp_isPipeline :: "nat \<Rightarrow> bool"
  mp_Lookup :: "nat \<Rightarrow> string \<Rightarrow> 'w \<Rightarrow> 'w \<times> (go_err + bool)"
  mp_lib :: text_lib
  mp_now :: string
  mp_ordBlocks :: "(nat \<times> mstate list) list \<Rightarrow> (nat \<times> mstate list) list"
  mp_ordDeliv :: "(nat \<times> string list) list \<Rightarrow> (nat \<times> string list) list"

record pdelivery =
  pd_globalMods :: "mstate list option"
  pd_sourceMods :: "mstate list option"
  pd_rcptMods :: "(nat \<times> mstate list) list"
  pd_sourceAddr :: string
  pd_sourceBlock :: source_block
  pd_deliveries :: "(nat \<times> string list) list"
  pd_runner :: runner
  pd_serial :: nat
  pd_log :: "(nat \<times> dcall) list"

definition log_call :: "nat \<Rightarrow> dcall \<Rightarrow> pdelivery \<Rightarrow> pdelivery" where
  "log_call t c dd = dd\<lparr>pd_log := pd_log dd @ [(t, c)]\<rparr>"

section \<open>Closing\<close>

definition close_mods :: "'w mpenv \<Rightarrow> mstate list \<Rightarrow> 'w \<Rightarrow> 'w" where
  "close_mods env ss w = fst (gs_Close (mp_mods env) ss None w)"

definition pd_close :: "'w mpenv \<Rightarrow> pdelivery \<Rightarrow> 'w \<Rightarrow> 'w" where
  "pd_close env dd w =
    (let w = runner_close (mp_run env) (pd_runner dd) w;
         w = (case pd_globalMods dd of None \<Rightarrow> w | Some ss \<Rightarrow> close_mods env ss w);
         w = (case pd_sourceMods dd of None \<Rightarrow> w | Some ss \<Rightarrow> close_mods env ss w)
     in foldl (\<lambda>w (_, ss). close_mods env ss w) w (mp_ordBlocks env (pd_rcptMods dd)))"

section \<open>Selecting blocks\<close>

text \<open>The first table with the key; failing tables are skipped.\<close>

fun lookup_in :: "'w mpenv \<Rightarrow> (nat \<times> 'b) list \<Rightarrow> string \<Rightarrow> 'w \<Rightarrow> 'w \<times> 'b option" where
  "lookup_in env [] key w = (w, None)"
| "lookup_in env ((t, b) # ts) key w =
     (case mp_Lookup env t key w of
        (w, Inl err) \<Rightarrow> lookup_in env ts key w
      | (w, Inr ok) \<Rightarrow> if ok then (w, Some b) else lookup_in env ts key w)"

definition src_rules :: "pipeline \<Rightarrow> string \<Rightarrow> go_err + source_block" where
  "src_rules d cleanFrom =
    (case pl_perSource d cleanFrom of
       Some b \<Rightarrow> Inr b
     | None \<Rightarrow>
        (case Split cleanFrom of
           (_, domain, err) \<Rightarrow>
             if err \<noteq> None \<and> cleanFrom \<noteq> [] then
               Inl (SMTPError 501 (5, 1, 3) ''Invalid sender address'' [] [] err
                 ''Can't extract local-part and host-part'' [])
             else (case pl_perSource d domain of Some b \<Rightarrow> Inr b | None \<Rightarrow> Inr (pl_defaultSource d))))"

definition srcBlockForAddr :: "'w mpenv \<Rightarrow> pipeline \<Rightarrow> string \<Rightarrow> 'w \<Rightarrow> 'w \<times> (go_err + source_block)" where
  "srcBlockForAddr env d mailFrom w =
    (case (if mailFrom \<noteq> [] then ForLookup (mp_lib env) mailFrom else (mailFrom, None)) of
       (_, Some err) \<Rightarrow> (w, Inl (SMTPError 501 (5, 1, 7) ''Unable to normalize the sender address'' [] [] (Some err) [] []))
     | (cleanFrom, None) \<Rightarrow>
         (case lookup_in env (pl_sourceIn d) cleanFrom w of
            (w, Some b) \<Rightarrow> (w, Inr b)
          | (w, None) \<Rightarrow> (w, src_rules d cleanFrom)))"

definition rcpt_rules :: "source_block \<Rightarrow> string \<Rightarrow> go_err + nat" where
  "rcpt_rules sb cleanRcpt =
    (case sb_perRcpt sb cleanRcpt of
       Some b \<Rightarrow> Inr b
     | None \<Rightarrow>
        (case Split cleanRcpt of
           (_, _, Some err) \<Rightarrow>
             Inl (SMTPError 501 (5, 1, 3) ''Invalid recipient address'' [] [] (Some err)
               ''Can't extract local-part and host-part'' [])
         | (_, domain, None) \<Rightarrow>
             (case sb_perRcpt sb domain of Some b \<Rightarrow> Inr b | None \<Rightarrow> Inr (sb_defaultRcpt sb))))"

definition rcptBlockForAddr :: "'w mpenv \<Rightarrow> source_block \<Rightarrow> string \<Rightarrow> 'w \<Rightarrow> 'w \<times> (go_err + nat)" where
  "rcptBlockForAddr env sb rcptTo w =
    (case ForLookup (mp_lib env) rcptTo of
       (_, Some err) \<Rightarrow> (w, Inl (SMTPError 553 (5, 1, 2) ''Unable to normalize the recipient address'' [] [] (Some err) [] []))
     | (cleanRcpt, None) \<Rightarrow>
         (case lookup_in env (sb_rcptIn sb) cleanRcpt w of
            (w, Some b) \<Rightarrow> (w, Inr b)
          | (w, None) \<Rightarrow> (w, rcpt_rules sb cleanRcpt)))"

section \<open>Starting a delivery\<close>

definition with_runner ::
  "('w penv \<Rightarrow> runner \<Rightarrow> 'w \<Rightarrow> runner \<times> 'w \<times> go_err option) \<Rightarrow> 'w mpenv \<Rightarrow> pdelivery \<Rightarrow> 'w
    \<Rightarrow> pdelivery \<times> 'w \<times> go_err option" where
  "with_runner f env dd w = (case f (mp_run env) (pd_runner dd) w of (rn, w, e) \<Rightarrow> (dd\<lparr>pd_runner := rn\<rparr>, w, e))"

definition initRunGlobalModifiers ::
  "'w mpenv \<Rightarrow> pipeline \<Rightarrow> string \<Rightarrow> pdelivery \<Rightarrow> 'w \<Rightarrow> pdelivery \<times> 'w \<times> (go_err + string)" where
  "initRunGlobalModifiers env d mailFrom dd w =
    (case ModStateForMsg (mp_mods env) (pl_globalModifiers d) (rn_msgMeta (pd_runner dd)) (pd_serial dd) w of
       (n, w, Inl err) \<Rightarrow> (dd\<lparr>pd_serial := n\<rparr>, w, Inl err)
     | (n, w, Inr ss) \<Rightarrow>
        (let dd = dd\<lparr>pd_serial := n\<rparr> in
         case gs_RewriteSender (mp_mods env) ss mailFrom w of
           (w, Inl err) \<Rightarrow> (dd, close_mods env ss w, Inl err)
         | (w, Inr mailFrom) \<Rightarrow> (dd\<lparr>pd_globalMods := Some ss\<rparr>, w, Inr mailFrom)))"

text \<open>The part of \<open>start\<close> after the source block is known.\<close>

definition start_source ::
  "'w mpenv \<Rightarrow> source_block \<Rightarrow> string \<Rightarrow> pdelivery \<Rightarrow> 'w \<Rightarrow> pdelivery \<times> 'w \<times> go_err option" where
  "start_source env sb mailFrom dd w =
    (case sb_rejectErr sb of
       Some err \<Rightarrow> (dd, w, Some err)
     | None \<Rightarrow>
        (case with_runner (\<lambda>e. checkConnSender e (sb_checks sb) mailFrom) env (dd\<lparr>pd_sourceBlock := sb\<rparr>) w of
           (dd, w, Some err) \<Rightarrow> (dd, w, Some err)
         | (dd, w, None) \<Rightarrow>
            (case ModStateForMsg (mp_mods env) (sb_modifiers sb) (rn_msgMeta (pd_runner dd)) (pd_serial dd) w of
               (n, w, Inl err) \<Rightarrow> (dd\<lparr>pd_serial := n\<rparr>, w, Some err)
             | (n, w, Inr ss) \<Rightarrow>
                (case gs_RewriteSender (mp_mods env) ss mailFrom w of
                   (w, Inl err) \<Rightarrow> (dd\<lparr>pd_serial := n\<rparr>, w, Some err)
                 | (w, Inr mailFrom) \<Rightarrow>
                     (dd\<lparr>pd_serial := n, pd_sourceMods := Some ss, pd_sourceAddr := mailFrom\<rparr>, w, None)))))"

definition pd_start ::
  "'w mpenv \<Rightarrow> pipeline \<Rightarrow> string \<Rightarrow> pdelivery \<Rightarrow> 'w \<Rightarrow> pdelivery \<times> 'w \<times> go_err option" where
  "pd_start env d mailFrom dd w =
    (case with_runner (\<lambda>e. checkConnSender e (pl_globalChecks d) mailFrom) env dd w of
       (dd, w, Some err) \<Rightarrow> (dd, w, Some err)
     | (dd, w, None) \<Rightarrow>
        (case initRunGlobalModifiers env d mailFrom dd w of
           (dd, w, Inl err) \<Rightarrow> (dd, w, Some err)
         | (dd, w, Inr mailFrom) \<Rightarrow>
            (case srcBlockForAddr env d mailFrom w of
               (w, Inl err) \<Rightarrow> (dd, w, Some err)
             | (w, Inr sb) \<Rightarrow> start_source env sb mailFrom dd w)))"

definition pipeline_Start ::
  "'w mpenv \<Rightarrow> pipeline \<Rightarrow> msg_meta \<Rightarrow> string \<Rightarrow> 'w \<Rightarrow> 'w \<times> (go_err + pdelivery)" where
  "pipeline_Start env d msgMeta mailFrom w =
    (let dd = \<lparr>pd_globalMods = None, pd_sourceMods = None, pd_rcptMods = [], pd_sourceAddr = [],
            pd_sourceBlock = pl_defaultSource d, pd_deliveries = [],
            pd_runner = (newCheckRunner msgMeta)\<lparr>rn_doDMARC := pl_doDMARC d\<rparr>, pd_serial = 0, pd_log = []\<rparr>
     in case pd_start env d mailFrom dd w of
          (dd, w, Some err) \<Rightarrow> (pd_close env dd w, Inl err)
        | (dd, w, None) \<Rightarrow> (w, Inr dd))"

section \<open>Recipients\<close>

definition getRcptModifiers ::
  "'w mpenv \<Rightarrow> pipeline \<Rightarrow> nat \<Rightarrow> pdelivery \<Rightarrow> 'w \<Rightarrow> pdelivery \<times> 'w \<times> (go_err + mstate list)" where
  "getRcptModifiers env d blk dd w =
    (case map_of (pd_rcptMods dd) blk of
       Some ss \<Rightarrow> (dd, w, Inr ss)
     | None \<Rightarrow>
        (case ModStateForMsg (mp_mods env) (rb_modifiers (pl_block d blk)) (rn_msgMeta (pd_runner dd)) (pd_serial dd) w of
           (n, w, Inl err) \<Rightarrow> (dd\<lparr>pd_serial := n\<rparr>, w, Inl err)
         | (n, w, Inr ss) \<Rightarrow>
            (case gs_RewriteSender (mp_mods env) ss (pd_sourceAddr dd) w of
               (w, _) \<Rightarrow> (dd\<lparr>pd_serial := n, pd_rcptMods := AList.update blk ss (pd_rcptMods dd)\<rparr>, w, Inr ss))))"

definition getDelivery :: "'w mpenv \<Rightarrow> nat \<Rightarrow> pdelivery \<Rightarrow> 'w \<Rightarrow> pdelivery \<times> 'w \<times> go_err option" where
  "getDelivery env t dd w =
    (case map_of (pd_deliveries dd) t of
       Some _ \<Rightarrow> (dd, w, None)
     | None \<Rightarrow>
        (case t_Start (mp_target env t) w (rn_msgMeta (pd_runner dd)) (pd_sourceAddr dd) of
           (w, Some err) \<Rightarrow> (log_call t (CStart (Some err)) dd, w, Some err)
         | (w, None) \<Rightarrow>
             ((log_call t (CStart None) dd)\<lparr>pd_deliveries := AList.update t [] (pd_deliveries dd)\<rparr>, w, None)))"

definition wrapRcpt :: "string \<Rightarrow> go_err \<Rightarrow> go_err" where
  "wrapRcpt to err = WithFields err [(''effective_rcpt'', FStr to)]"

definition add_recipient :: "nat \<Rightarrow> string \<Rightarrow> pdelivery \<Rightarrow> pdelivery" where
  "add_recipient t originalTo dd =
    dd\<lparr>pd_deliveries := AList.update t
        ((case map_of (pd_deliveries dd) t of Some rs \<Rightarrow> rs | None \<Rightarrow> []) @ [originalTo]) (pd_deliveries dd)\<rparr>"

text \<open>The loop over the targets for one final address.\<close>

fun add_targets ::
  "'w mpenv \<Rightarrow> string \<Rightarrow> string \<Rightarrow> nat list \<Rightarrow> pdelivery \<Rightarrow> 'w \<Rightarrow> pdelivery \<times> 'w \<times> go_err option" where
  "add_targets env originalTo to [] dd w = (dd, w, None)"
| "add_targets env originalTo to (t # ts) dd w =
     (let wrap = (if mp_isPipeline env t then (\<lambda>e. e) else wrapRcpt to) in
      case getDelivery env t dd w of
        (dd, w, Some err) \<Rightarrow> (dd, w, Some (wrap err))
      | (dd, w, None) \<Rightarrow>
         (case t_AddRcpt (mp_target env t) w to of
            (w, Some err) \<Rightarrow> (log_call t (CRcpt to (Some err)) dd, w, Some (wrap err))
          | (w, None) \<Rightarrow>
              add_targets env originalTo to ts (add_recipient t originalTo (log_call t (CRcpt to None) dd)) w))"

definition note_original :: "string \<Rightarrow> string \<Rightarrow> pdelivery \<Rightarrow> pdelivery" where
  "note_original originalTo to dd =
    (if originalTo \<noteq> to then
       dd\<lparr>pd_runner := (pd_runner dd)\<lparr>rn_msgMeta := (rn_msgMeta (pd_runner dd))
         \<lparr>mm_OriginalRcpts := (mm_OriginalRcpts (rn_msgMeta (pd_runner dd)))(to \<mapsto> originalTo)\<rparr>\<rparr>\<rparr>
     else dd)"

fun add_finals ::
  "'w mpenv \<Rightarrow> nat list \<Rightarrow> string \<Rightarrow> string list \<Rightarrow> pdelivery \<Rightarrow> 'w \<Rightarrow> pdelivery \<times> 'w \<times> go_err option" where
  "add_finals env targets originalTo [] dd w = (dd, w, None)"
| "add_finals env targets originalTo (to # tos) dd w =
     (case add_targets env originalTo to targets (note_original originalTo to dd) w of
        (dd, w, Some err) \<Rightarrow> (dd, w, Some err)
      | (dd, w, None) \<Rightarrow> add_finals env targets originalTo tos dd w)"

text \<open>The body of the loop over the addresses the global and source modifiers gave.\<close>

definition add_one ::
  "'w mpenv \<Rightarrow> pipeline \<Rightarrow> string \<Rightarrow> string \<Rightarrow> pdelivery \<Rightarrow> 'w \<Rightarrow> pdelivery \<times> 'w \<times> go_err option" where
  "add_one env d originalTo to dd w =
    (case rcptBlockForAddr env (pd_sourceBlock dd) to w of
       (w, Inl err) \<Rightarrow> (dd, w, Some (wrapRcpt to err))
     | (w, Inr blk) \<Rightarrow>
        (case rb_rejectErr (pl_block d blk) of
           Some err \<Rightarrow> (dd, w, Some (wrapRcpt to err))
         | None \<Rightarrow>
            (case with_runner (\<lambda>e. checkRcpt e (rb_checks (pl_block d blk)) to) env dd w of
               (dd, w, Some err) \<Rightarrow> (dd, w, Some (wrapRcpt to err))
             | (dd, w, None) \<Rightarrow>
                (case getRcptModifiers env d blk dd w of
                   (dd, w, Inl err) \<Rightarrow> (dd, w, Some (wrapRcpt to err))
                 | (dd, w, Inr ss) \<Rightarrow>
                    (case gs_RewriteRcpt (mp_mods env) ss to w of
                       (w, Inl err) \<Rightarrow> (dd, close_mods env ss w, Some (wrapRcpt to err))
                     | (w, Inr newTo) \<Rightarrow> add_finals env (rb_targets (pl_block d blk)) originalTo newTo dd w)))))"

fun add_all ::
  "'w mpenv \<Rightarrow> pipeline \<Rightarrow> string \<Rightarrow> string list \<Rightarrow> pdelivery \<Rightarrow> 'w \<Rightarrow> pdelivery \<times> 'w \<times> go_err option" where
  "add_all env d originalTo [] dd w = (dd, w, None)"
| "add_all env d originalTo (to # tos) dd w =
     (case add_one env d originalTo to dd w of
        (dd, w, Some err) \<Rightarrow> (dd, w, Some err)
      | (dd, w, None) \<Rightarrow> add_all env d originalTo tos dd w)"

text \<open>\<open>AddRcpt\<close>; the modifier states are those \<open>Start\<close> has set.\<close>

definition mods_of :: "mstate list option \<Rightarrow> mstate list" where
  "mods_of m = (case m of None \<Rightarrow> [] | Some ss \<Rightarrow> ss)"

definition pipeline_AddRcpt ::
  "'w mpenv \<Rightarrow> pipeline \<Rightarrow> string \<Rightarrow> pdelivery \<Rightarrow> 'w \<Rightarrow> pdelivery \<times> 'w \<times> go_err option" where
  "pipeline_AddRcpt env d to dd w =
    (case with_runner (\<lambda>e. checkRcpt e (pl_globalChecks d) to) env dd w of
       (dd, w, Some err) \<Rightarrow> (dd, w, Some err)
     | (dd, w, None) \<Rightarrow>
        (case with_runner (\<lambda>e. checkRcpt e (sb_checks (pd_sourceBlock dd)) to) env dd w of
           (dd, w, Some err) \<Rightarrow> (dd, w, Some err)
         | (dd, w, None) \<Rightarrow>
            (case gs_RewriteRcpt (mp_mods env) (mods_of (pd_globalMods dd)) to w of
               (w, Inl err) \<Rightarrow> (dd, w, Some err)
             | (w, Inr resultTo) \<Rightarrow>
                (case rewrite_each (\<lambda>w p. gs_RewriteRcpt (mp_mods env) (mods_of (pd_sourceMods dd)) p w) resultTo w of
                   (w, Inl err) \<Rightarrow> (dd, w, Some err)
                 | (w, Inr newTo) \<Rightarrow> add_all env d to newTo dd w))))"

section \<open>The body\<close>

fun block_checks ::
  "'w mpenv \<Rightarrow> pipeline \<Rightarrow> header \<Rightarrow> string \<Rightarrow> nat list \<Rightarrow> pdelivery \<Rightarrow> 'w \<Rightarrow> pdelivery \<times> 'w \<times> go_err option" where
  "block_checks env d header body [] dd w = (dd, w, None)"
| "block_checks env d header body (blk # blks) dd w =
     (case with_runner (\<lambda>e. checkBody e (rb_checks (pl_block d blk)) header body) env dd w of
        (dd, w, Some err) \<Rightarrow> (dd, w, Some err)
      | (dd, w, None) \<Rightarrow> block_checks env d header body blks dd w)"

definition top_checks ::
  "'w mpenv \<Rightarrow> pipeline \<Rightarrow> header \<Rightarrow> string \<Rightarrow> pdelivery \<Rightarrow> 'w \<Rightarrow> pdelivery \<times> 'w \<times> go_err option" where
  "top_checks env d header body dd w =
    (case with_runner (\<lambda>e. checkBody e (pl_globalChecks d) header body) env dd w of
       (dd, w, Some err) \<Rightarrow> (dd, w, Some err)
     | (dd, w, None) \<Rightarrow> with_runner (\<lambda>e. checkBody e (sb_checks (pd_sourceBlock dd)) header body) env dd w)"

fun blocks_rewrite ::
  "'w mpenv \<Rightarrow> header \<Rightarrow> string \<Rightarrow> (nat \<times> mstate list) list \<Rightarrow> 'w \<Rightarrow> 'w \<times> (go_err + header)" where
  "blocks_rewrite env h body [] w = (w, Inr h)"
| "blocks_rewrite env h body ((_, ss) # bs) w =
     (case gs_RewriteBody (mp_mods env) ss h body w of
        (w, Inl err) \<Rightarrow> (w, Inl err)
      | (w, Inr h) \<Rightarrow> blocks_rewrite env h body bs w)"

definition rewrite_body :: "'w mpenv \<Rightarrow> header \<Rightarrow> string \<Rightarrow> pdelivery \<Rightarrow> 'w \<Rightarrow> 'w \<times> (go_err + header)" where
  "rewrite_body env h body dd w =
    (case gs_RewriteBody (mp_mods env) (mods_of (pd_globalMods dd)) h body w of
       (w, Inl err) \<Rightarrow> (w, Inl err)
     | (w, Inr h) \<Rightarrow>
        (case gs_RewriteBody (mp_mods env) (mods_of (pd_sourceMods dd)) h body w of
           (w, Inl err) \<Rightarrow> (w, Inl err)
         | (w, Inr h) \<Rightarrow> blocks_rewrite env h body (mp_ordBlocks env (pd_rcptMods dd)) w))"

fun send_bodies ::
  "'w mpenv \<Rightarrow> header \<Rightarrow> string \<Rightarrow> (nat \<times> string list) list \<Rightarrow> pdelivery \<Rightarrow> 'w \<Rightarrow> pdelivery \<times> 'w \<times> go_err option" where
  "send_bodies env h body [] dd w = (dd, w, None)"
| "send_bodies env h body ((t, _) # ds) dd w =
     (case t_Body (mp_target env t) w h body of
        (w, Some err) \<Rightarrow> (log_call t (CBody (Some err)) dd, w, Some err)
      | (w, None) \<Rightarrow> send_bodies env h body ds (log_call t (CBody None) dd) w)"

definition add_received :: "'w mpenv \<Rightarrow> pipeline \<Rightarrow> header \<Rightarrow> pdelivery \<Rightarrow> go_err + header" where
  "add_received env d header dd =
    (if pl_FirstPipeline d then
       (case GenerateReceived (mp_lib env) (mp_now env) (rn_msgMeta (pd_runner dd)) (pl_Hostname d)
               (mm_OriginalFrom (rn_msgMeta (pd_runner dd))) of
          Inl err \<Rightarrow> Inl err
        | Inr received \<Rightarrow> Inr (hdr_Add header ''Received'' received))
     else Inr header)"

text \<open>\<open>Body\<close>; the result \<open>None\<close> is a wait that never ends.\<close>

definition pipeline_Body ::
  "'w mpenv \<Rightarrow> pipeline \<Rightarrow> header \<Rightarrow> string \<Rightarrow> pdelivery \<Rightarrow> 'w \<Rightarrow> (pdelivery \<times> 'w \<times> go_err option) option" where
  "pipeline_Body env d header body dd w =
    (case top_checks env d header body dd w of
       (dd, w, Some err) \<Rightarrow> Some (dd, w, Some err)
     | (dd, w, None) \<Rightarrow>
        (case block_checks env d header body (map fst (mp_ordBlocks env (pd_rcptMods dd))) dd w of
           (dd, w, Some err) \<Rightarrow> Some (dd, w, Some err)
         | (dd, w, None) \<Rightarrow>
            (case add_received env d header dd of
               Inl err \<Rightarrow> Some (dd, w, Some err)
             | Inr header \<Rightarrow>
                (case applyResults (mp_run env) (pl_Hostname d) header (pd_runner dd) of
                   None \<Rightarrow> None
                 | Some (rn, Inl err) \<Rightarrow> Some (dd\<lparr>pd_runner := rn\<rparr>, w, Some err)
                 | Some (rn, Inr header) \<Rightarrow>
                    (let dd = dd\<lparr>pd_runner := rn\<rparr> in
                     case rewrite_body env header body dd w of
                       (w, Inl err) \<Rightarrow> Some (dd, w, Some err)
                     | (w, Inr header) \<Rightarrow>
                         Some (send_bodies env header body (mp_ordDeliv env (pd_deliveries dd)) dd w))))))"

text \<open>\<open>statusCollector\<close>: statuses are reported under the original address.\<close>

definition translate_status :: "(string \<rightharpoonup> string) \<Rightarrow> string \<times> go_err option \<Rightarrow> string \<times> go_err option" where
  "translate_status originalRcpts s =
    (case originalRcpts (fst s) of Some original \<Rightarrow> (original, snd s) | None \<Rightarrow> s)"

definition setStatusAll :: "(nat \<times> string list) list \<Rightarrow> go_err \<Rightarrow> (string \<times> go_err option) list" where
  "setStatusAll ds err = concat (map (\<lambda>(_, rcpts). map (\<lambda>r. (r, Some err)) rcpts) ds)"

fun send_partial ::
  "'w mpenv \<Rightarrow> header \<Rightarrow> string \<Rightarrow> (nat \<times> string list) list \<Rightarrow> pdelivery \<Rightarrow> 'w
    \<Rightarrow> pdelivery \<times> 'w \<times> (string \<times> go_err option) list" where
  "send_partial env h body [] dd w = (dd, w, [])"
| "send_partial env h body ((t, rcpts) # ds) dd w =
     (case t_BodyNonAtomic (mp_target env t) of
        Some f \<Rightarrow>
          (case f w h body of
             (w, sts) \<Rightarrow>
               (case send_partial env h body ds (log_call t (CBodyNonAtomic sts) dd) w of
                  (dd', w, rest) \<Rightarrow>
                    (dd', w, map (translate_status (mm_OriginalRcpts (rn_msgMeta (pd_runner dd)))) sts @ rest)))
      | None \<Rightarrow>
          (case t_Body (mp_target env t) w h body of
             (w, err) \<Rightarrow>
               (case send_partial env h body ds (log_call t (CBody err) dd) w of
                  (dd, w, rest) \<Rightarrow>
                    (dd, w, (case err of None \<Rightarrow> [] | Some e \<Rightarrow> map (\<lambda>r. (r, Some e)) rcpts) @ rest))))"

definition pipeline_BodyNonAtomic ::
  "'w mpenv \<Rightarrow> pipeline \<Rightarrow> header \<Rightarrow> string \<Rightarrow> pdelivery \<Rightarrow> 'w
    \<Rightarrow> pdelivery \<times> 'w \<times> (string \<times> go_err option) list" where
  "pipeline_BodyNonAtomic env d header body dd w =
    (case top_checks env d header body dd w of
       (dd, w, Some err) \<Rightarrow> (dd, w, setStatusAll (mp_ordDeliv env (pd_deliveries dd)) err)
     | (dd, w, None) \<Rightarrow>
        (case rewrite_body env header body dd w of
           (w, Inl err) \<Rightarrow> (dd, w, setStatusAll (mp_ordDeliv env (pd_deliveries dd)) err)
         | (w, Inr header) \<Rightarrow> send_partial env header body (mp_ordDeliv env (pd_deliveries dd)) dd w))"

section \<open>Ending a delivery\<close>

fun commit_all ::
  "'w mpenv \<Rightarrow> (nat \<times> string list) list \<Rightarrow> pdelivery \<Rightarrow> 'w \<Rightarrow> pdelivery \<times> 'w \<times> go_err option" where
  "commit_all env [] dd w = (dd, w, None)"
| "commit_all env ((t, _) # ds) dd w =
     (case t_Commit (mp_target env t) w of
        (w, Some err) \<Rightarrow> (log_call t (CCommit (Some err)) dd, w, Some err)
      | (w, None) \<Rightarrow> commit_all env ds (log_call t (CCommit None) dd) w)"

definition pipeline_Commit :: "'w mpenv \<Rightarrow> pdelivery \<Rightarrow> 'w \<Rightarrow> pdelivery \<times> 'w \<times> go_err option" where
  "pipeline_Commit env dd w = commit_all env (mp_ordDeliv env (pd_deliveries dd)) dd (pd_close env dd w)"

fun abort_all ::
  "'w mpenv \<Rightarrow> (nat \<times> string list) list \<Rightarrow> go_err option \<Rightarrow> pdelivery \<Rightarrow> 'w \<Rightarrow> pdelivery \<times> 'w \<times> go_err option" where
  "abort_all env [] lastErr dd w = (dd, w, lastErr)"
| "abort_all env ((t, _) # ds) lastErr dd w =
     (case t_Abort (mp_target env t) w of
        (w, err) \<Rightarrow>
          abort_all env ds (case err of Some e \<Rightarrow> Some e | None \<Rightarrow> lastErr) (log_call t (CAbort err) dd) w)"

definition pipeline_Abort :: "'w mpenv \<Rightarrow> pdelivery \<Rightarrow> 'w \<Rightarrow> pdelivery \<times> 'w \<times> go_err option" where
  "pipeline_Abort env dd w = abort_all env (mp_ordDeliv env (pd_deliveries dd)) None dd (pd_close env dd w)"

end
