(* ===== verification/PipelineInv.thy ===== *)
theory PipelineInv
  imports MsgPipeline
begin

text \<open>
  The invariant of a delivery of the message pipeline and the lemmas that every
  operation keeps it: state objects belong to their checks, each target is started
  once and is served by a block that takes part in the delivery, and no call ends a
  delivery before \<open>Commit\<close> or \<open>Abort\<close>.
\<close>

section \<open>States of checks carry their check\<close>

definition states_ok :: "(nat \<times> cstate) list \<Rightarrow> bool" where
  "states_ok m = list_all (\<lambda>(c, s). fst s = c) m"

lemma states_ok_update: "states_ok m \<Longrightarrow> fst s = c \<Longrightarrow> states_ok (AList.update c s m)"
  by (induction m) (auto simp: states_ok_def)

lemma states_ok_fold:
  "states_ok m \<Longrightarrow> states_ok xs \<Longrightarrow> states_ok (foldl (\<lambda>m (c, s). AList.update c s m) m xs)"
proof (induction xs arbitrary: m)
  case (Cons x xs)
  obtain c s where x: "x = (c, s)" by (cases x)
  with Cons.prems have c: "fst s = c" and xs: "states_ok xs" by (auto simp: states_ok_def)
  from Cons.IH [OF states_ok_update [OF Cons.prems(1) c] xs] show ?case by (simp add: x)
qed simp

lemma states_ok_lookup: "states_ok m \<Longrightarrow> map_of m c = Some s \<Longrightarrow> fst s = c"
  by (auto simp: states_ok_def list_all_iff dest: map_of_SomeD)

lemma init_states_fst:
  assumes "init_states env checks states news newMap rn w = (rn', w', Inr (states', news', newMap'))"
    "states_ok (rn_states rn)" "states_ok newMap"
  shows "map fst states' = map fst states @ checks \<and> states_ok newMap'"
  using assms
proof (induction checks arbitrary: states news newMap rn w)
  case (Cons c cs)
  show ?case
  proof (cases "map_of (rn_states rn) c")
    case (Some s)
    with Cons.prems have "init_states env cs (states @ [s]) news newMap rn w = (rn', w', Inr (states', news', newMap'))"
      by simp
    from Cons.IH [OF this Cons.prems(2,3)] states_ok_lookup [OF Cons.prems(2) Some] show ?thesis by simp
  next
    case None
    obtain w1 e where ck: "ck_StateForMsg (pe_checks env) c (rn_msgMeta rn) w = (w1, e)" by fastforce
    with Cons.prems(1) None have e: "e = None" by (auto split: option.splits)
    with Cons.prems(1) None ck have
      i: "init_states env cs (states @ [(c, rn_serial rn)]) (news @ [(c, rn_serial rn)])
        (AList.update c (c, rn_serial rn) newMap) (rn\<lparr>rn_serial := Suc (rn_serial rn)\<rparr>) w1
        = (rn', w', Inr (states', news', newMap'))" by (simp add: Let_def)
    from Cons.IH [OF i] Cons.prems(2) states_ok_update [OF Cons.prems(3)] show ?thesis by simp
  qed
qed simp

lemma checkStates_fst:
  assumes "checkStates env checks rn w = (rn', w', r)" "states_ok (rn_states rn)"
  shows "states_ok (rn_states rn') \<and> (\<forall>states. r = Inr states \<longrightarrow> map fst states = checks)"
proof -
  obtain rn1 w1 i where i: "init_states env checks [] [] [] rn w = (rn1, w1, i)" by (metis prod.collapse)
  note k = init_states_keeps [OF i]
  show ?thesis
  proof (cases i)
    case (Inl e)
    with i assms k show ?thesis by (auto simp: checkStates_def)
  next
    case (Inr x)
    obtain states news newMap where x: "x = (states, news, newMap)" by (metis prod.collapse)
    have sp: "map fst states = checks" "states_ok newMap"
      using init_states_fst [OF i [unfolded Inr x] assms(2)] by (auto simp: states_ok_def)
    obtain rn2 w2 e2 where s: "replay_sender env news rn1 w1 = (rn2, w2, e2)" by (metis prod.collapse)
    obtain rn3 w3 e3 where rc: "replay_rcpts env states (rn_checkedRcpts rn2) rn2 w2 = (rn3, w3, e3)" by (metis prod.collapse)
    have st: "rn_states rn2 = rn_states rn" "rn_states rn3 = rn_states rn"
      using replay_states(1) [OF s] replay_states(2) [OF rc] k by simp_all
    note fold = states_ok_fold [OF assms(2) sp(2)]
    have "checkStates env checks rn w =
      (if news = [] then (rn1, w1, Inr states)
       else (case e2 of Some err \<Rightarrow> (rn2, close_states env states w2, Inl err)
         | None \<Rightarrow> (case e3 of Some err \<Rightarrow> (rn3, close_states env states w3, Inl err)
           | None \<Rightarrow> (rn3\<lparr>rn_states := foldl (\<lambda>m (c, s). AList.update c s m) (rn_states rn3) newMap\<rparr>, w3, Inr states))))"
      by (simp only: checkStates_def i Inr x prod.case sum.case s rc)
    with assms st k sp fold show ?thesis
      by (cases "news = []"; cases e2; cases e3) (simp_all, auto)
  qed
qed

lemma checkBody_states:
  assumes "checkBody env checks h b rn w = (rn', w', e)" "states_ok (rn_states rn)"
  shows "states_ok (rn_states rn')"
proof -
  obtain rn1 w1 r where c: "checkStates env checks rn w = (rn1, w1, r)" by (metis prod.collapse)
  note st = checkStates_fst [OF c assms(2)]
  show ?thesis
  proof (cases r)
    case (Inl x)
    with st assms(1) c show ?thesis by (simp add: checkBody_def)
  next
    case (Inr states)
    with assms(1) c obtain rn2 where
      m: "runAndMergeResults env states (run_body env h b) rn2 w1 = (rn', w', e)"
      and 2: "rn_states rn2 = rn_states rn1" by (simp add: checkBody_def Let_def)
    from runAndMerge_states [OF _ m] 2 st show ?thesis by simp
  qed
qed

lemma checkRcpt_states:
  assumes "checkRcpt env checks rcpt rn w = (rn', w', e)" "states_ok (rn_states rn)"
  shows "states_ok (rn_states rn')"
proof -
  obtain rn1 w1 r where c: "checkStates env checks rn w = (rn1, w1, r)" by (metis prod.collapse)
  note st = checkStates_fst [OF c assms(2)]
  show ?thesis
  proof (cases r)
    case (Inl x)
    with st assms(1) c show ?thesis by (simp add: checkRcpt_def)
  next
    case (Inr states)
    obtain rn2 w2 e2 where m: "runAndMergeResults env states (run_rcpt env rcpt) rn1 w1 = (rn2, w2, e2)"
      by (metis prod.collapse)
    have "rn_states rn2 = rn_states rn1" by (rule runAndMerge_states [OF _ m]) simp
    with Inr m assms(1) c st show ?thesis by (auto simp: checkRcpt_def)
  qed
qed

lemma checkConnSender_states:
  assumes "checkConnSender env checks f rn w = (rn', w', e)" "states_ok (rn_states rn)"
  shows "states_ok (rn_states rn')"
proof -
  let ?rn = "rn\<lparr>rn_mailFrom := f, rn_mailFromReceived := True\<rparr>"
  obtain rn1 w1 r where c: "checkStates env checks ?rn w = (rn1, w1, r)" by (metis prod.collapse)
  from checkStates_fst [OF c] assms c show ?thesis
    by (auto simp: checkConnSender_def split: sum.splits)
qed

section \<open>Acceptance by the checks of a group\<close>

text \<open>Every result for the body that rejects has a reason: the verdict of a group is that
  reason.\<close>

definition reasons_given :: "'w penv \<Rightarrow> header \<Rightarrow> string \<Rightarrow> bool" where
  "reasons_given env h b \<longleftrightarrow>
    (\<forall>s w res. snd (ck_Body (pe_checks env) s h b w) = Some res \<longrightarrow> rejecting res \<longrightarrow> cr_Reason res \<noteq> None)"

text \<open>A check that rejects the header and body, whatever state object it is given and
  whatever the world is.\<close>

definition rejects :: "'w penv \<Rightarrow> header \<Rightarrow> string \<Rightarrow> nat \<Rightarrow> bool" where
  "rejects env h b c \<longleftrightarrow> (\<forall>i w. \<exists>res. snd (ck_Body (pe_checks env) (c, i) h b w) = Some res \<and> rejecting res)"

definition fair_sched :: "'w penv \<Rightarrow> bool" where
  "fair_sched env \<longleftrightarrow> (\<forall>ss. mset (pe_sched env ss) = mset ss)"

lemma run_body_result: "snd (snd (run_body env h b s rn w)) = snd (ck_Body (pe_checks env) s h b w)"
  by (simp add: run_body_def split: prod.split)

lemma checkBody_accepts:
  assumes "checkBody env checks h b rn w = (rn', w', None)" "states_ok (rn_states rn)"
    and "reasons_given env h b" "fair_sched env" "c \<in> set checks"
  shows "\<not> rejects env h b c"
proof -
  obtain rn1 w1 r where c: "checkStates env checks rn w = (rn1, w1, r)" by (metis prod.collapse)
  with assms(1) obtain states where r: "r = Inr states" by (auto simp: checkBody_def split: sum.splits)
  from checkStates_fst [OF c assms(2)] r have st: "map fst states = checks" by simp
  from assms(1) c r obtain rn2 where m: "runAndMergeResults env states (run_body env h b) rn2 w1 = (rn', w', None)"
    by (auto simp: checkBody_def Let_def)
  let ?rs = "run_results (run_body env h b) (pe_sched env states) rn2 w1"
  have "\<forall>res \<in> set ?rs. rejecting res \<longrightarrow> cr_Reason res \<noteq> None"
    using assms(3) by (auto simp: reasons_given_def run_body_result dest!: run_results_from)
  with runAndMerge_outcome [OF m] have no: "\<forall>res \<in> set ?rs. \<not> rejecting res" by (auto simp: list_ex_iff)
  from assms(5) st obtain i where "(c, i) \<in> set states" by auto
  then have "(c, i) \<in> set (pe_sched env states)" using assms(4) mset_eq_setD by (metis fair_sched_def)
  from run_results_ran [OF this, of "run_body env h b" rn2 w1] no show ?thesis
    by (auto simp: rejects_def run_body_result)
qed

section \<open>Reachable deliveries and their invariant\<close>

text \<open>The deliveries a source can hold: \<open>Start\<close> succeeded, then recipients were
  added and bodies sent, with arbitrary activity of the rest of the program between
  the calls.\<close>

inductive pd_reach :: "'w mpenv \<Rightarrow> pipeline \<Rightarrow> pdelivery \<Rightarrow> bool" for env d where
  start: "pipeline_Start env d meta from w = (w', Inr dd) \<Longrightarrow> pd_reach env d dd"
| rcpt: "pd_reach env d dd \<Longrightarrow> pipeline_AddRcpt env d to dd w = (dd', w', e) \<Longrightarrow> pd_reach env d dd'"
| body: "pd_reach env d dd \<Longrightarrow> pipeline_Body env d h b dd w = Some (dd', w', e) \<Longrightarrow> pd_reach env d dd'"
| partial: "pd_reach env d dd \<Longrightarrow> pipeline_BodyNonAtomic env d h b dd w = (dd', w', sts) \<Longrightarrow> pd_reach env d dd'"

definition ending :: "dcall \<Rightarrow> bool" where
  "ending c = (case c of CAbort _ \<Rightarrow> True | CCommit _ \<Rightarrow> True | _ \<Rightarrow> False)"

definition open_targets :: "pdelivery \<Rightarrow> nat set" where
  "open_targets dd = fst ` set (pd_deliveries dd)"

definition open_blocks :: "pdelivery \<Rightarrow> nat set" where
  "open_blocks dd = fst ` set (pd_rcptMods dd)"

text \<open>A target is served by a block whose modifiers and checks take part in the
  delivery.\<close>

definition served :: "pipeline \<Rightarrow> pdelivery \<Rightarrow> nat \<Rightarrow> bool" where
  "served d dd t \<longleftrightarrow> (\<exists>blk \<in> open_blocks dd. t \<in> set (rb_targets (pl_block d blk)))"

definition starts :: "pdelivery \<Rightarrow> nat \<Rightarrow> nat" where
  "starts dd t = count_list (pd_log dd) (t, CStart None)"

definition pd_inv :: "pipeline \<Rightarrow> pdelivery \<Rightarrow> bool" where
  "pd_inv d dd \<longleftrightarrow> states_ok (rn_states (pd_runner dd)) \<and> distinct (map fst (pd_deliveries dd))
    \<and> (\<forall>t \<in> open_targets dd. served d dd t)
    \<and> (\<forall>t. starts dd t = (if t \<in> open_targets dd then 1 else 0))
    \<and> (\<forall>x \<in> set (pd_log dd). \<not> ending (snd x))"

lemma count_list_append1: "count_list (xs @ [y]) x = count_list xs x + (if x = y then 1 else 0)"
  by (induction xs) auto

text \<open>Steps that touch only the runner, the modifiers or the log of calls that
  neither start nor end a delivery.\<close>

definition same_deliveries :: "pdelivery \<Rightarrow> pdelivery \<Rightarrow> bool" where
  "same_deliveries dd dd' \<longleftrightarrow> pd_deliveries dd' = pd_deliveries dd \<and> pd_log dd' = pd_log dd
    \<and> open_blocks dd \<subseteq> open_blocks dd' \<and> (states_ok (rn_states (pd_runner dd)) \<longrightarrow> states_ok (rn_states (pd_runner dd')))"

lemma same_refl: "same_deliveries dd dd"
  by (simp add: same_deliveries_def)

lemma same_trans: "same_deliveries a b \<Longrightarrow> same_deliveries b c \<Longrightarrow> same_deliveries a c"
  by (auto simp: same_deliveries_def)

lemma served_mono: "served d dd t \<Longrightarrow> open_blocks dd \<subseteq> open_blocks dd' \<Longrightarrow> served d dd' t"
  by (auto simp: served_def)

lemma same_inv: "same_deliveries dd dd' \<Longrightarrow> pd_inv d dd \<Longrightarrow> pd_inv d dd'"
  by (auto simp: same_deliveries_def pd_inv_def open_targets_def starts_def intro: served_mono)

lemma with_runner_same:
  assumes "with_runner f env dd w = (dd', w', e)"
    and "\<And>rn w rn' w' e. f (mp_run env) rn w = (rn', w', e) \<Longrightarrow> states_ok (rn_states rn) \<Longrightarrow> states_ok (rn_states rn')"
  shows "same_deliveries dd dd' \<and> pd_sourceBlock dd' = pd_sourceBlock dd \<and> pd_rcptMods dd' = pd_rcptMods dd"
proof -
  obtain rn1 w1 e1 where f: "f (mp_run env) (pd_runner dd) w = (rn1, w1, e1)" by (metis prod.collapse)
  with assms(1) have "dd' = dd\<lparr>pd_runner := rn1\<rparr>" by (simp add: with_runner_def)
  with assms(2) [OF f] show ?thesis by (simp add: same_deliveries_def open_blocks_def)
qed

lemma rcpt_same:
  assumes "with_runner (\<lambda>e. checkRcpt e cs to) env dd w = (dd', w', e)"
  shows "same_deliveries dd dd' \<and> pd_sourceBlock dd' = pd_sourceBlock dd \<and> pd_rcptMods dd' = pd_rcptMods dd"
  by (rule with_runner_same [OF assms]) (rule checkRcpt_states)

lemma body_same:
  assumes "with_runner (\<lambda>e. checkBody e cs h b) env dd w = (dd', w', e)"
  shows "same_deliveries dd dd' \<and> pd_sourceBlock dd' = pd_sourceBlock dd \<and> pd_rcptMods dd' = pd_rcptMods dd"
  by (rule with_runner_same [OF assms]) (rule checkBody_states)

lemma sender_same:
  assumes "with_runner (\<lambda>e. checkConnSender e cs from) env dd w = (dd', w', e)"
  shows "same_deliveries dd dd' \<and> pd_sourceBlock dd' = pd_sourceBlock dd \<and> pd_rcptMods dd' = pd_rcptMods dd"
  by (rule with_runner_same [OF assms]) (rule checkConnSender_states)

lemma open_blocks_update [simp]:
  "open_blocks (dd\<lparr>pd_serial := n, pd_rcptMods := AList.update blk ss (pd_rcptMods dd)\<rparr>) = insert blk (open_blocks dd)"
  "open_blocks (dd\<lparr>pd_serial := n\<rparr>) = open_blocks dd"
  using update_keys [of blk ss "pd_rcptMods dd"] unfolding open_blocks_def set_map [symmetric] by auto

lemma getRcptModifiers_same:
  assumes "getRcptModifiers env d blk dd w = (dd', w', r)"
  shows "same_deliveries dd dd' \<and> pd_sourceBlock dd' = pd_sourceBlock dd \<and> (\<forall>ss. r = Inr ss \<longrightarrow> blk \<in> open_blocks dd')"
proof (cases "map_of (pd_rcptMods dd) blk")
  case (Some ss)
  with assms show ?thesis
    by (force simp: getRcptModifiers_def same_deliveries_def open_blocks_def dest: map_of_SomeD)
next
  case None
  obtain n w1 m where m: "ModStateForMsg (mp_mods env) (rb_modifiers (pl_block d blk)) (rn_msgMeta (pd_runner dd)) (pd_serial dd) w
    = (n, w1, m)" by (metis prod.collapse)
  from None m assms show ?thesis
    by (cases m) (auto simp: getRcptModifiers_def same_deliveries_def open_blocks_update split: prod.splits)
qed

lemma open_targets_update [simp]:
  "open_targets (dd\<lparr>pd_deliveries := AList.update t rs (pd_deliveries dd)\<rparr>) = insert t (open_targets dd)"
  using update_keys [of t rs "pd_deliveries dd"] unfolding open_targets_def set_map [symmetric] by auto

lemma map_of_open: "(map_of (pd_deliveries dd) t = None) = (t \<notin> open_targets dd)"
  by (simp add: open_targets_def map_of_eq_None_iff)

text \<open>The recipients some delivery was accepted for.\<close>

definition taken :: "pdelivery \<Rightarrow> string set" where
  "taken dd = {r. \<exists>t rs. map_of (pd_deliveries dd) t = Some rs \<and> r \<in> set rs}"

lemma log_call_fields [simp]:
  "pd_deliveries (log_call t c dd) = pd_deliveries dd" "pd_log (log_call t c dd) = pd_log dd @ [(t, c)]"
  "pd_runner (log_call t c dd) = pd_runner dd" "pd_rcptMods (log_call t c dd) = pd_rcptMods dd"
  "open_targets (log_call t c dd) = open_targets dd" "open_blocks (log_call t c dd) = open_blocks dd"
  "pd_sourceBlock (log_call t c dd) = pd_sourceBlock dd" "taken (log_call t c dd) = taken dd"
  by (simp_all add: log_call_def taken_def open_targets_def open_blocks_def)

lemma log_call_inv:
  assumes "pd_inv d dd" "\<not> ending c" "c \<noteq> CStart None"
  shows "pd_inv d (log_call t c dd)"
  using assms by (auto simp: pd_inv_def served_def starts_def count_list_append1)

text \<open>What a step on the targets keeps.\<close>

definition same_blocks :: "pdelivery \<Rightarrow> pdelivery \<Rightarrow> bool" where
  "same_blocks dd dd' \<longleftrightarrow> pd_rcptMods dd' = pd_rcptMods dd \<and> pd_sourceBlock dd' = pd_sourceBlock dd
    \<and> taken dd \<subseteq> taken dd'"

lemma same_blocks_trans: "same_blocks a b \<Longrightarrow> same_blocks b c \<Longrightarrow> same_blocks a c"
  by (auto simp: same_blocks_def)

lemma same_blocks_served: "same_blocks dd dd' \<Longrightarrow> served d dd' t = served d dd t"
  by (simp add: same_blocks_def served_def open_blocks_def)

lemma getDelivery_inv:
  assumes "pd_inv d dd" "served d dd t" "getDelivery env t dd w = (dd', w', e)"
  shows "pd_inv d dd' \<and> same_blocks dd dd' \<and> (e = None \<longrightarrow> t \<in> open_targets dd')"
proof (cases "map_of (pd_deliveries dd) t")
  case (Some rs)
  with assms show ?thesis using map_of_open [of dd t] by (auto simp: getDelivery_def same_blocks_def)
next
  case None
  then have t: "t \<notin> open_targets dd" by (simp add: map_of_open)
  obtain w1 x where s: "t_Start (mp_target env t) w (rn_msgMeta (pd_runner dd)) (pd_sourceAddr dd) = (w1, x)" by fastforce
  show ?thesis
  proof (cases x)
    case (Some err)
    with None s assms log_call_inv [OF assms(1), of "CStart (Some err)" t] show ?thesis
      by (auto simp: getDelivery_def same_blocks_def ending_def)
  next
    case None': None
    let ?dd = "(log_call t (CStart None) dd)\<lparr>pd_deliveries := AList.update t [] (pd_deliveries dd)\<rparr>"
    have dd': "dd' = ?dd" "e = None" using None None' s assms(3) by (auto simp: getDelivery_def)
    have o: "open_targets ?dd = insert t (open_targets dd)"
      using open_targets_update [of t "[]" "log_call t (CStart None) dd"] by simp
    have "distinct (map fst (pd_deliveries ?dd))"
      using assms(1) by (simp add: pd_inv_def distinct_update)
    moreover have "starts ?dd u = (if u \<in> open_targets ?dd then 1 else 0)" for u
      using assms(1) t unfolding o by (auto simp: pd_inv_def starts_def count_list_append1)
    moreover have "served d ?dd u = served d dd u" for u by (simp add: served_def open_blocks_def)
    ultimately have "pd_inv d ?dd" using assms(1,2) unfolding pd_inv_def o by (auto simp: ending_def)
    moreover have "taken dd \<subseteq> taken ?dd" using None by (auto simp: taken_def update_conv') (metis option.distinct(1))
    ultimately show ?thesis using o by (auto simp: dd' same_blocks_def)
  qed
qed

lemma add_recipient_inv:
  assumes "pd_inv d dd" "t \<in> open_targets dd"
  shows "pd_inv d (add_recipient t r dd) \<and> same_blocks dd (add_recipient t r dd) \<and> r \<in> taken (add_recipient t r dd)"
proof -
  let ?dd = "add_recipient t r dd"
  from assms(2) obtain rs where 0: "map_of (pd_deliveries dd) t = Some rs"
    using map_of_open [of dd t] by auto
  then have rs: "pd_deliveries ?dd = AList.update t (rs @ [r]) (pd_deliveries dd)" by (simp add: add_recipient_def)
  have o: "open_targets ?dd = open_targets dd" using assms(2) by (auto simp: add_recipient_def)
  have f: "pd_log ?dd = pd_log dd" "pd_runner ?dd = pd_runner dd" "pd_rcptMods ?dd = pd_rcptMods dd"
    "pd_sourceBlock ?dd = pd_sourceBlock dd" by (simp_all add: add_recipient_def)
  have "distinct (map fst (pd_deliveries ?dd))" using assms(1) unfolding rs by (simp add: pd_inv_def distinct_update)
  then have "pd_inv d ?dd" using assms(1) unfolding pd_inv_def o starts_def served_def open_blocks_def f by simp
  moreover have "taken dd \<subseteq> taken ?dd" "r \<in> taken ?dd"
    using 0 unfolding taken_def rs update_conv' by (auto, metis Un_iff option.inject)
  ultimately show ?thesis using f by (auto simp: same_blocks_def)
qed

lemma note_original_same:
  "pd_inv d (note_original r t dd) = pd_inv d dd" "same_blocks dd (note_original r t dd)"
  "served d (note_original r t dd) = served d dd"
  by (auto simp: note_original_def pd_inv_def same_blocks_def served_def open_targets_def open_blocks_def starts_def taken_def fun_eq_iff)

lemma add_targets_inv:
  assumes "pd_inv d dd" "\<forall>t \<in> set ts. served d dd t" "add_targets env r to ts dd w = (dd', w', e)"
  shows "pd_inv d dd' \<and> same_blocks dd dd' \<and> (e = None \<longrightarrow> ts \<noteq> [] \<longrightarrow> r \<in> taken dd')"
  using assms
proof (induction ts arbitrary: dd w)
  case Nil
  then show ?case by (auto simp: same_blocks_def)
next
  case (Cons t ts)
  obtain dd1 w1 e1 where g: "getDelivery env t dd w = (dd1, w1, e1)" by (metis prod.collapse)
  have 1: "pd_inv d dd1" "same_blocks dd dd1" "e1 = None \<longrightarrow> t \<in> open_targets dd1"
    using getDelivery_inv [OF Cons.prems(1) _ g] Cons.prems(2) by auto
  obtain w2 e2 where a: "t_AddRcpt (mp_target env t) w1 to = (w2, e2)" by fastforce
  let ?dd = "log_call t (CRcpt to e2) dd1"
  have 2: "pd_inv d ?dd" "same_blocks dd ?dd"
    using log_call_inv [OF 1(1), of "CRcpt to e2" t] 1(2) by (auto simp: ending_def same_blocks_def)
  show ?case
  proof (cases "e1 = None \<and> e2 = None")
    case False
    with Cons.prems(3) g a 1 2 show ?thesis by (cases e1) (auto simp: Let_def)
  next
    case True
    let ?dd' = "add_recipient t r ?dd"
    have 3: "pd_inv d ?dd'" "same_blocks ?dd ?dd'" "r \<in> taken ?dd'"
      using add_recipient_inv [OF 2(1)] 1(3) True by auto
    have "same_blocks dd ?dd'" using same_blocks_trans [OF 2(2) 3(2)] .
    moreover have "add_targets env r to ts ?dd' w2 = (dd', w', e)" using True Cons.prems(3) g a by (simp add: Let_def)
    moreover have "\<forall>t \<in> set ts. served d ?dd' t"
      using Cons.prems(2) same_blocks_served [OF \<open>same_blocks dd ?dd'\<close>] by simp
    ultimately have "pd_inv d dd' \<and> same_blocks ?dd' dd'" "same_blocks dd ?dd'" using Cons.IH [OF 3(1)] by blast+
    then show ?thesis using 3(3) by (auto intro: same_blocks_trans) (auto simp: same_blocks_def)
  qed
qed

lemma add_finals_inv:
  assumes "pd_inv d dd" "\<forall>t \<in> set ts. served d dd t" "add_finals env ts r tos dd w = (dd', w', e)"
  shows "pd_inv d dd' \<and> same_blocks dd dd' \<and> (e = None \<longrightarrow> ts \<noteq> [] \<longrightarrow> tos \<noteq> [] \<longrightarrow> r \<in> taken dd')"
  using assms
proof (induction tos arbitrary: dd w)
  case Nil
  then show ?case by (auto simp: same_blocks_def)
next
  case (Cons to tos)
  obtain dd1 w1 e1 where g: "add_targets env r to ts (note_original r to dd) w = (dd1, w1, e1)" by (metis prod.collapse)
  have 1: "pd_inv d dd1" "same_blocks (note_original r to dd) dd1" "e1 = None \<longrightarrow> ts \<noteq> [] \<longrightarrow> r \<in> taken dd1"
    using add_targets_inv [OF _ _ g, of d] Cons.prems(1,2) by (auto simp: note_original_same)
  then have b: "same_blocks dd dd1" using same_blocks_trans note_original_same(2) by blast
  show ?case
  proof (cases e1)
    case (Some err)
    with Cons.prems(3) g 1 b show ?thesis by auto
  next
    case None
    then have "add_finals env ts r tos dd1 w1 = (dd', w', e)" using Cons.prems(3) g by simp
    moreover have "\<forall>t \<in> set ts. served d dd1 t" using Cons.prems(2) same_blocks_served [OF b] by simp
    ultimately have "pd_inv d dd' \<and> same_blocks dd1 dd'" using Cons.IH [OF 1(1)] by blast
    then show ?thesis using 1(3) None same_blocks_trans [OF b] by (auto simp: same_blocks_def)
  qed
qed

section \<open>The operations keep the invariant\<close>

definition grows :: "pipeline \<Rightarrow> pdelivery \<Rightarrow> pdelivery \<Rightarrow> bool" where
  "grows d dd dd' \<longleftrightarrow> (pd_inv d dd \<longrightarrow> pd_inv d dd' \<and> pd_sourceBlock dd' = pd_sourceBlock dd \<and> taken dd \<subseteq> taken dd')"

lemma grows_refl: "grows d dd dd"
  by (simp add: grows_def)

lemma grows_trans: "grows d a b \<Longrightarrow> grows d b c \<Longrightarrow> grows d a c"
  by (auto simp: grows_def)

lemma same_grows: "same_deliveries dd dd' \<Longrightarrow> pd_sourceBlock dd' = pd_sourceBlock dd \<Longrightarrow> grows d dd dd'"
  using same_inv by (auto simp: grows_def same_deliveries_def taken_def)

text \<open>No modifier drops a recipient and no block that accepts recipients is without a target.\<close>

definition no_sink :: "'w mpenv \<Rightarrow> pipeline \<Rightarrow> bool" where
  "no_sink env d \<longleftrightarrow> (\<forall>s p w w'. md_Rcpt (mp_mods env) s p w \<noteq> (w', Inr [])) \<and> (\<forall>blk. rb_rejectErr (pl_block d blk) = None \<longrightarrow> rb_targets (pl_block d blk) \<noteq> [])"

lemma rewrite_nonempty:
  assumes "gs_RewriteRcpt (mp_mods env) ss p w = (w', Inr rs)" "no_sink env d"
  shows "rs \<noteq> []"
proof -
  have "(\<forall>r \<in> set rs. True) \<and> rs \<noteq> []"
    by (rule rewrite_rcpts_all [OF assms(1) [unfolded gs_RewriteRcpt_def]]) (use assms(2) in \<open>auto simp: no_sink_def\<close>)
  then show ?thesis by simp
qed

lemma add_one_inv:
  assumes "add_one env d r to dd w = (dd', w', e)"
  shows "grows d dd dd' \<and> (pd_inv d dd \<longrightarrow> e = None \<longrightarrow> no_sink env d \<longrightarrow> r \<in> taken dd')"
proof -
  obtain w1 b where b: "rcptBlockForAddr env (pd_sourceBlock dd) to w = (w1, b)" by fastforce
  show ?thesis
  proof (cases "\<exists>blk. b = Inr blk \<and> rb_rejectErr (pl_block d blk) = None")
    case False
    then have "dd' = dd \<and> e \<noteq> None"
      using assms b by (cases b) (auto simp: add_one_def split: option.splits)
    then show ?thesis using grows_refl by auto
  next
    case True
    then obtain blk where blk: "b = Inr blk" "rb_rejectErr (pl_block d blk) = None" by blast
    obtain dd1 w2 e1 where c: "with_runner (\<lambda>e. checkRcpt e (rb_checks (pl_block d blk)) to) env dd w1 = (dd1, w2, e1)"
      by (metis prod.collapse)
    have 1: "grows d dd dd1" using rcpt_same [OF c] same_grows by blast
    show ?thesis
    proof (cases e1)
      case (Some err)
      with assms b blk c 1 show ?thesis by (auto simp: add_one_def)
    next
      case None
      obtain dd2 w3 m where g: "getRcptModifiers env d blk dd1 w2 = (dd2, w3, m)" by (metis prod.collapse)
      note g' = getRcptModifiers_same [OF g]
      have 2: "grows d dd dd2" using g' same_grows grows_trans [OF 1] by blast
      show ?thesis
      proof (cases m)
        case (Inl err)
        with assms b blk c None g 2 show ?thesis by (auto simp: add_one_def)
      next
        case (Inr ss)
        obtain w4 x where x: "gs_RewriteRcpt (mp_mods env) ss to w3 = (w4, x)" by fastforce
        show ?thesis
        proof (cases x)
          case (Inl err)
          with assms b blk c None g Inr x 2 show ?thesis by (auto simp: add_one_def)
        next
          case Inr': (Inr newTo)
          have f: "add_finals env (rb_targets (pl_block d blk)) r newTo dd2 w4 = (dd', w', e)"
            using assms b blk c None g Inr x Inr' by (simp add: add_one_def)
          have sv: "\<forall>t \<in> set (rb_targets (pl_block d blk)). served d dd2 t" using g' Inr by (auto simp: served_def)
          have "pd_inv d dd \<Longrightarrow> pd_inv d dd2" using 2 by (simp add: grows_def)
          moreover have "newTo \<noteq> [] \<and> rb_targets (pl_block d blk) \<noteq> []" if "no_sink env d"
            using rewrite_nonempty [OF x [unfolded Inr'] that] that blk(2) by (simp add: no_sink_def)
          ultimately show ?thesis using add_finals_inv [OF _ sv f] 2 by (auto simp: grows_def same_blocks_def)
        qed
      qed
    qed
  qed
qed

lemma add_all_inv:
  assumes "add_all env d r tos dd w = (dd', w', e)"
  shows "grows d dd dd' \<and> (pd_inv d dd \<longrightarrow> e = None \<longrightarrow> no_sink env d \<longrightarrow> tos \<noteq> [] \<longrightarrow> r \<in> taken dd')"
  using assms
proof (induction tos arbitrary: dd w)
  case Nil
  then show ?case by (simp add: grows_refl)
next
  case (Cons to tos)
  obtain dd1 w1 e1 where a: "add_one env d r to dd w = (dd1, w1, e1)" by (metis prod.collapse)
  note 1 = add_one_inv [OF a]
  show ?case
  proof (cases e1)
    case (Some err)
    with Cons.prems a 1 show ?thesis by auto
  next
    case None
    with Cons.prems a have "add_all env d r tos dd1 w1 = (dd', w', e)" by simp
    note 2 = Cons.IH [OF this]
    from 1 2 None show ?thesis by (auto simp: grows_def)
  qed
qed

lemma routed_nonempty:
  assumes "gs_RewriteRcpt (mp_mods env) ss to w = (w3, Inr res)"
    and "rewrite_each (\<lambda>w p. gs_RewriteRcpt (mp_mods env) ms p w) res w3 = (w4, Inr new)" and "no_sink env d"
  shows "new \<noteq> []"
proof -
  have "res \<noteq> []" by (rule rewrite_nonempty [OF assms(1,3)])
  moreover have "(\<forall>r \<in> set new. True) \<and> (res \<noteq> [] \<longrightarrow> new \<noteq> [])"
    by (rule rewrite_each_all [OF assms(2)]) (use rewrite_nonempty [OF _ assms(3)] in auto)
  ultimately show ?thesis by simp
qed

lemma AddRcpt_inv:
  assumes "pipeline_AddRcpt env d to dd w = (dd', w', e)"
  shows "grows d dd dd' \<and> (pd_inv d dd \<longrightarrow> e = None \<longrightarrow> no_sink env d \<longrightarrow> to \<in> taken dd')"
proof -
  obtain dd1 w1 e1 where 1: "with_runner (\<lambda>e. checkRcpt e (pl_globalChecks d) to) env dd w = (dd1, w1, e1)"
    by (metis prod.collapse)
  obtain dd2 w2 e2 where 2: "with_runner (\<lambda>e. checkRcpt e (sb_checks (pd_sourceBlock dd1)) to) env dd1 w1 = (dd2, w2, e2)"
    by (metis prod.collapse)
  have g1: "grows d dd dd1" using rcpt_same [OF 1] same_grows by blast
  have g2: "grows d dd dd2" using rcpt_same [OF 2] same_grows grows_trans [OF g1] by blast
  obtain w3 x where 3: "gs_RewriteRcpt (mp_mods env) (mods_of (pd_globalMods dd2)) to w2 = (w3, x)" by fastforce
  let ?f = "\<lambda>w p. gs_RewriteRcpt (mp_mods env) (mods_of (pd_sourceMods dd2)) p w"
  show ?thesis
  proof (cases "\<exists>res w4 new. e1 = None \<and> e2 = None \<and> x = Inr res \<and> rewrite_each ?f res w3 = (w4, Inr new)")
    case False
    then have "e \<noteq> None \<and> (dd' = dd1 \<or> dd' = dd2)"
      using assms 1 2 3
      by (cases e1; cases e2; cases x) (auto simp: pipeline_AddRcpt_def split: prod.splits sum.splits)
    with g1 g2 show ?thesis by auto
  next
    case True
    then obtain res w4 new where t: "e1 = None" "e2 = None" "x = Inr res" "rewrite_each ?f res w3 = (w4, Inr new)" by blast
    have a: "add_all env d to new dd2 w4 = (dd', w', e)" using assms 1 2 3 t by (simp add: pipeline_AddRcpt_def)
    have "new \<noteq> []" if "no_sink env d" by (rule routed_nonempty [OF 3 [unfolded t(3)] t(4) that])
    with add_all_inv [OF a] g2 show ?thesis by (auto simp: grows_def)
  qed
qed

section \<open>What an accepted recipient adds\<close>

text \<open>The recipients a target's delivery was accepted for, the calls of a log that gave it one,
  and the calls that reported no error.\<close>

definition rcpts_of :: "pdelivery \<Rightarrow> nat \<Rightarrow> string set" where
  "rcpts_of dd t = (case map_of (pd_deliveries dd) t of None \<Rightarrow> {} | Some rs \<Rightarrow> set rs)"

definition handed :: "(nat \<times> dcall) list \<Rightarrow> nat \<Rightarrow> bool" where
  "handed l t \<longleftrightarrow> (\<exists>x. (t, CRcpt x None) \<in> set l)"

definition took :: "dcall \<Rightarrow> bool" where
  "took c = (c = CStart None \<or> (\<exists>x. c = CRcpt x None))"

definition hands :: "string \<Rightarrow> pdelivery \<Rightarrow> (nat \<times> dcall) list \<Rightarrow> pdelivery \<Rightarrow> bool" where
  "hands r dd l dd' \<longleftrightarrow> pd_log dd' = pd_log dd @ l \<and> (\<forall>x \<in> set l. took (snd x))
    \<and> (\<forall>t. rcpts_of dd' t = rcpts_of dd t \<union> (if handed l t then {r} else {}))"

lemma handed_append: "handed (l @ m) t \<longleftrightarrow> handed l t \<or> handed m t"
  by (auto simp: handed_def)

lemma handed_Nil: "\<not> handed [] t"
  by (simp add: handed_def)

lemma hands_trans: "hands r a l b \<Longrightarrow> hands r b m c \<Longrightarrow> hands r a (l @ m) c"
  by (auto simp: hands_def handed_append)

lemma hands_same: "pd_deliveries dd' = pd_deliveries dd \<Longrightarrow> pd_log dd' = pd_log dd \<Longrightarrow> hands r dd [] dd'"
  by (simp add: hands_def handed_Nil rcpts_of_def)

lemma same_hands: "same_deliveries dd dd' \<Longrightarrow> hands r dd [] dd'"
  by (simp add: same_deliveries_def hands_same)

lemma getDelivery_hands:
  assumes "getDelivery env t dd w = (dd', w', None)"
  shows "\<exists>l. hands r dd l dd' \<and> (\<forall>t. \<not> handed l t)"
proof (cases "map_of (pd_deliveries dd) t")
  case None
  with assms have "dd' = (log_call t (CStart None) dd)\<lparr>pd_deliveries := AList.update t [] (pd_deliveries dd)\<rparr>"
    by (auto simp: getDelivery_def split: prod.splits option.splits)
  with None show ?thesis
    by (intro exI [of _ "[(t, CStart None)]"]) (auto simp: hands_def handed_def took_def rcpts_of_def update_conv' split: option.splits)
qed (use assms in \<open>auto simp: getDelivery_def handed_Nil intro: hands_same\<close>)

lemma add_recipient_hands: "hands r dd [(t, CRcpt to None)] (add_recipient t r (log_call t (CRcpt to None) dd))"
  by (auto simp: hands_def handed_def took_def rcpts_of_def add_recipient_def update_conv' split: option.splits)

lemma add_targets_hands:
  "add_targets env r to ts dd w = (dd', w', None) \<Longrightarrow> \<exists>l. hands r dd l dd' \<and> (\<forall>t \<in> set ts. handed l t)"
proof (induction ts arbitrary: dd w)
  case Nil
  then show ?case by (auto intro: hands_same)
next
  case (Cons t ts)
  obtain dd1 w1 e1 where g: "getDelivery env t dd w = (dd1, w1, e1)" by (metis prod.collapse)
  obtain w2 e2 where a: "t_AddRcpt (mp_target env t) w1 to = (w2, e2)" by fastforce
  let ?dd = "add_recipient t r (log_call t (CRcpt to None) dd1)"
  from Cons.prems g a have e: "e1 = None" and rest: "add_targets env r to ts ?dd w2 = (dd', w', None)"
    by (cases e1; cases e2; simp add: Let_def)+
  obtain l1 where 1: "hands r dd l1 dd1" using getDelivery_hands [OF g [unfolded e]] by blast
  obtain l2 where 2: "hands r ?dd l2 dd'" "\<forall>t \<in> set ts. handed l2 t" using Cons.IH [OF rest] by blast
  from hands_trans [OF hands_trans [OF 1 add_recipient_hands] 2(1)] 2(2) show ?case
    by (intro exI [of _ "(l1 @ [(t, CRcpt to None)]) @ l2"]) (auto simp: handed_append handed_def)
qed

lemma add_finals_hands:
  "add_finals env ts r tos dd w = (dd', w', None) \<Longrightarrow> \<exists>l. hands r dd l dd' \<and> (tos \<noteq> [] \<longrightarrow> (\<forall>t \<in> set ts. handed l t))"
proof (induction tos arbitrary: dd w)
  case Nil
  then show ?case by (auto intro: hands_same)
next
  case (Cons to tos)
  obtain dd1 w1 e1 where g: "add_targets env r to ts (note_original r to dd) w = (dd1, w1, e1)" by (metis prod.collapse)
  from Cons.prems g have e: "e1 = None" and rest: "add_finals env ts r tos dd1 w1 = (dd', w', None)"
    by (cases e1; simp)+
  have 0: "hands r dd [] (note_original r to dd)" by (rule hands_same) (simp_all add: note_original_def)
  obtain l1 where 1: "hands r (note_original r to dd) l1 dd1" "\<forall>t \<in> set ts. handed l1 t"
    using add_targets_hands [OF g [unfolded e]] by blast
  obtain l2 where 2: "hands r dd1 l2 dd'" using Cons.IH [OF rest] by blast
  from hands_trans [OF hands_trans [OF 0 1(1)] 2] 1(2) show ?case
    by (intro exI [of _ "([] @ l1) @ l2"]) (auto simp: handed_append)
qed

lemma add_one_hands:
  assumes "add_one env d r to dd w = (dd', w', None)"
  shows "\<exists>l. hands r dd l dd' \<and> (no_sink env d \<longrightarrow> (\<exists>t. handed l t))"
proof -
  from assms obtain w1 blk where b: "rcptBlockForAddr env (pd_sourceBlock dd) to w = (w1, Inr blk)"
    and rj: "rb_rejectErr (pl_block d blk) = None"
    by (auto simp: add_one_def split: prod.splits sum.splits option.splits)
  with assms obtain dd1 w2 where c: "with_runner (\<lambda>e. checkRcpt e (rb_checks (pl_block d blk)) to) env dd w1 = (dd1, w2, None)"
    by (auto simp: add_one_def split: prod.splits option.splits)
  with assms b rj obtain dd2 w3 ss where g: "getRcptModifiers env d blk dd1 w2 = (dd2, w3, Inr ss)"
    by (auto simp: add_one_def split: prod.splits sum.splits)
  with assms b rj c obtain w4 new where x: "gs_RewriteRcpt (mp_mods env) ss to w3 = (w4, Inr new)"
    and f: "add_finals env (rb_targets (pl_block d blk)) r new dd2 w4 = (dd', w', None)"
    by (auto simp: add_one_def split: prod.splits sum.splits)
  have 1: "hands r dd [] dd1" using rcpt_same [OF c] same_hands by blast
  have 2: "hands r dd1 [] dd2" using getRcptModifiers_same [OF g] same_hands by blast
  obtain l where 3: "hands r dd2 l dd'" "new \<noteq> [] \<longrightarrow> (\<forall>t \<in> set (rb_targets (pl_block d blk)). handed l t)"
    using add_finals_hands [OF f] by blast
  have "\<exists>t. handed l t" if "no_sink env d"
  proof -
    have "new \<noteq> []" by (rule rewrite_nonempty [OF x that])
    moreover from that rj have "rb_targets (pl_block d blk) \<noteq> []" by (simp add: no_sink_def)
    ultimately show ?thesis using 3(2) by (cases "rb_targets (pl_block d blk)") auto
  qed
  with hands_trans [OF hands_trans [OF 1 2] 3(1)] show ?thesis by auto
qed

lemma add_all_hands:
  "add_all env d r tos dd w = (dd', w', None) \<Longrightarrow>
    \<exists>l. hands r dd l dd' \<and> (no_sink env d \<longrightarrow> tos \<noteq> [] \<longrightarrow> (\<exists>t. handed l t))"
proof (induction tos arbitrary: dd w)
  case Nil
  then show ?case by (auto intro: hands_same)
next
  case (Cons to tos)
  obtain dd1 w1 e1 where a: "add_one env d r to dd w = (dd1, w1, e1)" by (metis prod.collapse)
  from Cons.prems a have e: "e1 = None" and rest: "add_all env d r tos dd1 w1 = (dd', w', None)" by (cases e1; simp)+
  obtain l1 where 1: "hands r dd l1 dd1" "no_sink env d \<longrightarrow> (\<exists>t. handed l1 t)" using add_one_hands [OF a [unfolded e]] by blast
  obtain l2 where 2: "hands r dd1 l2 dd'" using Cons.IH [OF rest] by blast
  from hands_trans [OF 1(1) 2] 1(2) show ?case by (intro exI [of _ "l1 @ l2"]) (auto simp: handed_append)
qed

lemma AddRcpt_hands:
  assumes "pipeline_AddRcpt env d to dd w = (dd', w', None)"
  shows "\<exists>l. hands to dd l dd' \<and> (no_sink env d \<longrightarrow> (\<exists>t. handed l t))"
proof -
  from assms obtain dd1 w1 where 1: "with_runner (\<lambda>e. checkRcpt e (pl_globalChecks d) to) env dd w = (dd1, w1, None)"
    by (auto simp: pipeline_AddRcpt_def split: prod.splits option.splits)
  with assms obtain dd2 w2 where
    2: "with_runner (\<lambda>e. checkRcpt e (sb_checks (pd_sourceBlock dd1)) to) env dd1 w1 = (dd2, w2, None)"
    by (auto simp: pipeline_AddRcpt_def split: prod.splits option.splits)
  with assms 1 obtain w3 res where 3: "gs_RewriteRcpt (mp_mods env) (mods_of (pd_globalMods dd2)) to w2 = (w3, Inr res)"
    by (auto simp: pipeline_AddRcpt_def split: prod.splits sum.splits)
  let ?f = "\<lambda>w p. gs_RewriteRcpt (mp_mods env) (mods_of (pd_sourceMods dd2)) p w"
  from assms 1 2 3 obtain w4 new where 4: "rewrite_each ?f res w3 = (w4, Inr new)"
    and a: "add_all env d to new dd2 w4 = (dd', w', None)"
    by (auto simp: pipeline_AddRcpt_def split: prod.splits sum.splits)
  have s1: "hands to dd [] dd1" using rcpt_same [OF 1] same_hands by blast
  have s2: "hands to dd1 [] dd2" using rcpt_same [OF 2] same_hands by blast
  obtain l where l: "hands to dd2 l dd'" "no_sink env d \<longrightarrow> new \<noteq> [] \<longrightarrow> (\<exists>t. handed l t)"
    using add_all_hands [OF a] by blast
  have "new \<noteq> []" if "no_sink env d" by (rule routed_nonempty [OF 3 4 that])
  with l hands_trans [OF hands_trans [OF s1 s2] l(1)] show ?thesis by auto
qed

section \<open>Sending bodies\<close>

lemma log_grows: "\<not> ending c \<Longrightarrow> c \<noteq> CStart None \<Longrightarrow> grows d dd (log_call t c dd)"
  using log_call_inv by (auto simp: grows_def)

lemma send_bodies_inv:
  "send_bodies env h b ds dd w = (dd', w', e) \<Longrightarrow> grows d dd dd' \<and> (e = None \<longrightarrow> (\<forall>t \<in> fst ` set ds. (t, CBody None) \<in> set (pd_log dd')))
    \<and> set (pd_log dd) \<subseteq> set (pd_log dd')"
proof (induction env h b ds dd w rule: send_bodies.induct)
  case (1 env h body dd w)
  then show ?case by (simp add: grows_refl)
next
  case (2 env h body t x ds dd w)
  obtain w1 e1 where b: "t_Body (mp_target env t) w h body = (w1, e1)" by fastforce
  show ?case
  proof (cases e1)
    case (Some err)
    with 2 b log_grows [of "CBody (Some err)" d dd t] show ?thesis by (auto simp: ending_def)
  next
    case None
    with 2 b have "send_bodies env h body ds (log_call t (CBody None) dd) w1 = (dd', w', e)" by simp
    note IH = "2.IH" [OF b [unfolded None, symmetric] refl this]
    have "grows d dd dd'" using log_grows [of "CBody None" d dd t] IH grows_trans by (auto simp: ending_def)
    with IH show ?thesis by auto
  qed
qed

lemma send_partial_inv:
  "send_partial env h b ds dd w = (dd', w', sts) \<Longrightarrow> grows d dd dd'"
proof (induction ds arbitrary: dd w w' dd' sts)
  case Nil
  then show ?case by (simp add: grows_refl)
next
  case (Cons x ds)
  obtain t rs where x: "x = (t, rs)" by fastforce
  show ?case
  proof (cases "t_BodyNonAtomic (mp_target env t)")
    case (Some g)
    obtain w1 s1 where 1: "g w h b = (w1, s1)" by fastforce
    obtain dd2 w2 s2 where 2: "send_partial env h b ds (log_call t (CBodyNonAtomic s1) dd) w1 = (dd2, w2, s2)"
      by (metis prod.collapse)
    have "dd' = dd2" using Cons.prems x Some 1 2 by simp
    with Cons.IH [OF 2] log_grows [of "CBodyNonAtomic s1" d dd t] show ?thesis by (auto simp: ending_def intro: grows_trans)
  next
    case None
    obtain w1 e1 where 1: "t_Body (mp_target env t) w h b = (w1, e1)" by fastforce
    obtain dd2 w2 s2 where 2: "send_partial env h b ds (log_call t (CBody e1) dd) w1 = (dd2, w2, s2)"
      by (metis prod.collapse)
    have "dd' = dd2" using Cons.prems x None 1 2 by simp
    with Cons.IH [OF 2] log_grows [of "CBody e1" d dd t] show ?thesis by (auto simp: ending_def intro: grows_trans)
  qed
qed

text \<open>Steps that leave the deliveries alone.\<close>

definition stays :: "pdelivery \<Rightarrow> pdelivery \<Rightarrow> bool" where
  "stays dd dd' \<longleftrightarrow> same_deliveries dd dd' \<and> pd_sourceBlock dd' = pd_sourceBlock dd \<and> pd_rcptMods dd' = pd_rcptMods dd"

lemma stays_trans: "stays a b \<Longrightarrow> stays b c \<Longrightarrow> stays a c"
  by (auto simp: stays_def intro: same_trans)

lemma stays_grows: "stays dd dd' \<Longrightarrow> grows d dd dd'"
  by (simp add: stays_def same_grows)

lemma stays_states: "stays dd dd' \<Longrightarrow> states_ok (rn_states (pd_runner dd)) \<Longrightarrow> states_ok (rn_states (pd_runner dd'))"
  by (simp add: stays_def same_deliveries_def)

definition passes :: "'w mpenv \<Rightarrow> header \<Rightarrow> string \<Rightarrow> nat list \<Rightarrow> bool" where
  "passes env h b cs \<longleftrightarrow> (\<forall>c \<in> set cs. \<not> rejects (mp_run env) h b c)"

text \<open>What the properties on accepted bodies assume of the checks: a reject has a reason, and
  every goroutine of a group runs.\<close>

definition sound_checks :: "'w mpenv \<Rightarrow> header \<Rightarrow> string \<Rightarrow> bool" where
  "sound_checks env h b \<longleftrightarrow> reasons_given (mp_run env) h b \<and> fair_sched (mp_run env)"

definition fair_orders :: "'w mpenv \<Rightarrow> bool" where
  "fair_orders env \<longleftrightarrow> (\<forall>m. mset (mp_ordBlocks env m) = mset m) \<and> (\<forall>m. mset (mp_ordDeliv env m) = mset m)"

lemma fair_sets:
  "fair_orders env \<Longrightarrow> set (mp_ordBlocks env m) = set m" "fair_orders env \<Longrightarrow> set (mp_ordDeliv env ds) = set ds"
  using mset_eq_setD [of "mp_ordBlocks env m" m] mset_eq_setD [of "mp_ordDeliv env ds" ds] by (simp_all add: fair_orders_def)

lemma group_body:
  assumes "with_runner (\<lambda>e. checkBody e cs h b) env dd w = (dd', w', e)"
  shows "stays dd dd' \<and> (e = None \<longrightarrow> states_ok (rn_states (pd_runner dd)) \<longrightarrow> sound_checks env h b \<longrightarrow> passes env h b cs)"
proof -
  obtain rn w1 e1 where c: "checkBody (mp_run env) cs h b (pd_runner dd) w = (rn, w1, e1)" by (metis prod.collapse)
  with assms have "e1 = e" by (simp add: with_runner_def)
  then have "e = None \<Longrightarrow> checkBody (mp_run env) cs h b (pd_runner dd) w = (rn, w1, None)" using c by simp
  from checkBody_accepts [OF this] body_same [OF assms] show ?thesis
    by (auto simp: stays_def passes_def sound_checks_def)
qed

lemma top_checks_inv:
  assumes "top_checks env d h b dd w = (dd', w', e)"
  shows "stays dd dd' \<and> (e = None \<longrightarrow> states_ok (rn_states (pd_runner dd)) \<longrightarrow> sound_checks env h b
    \<longrightarrow> passes env h b (pl_globalChecks d) \<and> passes env h b (sb_checks (pd_sourceBlock dd)))"
proof -
  obtain dd1 w1 e1 where 1: "with_runner (\<lambda>e. checkBody e (pl_globalChecks d) h b) env dd w = (dd1, w1, e1)"
    by (metis prod.collapse)
  note g1 = group_body [OF 1]
  show ?thesis
  proof (cases e1)
    case (Some err)
    with assms 1 g1 show ?thesis by (auto simp: top_checks_def)
  next
    case None
    with assms 1 have "with_runner (\<lambda>e. checkBody e (sb_checks (pd_sourceBlock dd1)) h b) env dd1 w1 = (dd', w', e)"
      by (simp add: top_checks_def)
    note g2 = group_body [OF this]
    have "pd_sourceBlock dd1 = pd_sourceBlock dd" using g1 by (simp add: stays_def)
    with g1 g2 None show ?thesis using stays_trans [of dd dd1 dd'] stays_states [of dd dd1] by simp
  qed
qed

lemma block_checks_inv:
  "block_checks env d h b blks dd w = (dd', w', e) \<Longrightarrow>
    stays dd dd' \<and> (e = None \<longrightarrow> states_ok (rn_states (pd_runner dd)) \<longrightarrow> sound_checks env h b
      \<longrightarrow> (\<forall>blk \<in> set blks. passes env h b (rb_checks (pl_block d blk))))"
proof (induction blks arbitrary: dd w)
  case Nil
  then show ?case by (simp add: stays_def same_refl)
next
  case (Cons blk blks)
  obtain dd1 w1 e1 where 1: "with_runner (\<lambda>e. checkBody e (rb_checks (pl_block d blk)) h b) env dd w = (dd1, w1, e1)"
    by (metis prod.collapse)
  note g1 = group_body [OF 1]
  show ?case
  proof (cases e1)
    case (Some err)
    with Cons.prems 1 g1 show ?thesis by auto
  next
    case None
    with Cons.prems 1 have "block_checks env d h b blks dd1 w1 = (dd', w', e)" by simp
    note g2 = Cons.IH [OF this]
    from g1 g2 None show ?thesis using stays_trans [of dd dd1 dd'] stays_states [of dd dd1] by simp
  qed
qed

lemma applyResults_states:
  "applyResults env hn h rn = Some (rn', x) \<Longrightarrow> rn_states rn' = rn_states rn"
  by (auto simp: applyResults_def Let_def set_quarantine_def split: if_splits option.splits prod.splits policy.splits)

lemma Body_inv:
  assumes "pipeline_Body env d h b dd w = Some (dd', w', e)"
  shows "grows d dd dd' \<and> (e = None \<longrightarrow> fair_orders env \<longrightarrow> (\<forall>t \<in> open_targets dd. (t, CBody None) \<in> set (pd_log dd'))
    \<and> (states_ok (rn_states (pd_runner dd)) \<longrightarrow> sound_checks env h b \<longrightarrow> passes env h b (pl_globalChecks d)
       \<and> passes env h b (sb_checks (pd_sourceBlock dd)) \<and> (\<forall>blk \<in> open_blocks dd. passes env h b (rb_checks (pl_block d blk)))))"
proof -
  obtain dd1 w1 e1 where 1: "top_checks env d h b dd w = (dd1, w1, e1)" by (metis prod.collapse)
  note g1 = top_checks_inv [OF 1]
  show ?thesis
  proof (cases e1)
    case (Some err)
    with assms 1 g1 show ?thesis by (auto simp: pipeline_Body_def intro: stays_grows)
  next
    case N1: None
    obtain dd2 w2 e2 where 2: "block_checks env d h b (map fst (mp_ordBlocks env (pd_rcptMods dd1))) dd1 w1 = (dd2, w2, e2)"
      by (metis prod.collapse)
    note g2 = block_checks_inv [OF 2]
    have s: "stays dd dd2" using g1 g2 stays_trans by blast
    show ?thesis
    proof (cases e2)
      case (Some err)
      with assms 1 N1 2 s show ?thesis by (auto simp: pipeline_Body_def intro: stays_grows)
    next
      case N2: None
      show ?thesis
      proof (cases "add_received env d h dd2")
        case (Inl err)
        with assms 1 N1 2 N2 s show ?thesis by (auto simp: pipeline_Body_def intro: stays_grows)
      next
        case (Inr h1)
        with assms 1 N1 2 N2 obtain rn x where ap: "applyResults (mp_run env) (pl_Hostname d) h1 (pd_runner dd2) = Some (rn, x)"
          by (cases "applyResults (mp_run env) (pl_Hostname d) h1 (pd_runner dd2)") (auto simp: pipeline_Body_def)
        let ?dd = "dd2\<lparr>pd_runner := rn\<rparr>"
        have "stays dd2 ?dd"
          using applyResults_states [OF ap] by (simp add: stays_def same_deliveries_def open_blocks_def)
        then have s: "stays dd ?dd" using s stays_trans by blast
        show ?thesis
        proof (cases "\<exists>h2 w3 h3. x = Inr h2 \<and> rewrite_body env h2 b ?dd w2 = (w3, Inr h3)")
          case False
          then have "dd' = ?dd \<and> e \<noteq> None"
            using assms 1 N1 2 N2 Inr ap
            by (cases x) (auto simp: pipeline_Body_def Let_def split: prod.splits sum.splits)
          with s show ?thesis by (auto intro: stays_grows)
        next
          case True
          then obtain h2 w3 h3 where x: "x = Inr h2" and rw: "rewrite_body env h2 b ?dd w2 = (w3, Inr h3)" by blast
          have sb: "send_bodies env h3 b (mp_ordDeliv env (pd_deliveries ?dd)) ?dd w3 = (dd', w', e)"
            using assms 1 N1 2 N2 Inr ap x rw by (simp add: pipeline_Body_def Let_def)
          have "grows d dd dd'" using grows_trans [OF stays_grows [OF s]] send_bodies_inv [OF sb, of d] by simp
          moreover have "fair_orders env \<Longrightarrow> e = None \<Longrightarrow> \<forall>t \<in> open_targets dd. (t, CBody None) \<in> set (pd_log dd')"
            using send_bodies_inv [OF sb, of d] s by (simp add: fair_sets stays_def same_deliveries_def open_targets_def)
          moreover have "\<forall>blk \<in> open_blocks dd. passes env h b (rb_checks (pl_block d blk))"
            if "fair_orders env" "states_ok (rn_states (pd_runner dd))" "sound_checks env h b"
          proof -
            have "set (map fst (mp_ordBlocks env (pd_rcptMods dd1))) = open_blocks dd"
              using g1 that(1) by (simp add: fair_sets stays_def open_blocks_def)
            moreover have "states_ok (rn_states (pd_runner dd1))" using g1 stays_states that(2) by blast
            ultimately show ?thesis using g2 N2 that(3) by simp
          qed
          ultimately show ?thesis using g1 N1 by simp
        qed
      qed
    qed
  qed
qed

lemma body_deliveries:
  "top_checks env d h b dd w = (dd', w', e) \<Longrightarrow> pd_deliveries dd' = pd_deliveries dd"
  "block_checks env d h b blks dd w = (dd', w', e) \<Longrightarrow> pd_deliveries dd' = pd_deliveries dd"
  using top_checks_inv [of env d h b dd w dd' w' e] block_checks_inv [of env d h b blks dd w dd' w' e]
  by (simp_all add: stays_def same_deliveries_def)

lemma send_bodies_deliveries: "send_bodies env h b ds dd w = (dd', w', e) \<Longrightarrow> pd_deliveries dd' = pd_deliveries dd"
  by (induction env h b ds dd w rule: send_bodies.induct) (auto split: prod.splits option.splits)

lemma Body_deliveries: "pipeline_Body env d h b dd w = Some (dd', w', e) \<Longrightarrow> pd_deliveries dd' = pd_deliveries dd"
  by (auto simp: pipeline_Body_def Let_def split: prod.splits option.splits sum.splits
      dest!: body_deliveries send_bodies_deliveries)

lemma BodyNonAtomic_inv:
  assumes "pipeline_BodyNonAtomic env d h b dd w = (dd', w', sts)"
  shows "grows d dd dd'"
proof -
  obtain dd1 w1 e1 where 1: "top_checks env d h b dd w = (dd1, w1, e1)" by (metis prod.collapse)
  have g: "grows d dd dd1" by (rule stays_grows [OF conjunct1 [OF top_checks_inv [OF 1]]])
  obtain w2 x where 2: "rewrite_body env h b dd1 w1 = (w2, x)" by fastforce
  show ?thesis
  proof (cases "e1 = None \<and> (\<exists>h'. x = Inr h')")
    case False
    with assms 1 2 g show ?thesis by (cases e1; cases x) (auto simp: pipeline_BodyNonAtomic_def)
  next
    case True
    then obtain h' where x: "x = Inr h'" by blast
    with True assms 1 2 have "send_partial env h' b (mp_ordDeliv env (pd_deliveries dd1)) dd1 w2 = (dd', w', sts)"
      by (simp add: pipeline_BodyNonAtomic_def)
    from send_partial_inv [OF this] show ?thesis by (rule grows_trans [OF g])
  qed
qed

lemma start_source_same:
  assumes "start_source env sb from dd w = (dd', w', e)"
  shows "same_deliveries dd dd'"
proof (cases "sb_rejectErr sb")
  case (Some err)
  with assms show ?thesis by (simp add: start_source_def same_refl)
next
  case None
  let ?dd = "dd\<lparr>pd_sourceBlock := sb\<rparr>"
  obtain dd1 w1 e1 where 1: "with_runner (\<lambda>e. checkConnSender e (sb_checks sb) from) env ?dd w = (dd1, w1, e1)"
    by (metis prod.collapse)
  have "same_deliveries dd ?dd" by (simp add: same_deliveries_def open_blocks_def)
  then have s1: "same_deliveries dd dd1" using sender_same [OF 1] same_trans by blast
  obtain n w2 m where 2: "ModStateForMsg (mp_mods env) (sb_modifiers sb) (rn_msgMeta (pd_runner dd1)) (pd_serial dd1) w1
    = (n, w2, m)" by (metis prod.collapse)
  have f: "same_deliveries dd1 (dd1\<lparr>pd_serial := n, pd_sourceMods := a, pd_sourceAddr := b\<rparr>)"
    "same_deliveries dd1 (dd1\<lparr>pd_serial := n\<rparr>)" for a b by (simp_all add: same_deliveries_def open_blocks_def)
  have "same_deliveries dd1 dd'"
  proof (cases "\<exists>ss. e1 = None \<and> m = Inr ss")
    case False
    with assms None 1 2 f(2) show ?thesis
      by (cases e1; cases m) (auto simp: start_source_def same_refl)
  next
    case True
    then obtain ss where m: "e1 = None" "m = Inr ss" by blast
    obtain w3 y where y: "gs_RewriteSender (mp_mods env) ss from w2 = (w3, y)" by fastforce
    show ?thesis
    proof (cases y)
      case (Inl err)
      with assms None 1 2 m y have "dd' = dd1\<lparr>pd_serial := n\<rparr>" by (simp add: start_source_def)
      with f(2) show ?thesis by simp
    next
      case (Inr from')
      with assms None 1 2 m y have "dd' = dd1\<lparr>pd_serial := n, pd_sourceMods := Some ss, pd_sourceAddr := from'\<rparr>"
        by (simp add: start_source_def)
      with f(1) show ?thesis by simp
    qed
  qed
  then show ?thesis by (rule same_trans [OF s1])
qed

lemma initGlobal_same:
  assumes "initRunGlobalModifiers env d from dd w = (dd', w', e)"
  shows "same_deliveries dd dd'"
proof -
  obtain n w2 m where 2: "ModStateForMsg (mp_mods env) (pl_globalModifiers d) (rn_msgMeta (pd_runner dd)) (pd_serial dd) w
    = (n, w2, m)" by (metis prod.collapse)
  have f: "same_deliveries dd (dd\<lparr>pd_serial := n, pd_globalMods := a\<rparr>)"
    "same_deliveries dd (dd\<lparr>pd_serial := n\<rparr>)" for a by (simp_all add: same_deliveries_def open_blocks_def)
  have "dd' = dd\<lparr>pd_serial := n\<rparr> \<or> (\<exists>a. dd' = dd\<lparr>pd_serial := n, pd_globalMods := a\<rparr>)"
    using assms 2 by (cases m) (auto simp: initRunGlobalModifiers_def Let_def split: prod.splits sum.splits)
  then show ?thesis using f by blast
qed

lemma pd_start_same:
  assumes "pd_start env d from dd w = (dd', w', e)"
  shows "same_deliveries dd dd'"
proof -
  obtain dd1 w1 e1 where 1: "with_runner (\<lambda>e. checkConnSender e (pl_globalChecks d) from) env dd w = (dd1, w1, e1)"
    by (metis prod.collapse)
  have s1: "same_deliveries dd dd1" using sender_same [OF 1] by simp
  obtain dd2 w2 x where 2: "initRunGlobalModifiers env d from dd1 w1 = (dd2, w2, x)" by (metis prod.collapse)
  have s2: "same_deliveries dd dd2" by (rule same_trans [OF s1 initGlobal_same [OF 2]])
  show ?thesis
  proof (cases "e1 = None \<and> (\<exists>f. x = Inr f)")
    case False
    with assms 1 2 s1 s2 show ?thesis by (cases e1; cases x) (auto simp: pd_start_def)
  next
    case True
    then obtain f where x: "e1 = None" "x = Inr f" by blast
    obtain w3 y where 3: "srcBlockForAddr env d f w2 = (w3, y)" by fastforce
    show ?thesis
    proof (cases y)
      case (Inl err)
      with assms 1 2 x 3 s2 show ?thesis by (simp add: pd_start_def)
    next
      case (Inr sb)
      with assms 1 2 x 3 have "start_source env sb f dd2 w3 = (dd', w', e)" by (simp add: pd_start_def)
      from same_trans [OF s2 start_source_same [OF this]] show ?thesis .
    qed
  qed
qed

lemma Start_inv:
  assumes "pipeline_Start env d meta from w = (w', Inr dd)"
  shows "pd_inv d dd"
proof -
  let ?dd0 = "\<lparr>pd_globalMods = None, pd_sourceMods = None, pd_rcptMods = [], pd_sourceAddr = [],
      pd_sourceBlock = pl_defaultSource d, pd_deliveries = [],
      pd_runner = (newCheckRunner meta)\<lparr>rn_doDMARC := pl_doDMARC d\<rparr>, pd_serial = 0, pd_log = []\<rparr>"
  have 0: "pd_inv d ?dd0"
    by (simp add: pd_inv_def newCheckRunner_def states_ok_def open_targets_def starts_def)
  obtain dd1 w1 e1 where s: "pd_start env d from ?dd0 w = (dd1, w1, e1)" by (metis prod.collapse)
  with assms have dd: "dd = dd1" "e1 = None" by (cases e1; simp add: pipeline_Start_def)+
  have "same_deliveries ?dd0 dd1" by (rule pd_start_same [OF s])
  from same_inv [OF this 0] dd show ?thesis by simp
qed

lemma reach_inv: "pd_reach env d dd \<Longrightarrow> pd_inv d dd"
proof (induction rule: pd_reach.induct)
  case (start meta "from" w w' dd)
  then show ?case by (rule Start_inv)
next
  case (rcpt dd to w dd' w' e)
  then show ?case using AddRcpt_inv [OF rcpt.hyps(2)] by (simp add: grows_def)
next
  case (body dd h b w dd' w' e)
  then show ?case using Body_inv [OF body.hyps(2)] by (simp add: grows_def)
next
  case (partial dd h b w dd' w' sts)
  then show ?case using BodyNonAtomic_inv [OF partial.hyps(2)] by (simp add: grows_def)
qed

end
