(* ===== verification/PipelineProps.thy ===== *)
theory PipelineProps
  imports PipelineInv
begin

text \<open>
  Properties of the message pipeline: an accepted body has passed every check,
  every started delivery is ended exactly once, and accepted recipients are handed
  to a target.
\<close>

section \<open>Ending a delivery\<close>

definition ends :: "pdelivery \<Rightarrow> nat \<Rightarrow> nat" where
  "ends dd t = length (filter (\<lambda>x. fst x = t \<and> ending (snd x)) (pd_log dd))"

text \<open>The log grows by calls that end deliveries, one for each of the list.\<close>

definition ended :: "(nat \<times> string list) list \<Rightarrow> pdelivery \<Rightarrow> pdelivery \<Rightarrow> bool" where
  "ended ds dd dd' \<longleftrightarrow> (\<exists>l. pd_log dd' = pd_log dd @ l \<and> map fst l = map fst ds \<and> list_all (ending \<circ> snd) l)"

lemma ended_step:
  "ended ds (log_call t c dd) dd' \<Longrightarrow> ending c \<Longrightarrow> ended ((t, rs) # ds) dd dd'"
  by (auto simp: ended_def intro: exI [of _ "(t, c) # _"])

lemma abort_all_ended: "abort_all env ds le dd w = (dd', w', e) \<Longrightarrow> ended ds dd dd'"
proof (induction ds arbitrary: le dd w)
  case Nil
  then show ?case by (simp add: ended_def)
next
  case (Cons x ds)
  obtain t rs where x: "x = (t, rs)" by (cases x)
  obtain w1 r where a: "t_Abort (mp_target env t) w = (w1, r)" by fastforce
  have "ended ds (log_call t (CAbort r) dd) dd'" using Cons.prems x a Cons.IH by simp
  from ended_step [OF this] x show ?case by (simp add: ending_def)
qed

lemma commit_all_ended: "commit_all env ds dd w = (dd', w', None) \<Longrightarrow> ended ds dd dd'"
proof (induction ds arbitrary: dd w)
  case Nil
  then show ?case by (simp add: ended_def)
next
  case (Cons x ds)
  obtain t rs where x: "x = (t, rs)" by (cases x)
  obtain w1 r where a: "t_Commit (mp_target env t) w = (w1, r)" by fastforce
  with Cons.prems x have "r = None" by (cases r) auto
  then have "ended ds (log_call t (CCommit None) dd) dd'" using Cons.prems x a Cons.IH by simp
  from ended_step [OF this] x show ?case by (simp add: ending_def)
qed

lemma commit_all_log:
  "commit_all env ds dd w = (dd', w', None)
    \<Longrightarrow> set (pd_log dd') = set (pd_log dd) \<union> (\<lambda>t. (t, CCommit None)) ` fst ` set ds"
  by (induction env ds dd w rule: commit_all.induct) (auto split: prod.splits option.splits)

lemma ended_counts:
  assumes "ended ds dd dd'"
  shows "ends dd' t = ends dd t + count (mset (map fst ds)) t" "starts dd' t = starts dd t"
proof -
  from assms obtain l where l: "pd_log dd' = pd_log dd @ l" "map fst l = map fst ds" "list_all (ending \<circ> snd) l"
    by (auto simp: ended_def)
  from l(3) have "length (filter (\<lambda>x. fst x = t \<and> ending (snd x)) l) = count (mset (map fst l)) t"
    by (induction l) auto
  with l show "ends dd' t = ends dd t + count (mset (map fst ds)) t" by (simp add: ends_def)
  from l(3) have "count_list l (t, CStart None) = 0" by (induction l) (auto simp: ending_def)
  with l(1) show "starts dd' t = starts dd t" by (simp add: starts_def)
qed

lemma no_ends: "pd_inv d dd \<Longrightarrow> ends dd t = 0"
  by (auto simp: pd_inv_def ends_def filter_empty_conv)

section \<open>Properties\<close>

text \<open>C28: a delivery is ended exactly once. After \<open>Abort\<close>, and after a \<open>Commit\<close>
  that reports no error, every target whose delivery was started (never more than
  once) has received exactly one ending call, and these calls come last.\<close>

theorem delivery_ended_once:
  assumes "pd_reach env d dd" and "fair_orders env"
    and "pipeline_Abort env dd w = (dd', w', e) \<or> pipeline_Commit env dd w = (dd', w', None)"
  shows "starts dd' t \<le> 1 \<and> ends dd' t = starts dd' t \<and> ended (mp_ordDeliv env (pd_deliveries dd)) dd dd'"
proof -
  let ?ds = "mp_ordDeliv env (pd_deliveries dd)"
  have inv: "pd_inv d dd" by (rule reach_inv [OF assms(1)])
  have en: "ended ?ds dd dd'"
    using assms(3) abort_all_ended commit_all_ended by (fastforce simp: pipeline_Abort_def pipeline_Commit_def)
  have m: "mset (map fst ?ds) = mset (map fst (pd_deliveries dd))"
    using assms(2) by (simp add: fair_orders_def)
  have "count (mset (map fst ?ds)) t = (if t \<in> open_targets dd then 1 else 0)"
    using inv unfolding m pd_inv_def open_targets_def distinct_count_atmost_1 by auto
  then show ?thesis
    using ended_counts [OF en, of t] no_ends [OF inv, of t] inv en by (simp add: pd_inv_def)
qed

text \<open>C26: a body is accepted only after all checks passed. When \<open>Body\<close> reports no
  error on a reachable delivery, every started target has taken the body and is a target of a
  recipient block in use. If every reject of a check comes with a reason, no check of the global
  ones, of the source block and of any recipient block in use is one that rejects this header and
  body in every state and world. Map iteration visits each entry once, and every goroutine of a
  group runs.\<close>

theorem accepted_body_passed_checks:
  assumes "pd_reach env d dd" and "fair_orders env"
    and "pipeline_Body env d h b dd w = Some (dd', w', None)"
  shows "(\<forall>t \<in> open_targets dd. (t, CBody None) \<in> set (pd_log dd') \<and> served d dd t)
    \<and> (sound_checks env h b \<longrightarrow> passes env h b (pl_globalChecks d) \<and> passes env h b (sb_checks (pd_sourceBlock dd))
        \<and> (\<forall>blk \<in> open_blocks dd. passes env h b (rb_checks (pl_block d blk))))"
proof -
  have inv: "pd_inv d dd" by (rule reach_inv [OF assms(1)])
  then have st: "states_ok (rn_states (pd_runner dd))" and sv: "\<forall>t \<in> open_targets dd. served d dd t"
    by (auto simp: pd_inv_def)
  show ?thesis using Body_inv [OF assms(3)] assms(2) st sv by simp
qed

text \<open>C27: what an accepted recipient adds. When \<open>AddRcpt\<close> reports no error, it has made
  only calls that reported none, and the recipients of each target's delivery are those of before
  and, exactly for the targets that were given an address for it, the recipient. It was given to
  at least one target when no modifier answers with an empty list and every recipient block that
  does not reject has a target.\<close>

theorem accepted_rcpt_delivered:
  assumes "pipeline_AddRcpt env d to dd w = (dd', w', None)"
  shows "\<exists>l. pd_log dd' = pd_log dd @ l \<and> (\<forall>x \<in> set l. took (snd x))
    \<and> (\<forall>t. rcpts_of dd' t = rcpts_of dd t \<union> (if handed l t then {to} else {}))
    \<and> (no_sink env d \<longrightarrow> (\<exists>t. handed l t))"
  using AddRcpt_hands [OF assms] by (auto simp: hands_def)

section \<open>A concrete pipeline\<close>

definition pipe_target :: "nat target" where
  "pipe_target = \<lparr>t_Start = (\<lambda>w _ _. (w + 1, None)), t_AddRcpt = (\<lambda>w _. (w + 1, None)), t_BodyNonAtomic = None,
     t_Body = (\<lambda>w _ _. (w + 1, None)), t_Abort = (\<lambda>w. (w + 1, None)), t_Commit = (\<lambda>w. (w + 1, None))\<rparr>"

definition pipe_mods :: "nat modifiers" where
  "pipe_mods = \<lparr>md_StateForMsg = (\<lambda>_ _ w. (w, None)), md_Sender = (\<lambda>_ s w. (w, Inr s)),
     md_Rcpt = (\<lambda>_ r w. (w, Inr [r])), md_Body = (\<lambda>_ h _ w. (w, Inr h)), md_Close = (\<lambda>_ w. (w, None))\<rparr>"

definition pipe_env :: "nat mpenv" where
  "pipe_env = \<lparr>mp_run = demo_penv, mp_mods = pipe_mods, mp_target = (\<lambda>_. pipe_target), mp_isPipeline = (\<lambda>_. False),
     mp_Lookup = (\<lambda>_ _ w. (w, Inr False)), mp_lib = ascii_lib, mp_now = [], mp_ordBlocks = rev, mp_ordDeliv = rev\<rparr>"

definition pipe_block :: rcpt_block where
  "pipe_block = \<lparr>rb_checks = [7], rb_modifiers = [3], rb_rejectErr = None, rb_targets = [5, 6]\<rparr>"

definition pipe :: pipeline where
  "pipe = \<lparr>pl_globalChecks = [1], pl_globalModifiers = [2], pl_sourceIn = [], pl_perSource = Map.empty,
     pl_defaultSource = \<lparr>sb_checks = [], sb_modifiers = [], sb_rejectErr = None, sb_rcptIn = [],
       sb_perRcpt = Map.empty, sb_defaultRcpt = 0\<rparr>,
     pl_doDMARC = False, pl_Hostname = ''mx'', pl_FirstPipeline = False, pl_blocks = [pipe_block]\<rparr>"

lemma pipe_sel:
  "mp_run pipe_env = demo_penv" "mp_mods pipe_env = pipe_mods" "mp_target pipe_env t = pipe_target"
  "mp_isPipeline pipe_env t = False" "mp_lib pipe_env = ascii_lib" "mp_ordBlocks pipe_env = rev" "mp_ordDeliv pipe_env = rev"
  by (simp_all add: pipe_env_def)

lemmas pipe_defs = pipe_sel pipe_def pl_block_def pipe_mods_def pipe_target_def pipe_block_def demo_penv_def demo_checks_def
  demo_runner_def newCheckRunner_def

lemmas stage_defs = with_runner_def checkConnSender_def checkRcpt_def checkBody_def checkStates_def replay_sender_def
  runAndMergeResults_def run_connection_def run_sender_def run_rcpt_def run_body_def ModStateForMsg_def gs_RewriteRcpt_def
  empty_result_def merge_result_def Let_def

text \<open>A started delivery, and the same after a recipient was added.\<close>

definition pipe_dd0 :: pdelivery where
  "pipe_dd0 = projr (snd (pipeline_Start pipe_env pipe (rn_msgMeta demo_runner) [] 0))"

definition pipe_dd :: pdelivery where
  "pipe_dd = fst (pipeline_AddRcpt pipe_env pipe ''a@b'' pipe_dd0 0)"

lemma pipe_start: "pipeline_Start pipe_env pipe (rn_msgMeta demo_runner) [] 0 = (0, Inr pipe_dd0)"
  by (simp add: pipe_dd0_def pipeline_Start_def pd_start_def initRunGlobalModifiers_def srcBlockForAddr_def
      src_rules_def start_source_def pipe_defs stage_defs Split_def LastIndexByte_def EqualFold_def)

lemma pipe_reach0: "pd_reach pipe_env pipe pipe_dd0"
  using pipe_start by (rule pd_reach.start)

lemma pipe_route:
  assumes "sb_rcptIn sb = []" "sb_perRcpt sb = Map.empty"
  shows "rcptBlockForAddr pipe_env sb ''a@b'' w = (w, Inr (sb_defaultRcpt sb))"
proof -
  have sp: "Split ''a@b'' = (''a'', ''b'', None)" using Split_at [of "''b''" "''a''"] by simp
  then have "ForLookup ascii_lib ''a@b'' = (''a@b'', None)"
    by (simp add: ForLookup_def dns_ForLookup_def ascii_lib_def ToLower_def lower_ascii_def
        TrimSuffix_def HasSuffix_def char_of_eq_iff)
  with sp assms show ?thesis by (simp add: rcptBlockForAddr_def rcpt_rules_def pipe_env_def)
qed

lemmas pipe_dd0_eval = pipe_dd0_def pipeline_Start_def pd_start_def initRunGlobalModifiers_def srcBlockForAddr_def
  src_rules_def start_source_def Split_def LastIndexByte_def EqualFold_def pipe_defs stage_defs

lemmas pipe_dd_eval = pipe_dd_def pipeline_AddRcpt_def add_one_def pipe_route getRcptModifiers_def getDelivery_def mods_of_def
  note_original_def add_recipient_def log_call_def pipe_dd0_eval

lemma pipe_added: "\<exists>w. pipeline_AddRcpt pipe_env pipe ''a@b'' pipe_dd0 0 = (pipe_dd, w, None)"
  by (simp add: pipe_dd_eval)

lemma pipe_reach: "pd_reach pipe_env pipe pipe_dd"
  using pipe_reach0 pipe_added by (blast intro: pd_reach.rcpt)

lemma pipe_fair: "fair_orders pipe_env"
  by (simp add: fair_orders_def pipe_sel)

lemma pipe_sound: "sound_checks pipe_env [] []"
  by (simp add: sound_checks_def reasons_given_def fair_sched_def pipe_sel demo_penv_def demo_checks_def)

theorem delivery_ended_once_witness:
  "starts (fst (pipeline_Abort pipe_env pipe_dd 0)) 5 = 1 \<and> ends (fst (pipeline_Abort pipe_env pipe_dd 0)) 5 = 1"
proof -
  obtain dd' w' e where a: "pipeline_Abort pipe_env pipe_dd 0 = (dd', w', e)" by (metis prod.collapse)
  have "starts dd' 5 = 1"
    using a by (auto simp: pipeline_Abort_def starts_def pipe_dd_eval)
  with delivery_ended_once [OF pipe_reach pipe_fair disjI1, OF a, of 5] a show ?thesis by simp
qed

theorem accepted_body_passed_checks_witness:
  "(5, CBody None) \<in> set (pd_log (fst (the (pipeline_Body pipe_env pipe [] [] pipe_dd 0))))
    \<and> passes pipe_env [] [] (pl_globalChecks pipe) \<and> passes pipe_env [] [] [7]"
proof -
  have "\<exists>dd' w'. pipeline_Body pipe_env pipe [] [] pipe_dd 0 = Some (dd', w', None)"
    by (simp add: pipeline_Body_def top_checks_def add_received_def applyResults_def rewrite_body_def pipe_dd_eval)
  then obtain dd' w' where b: "pipeline_Body pipe_env pipe [] [] pipe_dd 0 = Some (dd', w', None)" by blast
  have "5 \<in> open_targets pipe_dd" "0 \<in> open_blocks pipe_dd" by (simp_all add: open_targets_def open_blocks_def pipe_dd_eval)
  moreover have "rb_checks (pl_block pipe 0) = [7]" by (simp add: pipe_def pl_block_def pipe_block_def)
  ultimately show ?thesis using accepted_body_passed_checks [OF pipe_reach pipe_fair b] pipe_sound b by auto
qed

theorem accepted_rcpt_delivered_witness:
  "handed (pd_log pipe_dd) 5 \<and> rcpts_of pipe_dd 5 = {''a@b''} \<and> rcpts_of pipe_dd 6 = {''a@b''} \<and> rcpts_of pipe_dd 7 = {}"
proof -
  obtain w where a: "pipeline_AddRcpt pipe_env pipe ''a@b'' pipe_dd0 0 = (pipe_dd, w, None)" using pipe_added by blast
  have 0: "pd_log pipe_dd0 = []" "rcpts_of pipe_dd0 t = {}" for t by (simp_all add: rcpts_of_def pipe_dd0_eval)
  have l: "handed (pd_log pipe_dd) 5" "handed (pd_log pipe_dd) 6" "\<not> handed (pd_log pipe_dd) 7"
    by (simp_all add: handed_def pipe_dd_eval)
  with accepted_rcpt_delivered [OF a] show ?thesis by (auto simp: 0)
qed

section \<open>Observations\<close>

text \<open>\<open>BodyNonAtomic\<close> uses nothing of the configuration but the global checks (and, in
  the delivery, the checks of the source block): the checks of recipient blocks are
  not run, DMARC is not applied and no \<open>Received\<close> field is added.\<close>

lemma nonatomic_ignores_configuration:
  "pl_globalChecks d = pl_globalChecks d' \<Longrightarrow> pipeline_BodyNonAtomic env d = pipeline_BodyNonAtomic env d'"
  by (intro ext) (simp add: pipeline_BodyNonAtomic_def top_checks_def)

text \<open>When the checks reject the body, \<open>BodyNonAtomic\<close> reports the error for every
  recipient it was accepted for.\<close>

lemma nonatomic_rejects_all:
  assumes "top_checks env d h b dd w = (dd1, w1, Some err)" "fair_orders env" "r \<in> taken dd"
    and "pipeline_BodyNonAtomic env d h b dd w = (dd', w', sts)"
  shows "(r, Some err) \<in> set sts"
proof -
  have "pd_deliveries dd1 = pd_deliveries dd"
    using top_checks_inv [OF assms(1)] by (simp add: stays_def same_deliveries_def)
  moreover obtain t rs where "(t, rs) \<in> set (pd_deliveries dd)" "r \<in> set rs"
    using assms(3) by (auto simp: taken_def dest: map_of_SomeD)
  moreover have "sts = setStatusAll (mp_ordDeliv env (pd_deliveries dd1)) err"
    using assms(1,4) by (auto simp: pipeline_BodyNonAtomic_def)
  ultimately show ?thesis using assms(2) by (force simp: setStatusAll_def fair_sets)
qed

end
