(* ===== verification/Auth.thy ===== *)
theory Auth
  imports Address
begin

text \<open>
  Authentication: the SASL wrapper of the endpoints (\<open>internal/auth/sasl.go\<close>,
  \<open>internal/auth/auth.go\<close>, \<open>internal/auth/sasllogin\<close>), the combination of user
  tables and password providers (\<open>internal/auth/plain_separate\<close>) and the
  authorisation of addresses (\<open>internal/authz\<close>). Providers and tables act on a
  world \<open>'w\<close>; a lookup returns a value, whether the key was found, and an error.
\<close>

section \<open>Tables and providers\<close>

type_synonym 'w lookup = "string \<Rightarrow> 'w \<Rightarrow> 'w \<times> string \<times> bool \<times> go_err option"

type_synonym 'w plain_auth = "string \<Rightarrow> string \<Rightarrow> 'w \<Rightarrow> 'w \<times> go_err option"

record 'w sasl_auth =
  sa_EnableLogin :: bool
  sa_AuthMap :: "'w lookup option"
  sa_AuthNormalize :: "(string \<Rightarrow> string \<times> go_err option) option"
  sa_Plain :: "'w plain_auth list"

definition ErrUnsupportedMech :: go_err where
  "ErrUnsupportedMech = ErrNew ''Unsupported SASL mechanism''"

definition ErrInvalidAuthCred :: go_err where
  "ErrInvalidAuthCred = ErrNew ''auth: invalid credentials''"

section \<open>The SASL wrapper\<close>

definition SASLMechanisms :: "'w sasl_auth \<Rightarrow> string list" where
  "SASLMechanisms s = (if sa_Plain s \<noteq> [] then ''PLAIN'' # (if sa_EnableLogin s then [''LOGIN''] else []) else [])"

definition usernameForAuth :: "'w sasl_auth \<Rightarrow> string \<Rightarrow> 'w \<Rightarrow> 'w \<times> (go_err + string)" where
  "usernameForAuth s saslUsername w =
    (case (case sa_AuthNormalize s of None \<Rightarrow> (saslUsername, None) | Some f \<Rightarrow> f saslUsername) of
       (_, Some err) \<Rightarrow> (w, Inl err)
     | (saslUsername, None) \<Rightarrow>
        (case sa_AuthMap s of
           None \<Rightarrow> (w, Inr saslUsername)
         | Some tbl \<Rightarrow>
            (case tbl saslUsername w of
               (w, _, _, Some err) \<Rightarrow> (w, Inl err)
             | (w, mapped, ok, None) \<Rightarrow> if ok then (w, Inr mapped) else (w, Inl ErrInvalidAuthCred))))"

fun try_providers ::
  "'w sasl_auth \<Rightarrow> string \<Rightarrow> string \<Rightarrow> 'w plain_auth list \<Rightarrow> go_err option \<Rightarrow> 'w \<Rightarrow> 'w \<times> go_err option" where
  "try_providers s username password [] lastErr w =
     (w, Some (ErrWrap ''no auth. provider accepted creds, last err: '' (case lastErr of Some e \<Rightarrow> e | None \<Rightarrow> ErrNew [])))"
| "try_providers s username password (p # ps) lastErr w =
     (case usernameForAuth s username w of
        (w, Inl err) \<Rightarrow> (w, Some err)
      | (w, Inr mappedUsername) \<Rightarrow>
         (case p mappedUsername password w of
            (w, None) \<Rightarrow> (w, None)
          | (w, Some err) \<Rightarrow> try_providers s username password ps (Some err) w))"

definition AuthPlain :: "'w sasl_auth \<Rightarrow> string \<Rightarrow> string \<Rightarrow> 'w \<Rightarrow> 'w \<times> go_err option" where
  "AuthPlain s username password w =
    (if sa_Plain s = [] then (w, Some ErrUnsupportedMech)
     else try_providers s username password (sa_Plain s) None w)"

text \<open>The authenticators \<open>CreateSASL\<close> hands to the mechanisms; on success they call
  back with an identity, a user name and a password.\<close>

definition plain_authenticate ::
  "'w sasl_auth \<Rightarrow> string \<Rightarrow> string \<Rightarrow> string \<Rightarrow> 'w \<Rightarrow> 'w \<times> (go_err + string \<times> string \<times> string)" where
  "plain_authenticate s identity username password w =
    (let identity = (if identity = [] then username else identity) in
     if identity \<noteq> username then (w, Inl ErrInvalidAuthCred)
     else (case AuthPlain s username password w of
         (w, Some _) \<Rightarrow> (w, Inl ErrInvalidAuthCred)
       | (w, None) \<Rightarrow> (w, Inr (identity, username, password))))"

definition login_authenticate ::
  "'w sasl_auth \<Rightarrow> string \<Rightarrow> string \<Rightarrow> 'w \<Rightarrow> 'w \<times> (go_err + string \<times> string \<times> string)" where
  "login_authenticate s username password w =
    (case usernameForAuth s username w of
       (w, Inl err) \<Rightarrow> (w, Inl err)
     | (w, Inr username) \<Rightarrow>
        (case AuthPlain s username password w of
           (w, Some _) \<Rightarrow> (w, Inl ErrInvalidAuthCred)
         | (w, None) \<Rightarrow> (w, Inr (username, username, password))))"

datatype sasl_server = PlainServer | LoginServer | FailingSASLServ go_err

definition CreateSASL :: "'w sasl_auth \<Rightarrow> string \<Rightarrow> sasl_server" where
  "CreateSASL s mech =
    (if mech = ''PLAIN'' then PlainServer
     else if mech = ''LOGIN'' then (if sa_EnableLogin s then LoginServer else FailingSASLServ ErrUnsupportedMech)
     else FailingSASLServ ErrUnsupportedMech)"

section \<open>The LOGIN mechanism\<close>

record login_server =
  ls_state :: nat
  ls_username :: string
  ls_password :: string

definition NewLoginServer :: login_server where
  "NewLoginServer = \<lparr>ls_state = 0, ls_username = [], ls_password = []\<rparr>"

text \<open>\<open>Next\<close>: the result is the new state, the challenge, whether the exchange is over
  and the call of the authenticator, if there is one. A missing response is nil;
  \<open>unexpected\<close> is the error of the library for a response after the end.\<close>

definition login_Next ::
  "go_err \<Rightarrow> string option \<Rightarrow> login_server
    \<Rightarrow> login_server \<times> string option \<times> bool \<times> (go_err + (string \<times> string) option)" where
  "login_Next unexpected response a =
    (let resp = (case response of None \<Rightarrow> [] | Some r \<Rightarrow> r) in
     if ls_state a = 0 then
       (if response = None then (a\<lparr>ls_state := 1\<rparr>, Some ''Username:'', False, Inr None)
        else (a\<lparr>ls_state := 2, ls_username := resp\<rparr>, Some ''Password:'', False, Inr None))
     else if ls_state a = 1 then (a\<lparr>ls_state := 2, ls_username := resp\<rparr>, Some ''Password:'', False, Inr None)
     else if ls_state a = 2 then
       (a\<lparr>ls_state := 3, ls_password := resp\<rparr>, None, True, Inr (Some (ls_username a, resp)))
     else (a\<lparr>ls_state := Suc (ls_state a)\<rparr>, None, False, Inl unexpected))"

fun login_run :: "go_err \<Rightarrow> string option list \<Rightarrow> login_server \<Rightarrow> (string \<times> string) list" where
  "login_run unexpected [] a = []"
| "login_run unexpected (r # rs) a =
     (case login_Next unexpected r a of
        (a, _, _, Inr (Some c)) \<Rightarrow> c # login_run unexpected rs a
      | (a, _, _, _) \<Rightarrow> login_run unexpected rs a)"

section \<open>User tables with password providers\<close>

record 'w separate_auth =
  ps_userTbls :: "'w lookup list"
  ps_passwd :: "'w plain_auth list"

fun in_tables :: "string \<Rightarrow> 'w lookup list \<Rightarrow> 'w \<Rightarrow> 'w \<times> (go_err + bool)" where
  "in_tables username [] w = (w, Inr False)"
| "in_tables username (tbl # tbls) w =
     (case tbl username w of
        (w, _, _, Some err) \<Rightarrow> (w, Inl err)
      | (w, _, ok, None) \<Rightarrow> if ok then (w, Inr True) else in_tables username tbls w)"

definition separate_Lookup :: "'w separate_auth \<Rightarrow> 'w lookup" where
  "separate_Lookup a username w =
    (case in_tables username (ps_userTbls a) w of
       (w, Inl err) \<Rightarrow> (w, [], False, Some (ErrWrap ''plain_separate: underlying table error: '' err))
     | (w, Inr found) \<Rightarrow> (w, [], ps_userTbls a = [] \<or> found, None))"

fun try_passwd :: "'w plain_auth list \<Rightarrow> string \<Rightarrow> string \<Rightarrow> go_err option \<Rightarrow> 'w \<Rightarrow> 'w \<times> go_err option" where
  "try_passwd [] username password lastErr w = (w, lastErr)"
| "try_passwd (p # ps) username password lastErr w =
     (case p username password w of
        (w, Some err) \<Rightarrow> try_passwd ps username password (Some err) w
      | (w, None) \<Rightarrow> (w, None))"

definition separate_AuthPlain :: "'w separate_auth \<Rightarrow> 'w plain_auth" where
  "separate_AuthPlain a username password w =
    (case in_tables username (ps_userTbls a) w of
       (w, Inl err) \<Rightarrow> (w, Some err)
     | (w, Inr found) \<Rightarrow>
        if ps_userTbls a = [] \<or> found then try_passwd (ps_passwd a) username password None w
        else (w, Some (ErrNew ''user not found in tables'')))"

section \<open>Account names per domain\<close>

text \<open>\<open>CheckDomainAuth\<close>; \<open>eqf\<close> is the Unicode case folding of
  \<open>strings.EqualFold\<close>, \<open>None\<close> the nil list of domains.\<close>

definition CheckDomainAuth ::
  "(rune \<Rightarrow> rune \<Rightarrow> bool) \<Rightarrow> string \<Rightarrow> bool \<Rightarrow> string list option \<Rightarrow> string \<times> bool" where
  "CheckDomainAuth eqf username perDomain allowedDomains =
    (let parts = split_byte (CHR ''@'') username in
     if perDomain \<and> length parts \<noteq> 2 then ([], False)
     else
      (let domain = (if length parts = 2 then parts ! 1 else []);
           accountName = (if perDomain then username else hd parts)
       in case allowedDomains of
            Some ds \<Rightarrow>
              if domain \<noteq> [] then
                (if list_ex (\<lambda>d. list_all2 eqf (runes domain) (runes d)) ds then (accountName, True) else ([], False))
              else (accountName, True)
          | None \<Rightarrow> (accountName, domain = [])))"

section \<open>Authorisation of addresses\<close>

definition NormalizeNoop :: "string \<Rightarrow> string \<times> go_err option" where
  "NormalizeNoop s = (s, None)"

definition NormalizeAuto :: "text_lib \<Rightarrow> string \<Rightarrow> string \<times> go_err option" where
  "NormalizeAuto lib s = (if Valid lib s then PRECISFold lib s else precis_CaseMapped lib s)"

definition NormalizeFuncs :: "text_lib \<Rightarrow> string \<rightharpoonup> (string \<Rightarrow> string \<times> go_err option)" where
  "NormalizeFuncs lib = map_of
    [(''auto'', NormalizeAuto lib), (''precis_casefold_email'', PRECISFold lib), (''precis_casefold'', precis_CaseMapped lib),
     (''precis_email'', PRECIS lib), (''precis'', precis_CasePreserved lib),
     (''casefold'', \<lambda>s. (ToLower (uni_lower lib) s, None)), (''noop'', NormalizeNoop)]"

fun authorized :: "string list \<Rightarrow> string list \<Rightarrow> go_err + bool" where
  "authorized validEmails [] = Inr False"
| "authorized validEmails (addr # addrs) =
     (case Split addr of
        (_, _, Some err) \<Rightarrow> Inl (ErrWrap ''authz: '' err)
      | (_, domain, None) \<Rightarrow>
         if list_ex (\<lambda>ent. ent = domain \<or> ent = ''*'' \<or> ent = addr) validEmails then Inr True
         else authorized validEmails addrs)"

text \<open>\<open>AuthorizeEmailUse\<close>; \<open>multi\<close> is the method of a table with several values
  per key, if the table has it.\<close>

definition AuthorizeEmailUse ::
  "string \<Rightarrow> string list \<Rightarrow> 'w lookup \<Rightarrow> (string \<Rightarrow> 'w \<Rightarrow> 'w \<times> (go_err + string list)) option
    \<Rightarrow> 'w \<Rightarrow> 'w \<times> (go_err + bool)" where
  "AuthorizeEmailUse username addrs lookup multi w =
    (case (case multi of
        Some f \<Rightarrow> f username w
      | None \<Rightarrow> (case lookup username w of
          (w, _, _, Some err) \<Rightarrow> (w, Inl err)
        | (w, v, ok, None) \<Rightarrow> (w, Inr (if ok then [v] else [])))) of
       (w, Inl err) \<Rightarrow> (w, Inl (ErrWrap ''authz: '' err))
     | (w, Inr validEmails) \<Rightarrow> (w, authorized validEmails addrs))"

section \<open>Soundness of authentication\<close>

text \<open>A run of the providers ends with an acceptance of one of them, for the name the
  map gives and the password the client sent.\<close>

definition accepted_by :: "'w sasl_auth \<Rightarrow> string \<Rightarrow> string \<Rightarrow> 'w plain_auth list \<Rightarrow> bool" where
  "accepted_by s username password ps \<longleftrightarrow>
    (\<exists>p \<in> set ps. \<exists>w0 w1 w2 name. usernameForAuth s username w0 = (w1, Inr name) \<and> p name password w1 = (w2, None))"

lemma try_providers_sound:
  "try_providers s username password ps lastErr w = (w', None) \<Longrightarrow> accepted_by s username password ps"
proof (induction ps arbitrary: lastErr w)
  case (Cons p ps)
  obtain w1 u where u: "usernameForAuth s username w = (w1, u)" by fastforce
  with Cons.prems obtain name where n: "u = Inr name" by (cases u) auto
  obtain w2 e where p: "p name password w1 = (w2, e)" by fastforce
  show ?case
  proof (cases e)
    case None
    with u n p show ?thesis by (auto simp: accepted_by_def)
  next
    case (Some err)
    with Cons.prems u n p have "try_providers s username password ps (Some err) w2 = (w', None)" by simp
    from Cons.IH [OF this] show ?thesis by (auto simp: accepted_by_def)
  qed
qed simp

lemma AuthPlain_sound: "AuthPlain s username password w = (w', None) \<Longrightarrow> accepted_by s username password (sa_Plain s)"
  by (auto simp: AuthPlain_def split: if_splits dest: try_providers_sound)

lemma try_passwd_sound:
  "try_passwd ps u p le w = (w', None) \<Longrightarrow> ps \<noteq> [] \<or> le \<noteq> None \<Longrightarrow> \<exists>pv \<in> set ps. \<exists>w1 w2. pv u p w1 = (w2, None)"
proof (induction ps arbitrary: le w)
  case (Cons a ps)
  obtain w1 e where e: "a u p w = (w1, e)" by fastforce
  with Cons show ?case by (cases e) fastforce+
qed simp

lemma plain_sound:
  assumes "plain_authenticate s identity username password w = (w', Inr (ident, user, pass))"
  shows "ident = username \<and> user = username \<and> pass = password \<and> identity \<in> {[], username}
    \<and> accepted_by s username password (sa_Plain s)"
  using assms AuthPlain_sound [of s username password w]
  by (auto simp: plain_authenticate_def Let_def split: if_splits prod.splits option.splits)

section \<open>Properties\<close>

text \<open>Nobody is authenticated without a provider that accepted them. When the
  PLAIN mechanism succeeds, the identity it reports is the user name of the client,
  and one of the configured providers has accepted the password of the client for
  the name the normalisation and the map give for it.\<close>

lemma plain_success_sound:
  assumes "plain_authenticate s identity username password w = (w', Inr (ident, user, pass))"
  shows "ident = username \<and> user = username \<and> pass = password \<and> identity \<in> {[], username}
    \<and> accepted_by s username password (sa_Plain s)"
  using assms by (rule plain_sound)

definition demo_sasl :: "unit sasl_auth" where
  "demo_sasl = \<lparr>sa_EnableLogin = True, sa_AuthMap = Some (\<lambda>u w. (w, u @ ''x'', True, None)), sa_AuthNormalize = None,
     sa_Plain = [\<lambda>u p w. (w, if u = ''ax'' then None else Some ErrInvalidAuthCred)]\<rparr>"

lemma plain_success_sound_witness:
  "plain_authenticate demo_sasl [] ''a'' ''pw'' () = ((), Inr (''a'', ''a'', ''pw''))
    \<and> accepted_by demo_sasl ''a'' ''pw'' (sa_Plain demo_sasl)"
proof -
  have p: "plain_authenticate demo_sasl [] ''a'' ''pw'' () = ((), Inr (''a'', ''a'', ''pw''))"
    by (simp add: plain_authenticate_def AuthPlain_def usernameForAuth_def demo_sasl_def Let_def)
  from plain_success_sound [OF p] p show ?thesis by simp
qed

text \<open>A LOGIN exchange calls the authenticator at most once, with the user name and the
  password in the order the client sent them.\<close>

lemma login_run_done: "2 < ls_state a \<Longrightarrow> login_run un rs a = []"
  by (induction rs arbitrary: a) (auto simp: login_Next_def Let_def)

lemma login_once:
  "login_run un (Some u # Some p # rs) NewLoginServer = [(u, p)]"
  "login_run un (None # Some u # Some p # rs) NewLoginServer = [(u, p)]"
  by (simp_all add: NewLoginServer_def login_Next_def Let_def login_run_done)

lemma login_at_most_once: "length (login_run un rs NewLoginServer) \<le> 1"
proof -
  have "length (login_run un rs a) \<le> 1" for a
    by (induction rs arbitrary: a) (auto simp: login_Next_def Let_def login_run_done)
  then show ?thesis .
qed

text \<open>Authorisation: without malformed addresses, some address is listed by itself or by
  its domain, or everything is.\<close>

lemma authorized_iff:
  assumes "\<forall>a \<in> set addrs. snd (snd (Split a)) = None"
  shows "authorized vs addrs = Inr (\<exists>a \<in> set addrs. a \<in> set vs \<or> fst (snd (Split a)) \<in> set vs \<or> ''*'' \<in> set vs)"
  using assms by (induction addrs) (auto split: prod.splits simp: list_ex_iff)

section \<open>Observations\<close>

text \<open>LOGIN maps the user name before \<open>AuthPlain\<close> maps it again: the provider sees the
  image of the image.\<close>

lemma login_maps_twice:
  assumes "sa_AuthNormalize s = None" "sa_AuthMap s = Some (\<lambda>u w. (w, f u, True, None))" "sa_Plain s = [p]"
    and "login_authenticate s u pw w = (w', Inr x)"
  shows "p (f (f u)) pw w = (w', None)"
  using assms by (auto simp: login_authenticate_def AuthPlain_def usernameForAuth_def split: option.splits prod.splits)

text \<open>A \<open>plain_separate\<close> module without a password provider accepts every password.\<close>

lemma no_password_provider_accepts: "ps_passwd a = [] \<Longrightarrow> ps_userTbls a = [] \<Longrightarrow> separate_AuthPlain a u pw w = (w, None)"
  by (simp add: separate_AuthPlain_def)

text \<open>A second at-sign hides the domain from the check of allowed domains.\<close>

lemma double_at_bypasses_domains:
  "CheckDomainAuth (=) ''u@evil@x'' False (Some [''good'']) = (''u'', True)"
  by (simp add: CheckDomainAuth_def Let_def)

end
