(* ===== verification/SmtpSession.thy ===== *)
theory SmtpSession
  imports Limits PipelineProps Auth
begin

text \<open>
  The SMTP, submission and LMTP endpoint (\<open>internal/endpoint/smtp/session.go\<close>,
  \<open>submission.go\<close> and the sessions of \<open>smtp.go\<close>): the commands of a session over
  the message pipeline and the limits. The metadata of the current message is the
  object the pipeline delivery holds. A command has a list of possible outcomes, as
  taking a limit has; no outcome is a command that blocks, the outcome \<open>None\<close> a
  panic. What go-smtp and go-message do is in the fields of the endpoint; the order
  of the commands is the subject of \<open>SmtpInv\<close>.
\<close>

section \<open>Reading a limited stream\<close>

text \<open>\<open>limitedReader\<close> over a stream of bytes that ends with \<open>EOF\<close>; a read of the
  stream returns what is there, at most what was asked for.\<close>

record limited_reader =
  lr_R :: string
  lr_N :: int
  lr_E :: go_err
  lr_Enabled :: bool

definition EOF :: go_err where
  "EOF = ErrNew ''EOF''"

definition stream_Read :: "nat \<Rightarrow> string \<Rightarrow> string \<times> string \<times> go_err option" where
  "stream_Read n r = (take n r, drop n r, if r = [] \<and> 0 < n then Some EOF else None)"

definition limited_Read :: "nat \<Rightarrow> limited_reader \<Rightarrow> limited_reader \<times> string \<times> go_err option" where
  "limited_Read n l =
    (if \<not> lr_Enabled l then
       (case stream_Read n (lr_R l) of (got, rest, err) \<Rightarrow> (l\<lparr>lr_R := rest\<rparr>, got, err))
     else if lr_N l \<le> 0 then (l, [], Some (lr_E l))
     else (case stream_Read (if int n > lr_N l then nat (lr_N l) else n) (lr_R l) of
         (got, rest, err) \<Rightarrow> (l\<lparr>lr_R := rest, lr_N := lr_N l - int (length got)\<rparr>, got, err)))"

section \<open>Endpoint and session\<close>

text \<open>The reply of a failed command: an \<open>smtp.SMTPError\<close>.\<close>

record smtp_reply =
  sr_Code :: int
  sr_EnhancedCode :: enh_code
  sr_Message :: string

text \<open>\<open>ep_ReadHeader\<close> is the header parser of go-message: it gets the bytes it can
  read and the error behind them, and returns the fields and the unread bytes.
  \<open>ep_ParseAddress\<close> and \<open>ep_ParseAddressList\<close> are the parsers of \<open>net/mail\<close> (the
  latter with the number of addresses), \<open>ep_timeParse\<close> tells whether \<open>time.Parse\<close>
  accepts a value for a layout, and \<open>ep_earlyOrder\<close> is the order in which the
  goroutines of the early checks finish.\<close>

record 'w endpoint =
  ep_env :: "'w mpenv"
  ep_pipeline :: pipeline
  ep_early :: "nat \<Rightarrow> (conn_state \<Rightarrow> 'w \<Rightarrow> 'w \<times> go_err option) option"
  ep_sasl :: "'w sasl_auth"
  ep_authAlwaysRequired :: bool
  ep_submission :: bool
  ep_lmtp :: bool
  ep_LookupAddr :: "(string \<Rightarrow> go_err + string) option"
  ep_deferServerReject :: bool
  ep_maxLoggedRcptErrors :: int
  ep_maxReceived :: int
  ep_maxHeaderBytes :: int
  ep_Domain :: string
  ep_ErrAuthRequired :: smtp_reply
  ep_EnhancedCodeNotSet :: enh_code
  ep_ReadHeader :: "string \<Rightarrow> go_err option \<Rightarrow> go_err + header \<times> string"
  ep_buffer :: "string \<Rightarrow> go_err option"
  ep_ParseAddress :: "string \<Rightarrow> go_err option"
  ep_ParseAddressList :: "string \<Rightarrow> go_err + nat"
  ep_timeParse :: "string \<Rightarrow> string \<Rightarrow> bool"
  ep_earlyOrder :: "nat list \<Rightarrow> nat list"

record mail_opts =
  mo_UTF8 :: bool
  mo_RequireTLS :: bool

definition no_opts :: mail_opts where
  "no_opts = \<lparr>mo_UTF8 = False, mo_RequireTLS = False\<rparr>"

record session =
  ss_conn :: conn_state
  ss_repeatedMailErrs :: int
  ss_loggedRcptErrors :: int
  ss_mailFrom :: string
  ss_opts :: mail_opts
  ss_delivery :: "pdelivery option"
  ss_deliveryErr :: "smtp_reply option"

text \<open>What the sessions share: the world of the pipeline, the limits and the number of
  sessions. The ghost field \<open>sv_ended\<close> keeps the final states of deliveries.\<close>

record 'w server =
  sv_world :: 'w
  sv_limits :: group
  sv_sessionCnt :: int
  sv_ended :: "pdelivery list"

text \<open>What a command gets from outside: the random bytes of an ID with the error of
  their source, the clock and the end of the context of the limits, a generated
  Message-ID and the formatted date.\<close>

record inputs =
  in_rawID :: "nat list"
  in_idErr :: "go_err option"
  in_now :: int
  in_ctx :: "go_err option"
  in_msgID :: "go_err + string"
  in_date :: string

definition msgMeta_of :: "pdelivery \<Rightarrow> msg_meta" where
  "msgMeta_of dd = rn_msgMeta (pd_runner dd)"

definition set_meta :: "(msg_meta \<Rightarrow> msg_meta) \<Rightarrow> pdelivery \<Rightarrow> pdelivery" where
  "set_meta f dd = dd\<lparr>pd_runner := (pd_runner dd)\<lparr>rn_msgMeta := f (rn_msgMeta (pd_runner dd))\<rparr>\<rparr>"

section \<open>Replies\<close>

fun errors_Is :: "go_err \<Rightarrow> go_err \<Rightarrow> bool" where
  "errors_Is e target = (e = target \<or> (case unwrap e of None \<Rightarrow> False | Some e' \<Rightarrow> errors_Is e' target))"

declare errors_Is.simps [simp del]

text \<open>\<open>context.DeadlineExceeded\<close>.\<close>

definition DeadlineExceeded :: go_err where
  "DeadlineExceeded = ForeignErr ''context deadline exceeded'' (Some True)"

definition mangle :: "string \<Rightarrow> string" where
  "mangle msg = encode_runes (map (\<lambda>ch. if ch > 128 then byte_of (CHR ''?'') else ch) (runes msg))"

text \<open>The annotations of the chain of errors.\<close>

definition annotate :: "go_err \<Rightarrow> smtp_reply \<Rightarrow> smtp_reply" where
  "annotate err res =
    (let res = (if IsTemporary err then res\<lparr>sr_Code := 451\<rparr> else res);
         ctxInfo = map_of (Fields err);
         res = (case ctxInfo ''smtp_code'' of Some (FInt c) \<Rightarrow> res\<lparr>sr_Code := c\<rparr> | _ \<Rightarrow> res);
         res = (case ctxInfo ''smtp_enchcode'' of Some (FEnch c) \<Rightarrow> res\<lparr>sr_EnhancedCode := c\<rparr> | _ \<Rightarrow> res);
         res = (case ctxInfo ''smtp_msg'' of Some (FStr m) \<Rightarrow> res\<lparr>sr_Message := m\<rparr> | _ \<Rightarrow> res)
     in case err of
          GoSMTPError c ec m _ _ \<Rightarrow> \<lparr>sr_Code = c, sr_EnhancedCode = ec, sr_Message = m\<rparr>
        | _ \<Rightarrow> res)"

definition wrapErr :: "'w endpoint \<Rightarrow> string \<Rightarrow> bool \<Rightarrow> go_err option \<Rightarrow> smtp_reply option" where
  "wrapErr ep msgId mangleUTF8 err =
    (case err of
       None \<Rightarrow> None
     | Some err \<Rightarrow>
        if errors_Is err DeadlineExceeded then
          Some \<lparr>sr_Code = 451, sr_EnhancedCode = (4, 4, 5), sr_Message = ''High load, try again later''\<rparr>
        else
         (let res = annotate err \<lparr>sr_Code = 554, sr_EnhancedCode = ep_EnhancedCodeNotSet ep, sr_Message = ''Internal server error''\<rparr>;
              res = (if msgId \<noteq> [] then res\<lparr>sr_Message := sr_Message res @ '' (msg ID = '' @ msgId @ '')''\<rparr> else res);
              res = (if mangleUTF8 then res\<lparr>sr_Message := mangle (sr_Message res)\<rparr> else res)
          in Some res))"

section \<open>Ending a transaction\<close>

definition local_ip :: string where
  "local_ip = ''127.0.0.1''"

definition remote_ip :: "session \<Rightarrow> string" where
  "remote_ip s = (case cs_RemoteAddr (ss_conn s) of Some ip \<Rightarrow> ip | None \<Rightarrow> local_ip)"

definition releaseLimits :: "session \<Rightarrow> group \<Rightarrow> group option" where
  "releaseLimits s g =
    (if ss_mailFrom s \<noteq> [] then
       (case Split (ss_mailFrom s) of
          (_, _, Some err) \<Rightarrow> Some g
        | (_, domain, None) \<Rightarrow> ReleaseMsg (remote_ip s) domain g)
     else ReleaseMsg (remote_ip s) [] g)"

definition cleanSession :: "session \<Rightarrow> 'w server \<Rightarrow> (session \<times> 'w server) option" where
  "cleanSession s sv =
    (case releaseLimits s (sv_limits sv) of
       None \<Rightarrow> None
     | Some g \<Rightarrow>
        Some (s\<lparr>ss_mailFrom := [], ss_opts := no_opts, ss_delivery := None, ss_deliveryErr := None\<rparr>,
              sv\<lparr>sv_limits := g, sv_ended := sv_ended sv @ (case ss_delivery s of None \<Rightarrow> [] | Some dd \<Rightarrow> [dd])\<rparr>))"

definition abort_session :: "'w endpoint \<Rightarrow> pdelivery \<Rightarrow> session \<Rightarrow> 'w server \<Rightarrow> (session \<times> 'w server) option" where
  "abort_session ep dd s sv =
    (case pipeline_Abort (ep_env ep) dd (sv_world sv) of
       (dd, w, _) \<Rightarrow> cleanSession (s\<lparr>ss_delivery := Some dd\<rparr>) (sv\<lparr>sv_world := w\<rparr>))"

definition sess_Reset :: "'w endpoint \<Rightarrow> session \<Rightarrow> 'w server \<Rightarrow> (session \<times> 'w server) option" where
  "sess_Reset ep s sv = (case ss_delivery s of None \<Rightarrow> Some (s, sv) | Some dd \<Rightarrow> abort_session ep dd s sv)"

definition sess_Logout :: "'w endpoint \<Rightarrow> session \<Rightarrow> 'w server \<Rightarrow> (session \<times> 'w server) option" where
  "sess_Logout ep s sv =
    map_option (\<lambda>(s, sv). (s, sv\<lparr>sv_sessionCnt := sv_sessionCnt sv - 1\<rparr>)) (sess_Reset ep s sv)"

section \<open>Starting a transaction\<close>

text \<open>The outcomes of the stages of a command: session, server and result.\<close>

type_synonym ('w, 'r) outs = "(session \<times> 'w server \<times> 'r) option list"

definition start_pipeline ::
  "'w endpoint \<Rightarrow> string \<Rightarrow> string \<Rightarrow> msg_meta \<Rightarrow> session \<Rightarrow> 'w server \<Rightarrow> ('w, string \<times> go_err option) outs" where
  "start_pipeline ep cleanFrom domain msgMeta s sv =
    (case pipeline_Start (ep_env ep) (ep_pipeline ep) msgMeta cleanFrom (sv_world sv) of
       (w, Inl err) \<Rightarrow>
         (case ReleaseMsg (remote_ip s) domain (sv_limits sv) of
            None \<Rightarrow> [None]
          | Some g \<Rightarrow> [Some (s, sv\<lparr>sv_world := w, sv_limits := g\<rparr>, mm_ID msgMeta, Some err)])
     | (w, Inr dd) \<Rightarrow>
         [Some (s\<lparr>ss_mailFrom := cleanFrom, ss_delivery := Some dd\<rparr>, sv\<lparr>sv_world := w\<rparr>, mm_ID msgMeta, None)])"

definition start_limited ::
  "'w endpoint \<Rightarrow> inputs \<Rightarrow> string \<Rightarrow> string \<Rightarrow> msg_meta \<Rightarrow> session \<Rightarrow> 'w server \<Rightarrow> ('w, string \<times> go_err option) outs" where
  "start_limited ep inp cleanFrom domain msgMeta s sv =
    concat (map (\<lambda>out. case out of
        None \<Rightarrow> [None]
      | Some (g, Some err) \<Rightarrow> [Some (s, sv\<lparr>sv_limits := g\<rparr>, [], Some err)]
      | Some (g, None) \<Rightarrow> start_pipeline ep cleanFrom domain msgMeta s (sv\<lparr>sv_limits := g\<rparr>))
      (TakeMsg (in_ctx inp) (in_now inp) (remote_ip s) domain (sv_limits sv)))"

definition new_meta :: "session \<Rightarrow> string \<Rightarrow> string \<Rightarrow> mail_opts \<Rightarrow> msg_meta" where
  "new_meta s i from opts =
    \<lparr>mm_ID = i, mm_OriginalFrom = from, mm_DontTraceSender = False, mm_Quarantine = False, mm_OriginalRcpts = Map.empty,
     mm_UTF8 = mo_UTF8 opts, mm_RequireTLS = mo_RequireTLS opts, mm_Conn = Some (ss_conn s), mm_TLSRequireOverride = False\<rparr>"

definition startDelivery ::
  "'w endpoint \<Rightarrow> inputs \<Rightarrow> string \<Rightarrow> mail_opts \<Rightarrow> session \<Rightarrow> 'w server \<Rightarrow> ('w, string \<times> go_err option) outs" where
  "startDelivery ep inp from opts s sv =
    (case GenerateMsgID (in_rawID inp) (in_idErr inp) of
       (_, Some err) \<Rightarrow> [Some (s, sv, [], Some err)]
     | (i, None) \<Rightarrow>
        if \<not> mo_UTF8 opts \<and> list_ex (\<lambda>ch. ch > 128) (runes from) then
          [Some (s, sv, [], Some (smtpErr 550 (5, 6, 7) ''SMTPUTF8 is required for non-ASCII senders''))]
        else
         (case (if from \<noteq> [] then CleanDomain (mp_lib (ep_env ep)) from else (from, None)) of
            (_, Some _) \<Rightarrow> [Some (s, sv, [], Some (smtpErr 553 (5, 1, 7) ''Unable to normalize the sender address''))]
          | (cleanFrom, None) \<Rightarrow>
             (case (if cleanFrom \<noteq> [] then Split cleanFrom else ([], [], None)) of
                (_, _, Some err) \<Rightarrow> [Some (s, sv, [], Some err)]
              | (_, domain, None) \<Rightarrow> start_limited ep inp cleanFrom domain (new_meta s i from opts) s sv)))"

text \<open>Continue with the outcomes that did not panic.\<close>

definition outs_then ::
  "('w, 'r) outs \<Rightarrow> (session \<Rightarrow> 'w server \<Rightarrow> 'r \<Rightarrow> ('w, 'q) outs) \<Rightarrow> ('w, 'q) outs" where
  "outs_then outs k = concat (map (\<lambda>out. case out of None \<Rightarrow> [None] | Some (s, sv, r) \<Rightarrow> k s sv r) outs)"

definition sess_Mail ::
  "'w endpoint \<Rightarrow> inputs \<Rightarrow> string \<Rightarrow> mail_opts \<Rightarrow> session \<Rightarrow> 'w server \<Rightarrow> ('w, smtp_reply option) outs" where
  "sess_Mail ep inp from opts s sv =
    (if ep_authAlwaysRequired ep \<and> cs_AuthUser (ss_conn s) = [] then [Some (s, sv, Some (ep_ErrAuthRequired ep))]
     else if ep_deferServerReject ep then [Some (s\<lparr>ss_mailFrom := from, ss_opts := opts\<rparr>, sv, None)]
     else outs_then (startDelivery ep inp from opts s sv)
       (\<lambda>s sv (msgID, err).
          case err of
            Some e \<Rightarrow> [Some (s, sv, wrapErr ep msgID (\<not> mo_UTF8 opts) (Some e))]
          | None \<Rightarrow> [Some (s\<lparr>ss_mailFrom := from, ss_opts := opts\<rparr>, sv, None)]))"

section \<open>Recipients\<close>

definition sess_rcpt ::
  "'w endpoint \<Rightarrow> string \<Rightarrow> pdelivery \<Rightarrow> session \<Rightarrow> 'w server \<Rightarrow> pdelivery \<times> 'w \<times> go_err option" where
  "sess_rcpt ep to dd s sv =
    (if \<not> IsASCII to \<and> \<not> mo_UTF8 (ss_opts s) then
       (dd, sv_world sv, Some (smtpErr 553 (5, 6, 7) ''SMTPUTF8 is required for non-ASCII recipients''))
     else (case CleanDomain (mp_lib (ep_env ep)) to of
         (_, Some _) \<Rightarrow> (dd, sv_world sv, Some (smtpErr 501 (5, 1, 2) ''Unable to normalize the recipient address''))
       | (cleanTo, None) \<Rightarrow> pipeline_AddRcpt (ep_env ep) (ep_pipeline ep) cleanTo dd (sv_world sv)))"

definition rcpt_open ::
  "'w endpoint \<Rightarrow> string \<Rightarrow> session \<Rightarrow> 'w server \<Rightarrow> ('w, smtp_reply option) outs" where
  "rcpt_open ep to s sv =
    (case ss_delivery s of
       None \<Rightarrow> [None]
     | Some dd \<Rightarrow>
        (case sess_rcpt ep to dd s sv of
           (dd, w, err) \<Rightarrow>
             (let s = s\<lparr>ss_delivery := Some dd\<rparr>;
                  s = (if err \<noteq> None \<and> ss_loggedRcptErrors s < ep_maxLoggedRcptErrors ep
                       then s\<lparr>ss_loggedRcptErrors := ss_loggedRcptErrors s + 1\<rparr> else s)
              in [Some (s, sv\<lparr>sv_world := w\<rparr>, wrapErr ep (mm_ID (msgMeta_of dd)) (\<not> mo_UTF8 (ss_opts s)) err)])))"

definition sess_Rcpt ::
  "'w endpoint \<Rightarrow> inputs \<Rightarrow> string \<Rightarrow> session \<Rightarrow> 'w server \<Rightarrow> ('w, smtp_reply option) outs" where
  "sess_Rcpt ep inp to s sv =
    (case ss_delivery s of
       Some _ \<Rightarrow> rcpt_open ep to s sv
     | None \<Rightarrow>
        (case ss_deliveryErr s of
           Some e \<Rightarrow> [Some (s\<lparr>ss_repeatedMailErrs := ss_repeatedMailErrs s + 1\<rparr>, sv, Some e)]
         | None \<Rightarrow>
            outs_then (startDelivery ep inp (ss_mailFrom s) (ss_opts s) s sv)
              (\<lambda>s sv (msgID, err).
                 case err of
                   Some e \<Rightarrow>
                     (let r = wrapErr ep msgID (\<not> mo_UTF8 (ss_opts s)) (Some e)
                      in [Some (s\<lparr>ss_deliveryErr := r\<rparr>, sv, r)])
                 | None \<Rightarrow> rcpt_open ep to s sv)))"

section \<open>The message\<close>

definition hdr_Get :: "header \<Rightarrow> string \<Rightarrow> string" where
  "hdr_Get h k = (case FieldsByKey h k of [] \<Rightarrow> [] | v # _ \<Rightarrow> v)"

definition hdr_Set :: "header \<Rightarrow> string \<Rightarrow> string \<Rightarrow> header" where
  "hdr_Set h k v =
    hdr_Add (filter (\<lambda>(k', _). map (lower_ascii \<circ> byte_of) k' \<noteq> map (lower_ascii \<circ> byte_of) k) h) k v"

definition dateTimeLayouts :: "string list" where
  "dateTimeLayouts =
    [''Mon, 02 Jan 2006 15:04:05 -0700'', ''_2 Jan 2006 15:04:05 -0700'', ''_2 Jan 2006 15:04:05 MST'',
     ''_2 Jan 2006 15:04 -0700'', ''_2 Jan 2006 15:04 MST'', ''_2 Jan 06 15:04:05 -0700'', ''_2 Jan 06 15:04:05 MST'',
     ''_2 Jan 06 15:04 -0700'', ''_2 Jan 06 15:04 MST'', ''Mon, _2 Jan 2006 15:04:05 -0700'',
     ''Mon, _2 Jan 2006 15:04:05 MST'', ''Mon, _2 Jan 2006 15:04 -0700'', ''Mon, _2 Jan 2006 15:04 MST'',
     ''Mon, _2 Jan 06 15:04:05 -0700'', ''Mon, _2 Jan 06 15:04:05 MST'', ''Mon, _2 Jan 06 15:04 -0700'',
     ''Mon, _2 Jan 06 15:04 MST'']"

text \<open>The expression \<open>commentRE\<close>: blanks, an opening parenthesis and anything but a
  newline up to a closing parenthesis at the end.\<close>

definition comment_here :: "string \<Rightarrow> bool" where
  "comment_here s =
    (let r = dropWhile (\<lambda>c. c \<in> {CHR '' '', CHR 0x09}) s
     in r \<noteq> s \<and> 2 \<le> length r \<and> hd r = CHR ''('' \<and> last r = CHR '')'' \<and> CHR 0x0A \<notin> set r)"

fun strip_comment :: "string \<Rightarrow> string" where
  "strip_comment [] = []"
| "strip_comment (c # cs) = (if comment_here (c # cs) then [] else c # strip_comment cs)"

definition parseMessageDateTime :: "'w endpoint \<Rightarrow> string \<Rightarrow> go_err option" where
  "parseMessageDateTime ep maybeDate =
    (let maybeDate = strip_comment maybeDate in
     if list_ex (\<lambda>layout. ep_timeParse ep layout maybeDate) dateTimeLayouts then None
     else Some (ErrNew (''date '' @ maybeDate @ '' could not be parsed'')))"

definition sub_err :: "string \<Rightarrow> fields \<Rightarrow> go_err option \<Rightarrow> go_err" where
  "sub_err msg misc err = SMTPError 554 (5, 6, 0) msg [] [] err [] ((''modifier'', FStr ''submission_prepare'') # misc)"

text \<open>The loop over the fields with lists of addresses.\<close>

fun check_lists :: "'w endpoint \<Rightarrow> header \<Rightarrow> string list \<Rightarrow> go_err option" where
  "check_lists ep h [] = None"
| "check_lists ep h (k # ks) =
     (let value = hdr_Get h k in
      if value = [] then check_lists ep h ks
      else (case ep_ParseAddressList ep value of
          Inl err \<Rightarrow> Some (sub_err (''Invalid address in '' @ k) [(''addr'', FStr value)] (Some err))
        | Inr _ \<Rightarrow> check_lists ep h ks))"

definition check_from :: "'w endpoint \<Rightarrow> header \<Rightarrow> go_err option" where
  "check_from ep h =
    (case ep_ParseAddressList ep (hdr_Get h ''From'') of
       Inl err \<Rightarrow> Some (sub_err ''Invalid address in From'' [(''addr'', FStr (hdr_Get h ''From''))] (Some err))
     | Inr n \<Rightarrow>
        if 1 < n \<and> hdr_Get h ''Sender'' = []
        then Some (sub_err ''Missing Sender header field'' [(''from'', FStr (hdr_Get h ''From''))] None) else None)"

definition check_date :: "'w endpoint \<Rightarrow> string \<Rightarrow> header \<Rightarrow> go_err + header" where
  "check_date ep date h =
    (if hdr_Get h ''Date'' \<noteq> [] then
       (case parseMessageDateTime ep (hdr_Get h ''Date'') of
          Some err \<Rightarrow> Inl (SMTPError 554 (0, 0, 0) ''Malformed Date header'' [] [] (Some err) []
             [(''modifier'', FStr ''submission_prepare''), (''date'', FStr (hdr_Get h ''Date''))])
        | None \<Rightarrow> Inr h)
     else Inr (hdr_Set h ''Date'' date))"

definition check_sender :: "'w endpoint \<Rightarrow> header \<Rightarrow> go_err option" where
  "check_sender ep h =
    (let value = hdr_Get h ''Sender'' in
     if value = [] then None
     else (case ep_ParseAddress ep value of
         None \<Rightarrow> None
       | Some err \<Rightarrow> Some (sub_err ''Invalid address in Sender'' [(''addr'', FStr value)] (Some err))))"

definition add_msgid :: "'w endpoint \<Rightarrow> inputs \<Rightarrow> header \<Rightarrow> go_err + header" where
  "add_msgid ep inp h =
    (if hdr_Get h ''Message-ID'' = [] then
       (case in_msgID inp of
          Inl _ \<Rightarrow> Inl (ErrNew ''Message-ID generation failed'')
        | Inr i \<Rightarrow> Inr (hdr_Set h ''Message-ID'' (''<'' @ i @ ''@'' @ ep_Domain ep @ ''>'')))
     else Inr h)"

definition submissionPrepare :: "'w endpoint \<Rightarrow> inputs \<Rightarrow> header \<Rightarrow> go_err + header" where
  "submissionPrepare ep inp h =
    (case add_msgid ep inp h of
       Inl err \<Rightarrow> Inl err
     | Inr h \<Rightarrow>
        if hdr_Get h ''From'' = [] then Inl (sub_err ''Message does not contains a From header field'' [] None)
        else (case check_sender ep h of
            Some err \<Rightarrow> Inl err
          | None \<Rightarrow> (case check_lists ep h [''To'', ''Cc'', ''Bcc'', ''Reply-To''] of
              Some err \<Rightarrow> Inl err
            | None \<Rightarrow> (case check_from ep h of
                Some err \<Rightarrow> Inl err
              | None \<Rightarrow> check_date ep (in_date inp) h))))"

definition prepareBody ::
  "'w endpoint \<Rightarrow> inputs \<Rightarrow> string \<Rightarrow> pdelivery \<Rightarrow> pdelivery \<times> (go_err + header \<times> string)" where
  "prepareBody ep inp r dd =
    (let limit = nat (ep_maxHeaderBytes ep);
         tooBig = smtpErr 552 (5, 3, 4) ''Message header size exceeds limit''
     in case ep_ReadHeader ep (take limit r) (if limit \<le> length r then Some tooBig else None) of
          Inl err \<Rightarrow> (dd, Inl (ErrWrap ''I/O error while parsing header: '' err))
        | Inr (h, rest) \<Rightarrow>
           (let dd = (if ep_submission ep then set_meta (\<lambda>m. m\<lparr>mm_DontTraceSender := True\<rparr>) dd else dd);
                body = rest @ drop limit r
            in case (if ep_submission ep then submissionPrepare ep inp h else Inr h) of
                 Inl err \<Rightarrow> (dd, Inl err)
               | Inr h \<Rightarrow>
                  (case ep_buffer ep body of
                     Some err \<Rightarrow> (dd, Inl (ErrWrap ''I/O error while writing buffer: '' err))
                   | None \<Rightarrow> (dd, Inr (h, body)))))"

definition checkRoutingLoops :: "'w endpoint \<Rightarrow> header \<Rightarrow> go_err option" where
  "checkRoutingLoops ep h =
    (let receivedCount = int (length (FieldsByKey h ''Received'')) in
     if receivedCount > ep_maxReceived ep then
       Some (smtpErr 554 (5, 4, 6) (''Too many Received header fields ('' @ FormatInt receivedCount 10 @ ''), possible forwarding loop''))
     else None)"

text \<open>The deferred function of \<open>Data\<close> and \<open>LMTPData\<close>: the session is cleaned whatever
  the outcome.\<close>

definition finish ::
  "'w endpoint \<Rightarrow> pdelivery \<Rightarrow> go_err option \<Rightarrow> session \<Rightarrow> 'w server \<Rightarrow> ('w, smtp_reply option) outs" where
  "finish ep dd err s sv =
    (let reply = wrapErr ep (mm_ID (msgMeta_of dd)) (\<not> mo_UTF8 (ss_opts s)) err in
     case cleanSession (s\<lparr>ss_delivery := Some dd\<rparr>) sv of
       None \<Rightarrow> [None]
     | Some (s, sv) \<Rightarrow> [Some (s, sv, reply)])"

definition tls_override :: "header \<Rightarrow> pdelivery \<Rightarrow> pdelivery" where
  "tls_override h dd =
    (if EqualFold (hdr_Get h ''TLS-Required'') ''No'' then set_meta (\<lambda>m. m\<lparr>mm_TLSRequireOverride := True\<rparr>) dd else dd)"

definition sess_Data ::
  "'w endpoint \<Rightarrow> inputs \<Rightarrow> string \<Rightarrow> session \<Rightarrow> 'w server \<Rightarrow> ('w, smtp_reply option) outs" where
  "sess_Data ep inp r s sv =
    (case ss_delivery s of
       None \<Rightarrow> [None]
     | Some dd \<Rightarrow>
        (case prepareBody ep inp r dd of
           (dd, Inl err) \<Rightarrow>
             [Some (s\<lparr>ss_delivery := Some dd\<rparr>, sv, wrapErr ep (mm_ID (msgMeta_of dd)) (\<not> mo_UTF8 (ss_opts s)) (Some err))]
         | (dd, Inr (h, body)) \<Rightarrow>
            (case checkRoutingLoops ep h of
               Some err \<Rightarrow> finish ep dd (Some err) s sv
             | None \<Rightarrow>
                (case pipeline_Body (ep_env ep) (ep_pipeline ep) h body (tls_override h dd) (sv_world sv) of
                   None \<Rightarrow> []
                 | Some (dd, w, Some err) \<Rightarrow> finish ep dd (Some err) s (sv\<lparr>sv_world := w\<rparr>)
                 | Some (dd, w, None) \<Rightarrow>
                    (case pipeline_Commit (ep_env ep) dd w of
                       (dd, w, err) \<Rightarrow> finish ep dd err s (sv\<lparr>sv_world := w\<rparr>))))))"

text \<open>\<open>statusWrapper\<close>: the statuses of \<open>LMTPData\<close> are replies.\<close>

definition wrap_statuses ::
  "'w endpoint \<Rightarrow> pdelivery \<Rightarrow> session \<Rightarrow> (string \<times> go_err option) list \<Rightarrow> (string \<times> smtp_reply option) list" where
  "wrap_statuses ep dd s sts =
    map (\<lambda>(rcpt, err). (rcpt, wrapErr ep (mm_ID (msgMeta_of dd)) (\<not> mo_UTF8 (ss_opts s)) err)) sts"

definition sess_LMTPData ::
  "'w endpoint \<Rightarrow> inputs \<Rightarrow> string \<Rightarrow> session \<Rightarrow> 'w server
    \<Rightarrow> ('w, (string \<times> smtp_reply option) list \<times> smtp_reply option) outs" where
  "sess_LMTPData ep inp r s sv =
    (case ss_delivery s of
       None \<Rightarrow> [None]
     | Some dd \<Rightarrow>
        (case prepareBody ep inp r dd of
           (dd, Inl err) \<Rightarrow>
             [Some (s\<lparr>ss_delivery := Some dd\<rparr>, sv, [], wrapErr ep (mm_ID (msgMeta_of dd)) (\<not> mo_UTF8 (ss_opts s)) (Some err))]
         | (dd, Inr (h, body)) \<Rightarrow>
            (let dd = tls_override h dd in
             case checkRoutingLoops ep h of
               Some err \<Rightarrow> outs_then (finish ep dd (Some err) s sv) (\<lambda>s sv reply. [Some (s, sv, [], reply)])
             | None \<Rightarrow>
                (case pipeline_BodyNonAtomic (ep_env ep) (ep_pipeline ep) h body dd (sv_world sv) of
                   (dd, w, sts) \<Rightarrow>
                    (case pipeline_Commit (ep_env ep) dd w of
                       (dd', w, err) \<Rightarrow>
                         outs_then (finish ep dd' err s (sv\<lparr>sv_world := w\<rparr>))
                           (\<lambda>s' sv reply. [Some (s', sv, wrap_statuses ep dd s sts, reply)]))))))"

section \<open>Authentication and sessions\<close>

text \<open>\<open>RunEarlyChecks\<close> of the pipeline: the error is that of the first goroutine to
  fail.\<close>

fun early_loop ::
  "'w endpoint \<Rightarrow> conn_state \<Rightarrow> nat list \<Rightarrow> go_err option \<Rightarrow> 'w \<Rightarrow> 'w \<times> go_err option" where
  "early_loop ep conn [] first w = (w, first)"
| "early_loop ep conn (c # cs) first w =
     (case ep_early ep c of
        None \<Rightarrow> early_loop ep conn cs first w
      | Some f \<Rightarrow> (case f conn w of
          (w, err) \<Rightarrow> early_loop ep conn cs (case first of Some e \<Rightarrow> Some e | None \<Rightarrow> err) w))"

definition RunEarlyChecks :: "'w endpoint \<Rightarrow> conn_state \<Rightarrow> 'w \<Rightarrow> 'w \<times> go_err option" where
  "RunEarlyChecks ep conn w = early_loop ep conn (ep_earlyOrder ep (pl_globalChecks (ep_pipeline ep))) None w"

definition sess_AuthPlain ::
  "'w endpoint \<Rightarrow> string \<Rightarrow> string \<Rightarrow> session \<Rightarrow> 'w server \<Rightarrow> session \<times> 'w server \<times> smtp_reply option" where
  "sess_AuthPlain ep username password s sv =
    (case RunEarlyChecks ep (ss_conn s) (sv_world sv) of
       (w, Some err) \<Rightarrow> (s, sv\<lparr>sv_world := w\<rparr>, wrapErr ep [] True (Some err))
     | (w, None) \<Rightarrow>
        (case AuthPlain (ep_sasl ep) username password w of
           (w, Some err) \<Rightarrow>
             (s, sv\<lparr>sv_world := w\<rparr>,
              Some (if IsTemporary err
                then \<lparr>sr_Code = 454, sr_EnhancedCode = (4, 7, 0), sr_Message = ''Temporary authentication failure''\<rparr>
                else \<lparr>sr_Code = 535, sr_EnhancedCode = (5, 7, 8), sr_Message = ''Invalid credentials''\<rparr>))
         | (w, None) \<Rightarrow>
             (s\<lparr>ss_conn := (ss_conn s)\<lparr>cs_AuthUser := username, cs_AuthPassword := password\<rparr>\<rparr>, sv\<lparr>sv_world := w\<rparr>, None)))"

text \<open>\<open>Auth\<close>: the mechanism of the session and what its success callback stores. The
  exchange gives the mechanism the credentials of the client; go-sasl and
  \<open>sasllogin\<close> hand them to the authenticator of the mechanism.\<close>

definition sess_Auth :: "'w endpoint \<Rightarrow> string \<Rightarrow> sasl_server" where
  "sess_Auth ep mech = CreateSASL (ep_sasl ep) mech"

definition auth_success :: "string \<Rightarrow> string \<Rightarrow> session \<Rightarrow> session" where
  "auth_success identity password s =
    s\<lparr>ss_conn := (ss_conn s)\<lparr>cs_AuthUser := identity, cs_AuthPassword := password\<rparr>\<rparr>"

definition sasl_exchange ::
  "'w endpoint \<Rightarrow> string \<Rightarrow> string \<Rightarrow> string \<Rightarrow> string \<Rightarrow> session \<Rightarrow> 'w server \<Rightarrow> session \<times> 'w server \<times> go_err option" where
  "sasl_exchange ep mech identity username password s sv =
    (case (case sess_Auth ep mech of
        PlainServer \<Rightarrow> plain_authenticate (ep_sasl ep) identity username password (sv_world sv)
      | LoginServer \<Rightarrow> login_authenticate (ep_sasl ep) username password (sv_world sv)
      | FailingSASLServ err \<Rightarrow> (sv_world sv, Inl err)) of
       (w, Inl err) \<Rightarrow> (s, sv\<lparr>sv_world := w\<rparr>, Some err)
     | (w, Inr (ident, _, pass)) \<Rightarrow> (auth_success ident pass s, sv\<lparr>sv_world := w\<rparr>, None))"

text \<open>\<open>fetchRDNSName\<close>: the value and the error the future of the connection is set to;
  the name is \<open>None\<close> for nil.\<close>

definition fetchRDNSName :: "(string \<Rightarrow> go_err + string) \<Rightarrow> conn_state \<Rightarrow> string option \<times> go_err option" where
  "fetchRDNSName LookupAddr conn =
    (case cs_RemoteAddr conn of
       None \<Rightarrow> (None, None)
     | Some ip \<Rightarrow>
        (case LookupAddr ip of
           Inl err \<Rightarrow> if not_found err then (None, None) else (None, Some err)
         | Inr name \<Rightarrow> (Some name, None)))"

text \<open>What \<open>newSession\<close> reads of the connection of go-smtp. The future of the name of the
  client is replaced by the value it is set to; \<open>ep_LookupAddr\<close> is the resolver, if
  there is one.\<close>

record smtp_conn =
  sc_Hostname :: string
  sc_RemoteAddr :: "string option"
  sc_HandshakeComplete :: bool

definition conn_of :: "'w endpoint \<Rightarrow> smtp_conn \<Rightarrow> conn_state" where
  "conn_of ep conn =
    (let st = \<lparr>cs_Proto = (if ep_lmtp ep then ''LMTP'' else if sc_HandshakeComplete conn then ''ESMTPS'' else ''ESMTP''),
               cs_Hostname = sc_Hostname conn, cs_RemoteAddr = sc_RemoteAddr conn, cs_RDNSName = None,
               cs_AuthUser = [], cs_AuthPassword = []\<rparr>
     in case ep_LookupAddr ep of
          None \<Rightarrow> st
        | Some lookup \<Rightarrow> st\<lparr>cs_RDNSName := fst (fetchRDNSName lookup st)\<rparr>)"

definition newSession :: "'w endpoint \<Rightarrow> smtp_conn \<Rightarrow> session" where
  "newSession ep conn =
    \<lparr>ss_conn = conn_of ep conn, ss_repeatedMailErrs = 0, ss_loggedRcptErrors = 0, ss_mailFrom = [], ss_opts = no_opts,
     ss_delivery = None, ss_deliveryErr = None\<rparr>"

definition NewSession ::
  "'w endpoint \<Rightarrow> smtp_conn \<Rightarrow> 'w server \<Rightarrow> ('w server \<times> (smtp_reply option + session)) option" where
  "NewSession ep conn sv =
    (case RunEarlyChecks ep (conn_of ep conn) (sv_world sv) of
       (w, Some err) \<Rightarrow>
         map_option (\<lambda>(_, sv). (sv, Inl (wrapErr ep [] True (Some err)))) (sess_Logout ep (newSession ep conn) (sv\<lparr>sv_world := w\<rparr>))
     | (w, None) \<Rightarrow> Some (sv\<lparr>sv_world := w, sv_sessionCnt := sv_sessionCnt sv + 1\<rparr>, Inr (newSession ep conn)))"

end
