(* ===== verification/SmtpInv.thy ===== *)
theory SmtpInv
  imports SmtpSession
begin

text \<open>
  The invariants of the SMTP endpoint: the commands of its sessions in the order
  RFC 5321 prescribes, the system of all sessions as a step relation, the limits every
  command keeps in balance, what an accepted message has gone through, and the
  abstract transaction a session is.
\<close>

section \<open>Commands and the server\<close>

datatype cmd =
    Mail inputs string mail_opts
  | Rcpt inputs string
  | Data inputs string
  | LMTPData inputs string
  | Reset
  | Auth string string

fun exec :: "'w endpoint \<Rightarrow> cmd \<Rightarrow> session \<Rightarrow> 'w server \<Rightarrow> ('w, smtp_reply option) outs" where
  "exec ep (Mail inp from opts) s sv = sess_Mail ep inp from opts s sv"
| "exec ep (Rcpt inp to) s sv = sess_Rcpt ep inp to s sv"
| "exec ep (Data inp r) s sv = sess_Data ep inp r s sv"
| "exec ep (LMTPData inp r) s sv = outs_then (sess_LMTPData ep inp r s sv) (\<lambda>s sv (_, reply). [Some (s, sv, reply)])"
| "exec ep Reset s sv = (case sess_Reset ep s sv of None \<Rightarrow> [None] | Some (s, sv) \<Rightarrow> [Some (s, sv, None)])"
| "exec ep (Auth u p) s sv = [Some (sess_AuthPlain ep u p s sv)]"

text \<open>The order of commands of RFC 5321 and 4954, which go-smtp and the client keep: a
  transaction is not nested, data comes in one, authentication outside one.\<close>

fun allowed :: "cmd \<Rightarrow> session \<Rightarrow> bool" where
  "allowed (Mail _ _ _) s = (ss_delivery s = None)"
| "allowed (Data _ _) s = (ss_delivery s \<noteq> None)"
| "allowed (LMTPData _ _) s = (ss_delivery s \<noteq> None)"
| "allowed (Auth _ _) s = (ss_delivery s = None)"
| "allowed _ s = True"

text \<open>A server with its sessions: clients connect, send commands in any interleaving and
  leave. A command is tried while the sets of limits have room.\<close>

inductive sys_step :: "'w endpoint \<Rightarrow> session list \<times> 'w server \<Rightarrow> session list \<times> 'w server \<Rightarrow> bool" for ep where
  connect: "NewSession ep conn sv = Some (sv', Inr s) \<Longrightarrow> sys_step ep (ss, sv) (ss @ [s], sv')"
| refuse: "NewSession ep conn sv = Some (sv', Inl r) \<Longrightarrow> sys_step ep (ss, sv) (ss, sv')"
| command: "i < length ss \<Longrightarrow> allowed c (ss ! i) \<Longrightarrow> limits_room (sv_limits sv) \<Longrightarrow>
    Some (s', sv', r) \<in> set (exec ep c (ss ! i) sv) \<Longrightarrow> sys_step ep (ss, sv) (ss[i := s'], sv')"
| logout: "i < length ss \<Longrightarrow> sess_Logout ep (ss ! i) sv = Some (s', sv') \<Longrightarrow>
    sys_step ep (ss, sv) (take i ss @ drop (Suc i) ss, sv')"

inductive sys_reach :: "'w endpoint \<Rightarrow> 'w server \<Rightarrow> session list \<times> 'w server \<Rightarrow> bool" for ep sv0 where
  init: "sys_reach ep sv0 ([], sv0)"
| step: "sys_reach ep sv0 x \<Longrightarrow> sys_step ep x y \<Longrightarrow> sys_reach ep sv0 y"

section \<open>The invariant of a session\<close>

definition from_domain :: "string \<Rightarrow> string" where
  "from_domain m = (if m = [] then [] else fst (snd (Split m)))"

definition from_ok :: "string \<Rightarrow> bool" where
  "from_ok m \<longleftrightarrow> m = [] \<or> snd (snd (Split m)) = None"

text \<open>The limit an open transaction holds.\<close>

definition key_of :: "session \<Rightarrow> (string \<times> string) option" where
  "key_of s = (if ss_delivery s = None then None else Some (remote_ip s, from_domain (ss_mailFrom s)))"

definition sess_inv :: "'w endpoint \<Rightarrow> session \<Rightarrow> bool" where
  "sess_inv ep s \<longleftrightarrow> (case ss_delivery s of None \<Rightarrow> True | Some dd \<Rightarrow> from_ok (ss_mailFrom s) \<and> pd_inv (ep_pipeline ep) dd)"

definition key_set :: "session \<Rightarrow> (string \<times> string) multiset" where
  "key_set s = (case key_of s of None \<Rightarrow> {#} | Some k \<Rightarrow> {#k#})"

text \<open>An outcome is good when it is no panic, keeps the invariant and holds the limit of
  the session.\<close>

definition good_out ::
  "'w endpoint \<Rightarrow> (string \<times> string) multiset \<Rightarrow> (session \<times> 'w server \<times> 'r) option \<Rightarrow> bool" where
  "good_out ep M out = (case out of
      None \<Rightarrow> False
    | Some (s, sv, _) \<Rightarrow> sess_inv ep s \<and> held_msgs (M + key_set s) (sv_limits sv))"

definition good_outs :: "'w endpoint \<Rightarrow> (string \<times> string) multiset \<Rightarrow> ('w, 'r) outs \<Rightarrow> bool" where
  "good_outs ep M outs = list_all (good_out ep M) outs"

lemma good_outs_simps [simp]:
  "good_outs ep M []" "good_outs ep M (x # xs) \<longleftrightarrow> good_out ep M x \<and> good_outs ep M xs"
  "good_outs ep M (xs @ ys) \<longleftrightarrow> good_outs ep M xs \<and> good_outs ep M ys"
  by (simp_all add: good_outs_def)

lemma good_out_Some [simp]:
  "good_out ep M (Some (s, sv, r)) \<longleftrightarrow> sess_inv ep s \<and> held_msgs (M + key_set s) (sv_limits sv)"
  by (simp add: good_out_def)

lemma good_outs_concat: "(\<And>x. x \<in> set xs \<Longrightarrow> good_outs ep M (f x)) \<Longrightarrow> good_outs ep M (concat (map f xs))"
  by (induction xs) auto

lemma good_then:
  assumes "good_outs ep M outs"
    and "\<And>s sv r. Some (s, sv, r) \<in> set outs \<Longrightarrow> sess_inv ep s \<Longrightarrow> held_msgs (M + key_set s) (sv_limits sv) \<Longrightarrow> good_outs ep M (k s sv r)"
  shows "good_outs ep M (outs_then outs k)"
  unfolding outs_then_def
proof (rule good_outs_concat)
  fix x assume x: "x \<in> set outs"
  with assms(1) have "good_out ep M x" by (simp add: good_outs_def list_all_iff)
  with assms(2) x show "good_outs ep M (case x of None \<Rightarrow> [None] | Some (s, sv, r) \<Rightarrow> k s sv r)"
    by (cases x) (auto simp: good_out_def)
qed

lemma release_good:
  assumes "held_msgs (M + key_set s) (sv_limits sv)" "ss_delivery s \<noteq> None" "from_ok (ss_mailFrom s)"
  shows "\<exists>g. releaseLimits s (sv_limits sv) = Some g \<and> held_msgs M g"
proof -
  let ?k = "(remote_ip s, from_domain (ss_mailFrom s))"
  have "held_msgs (add_mset ?k M) (sv_limits sv)" using assms(1,2) by (simp add: key_set_def key_of_def)
  then obtain g where "ReleaseMsg (remote_ip s) (from_domain (ss_mailFrom s)) (sv_limits sv) = Some g" "held_msgs M g"
    using lims.release_held [of ?k M] by auto
  with assms(3) show ?thesis
    by (auto simp: releaseLimits_def from_domain_def from_ok_def split: prod.splits)
qed

lemma clean_good:
  assumes "held_msgs (M + key_set s) (sv_limits sv)" "ss_delivery s \<noteq> None" "from_ok (ss_mailFrom s)"
  shows "\<exists>s' sv'. cleanSession s sv = Some (s', sv') \<and> ss_delivery s' = None \<and> held_msgs M (sv_limits sv')
    \<and> sv_world sv' = sv_world sv"
  using release_good [OF assms] by (auto simp: cleanSession_def)

lemma idle_facts [simp]:
  "ss_delivery s = None \<Longrightarrow> key_set s = {#}" "ss_delivery s = None \<Longrightarrow> sess_inv ep s"
  by (simp_all add: key_set_def key_of_def sess_inv_def)

lemma key_set_same:
  "ss_delivery s' \<noteq> None \<Longrightarrow> ss_delivery s \<noteq> None \<Longrightarrow> ss_conn s' = ss_conn s \<Longrightarrow> ss_mailFrom s' = ss_mailFrom s
    \<Longrightarrow> key_set s' = key_set s"
  by (simp add: key_set_def key_of_def remote_ip_def)

section \<open>Every command keeps the invariant\<close>

lemma abort_good:
  assumes "held_msgs (M + key_set s) (sv_limits sv)" "ss_delivery s = Some dd" "sess_inv ep s"
  shows "\<exists>s' sv'. abort_session ep dd s sv = Some (s', sv') \<and> ss_delivery s' = None \<and> held_msgs M (sv_limits sv')"
proof -
  obtain dd1 w1 e where a: "pipeline_Abort (ep_env ep) dd (sv_world sv) = (dd1, w1, e)" by (metis prod.collapse)
  have "key_set (s\<lparr>ss_delivery := Some dd1\<rparr>) = key_set s" by (rule key_set_same) (use assms(2) in auto)
  then show ?thesis
    using clean_good [of M "s\<lparr>ss_delivery := Some dd1\<rparr>" "sv\<lparr>sv_world := w1\<rparr>"] assms a
    by (auto simp: abort_session_def sess_inv_def)
qed

lemma reset_good:
  assumes "held_msgs (M + key_set s) (sv_limits sv)" "sess_inv ep s"
  shows "\<exists>s' sv'. sess_Reset ep s sv = Some (s', sv') \<and> ss_delivery s' = None \<and> held_msgs M (sv_limits sv')"
  using assms abort_good [of M s sv _ ep] by (cases "ss_delivery s") (auto simp: sess_Reset_def)

lemma start_pipeline_good:
  assumes "held_msgs (add_mset (remote_ip s, domain) M) (sv_limits sv)" "ss_delivery s = None"
    and "from_ok cleanFrom" "from_domain cleanFrom = domain"
  shows "good_outs ep M (start_pipeline ep cleanFrom domain meta s sv)"
proof -
  obtain w1 x where p: "pipeline_Start (ep_env ep) (ep_pipeline ep) meta cleanFrom (sv_world sv) = (w1, x)" by fastforce
  show ?thesis
  proof (cases x)
    case (Inl err)
    from lims.release_held [OF assms(1)] obtain g where "ReleaseMsg (remote_ip s) domain (sv_limits sv) = Some g" "held_msgs M g"
      by auto
    with p Inl assms(2) show ?thesis by (simp add: start_pipeline_def)
  next
    case (Inr dd)
    let ?s = "s\<lparr>ss_mailFrom := cleanFrom, ss_delivery := Some dd\<rparr>"
    have "key_set ?s = {#(remote_ip s, domain)#}" using assms(4) by (simp add: key_set_def key_of_def remote_ip_def)
    moreover have "pd_inv (ep_pipeline ep) dd" using Start_inv [OF p [unfolded Inr]] .
    ultimately show ?thesis using p Inr assms(1,3) by (simp add: start_pipeline_def sess_inv_def)
  qed
qed

lemma start_limited_good:
  assumes "held_msgs M (sv_limits sv)" "limits_room (sv_limits sv)" "ss_delivery s = None"
    and "from_ok cleanFrom" "from_domain cleanFrom = domain"
  shows "good_outs ep M (start_limited ep inp cleanFrom domain meta s sv)"
  unfolding start_limited_def
proof (rule good_outs_concat)
  fix out assume "out \<in> set (TakeMsg (in_ctx inp) (in_now inp) (remote_ip s) domain (sv_limits sv))"
  then have o: "out \<in> set ((\<lambda>(ctx, now) (addr, domain). TakeMsg ctx now addr domain)
    (in_ctx inp, in_now inp) (remote_ip s, domain) (sv_limits sv))" by simp
  show "good_outs ep M (case out of None \<Rightarrow> [None]
      | Some (g, Some err) \<Rightarrow> [Some (s, sv\<lparr>sv_limits := g\<rparr>, [], Some err)]
      | Some (g, None) \<Rightarrow> start_pipeline ep cleanFrom domain meta s (sv\<lparr>sv_limits := g\<rparr>))"
  proof (rule lims.acquire_cases [OF assms(1,2) o])
    fix g assume "out = Some (g, None)" "held_msgs (add_mset (remote_ip s, domain) M) g"
    then show ?thesis using start_pipeline_good [of s domain M "sv\<lparr>sv_limits := g\<rparr>" cleanFrom ep meta] assms(3-5) by simp
  next
    fix g e assume "out = Some (g, Some e)" "held_msgs M g"
    then show ?thesis using assms(3) by simp
  qed
qed

lemma startDelivery_good:
  assumes "held_msgs M (sv_limits sv)" "limits_room (sv_limits sv)" "ss_delivery s = None"
  shows "good_outs ep M (startDelivery ep inp from opts s sv)"
proof -
  obtain i e where g: "GenerateMsgID (in_rawID inp) (in_idErr inp) = (i, e)" by fastforce
  obtain c e2 where c: "(if from \<noteq> [] then CleanDomain (mp_lib (ep_env ep)) from else (from, None)) = (c, e2)" by fastforce
  obtain m dom e3 where d: "(if c \<noteq> [] then Split c else ([], [], None)) = (m, dom, e3)" by (metis prod.collapse)
  have *: "e3 = None \<Longrightarrow> from_ok c \<and> from_domain c = dom"
    using d by (cases "c = []") (auto simp: from_ok_def from_domain_def)
  have idle: "good_outs ep M [Some (s, sv, r)]" for r :: "string \<times> go_err option" using assms(1,3) by simp
  show ?thesis
    unfolding startDelivery_def g c d prod.case
    using idle start_limited_good [OF assms, of c dom] *
    by (cases e; cases e2; cases e3) (simp_all add: d)
qed

lemma wrapErr_None [simp]: "wrapErr ep i m None = None"
  by (simp add: wrapErr_def)

lemma wrapErr_Some [simp]: "wrapErr ep i m (Some e) \<noteq> None"
  by (simp add: wrapErr_def Let_def)

lemma wrapErr_iff [simp]: "wrapErr ep i m e = None \<longleftrightarrow> e = None" "None = wrapErr ep i m e \<longleftrightarrow> e = None"
  using wrapErr_Some [of ep i m] by (cases e; metis wrapErr_None option.distinct(1))+

lemma rcpt_open_good:
  assumes "held_msgs (M + key_set s) (sv_limits sv)" "sess_inv ep s" "ss_delivery s \<noteq> None"
  shows "good_outs ep M (rcpt_open ep to s sv)"
proof -
  from assms(3) obtain dd where dd: "ss_delivery s = Some dd" by blast
  obtain dd1 w1 e where r: "sess_rcpt ep to dd s sv = (dd1, w1, e)" by (metis prod.collapse)
  have "grows (ep_pipeline ep) dd dd1"
    using r AddRcpt_inv [of "ep_env ep" "ep_pipeline ep" _ dd "sv_world sv" dd1 w1 e]
    by (auto simp: sess_rcpt_def grows_refl split: if_splits prod.splits option.splits)
  then have inv: "pd_inv (ep_pipeline ep) dd1" using assms(2) dd by (simp add: grows_def sess_inv_def)
  have k: "key_set (s\<lparr>ss_delivery := Some dd1, ss_loggedRcptErrors := n\<rparr>) = key_set s"
    "key_set (s\<lparr>ss_delivery := Some dd1\<rparr>) = key_set s" for n
    by (rule key_set_same; use dd in simp)+
  from dd r inv k assms(1,2) show ?thesis by (auto simp: rcpt_open_def Let_def sess_inv_def)
qed

text \<open>What a start gives: on success a fresh delivery without recipients, on failure
  the session as it was.\<close>

definition started :: "'w endpoint \<Rightarrow> session \<Rightarrow> session \<Rightarrow> go_err option \<Rightarrow> bool" where
  "started ep s s' e = (case e of
      None \<Rightarrow> (\<exists>dd. ss_delivery s' = Some dd \<and> taken dd = {} \<and> pd_inv (ep_pipeline ep) dd) \<and> ss_deliveryErr s' = ss_deliveryErr s
        \<and> ss_conn s' = ss_conn s
    | Some _ \<Rightarrow> s' = s)"

lemma Start_taken: "pipeline_Start env d meta from w = (w', Inr dd) \<Longrightarrow> taken dd = {}"
proof -
  assume a: "pipeline_Start env d meta from w = (w', Inr dd)"
  let ?dd0 = "\<lparr>pd_globalMods = None, pd_sourceMods = None, pd_rcptMods = [], pd_sourceAddr = [],
      pd_sourceBlock = pl_defaultSource d, pd_deliveries = [],
      pd_runner = (newCheckRunner meta)\<lparr>rn_doDMARC := pl_doDMARC d\<rparr>, pd_serial = 0, pd_log = []\<rparr>"
  obtain dd1 w1 e1 where s: "pd_start env d from ?dd0 w = (dd1, w1, e1)" by (metis prod.collapse)
  with a have "dd = dd1" by (cases e1; simp add: pipeline_Start_def)
  with pd_start_same [OF s] show ?thesis by (simp add: same_deliveries_def taken_def)
qed

lemma start_pipeline_started:
  "Some (s', sv', i, e) \<in> set (start_pipeline ep c dmn meta s sv) \<Longrightarrow> started ep s s' e"
proof -
  assume a: "Some (s', sv', i, e) \<in> set (start_pipeline ep c dmn meta s sv)"
  obtain w1 x where p: "pipeline_Start (ep_env ep) (ep_pipeline ep) meta c (sv_world sv) = (w1, x)" by fastforce
  show ?thesis
  proof (cases x)
    case (Inl err)
    with a p show ?thesis by (auto simp: start_pipeline_def started_def split: option.splits)
  next
    case (Inr dd)
    with a p Start_taken [OF p [unfolded Inr]] Start_inv [OF p [unfolded Inr]] show ?thesis by (auto simp: start_pipeline_def started_def)
  qed
qed

lemma start_limited_started:
  assumes "Some (s', sv', i, e) \<in> set (start_limited ep inp c dmn meta s sv)"
  shows "started ep s s' e"
proof -
  from assms obtain out where
    "Some (s', sv', i, e) \<in> set (case out of None \<Rightarrow> [None]
      | Some (g, Some err) \<Rightarrow> [Some (s, sv\<lparr>sv_limits := g\<rparr>, [], Some err)]
      | Some (g, None) \<Rightarrow> start_pipeline ep c dmn meta s (sv\<lparr>sv_limits := g\<rparr>))"
    unfolding start_limited_def by auto
  then show ?thesis
    by (cases "(out :: (group \<times> go_err option) option, ())" rule: prod.exhaust)
      (auto simp: started_def split: option.splits dest: start_pipeline_started [unfolded started_def])
qed

lemma startDelivery_started:
  assumes "Some (s', sv', i, e) \<in> set (startDelivery ep inp from opts s sv)"
  shows "started ep s s' e"
proof -
  obtain j e1 where g: "GenerateMsgID (in_rawID inp) (in_idErr inp) = (j, e1)" by fastforce
  obtain c e2 where c: "(if from \<noteq> [] then CleanDomain (mp_lib (ep_env ep)) from else (from, None)) = (c, e2)" by fastforce
  obtain m dmn e3 where d: "(if c \<noteq> [] then Split c else ([], [], None)) = (m, dmn, e3)" by (metis prod.collapse)
  have "started ep s s' e" if "Some (s', sv', i, e) \<in> set [Some (s, sv, [], Some err)]" for err
    using that by (simp add: started_def)
  with assms start_limited_started [of s' sv' i e ep inp c dmn _ s sv] show ?thesis
    unfolding startDelivery_def g c d prod.case
    by (cases e1; cases e2; cases e3) (auto simp: d split: if_splits)
qed

lemma mail_good:
  assumes "held_msgs M (sv_limits sv)" "ss_delivery s = None" "ep_deferServerReject ep"
  shows "good_outs ep M (sess_Mail ep inp from opts s sv)"
  using assms by (simp add: sess_Mail_def)

lemma rcpt_good:
  assumes "held_msgs (M + key_set s) (sv_limits sv)" "sess_inv ep s" "limits_room (sv_limits sv)"
  shows "good_outs ep M (sess_Rcpt ep inp to s sv)"
proof (cases "ss_delivery s")
  case (Some dd)
  with assms rcpt_open_good [of M s sv ep to] show ?thesis by (simp add: sess_Rcpt_def)
next
  case None
  have h: "held_msgs M (sv_limits sv)" using assms(1) None by simp
  show ?thesis
  proof (cases "ss_deliveryErr s")
    case (Some e)
    with None h show ?thesis by (simp add: sess_Rcpt_def)
  next
    case N: None
    have "good_outs ep M (outs_then (startDelivery ep inp (ss_mailFrom s) (ss_opts s) s sv)
      (\<lambda>s sv (msgID, err). case err of
          Some e \<Rightarrow> (let r = wrapErr ep msgID (\<not> mo_UTF8 (ss_opts s)) (Some e) in [Some (s\<lparr>ss_deliveryErr := r\<rparr>, sv, r)])
        | None \<Rightarrow> rcpt_open ep to s sv))"
    proof (rule good_then [OF startDelivery_good [OF h assms(3) None]], clarify)
      fix s1 sv1 i e
      assume m: "Some (s1, sv1, i, e) \<in> set (startDelivery ep inp (ss_mailFrom s) (ss_opts s) s sv)"
        and iv: "sess_inv ep s1" and hd: "held_msgs (M + key_set s1) (sv_limits sv1)"
      note st = startDelivery_started [OF m, unfolded started_def]
      show "good_outs ep M (case e of
          Some e \<Rightarrow> (let r = wrapErr ep i (\<not> mo_UTF8 (ss_opts s1)) (Some e) in [Some (s1\<lparr>ss_deliveryErr := r\<rparr>, sv1, r)])
        | None \<Rightarrow> rcpt_open ep to s1 sv1)"
        using st hd rcpt_open_good [OF hd iv] None by (cases e) (auto simp: Let_def)
    qed
    with None N show ?thesis by (simp add: sess_Rcpt_def)
  qed
qed

lemma finish_good:
  assumes "held_msgs (M + key_set s) (sv_limits sv)" "ss_delivery s \<noteq> None" "from_ok (ss_mailFrom s)"
  shows "good_outs ep M (finish ep dd e s sv)"
proof -
  have "key_set (s\<lparr>ss_delivery := Some dd\<rparr>) = key_set s" by (rule key_set_same) (use assms(2) in auto)
  with clean_good [of M "s\<lparr>ss_delivery := Some dd\<rparr>" sv] assms show ?thesis
    by (auto simp: finish_def Let_def)
qed

lemma set_meta_same [simp]:
  "pd_deliveries (set_meta f dd) = pd_deliveries dd" "pd_log (set_meta f dd) = pd_log dd"
  "pd_sourceBlock (set_meta f dd) = pd_sourceBlock dd" "pd_rcptMods (set_meta f dd) = pd_rcptMods dd"
  "rn_states (pd_runner (set_meta f dd)) = rn_states (pd_runner dd)"
  "open_targets (set_meta f dd) = open_targets dd" "taken (set_meta f dd) = taken dd"
  "open_blocks (set_meta f dd) = open_blocks dd"
  by (simp_all add: set_meta_def open_targets_def taken_def open_blocks_def)

lemma set_meta_inv [simp]: "pd_inv d (set_meta f dd) = pd_inv d dd"
  by (simp add: pd_inv_def served_def starts_def)

lemma tls_override_inv [simp]:
  "pd_inv d (tls_override h dd) = pd_inv d dd" "open_targets (tls_override h dd) = open_targets dd"
  "taken (tls_override h dd) = taken dd"
  by (simp_all add: tls_override_def)

lemma prepareBody_inv:
  "prepareBody ep inp r dd = (dd', x)
    \<Longrightarrow> (pd_inv d dd' = pd_inv d dd) \<and> open_targets dd' = open_targets dd \<and> taken dd' = taken dd"
  by (auto simp: prepareBody_def Let_def split: sum.splits option.splits if_splits)

lemma prepareBody_same:
  "prepareBody ep inp r dd = (dd1, x) \<Longrightarrow> rn_states (pd_runner (tls_override h dd1)) = rn_states (pd_runner dd)
    \<and> pd_sourceBlock (tls_override h dd1) = pd_sourceBlock dd \<and> open_blocks (tls_override h dd1) = open_blocks dd"
  by (auto simp: prepareBody_def tls_override_def Let_def split: sum.splits option.splits if_splits)

lemma prepare_error_good:
  assumes "held_msgs (M + key_set s) (sv_limits sv)" "sess_inv ep s" "ss_delivery s = Some dd"
    and "prepareBody ep inp r dd = (dd', x)"
  shows "good_outs ep M [Some (s\<lparr>ss_delivery := Some dd'\<rparr>, sv, y)]"
proof -
  have "key_set (s\<lparr>ss_delivery := Some dd'\<rparr>) = key_set s" by (rule key_set_same) (use assms(3) in auto)
  with assms(1-3) prepareBody_inv [OF assms(4), of "ep_pipeline ep"] show ?thesis by (simp add: sess_inv_def)
qed

lemma data_good:
  assumes "held_msgs (M + key_set s) (sv_limits sv)" "sess_inv ep s" "ss_delivery s = Some dd"
  shows "good_outs ep M (sess_Data ep inp r s sv)"
proof -
  obtain dd1 x where p: "prepareBody ep inp r dd = (dd1, x)" by fastforce
  have ok: "from_ok (ss_mailFrom s)" using assms(2,3) by (simp add: sess_inv_def)
  have fin: "good_outs ep M (finish ep ddx e s (sv\<lparr>sv_world := w\<rparr>))" for ddx e w
    by (rule finish_good) (use assms ok in auto)
  have fin0: "good_outs ep M (finish ep ddx e s sv)" for ddx e
    using fin [of ddx e "sv_world sv"] by simp
  show ?thesis
  proof (cases x)
    case (Inl e)
    with prepare_error_good [OF assms p] p assms(3) show ?thesis by (simp add: sess_Data_def)
  next
    case (Inr hb)
    with p assms(3) fin fin0 show ?thesis
      by (cases hb) (simp add: sess_Data_def split: option.splits prod.splits)
  qed
qed

lemma lmtp_good:
  assumes "held_msgs (M + key_set s) (sv_limits sv)" "sess_inv ep s" "ss_delivery s = Some dd"
  shows "good_outs ep M (sess_LMTPData ep inp r s sv)"
proof -
  obtain dd1 x where p: "prepareBody ep inp r dd = (dd1, x)" by fastforce
  have ok: "from_ok (ss_mailFrom s)" using assms(2,3) by (simp add: sess_inv_def)
  have fin: "good_outs ep M (outs_then (finish ep ddx e s (sv\<lparr>sv_world := w\<rparr>)) (\<lambda>s' sv reply. [Some (s', sv, y, reply)]))"
    for ddx e w and y :: "(string \<times> smtp_reply option) list"
    by (rule good_then [OF finish_good]) (use assms ok in auto)
  have fin0: "good_outs ep M (outs_then (finish ep ddx e s sv) (\<lambda>s' sv reply. [Some (s', sv, y, reply)]))"
    for ddx e and y :: "(string \<times> smtp_reply option) list"
    using fin [of ddx e "sv_world sv" y] by simp
  show ?thesis
  proof (cases x)
    case (Inl e)
    with prepare_error_good [OF assms p] p assms(3) show ?thesis by (simp add: sess_LMTPData_def)
  next
    case (Inr hb)
    with p assms(3) fin fin0 show ?thesis
      by (cases hb) (simp add: sess_LMTPData_def Let_def split: option.splits prod.splits)
  qed
qed

lemma auth_good:
  assumes "held_msgs M (sv_limits sv)" "ss_delivery s = None"
  shows "good_out ep M (Some (sess_AuthPlain ep u p s sv))"
  using assms by (auto simp: sess_AuthPlain_def split: prod.splits option.splits)

lemma exec_good:
  assumes "held_msgs (M + key_set s) (sv_limits sv)" "sess_inv ep s" "limits_room (sv_limits sv)"
    and "allowed c s" "ep_deferServerReject ep"
  shows "good_outs ep M (exec ep c s sv)"
proof (cases c)
  case (LMTPData inp r)
  with assms(4) obtain dd where "ss_delivery s = Some dd" by auto
  from lmtp_good [OF assms(1,2) this] LMTPData show ?thesis
    by (auto intro!: good_then split: prod.splits)
next
  case Reset
  with reset_good [OF assms(1,2)] show ?thesis by auto
qed (use assms in \<open>auto simp: mail_good rcpt_good data_good auth_good\<close>)

section \<open>The server over any interleaving\<close>

text \<open>The limits held are those of the open transactions of all sessions.\<close>

definition keys :: "session list \<Rightarrow> (string \<times> string) multiset" where
  "keys ss = sum_list (map key_set ss)"

definition others :: "nat \<Rightarrow> session list \<Rightarrow> session list" where
  "others i ss = take i ss @ drop (Suc i) ss"

lemma keys_nth: "i < length ss \<Longrightarrow> keys ss = keys (others i ss) + key_set (ss ! i)"
  by (subst id_take_nth_drop [of i ss]) (simp_all add: keys_def others_def)

lemma keys_update: "i < length ss \<Longrightarrow> keys (ss[i := s]) = keys (others i ss) + key_set s"
  by (simp add: keys_def others_def upd_conv_take_nth_drop)

lemma others_all: "list_all P ss \<Longrightarrow> list_all P (others i ss)"
  by (auto simp: others_def list_all_iff dest: in_set_takeD in_set_dropD)

definition sys_ok :: "'w endpoint \<Rightarrow> session list \<times> 'w server \<Rightarrow> bool" where
  "sys_ok ep x \<longleftrightarrow> list_all (sess_inv ep) (fst x) \<and> held_msgs (keys (fst x)) (sv_limits (snd x))"

lemma Logout_held:
  assumes "held_msgs (M + key_set s) (sv_limits sv)" "sess_inv ep s"
  shows "\<exists>s' sv'. sess_Logout ep s sv = Some (s', sv') \<and> held_msgs M (sv_limits sv')"
  using reset_good [OF assms] by (auto simp: sess_Logout_def)

lemma NewSession_held:
  assumes "NewSession ep conn sv = Some (sv', x)" "held_msgs M (sv_limits sv)"
  shows "held_msgs M (sv_limits sv') \<and> (case x of Inr s \<Rightarrow> ss_delivery s = None | Inl _ \<Rightarrow> True)"
  using assms
  by (auto simp: NewSession_def newSession_def sess_Logout_def sess_Reset_def split: prod.splits option.splits)

lemma sys_step_ok:
  assumes "sys_step ep x y" "sys_ok ep x" "ep_deferServerReject ep"
  shows "sys_ok ep y"
  using assms(1,2)
proof cases
  case (connect conn sv sv' s ss)
  with NewSession_held [OF connect(3), of "keys ss"] assms(2) show ?thesis
    by (simp add: sys_ok_def keys_def)
next
  case (refuse conn sv sv' r ss)
  with NewSession_held [OF refuse(3), of "keys ss"] assms(2) show ?thesis by (simp add: sys_ok_def)
next
  case (command i ss c sv s' sv' r)
  have s: "sess_inv ep (ss ! i)" "list_all (sess_inv ep) ss" and
    h: "held_msgs (keys (others i ss) + key_set (ss ! i)) (sv_limits sv)"
    using assms(2) command by (simp_all add: sys_ok_def keys_nth list_all_length)
  from exec_good [OF h s(1) command(5,4) assms(3)] command(6)
  have "good_out ep (keys (others i ss)) (Some (s', sv', r))" unfolding good_outs_def list_all_iff by blast
  then show ?thesis
    using command(2,3) s(2) by (auto simp: sys_ok_def keys_update list_all_length nth_list_update)
next
  case (logout i ss sv s' sv')
  have s: "sess_inv ep (ss ! i)" "list_all (sess_inv ep) ss" and
    h: "held_msgs (keys (others i ss) + key_set (ss ! i)) (sv_limits sv)"
    using assms(2) logout by (simp_all add: sys_ok_def keys_nth list_all_length)
  with Logout_held [OF h s(1)] logout others_all [OF s(2), of i] show ?thesis
    by (auto simp: sys_ok_def others_def)
qed

lemma sys_reach_ok:
  assumes "sys_reach ep sv0 x" "ep_deferServerReject ep" "held_msgs {#} (sv_limits sv0)"
  shows "sys_ok ep x"
  using assms(1)
proof induction
  case init
  then show ?case using assms(3) by (simp add: sys_ok_def keys_def)
next
  case (step x y)
  then show ?case using sys_step_ok assms(2) by blast
qed

section \<open>Accepted messages\<close>

text \<open>The final state of a delivery whose body every open target took and committed.\<close>

definition committed :: "pdelivery \<Rightarrow> pdelivery \<Rightarrow> bool" where
  "committed dd fin \<longleftrightarrow> (\<forall>t \<in> open_targets dd. (t, CBody None) \<in> set (pd_log fin) \<and> (t, CCommit None) \<in> set (pd_log fin))"

lemma finish_outcome:
  assumes "Some (s', sv', r) \<in> set (finish ep dd e s sv)"
  shows "ss_delivery s' = None \<and> sv_ended sv' = sv_ended sv @ [dd] \<and> (r = None \<longleftrightarrow> e = None)"
  using assms
  by (auto simp: finish_def cleanSession_def Let_def split: option.splits)

lemma body_commit:
  assumes "pipeline_Body env d h b dd w = Some (dd1, w1, None)" "pipeline_Commit env dd1 w1 = (dd2, w2, None)" "fair_orders env"
  shows "committed dd dd2"
proof -
  have "pd_deliveries dd1 = pd_deliveries dd" by (rule Body_deliveries [OF assms(1)])
  moreover have "set (pd_log dd2) = set (pd_log dd1) \<union> (\<lambda>t. (t, CCommit None)) ` fst ` set (pd_deliveries dd1)"
    using commit_all_log [OF assms(2) [unfolded pipeline_Commit_def]] assms(3) by (simp add: fair_sets)
  ultimately show ?thesis
    using Body_inv [OF assms(1)] assms(3) by (auto simp: committed_def open_targets_def)
qed

lemma data_accepted:
  assumes "Some (s', sv', None) \<in> set (sess_Data ep inp r s sv)" "ss_delivery s = Some dd" "fair_orders (ep_env ep)"
  shows "\<exists>dd1 h b dd2 w2 fin. prepareBody ep inp r dd = (dd1, Inr (h, b)) \<and> checkRoutingLoops ep h = None
    \<and> pipeline_Body (ep_env ep) (ep_pipeline ep) h b (tls_override h dd1) (sv_world sv) = Some (dd2, w2, None)
    \<and> ss_delivery s' = None \<and> sv_ended sv' = sv_ended sv @ [fin] \<and> committed dd fin"
proof -
  obtain dd1 x where p: "prepareBody ep inp r dd = (dd1, x)" by fastforce
  with assms(1,2) obtain h b where x: "x = Inr (h, b)" by (cases x) (auto simp: sess_Data_def)
  have c: "checkRoutingLoops ep h = None"
    using assms(1,2) p x finish_outcome [of s' sv' None ep dd1 _ s sv]
    by (cases "checkRoutingLoops ep h") (auto simp: sess_Data_def)
  obtain dd2 w2 e where B: "pipeline_Body (ep_env ep) (ep_pipeline ep) h b (tls_override h dd1) (sv_world sv) = Some (dd2, w2, e)"
    using assms(1,2) p x c
    by (cases "pipeline_Body (ep_env ep) (ep_pipeline ep) h b (tls_override h dd1) (sv_world sv)") (auto simp: sess_Data_def)
  have e: "e = None"
    using assms(1,2) p x c B finish_outcome [of s' sv' None ep dd2 e s] by (cases e) (auto simp: sess_Data_def)
  obtain fin w3 e3 where C: "pipeline_Commit (ep_env ep) dd2 w2 = (fin, w3, e3)" by (metis prod.collapse)
  have o: "Some (s', sv', None) \<in> set (finish ep fin e3 s (sv\<lparr>sv_world := w3\<rparr>))"
    using assms(1,2) p x c B e C by (simp add: sess_Data_def)
  from finish_outcome [OF o] have f: "ss_delivery s' = None" "sv_ended sv' = sv_ended sv @ [fin]" "e3 = None" by auto
  have "committed (tls_override h dd1) fin" by (rule body_commit [OF B [unfolded e] C [unfolded f(3)] assms(3)])
  then have "committed dd fin" using prepareBody_inv [OF p, of "ep_pipeline ep"] by (simp add: committed_def)
  with p x c B e f show ?thesis by auto
qed

section \<open>The delivery of a session\<close>

text \<open>The delivery a session holds is one the pipeline made; this needs neither the limits nor
  the order of commands.\<close>

definition deliv_inv :: "'w endpoint \<Rightarrow> session \<Rightarrow> bool" where
  "deliv_inv ep s = (case ss_delivery s of None \<Rightarrow> True | Some dd \<Rightarrow> pd_inv (ep_pipeline ep) dd)"

lemma outs_thenE:
  assumes "Some x \<in> set (outs_then outs k)"
  obtains s sv r where "Some (s, sv, r) \<in> set outs" "Some x \<in> set (k s sv r)"
proof -
  from assms obtain out where o: "out \<in> set outs" "Some x \<in> set (case out of None \<Rightarrow> [None] | Some (s, sv, r) \<Rightarrow> k s sv r)"
    by (auto simp: outs_then_def)
  then show thesis using that by (cases out rule: option.exhaust) auto
qed

lemma started_deliv: "started ep s s' e \<Longrightarrow> deliv_inv ep s \<Longrightarrow> deliv_inv ep s'"
  by (auto simp: started_def deliv_inv_def split: option.splits)

lemma sess_rcpt_grows:
  "sess_rcpt ep to dd s sv = (dd1, w1, e) \<Longrightarrow> grows (ep_pipeline ep) dd dd1"
  using AddRcpt_inv [of "ep_env ep" "ep_pipeline ep" _ dd "sv_world sv" dd1 w1 e]
  by (auto simp: sess_rcpt_def grows_refl split: if_splits prod.splits option.splits)

lemma rcpt_open_deliv:
  assumes "Some (s', sv', r) \<in> set (rcpt_open ep to s sv)" "deliv_inv ep s"
  shows "deliv_inv ep s'"
proof (cases "ss_delivery s")
  case None
  with assms(1) show ?thesis by (simp add: rcpt_open_def)
next
  case (Some dd)
  obtain dd1 w1 e where r: "sess_rcpt ep to dd s sv = (dd1, w1, e)" by (metis prod.collapse)
  then have "pd_inv (ep_pipeline ep) dd1" using sess_rcpt_grows [OF r] assms(2) Some by (simp add: grows_def deliv_inv_def)
  with assms(1) r Some show ?thesis by (auto simp: rcpt_open_def deliv_inv_def Let_def split: option.splits)
qed

lemma mail_deliv:
  assumes "Some (s', sv', r) \<in> set (sess_Mail ep inp sender opts s sv)" "deliv_inv ep s"
  shows "deliv_inv ep s'"
proof -
  have "ss_delivery s' = ss_delivery s \<or> (\<exists>s1 sv1 i e. Some (s1, sv1, i, e) \<in> set (startDelivery ep inp sender opts s sv)
      \<and> ss_delivery s' = ss_delivery s1)"
    using assms(1) by (force simp: sess_Mail_def elim!: outs_thenE split: if_splits option.splits)
  then show ?thesis
  proof
    assume "\<exists>s1 sv1 i e. Some (s1, sv1, i, e) \<in> set (startDelivery ep inp sender opts s sv) \<and> ss_delivery s' = ss_delivery s1"
    then obtain s1 sv1 i e where "Some (s1, sv1, i, e) \<in> set (startDelivery ep inp sender opts s sv)"
      and d: "ss_delivery s' = ss_delivery s1" by blast
    from started_deliv [OF startDelivery_started [OF this(1)] assms(2)] d show ?thesis by (simp add: deliv_inv_def)
  qed (use assms(2) in \<open>simp add: deliv_inv_def\<close>)
qed

text \<open>RCPT starts a delivery that was deferred, then adds the recipient.\<close>

lemma rcpt_cases:
  assumes "Some (s', sv', r) \<in> set (sess_Rcpt ep inp to s sv)"
  obtains "ss_delivery s \<noteq> None" "Some (s', sv', r) \<in> set (rcpt_open ep to s sv)"
    | "ss_delivery s = None" "ss_delivery s' = None" "r \<noteq> None"
    | s1 sv1 i where "ss_delivery s = None" "Some (s1, sv1, i, None) \<in> set (startDelivery ep inp (ss_mailFrom s) (ss_opts s) s sv)"
      "Some (s', sv', r) \<in> set (rcpt_open ep to s1 sv1)"
proof (cases "ss_delivery s")
  case (Some dd)
  with assms that(1) show thesis by (simp add: sess_Rcpt_def)
next
  case None
  show thesis
  proof (cases "ss_deliveryErr s")
    case (Some e)
    with None assms that(2) show thesis by (auto simp: sess_Rcpt_def simp del: not_None_eq)
  next
    case N: None
    from assms None N obtain s1 sv1 i e where
      st: "Some (s1, sv1, i, e) \<in> set (startDelivery ep inp (ss_mailFrom s) (ss_opts s) s sv)" and
      k: "Some (s', sv', r) \<in> set (case e of
          Some e \<Rightarrow> (let r = wrapErr ep i (\<not> mo_UTF8 (ss_opts s1)) (Some e) in [Some (s1\<lparr>ss_deliveryErr := r\<rparr>, sv1, r)])
        | None \<Rightarrow> rcpt_open ep to s1 sv1)"
      by (auto simp: sess_Rcpt_def elim!: outs_thenE)
    show thesis
    proof (cases e)
      case (Some err)
      with k startDelivery_started [OF st] None that(2) show thesis
        by (auto simp: Let_def started_def simp del: not_None_eq)
    next
      case ok: None
      with k st that(3) [OF None] show thesis by simp
    qed
  qed
qed

lemma rcpt_deliv:
  assumes "Some (s', sv', r) \<in> set (sess_Rcpt ep inp to s sv)" "deliv_inv ep s"
  shows "deliv_inv ep s'"
  using assms(1)
proof (cases rule: rcpt_cases)
  case 1
  then show ?thesis using rcpt_open_deliv assms(2) by blast
next
  case 2
  then show ?thesis by (simp add: deliv_inv_def)
next
  case (3 s1 sv1 i)
  from started_deliv [OF startDelivery_started [OF 3(2)] assms(2)] 3(3) show ?thesis using rcpt_open_deliv by blast
qed

section \<open>Transactions\<close>

text \<open>What a client relies on: a session is idle or has a transaction with the
  recipients accepted so far.\<close>

datatype txn = Idle | Active "string set"

fun rcpts :: "txn \<Rightarrow> string set" where
  "rcpts Idle = {}"
| "rcpts (Active R) = R"

definition txn_of :: "session \<Rightarrow> txn" where
  "txn_of s = (case ss_delivery s of None \<Rightarrow> Idle | Some dd \<Rightarrow> Active (taken dd))"

text \<open>The effect of a command with the given success; \<open>to\<close> is normalised by
  \<open>clean\<close>. MAIL begins a transaction, but leaves it to the first RCPT when the checks of the
  sender are deferred. A refused DATA either leaves the transaction (for the RSET that follows) or
  ends it; an accepted one ends it.\<close>

fun txn_step :: "(string \<Rightarrow> string) \<Rightarrow> bool \<Rightarrow> cmd \<Rightarrow> bool \<Rightarrow> txn \<Rightarrow> txn \<Rightarrow> bool" where
  "txn_step clean defer (Mail _ _ _) ok t t' \<longleftrightarrow> t' = (if ok \<and> \<not> defer then Active {} else t)"
| "txn_step clean defer (Rcpt _ to) ok t t' \<longleftrightarrow>
     rcpts t \<subseteq> rcpts t' \<and> (t \<noteq> Idle \<longrightarrow> t' \<noteq> Idle) \<and> (ok \<longrightarrow> t' \<noteq> Idle \<and> clean to \<in> rcpts t')"
| "txn_step clean defer (Data _ _) ok t t' \<longleftrightarrow> t' = Idle \<or> (\<not> ok \<and> t' = t)"
| "txn_step clean defer (LMTPData _ _) ok t t' \<longleftrightarrow> t' = Idle \<or> (\<not> ok \<and> t' = t)"
| "txn_step clean defer Reset ok t t' \<longleftrightarrow> t' = Idle"
| "txn_step clean defer (Auth _ _) ok t t' \<longleftrightarrow> t' = t"

definition clean :: "'w endpoint \<Rightarrow> string \<Rightarrow> string" where
  "clean ep to = fst (CleanDomain (mp_lib (ep_env ep)) to)"

lemma rcpt_open_txn:
  assumes "Some (s', sv', r) \<in> set (rcpt_open ep to s sv)" "ss_delivery s = Some dd" "pd_inv (ep_pipeline ep) dd"
    and "no_sink (ep_env ep) (ep_pipeline ep)"
  shows "\<exists>dd'. ss_delivery s' = Some dd' \<and> taken dd \<subseteq> taken dd' \<and> (r = None \<longrightarrow> clean ep to \<in> taken dd')"
proof -
  obtain dd1 w1 e where r: "sess_rcpt ep to dd s sv = (dd1, w1, e)" by (metis prod.collapse)
  have "taken dd \<subseteq> taken dd1 \<and> (e = None \<longrightarrow> clean ep to \<in> taken dd1)"
  proof (cases "\<not> IsASCII to \<and> \<not> mo_UTF8 (ss_opts s) \<or> snd (CleanDomain (mp_lib (ep_env ep)) to) \<noteq> None")
    case True
    with r show ?thesis by (auto simp: sess_rcpt_def split: if_splits prod.splits option.splits)
  next
    case False
    then have "pipeline_AddRcpt (ep_env ep) (ep_pipeline ep) (clean ep to) dd (sv_world sv) = (dd1, w1, e)"
      using r by (cases "CleanDomain (mp_lib (ep_env ep)) to") (auto simp: sess_rcpt_def clean_def split: if_splits)
    from AddRcpt_inv [OF this] assms(3,4) show ?thesis by (auto simp: grows_def)
  qed
  moreover have "ss_delivery s' = Some dd1" "r = None \<longleftrightarrow> e = None"
    using assms(1,2) r by (cases e; auto simp: rcpt_open_def Let_def)+
  ultimately show ?thesis by blast
qed

lemma rcpt_txn:
  assumes "Some (s', sv', r) \<in> set (sess_Rcpt ep inp to s sv)" "deliv_inv ep s" "no_sink (ep_env ep) (ep_pipeline ep)"
  shows "txn_step (clean ep) defer (Rcpt inp to) (r = None) (txn_of s) (txn_of s')"
  using assms(1)
proof (cases rule: rcpt_cases)
  case 1
  then obtain dd where "ss_delivery s = Some dd" by blast
  with rcpt_open_txn [OF 1(2) this _ assms(3)] assms(2) show ?thesis by (auto simp: txn_of_def deliv_inv_def)
next
  case 2
  then show ?thesis by (simp add: txn_of_def)
next
  case (3 s1 sv1 i)
  from startDelivery_started [OF 3(2)] obtain dd where dd: "ss_delivery s1 = Some dd" "pd_inv (ep_pipeline ep) dd"
    by (auto simp: started_def)
  from rcpt_open_txn [OF 3(3) dd assms(3)] 3(1) show ?thesis by (auto simp: txn_of_def)
qed

lemma prepare_txn:
  assumes "prepareBody ep inp r dd = (dd1, x)" "ss_delivery s = Some dd"
  shows "txn_of (s\<lparr>ss_delivery := Some dd1\<rparr>) = txn_of s"
  using prepareBody_inv [OF assms(1), of "ep_pipeline ep"] assms(2) by (simp add: txn_of_def)

lemma idle_txn [simp]: "ss_delivery s = None \<Longrightarrow> txn_of s = Idle"
  by (simp add: txn_of_def)

text \<open>DATA either fails before the body is complete or ends the transaction.\<close>

lemma data_cases:
  assumes "Some (s', sv', r) \<in> set (sess_Data ep inp b s sv)"
  obtains dd dd1 e where "ss_delivery s = Some dd" "prepareBody ep inp b dd = (dd1, Inl e)"
      "s' = s\<lparr>ss_delivery := Some dd1\<rparr>" "r \<noteq> None"
    | fin e svx where "Some (s', sv', r) \<in> set (finish ep fin e s svx)"
proof -
  from assms obtain dd where dd: "ss_delivery s = Some dd" by (cases "ss_delivery s") (auto simp: sess_Data_def)
  obtain dd1 x where p: "prepareBody ep inp b dd = (dd1, x)" by fastforce
  show thesis
  proof (cases x)
    case (Inl e)
    with assms dd p that(1) show thesis by (auto simp: sess_Data_def simp del: not_None_eq)
  next
    case (Inr hb)
    with assms dd p obtain fin e svx where "Some (s', sv', r) \<in> set (finish ep fin e s svx)"
      by (cases hb) (auto simp: sess_Data_def split: option.splits prod.splits)
    with that(2) show thesis .
  qed
qed

lemma lmtp_cases:
  assumes "Some (s', sv', q, r) \<in> set (sess_LMTPData ep inp b s sv)"
  obtains dd dd1 e where "ss_delivery s = Some dd" "prepareBody ep inp b dd = (dd1, Inl e)"
      "s' = s\<lparr>ss_delivery := Some dd1\<rparr>" "r \<noteq> None"
    | fin e svx where "Some (s', sv', r) \<in> set (finish ep fin e s svx)"
proof -
  from assms obtain dd where dd: "ss_delivery s = Some dd" by (cases "ss_delivery s") (auto simp: sess_LMTPData_def)
  obtain dd1 x where p: "prepareBody ep inp b dd = (dd1, x)" by fastforce
  show thesis
  proof (cases x)
    case (Inl e)
    with assms dd p that(1) show thesis by (auto simp: sess_LMTPData_def simp del: not_None_eq)
  next
    case (Inr hb)
    with assms dd p obtain fin e svx where "Some (s', sv', r) \<in> set (finish ep fin e s svx)"
      by (cases hb) (auto simp: sess_LMTPData_def Let_def elim!: outs_thenE split: option.splits prod.splits)
    with that(2) show thesis .
  qed
qed

lemma data_txn:
  assumes "Some (s', sv', r) \<in> set (sess_Data ep inp b s sv)"
  shows "txn_of s' = Idle \<or> (r \<noteq> None \<and> txn_of s' = txn_of s)"
  using assms by (elim data_cases) (auto dest: finish_outcome prepare_txn)

lemma lmtp_txn:
  assumes "Some (s', sv', q, r) \<in> set (sess_LMTPData ep inp b s sv)"
  shows "txn_of s' = Idle \<or> (r \<noteq> None \<and> txn_of s' = txn_of s)"
  using assms by (elim lmtp_cases) (auto dest: finish_outcome prepare_txn)

lemma reset_txn: "sess_Reset ep s sv = Some (s', sv') \<Longrightarrow> txn_of s' = Idle"
  by (auto simp: sess_Reset_def abort_session_def cleanSession_def split: option.splits prod.splits)

lemma mail_txn:
  assumes "Some (s', sv', r) \<in> set (sess_Mail ep inp sender opts s sv)"
  shows "txn_of s' = (if r = None \<and> \<not> ep_deferServerReject ep then Active {} else txn_of s)"
proof (cases "ep_authAlwaysRequired ep \<and> cs_AuthUser (ss_conn s) = [] \<or> ep_deferServerReject ep")
  case True
  with assms show ?thesis by (auto simp: sess_Mail_def txn_of_def split: if_splits)
next
  case False
  with assms obtain s1 sv1 i e where
    st: "Some (s1, sv1, i, e) \<in> set (startDelivery ep inp sender opts s sv)" and
    k: "Some (s', sv', r) \<in> set (case e of
        Some e \<Rightarrow> [Some (s1, sv1, wrapErr ep i (\<not> mo_UTF8 opts) (Some e))]
      | None \<Rightarrow> [Some (s1\<lparr>ss_mailFrom := sender, ss_opts := opts\<rparr>, sv1, None)])"
    by (auto simp: sess_Mail_def elim!: outs_thenE)
  from startDelivery_started [OF st] k False show ?thesis
    by (cases e) (auto simp: started_def txn_of_def simp del: not_None_eq)
qed

lemma exec_txn:
  assumes "Some (s', sv', r) \<in> set (exec ep c s sv)" "deliv_inv ep s" "no_sink (ep_env ep) (ep_pipeline ep)"
  shows "txn_step (clean ep) (ep_deferServerReject ep) c (r = None) (txn_of s) (txn_of s')"
proof (cases c)
  case (Mail inp sender opts)
  with assms(1) mail_txn [of s' sv' r ep inp sender opts s sv] show ?thesis by simp
next
  case (Rcpt inp to)
  with assms rcpt_txn [of s' sv' r ep inp to s sv] show ?thesis by auto
next
  case (Data inp b)
  with assms(1) data_txn [of s' sv' r ep inp b s sv] show ?thesis by auto
next
  case (LMTPData inp b)
  with assms(1) lmtp_txn [of s' sv' _ r ep inp b s sv] show ?thesis by (auto elim!: outs_thenE)
next
  case Reset
  with assms(1) reset_txn show ?thesis by (auto split: option.splits)
next
  case (Auth u p)
  with assms(1) show ?thesis by (auto simp: sess_AuthPlain_def txn_of_def split: prod.splits option.splits)
qed

section \<open>Authenticated sessions\<close>

text \<open>A session of a client, on a server that other sessions change at any time. The
  flag is go-smtp's: a MAIL was accepted. go-smtp lets RCPT and DATA through only then,
  and no authentication after a successful one.\<close>

inductive sess_reach :: "'w endpoint \<Rightarrow> session \<Rightarrow> bool \<Rightarrow> bool" for ep where
  new: "sess_reach ep (newSession ep conn) False"
| mail: "sess_reach ep s m \<Longrightarrow> Some (s', sv', r) \<in> set (sess_Mail ep inp sender opts s sv) \<Longrightarrow> sess_reach ep s' (m \<or> r = None)"
| rcpt: "sess_reach ep s True \<Longrightarrow> Some (s', sv', r) \<in> set (sess_Rcpt ep inp to s sv) \<Longrightarrow> sess_reach ep s' True"
| data: "sess_reach ep s True \<Longrightarrow> Some (s', sv', r) \<in> set (sess_Data ep inp b s sv) \<Longrightarrow> sess_reach ep s' True"
| lmtp: "sess_reach ep s True \<Longrightarrow> Some (s', sv', r) \<in> set (sess_LMTPData ep inp b s sv) \<Longrightarrow> sess_reach ep s' True"
| reset: "sess_reach ep s m \<Longrightarrow> sess_Reset ep s sv = Some (s', sv') \<Longrightarrow> sess_reach ep s' False"
| plain: "sess_reach ep s m \<Longrightarrow> cs_AuthUser (ss_conn s) = [] \<Longrightarrow> sess_AuthPlain ep u p s sv = (s', sv', r) \<Longrightarrow> sess_reach ep s' m"
| sasl: "sess_reach ep s m \<Longrightarrow> cs_AuthUser (ss_conn s) = [] \<Longrightarrow>
    sasl_exchange ep mech ident u p s sv = (s', sv', e) \<Longrightarrow> sess_reach ep s' m"

definition has_auth :: "'w endpoint \<Rightarrow> session \<Rightarrow> bool" where
  "has_auth ep s \<longleftrightarrow> cs_AuthUser (ss_conn s) \<noteq> []
    \<and> accepted_by (ep_sasl ep) (cs_AuthUser (ss_conn s)) (cs_AuthPassword (ss_conn s)) (sa_Plain (ep_sasl ep))"

definition auth_inv :: "'w endpoint \<Rightarrow> session \<Rightarrow> bool \<Rightarrow> bool" where
  "auth_inv ep s m \<longleftrightarrow> (cs_AuthUser (ss_conn s) \<noteq> [] \<longrightarrow> has_auth ep s)
    \<and> (ep_authAlwaysRequired ep \<longrightarrow> m \<or> ss_delivery s \<noteq> None \<longrightarrow> cs_AuthUser (ss_conn s) \<noteq> [])"

lemma auth_inv_keep:
  assumes "auth_inv ep s m" "ss_conn s' = ss_conn s" "m' \<longrightarrow> m" "ss_delivery s' \<noteq> None \<longrightarrow> m \<or> ss_delivery s \<noteq> None"
  shows "auth_inv ep s' m'"
  using assms unfolding auth_inv_def has_auth_def by metis

lemma rcpt_open_conn: "Some (s', sv', r) \<in> set (rcpt_open ep to s sv) \<Longrightarrow> ss_conn s' = ss_conn s"
  by (auto simp: rcpt_open_def Let_def split: option.splits prod.splits if_splits)

lemma finish_conn: "Some (s', sv', r) \<in> set (finish ep dd e s sv) \<Longrightarrow> ss_conn s' = ss_conn s"
  by (auto simp: finish_def cleanSession_def Let_def split: option.splits)

lemma mail_conn:
  "Some (s', sv', r) \<in> set (sess_Mail ep inp sender opts s sv) \<Longrightarrow> ss_conn s' = ss_conn s"
  by (auto simp: sess_Mail_def started_def elim!: outs_thenE dest!: startDelivery_started split: if_splits option.splits)

lemma rcpt_conn: "Some (s', sv', r) \<in> set (sess_Rcpt ep inp to s sv) \<Longrightarrow> ss_conn s' = ss_conn s"
  by (auto simp: sess_Rcpt_def started_def Let_def elim!: outs_thenE
      dest!: startDelivery_started rcpt_open_conn split: option.splits)

lemma data_keeps:
  assumes "Some (s', sv', r) \<in> set (sess_Data ep inp b s sv)"
  shows "ss_conn s' = ss_conn s \<and> (ss_delivery s' \<noteq> None \<longrightarrow> ss_delivery s \<noteq> None)"
  using assms by (elim data_cases) (auto dest: finish_conn finish_outcome)

lemma lmtp_keeps:
  assumes "Some (s', sv', q, r) \<in> set (sess_LMTPData ep inp b s sv)"
  shows "ss_conn s' = ss_conn s \<and> (ss_delivery s' \<noteq> None \<longrightarrow> ss_delivery s \<noteq> None)"
  using assms by (elim lmtp_cases) (auto dest: finish_conn finish_outcome)

lemma reset_keeps: "sess_Reset ep s sv = Some (s', sv') \<Longrightarrow> ss_conn s' = ss_conn s \<and> ss_delivery s' = None"
  by (auto simp: sess_Reset_def abort_session_def cleanSession_def split: option.splits prod.splits)

lemma AuthPlain_auth:
  assumes "sess_AuthPlain ep u p s sv = (s', sv', r)"
  shows "s' = s \<or> (s' = auth_success u p s \<and> accepted_by (ep_sasl ep) u p (sa_Plain (ep_sasl ep)))"
  using assms AuthPlain_sound [of "ep_sasl ep" u p]
  by (auto simp: sess_AuthPlain_def auth_success_def split: prod.splits option.splits)

lemma login_success_sound:
  assumes "login_authenticate s username password w = (w', Inr (ident, user, pass))"
  shows "pass = password \<and> accepted_by s ident pass (sa_Plain s)"
  using assms AuthPlain_sound
  by (fastforce simp: login_authenticate_def split: prod.splits sum.splits option.splits)

lemma sasl_auth_cases:
  assumes "sasl_exchange ep mech ident u p s sv = (s', sv', e)"
  shows "s' = s \<or> (\<exists>u p. s' = auth_success u p s \<and> accepted_by (ep_sasl ep) u p (sa_Plain (ep_sasl ep)))"
  using assms plain_sound login_success_sound
  by (fastforce simp: sasl_exchange_def split: prod.splits sum.splits sasl_server.splits)

lemma auth_success_inv:
  assumes "auth_inv ep s m" "cs_AuthUser (ss_conn s) = []" "accepted_by (ep_sasl ep) u p (sa_Plain (ep_sasl ep))"
  shows "auth_inv ep (auth_success u p s) m"
  using assms by (auto simp: auth_inv_def has_auth_def auth_success_def)

lemma mail_auth_inv:
  assumes "auth_inv ep s m" "Some (s', sv', r) \<in> set (sess_Mail ep inp sender opts s sv)"
  shows "auth_inv ep s' (m \<or> r = None)"
proof (cases "ep_authAlwaysRequired ep \<and> cs_AuthUser (ss_conn s) = []")
  case True
  with assms show ?thesis by (simp add: sess_Mail_def auth_inv_def)
next
  case False
  with assms(1) mail_conn [OF assms(2)] show ?thesis by (auto simp: auth_inv_def has_auth_def)
qed

lemma sess_reach_auth: "sess_reach ep s m \<Longrightarrow> auth_inv ep s m"
proof (induction rule: sess_reach.induct)
  case (new conn)
  show ?case by (simp add: auth_inv_def newSession_def conn_of_def Let_def split: option.splits)
next
  case (mail s m s' sv' r inp sender opts sv)
  then show ?case using mail_auth_inv by blast
next
  case (rcpt s s' sv' r inp to sv)
  then show ?case by (auto intro: auth_inv_keep dest: rcpt_conn)
next
  case (data s s' sv' r inp b sv)
  then show ?case by (auto intro: auth_inv_keep dest: data_keeps)
next
  case (lmtp s s' sv' r inp b sv)
  then show ?case by (cases r) (auto intro: auth_inv_keep dest: lmtp_keeps)
next
  case (reset s m sv s' sv')
  then show ?case by (auto intro: auth_inv_keep dest: reset_keeps)
next
  case (plain s m u p sv s' sv' r)
  then show ?case using AuthPlain_auth auth_success_inv by blast
next
  case (sasl s m mech ident u p sv s' sv' e)
  then show ?case using sasl_auth_cases auth_success_inv by blast
qed

lemma sess_reach_deliv: "sess_reach ep s m \<Longrightarrow> deliv_inv ep s"
proof (induction rule: sess_reach.induct)
  case (new conn)
  show ?case by (simp add: deliv_inv_def newSession_def)
next
  case (mail s m s' sv' r inp sender opts sv)
  then show ?case using mail_deliv by blast
next
  case (rcpt s s' sv' r inp to sv)
  then show ?case using rcpt_deliv by blast
next
  case (data s s' sv' r inp b sv)
  from data(2) show ?case
    by (cases rule: data_cases)
      (use data.IH prepareBody_inv [of ep inp b _ _ _ "ep_pipeline ep"] in \<open>auto simp: deliv_inv_def dest: finish_outcome\<close>)
next
  case (lmtp s s' sv' r inp b sv)
  obtain q x where "r = (q, x)" by fastforce
  with lmtp(2) have "Some (s', sv', q, x) \<in> set (sess_LMTPData ep inp b s sv)" by simp
  then show ?case
    by (cases rule: lmtp_cases)
      (use lmtp.IH prepareBody_inv [of ep inp b _ _ _ "ep_pipeline ep"] in \<open>auto simp: deliv_inv_def dest: finish_outcome\<close>)
next
  case (reset s m sv s' sv')
  then show ?case by (simp add: deliv_inv_def reset_keeps)
next
  case (plain s m u p sv s' sv' r)
  then show ?case using AuthPlain_auth [OF plain(3)] by (auto simp: deliv_inv_def auth_success_def)
next
  case (sasl s m mech ident u p sv s' sv' e)
  then show ?case using sasl_auth_cases [OF sasl(3)] by (auto simp: deliv_inv_def auth_success_def)
qed

section \<open>Replies\<close>

text \<open>The annotations \<open>wrapErr\<close> reads.\<close>

definition smtp_fields :: "go_err \<Rightarrow> fval option list" where
  "smtp_fields e = map (map_of (Fields e)) [''smtp_code'', ''smtp_enchcode'', ''smtp_msg'']"

text \<open>What a reply may depend on: that the error is a deadline, the reply a plain error of
  go-smtp carries, or else the temporary status and the annotations.\<close>

datatype visible =
    VDeadline
  | VReply int enh_code string
  | VFields bool "fval option list"

definition visible_part :: "go_err \<Rightarrow> visible" where
  "visible_part e =
    (if errors_Is e DeadlineExceeded then VDeadline
     else case e of GoSMTPError c ec m _ _ \<Rightarrow> VReply c ec m | _ \<Rightarrow> VFields (IsTemporary e) (smtp_fields e))"

lemma visible_deadline: "visible_part e = VDeadline \<longleftrightarrow> errors_Is e DeadlineExceeded"
  by (auto simp: visible_part_def split: go_err.splits)

lemma annotate_reply: "visible_part e = VReply c ec m \<Longrightarrow> annotate e res = \<lparr>sr_Code = c, sr_EnhancedCode = ec, sr_Message = m\<rparr>"
  by (cases e) (simp_all add: visible_part_def annotate_def Let_def split: if_splits)

lemma visible_fields:
  "visible_part e = VFields t fs \<Longrightarrow> t = IsTemporary e \<and> fs = smtp_fields e \<and> \<not> is_GoSMTPError e"
  by (auto simp: visible_part_def split: if_splits go_err.splits)

lemma annotate_fields:
  "visible_part e = VFields t fs \<Longrightarrow> annotate e res =
    (let res = (if t then res\<lparr>sr_Code := 451\<rparr> else res);
         res = (case fs ! 0 of Some (FInt c) \<Rightarrow> res\<lparr>sr_Code := c\<rparr> | _ \<Rightarrow> res);
         res = (case fs ! 1 of Some (FEnch c) \<Rightarrow> res\<lparr>sr_EnhancedCode := c\<rparr> | _ \<Rightarrow> res)
     in case fs ! 2 of Some (FStr m) \<Rightarrow> res\<lparr>sr_Message := m\<rparr> | _ \<Rightarrow> res)"
  by (drule visible_fields) (cases e; simp add: annotate_def smtp_fields_def Let_def numeral_2_eq_2 )

lemma annotate_visible: "visible_part e = visible_part e' \<Longrightarrow> \<not> errors_Is e DeadlineExceeded \<Longrightarrow> annotate e res = annotate e' res"
proof (cases "visible_part e")
  case VDeadline
  then show "\<not> errors_Is e DeadlineExceeded \<Longrightarrow> ?thesis" by (simp add: visible_deadline)
next
  case (VReply c ec m)
  then show "visible_part e = visible_part e' \<Longrightarrow> ?thesis" using annotate_reply [of e c ec m] annotate_reply [of e' c ec m] by simp
next
  case (VFields t fs)
  then show "visible_part e = visible_part e' \<Longrightarrow> ?thesis" using annotate_fields [of e t fs] annotate_fields [of e' t fs] by simp
qed

lemma annotate_message:
  "visible_part e = VFields t [c, ec, None] \<Longrightarrow> sr_Message (annotate e res) = sr_Message res"
  by (simp add: annotate_fields Let_def split: option.splits fval.splits)

section \<open>Reading a limited stream\<close>

text \<open>Reads of any positive sizes until the first error.\<close>

fun read_all :: "nat list \<Rightarrow> limited_reader \<Rightarrow> limited_reader \<times> string \<times> go_err option" where
  "read_all [] l = (l, [], None)"
| "read_all (n # ns) l =
     (case limited_Read n l of
        (l', got, Some e) \<Rightarrow> (l', got, Some e)
      | (l', got, None) \<Rightarrow> (case read_all ns l' of (l'', rest, e) \<Rightarrow> (l'', got @ rest, e)))"

text \<open>A limited stream gives a prefix within the limit; when an error comes, it is the
  whole prefix the limit allows, and the error is that of the limit exactly when the
  stream is at least as long. This is what \<open>prepareBody\<close> hands to the header parser.\<close>

lemma limited_reads:
  assumes "read_all ns l = (l', got, e)" "lr_Enabled l" "0 \<le> lr_N l" "list_all (\<lambda>n. 0 < n) ns"
  shows "take (length got) (lr_R l) = got \<and> length got \<le> nat (lr_N l)
    \<and> (\<forall>err. e = Some err \<longrightarrow> got = take (nat (lr_N l)) (lr_R l)
        \<and> err = (if nat (lr_N l) \<le> length (lr_R l) then lr_E l else EOF))"
  using assms
proof (induction ns arbitrary: l l' got e)
  case Nil
  then show ?case by simp
next
  case (Cons n ns)
  show ?case
  proof (cases "lr_N l = 0 \<or> lr_R l = []")
    case True
    with Cons.prems show ?thesis by (auto simp: limited_Read_def stream_Read_def min_def split: if_splits)
  next
    case False
    let ?k = "if int n > lr_N l then nat (lr_N l) else n"
    define a b where ab: "a = take ?k (lr_R l)" "b = drop ?k (lr_R l)"
    let ?l = "l\<lparr>lr_R := b, lr_N := lr_N l - int (length a)\<rparr>"
    have R: "lr_R l = a @ b" by (simp add: ab)
    have la: "int (length a) \<le> lr_N l" using Cons.prems(3) by (auto simp: ab min_def)
    have "limited_Read n l = (?l, a, None)"
      using False Cons.prems(2,3) by (simp add: limited_Read_def stream_Read_def ab)
    then obtain rest where rest: "read_all ns ?l = (l', rest, e)" "got = a @ rest"
      using Cons.prems(1) by (auto split: prod.splits)
    have "take (length rest) b = rest \<and> length rest \<le> nat (lr_N ?l)
      \<and> (\<forall>err. e = Some err \<longrightarrow> rest = take (nat (lr_N ?l)) b \<and> err = (if nat (lr_N ?l) \<le> length b then lr_E l else EOF))"
      using Cons.IH [OF rest(1)] Cons.prems(2,4) la by (auto split: if_splits)
    moreover have "nat (lr_N l) = length a + nat (lr_N ?l)" using la by simp
    ultimately show ?thesis by (simp add: R rest(2))
  qed
qed

end
