(* ===== verification/SmtpProps.thy ===== *)
theory SmtpProps
  imports SmtpInv
begin

text \<open>
  Properties of the SMTP endpoint: the limits are balanced over every interleaving of
  sessions, an accepted message is committed at every target, a session refines an
  abstract transaction, and replies disclose annotations only.
\<close>

section \<open>Properties\<close>


text \<open>C1: a message accepted with DATA is committed. When DATA replies success in a
  session of any client, the delivery is over and every target with a started delivery took
  the body and committed it. If every reject of a check comes with a reason, no check of the
  pipeline, of the source block and of the recipient blocks in use is one that rejects the
  header and body that were read in every state and world. Map iteration visits each entry
  once, and every goroutine of a group of checks runs.\<close>

theorem accepted_data_committed:
  assumes "sess_reach ep s m" "ss_delivery s = Some dd" "fair_orders (ep_env ep)"
    and "Some (s', sv', None) \<in> set (sess_Data ep inp r s sv)"
  shows "ss_delivery s' = None \<and> (\<exists>fin. sv_ended sv' = sv_ended sv @ [fin] \<and> committed dd fin)
    \<and> (\<exists>h b dd1. prepareBody ep inp r dd = (dd1, Inr (h, b))
        \<and> (sound_checks (ep_env ep) h b \<longrightarrow> passes (ep_env ep) h b (pl_globalChecks (ep_pipeline ep))
             \<and> passes (ep_env ep) h b (sb_checks (pd_sourceBlock dd))
             \<and> (\<forall>blk \<in> open_blocks dd. passes (ep_env ep) h b (rb_checks (pl_block (ep_pipeline ep) blk)))))"
proof -
  have st: "states_ok (rn_states (pd_runner dd))"
    using sess_reach_deliv [OF assms(1)] assms(2) by (simp add: deliv_inv_def pd_inv_def)
  from data_accepted [OF assms(4,2,3)] obtain dd1 h b dd2 w2 fin where
    p: "prepareBody ep inp r dd = (dd1, Inr (h, b))" and
    B: "pipeline_Body (ep_env ep) (ep_pipeline ep) h b (tls_override h dd1) (sv_world sv) = Some (dd2, w2, None)" and
    c: "ss_delivery s' = None" "sv_ended sv' = sv_ended sv @ [fin]" "committed dd fin"
    by blast
  note same = prepareBody_same [OF p]
  have "passes (ep_env ep) h b (pl_globalChecks (ep_pipeline ep)) \<and> passes (ep_env ep) h b (sb_checks (pd_sourceBlock dd))
      \<and> (\<forall>blk \<in> open_blocks dd. passes (ep_env ep) h b (rb_checks (pl_block (ep_pipeline ep) blk)))"
    if "sound_checks (ep_env ep) h b"
    using Body_inv [OF B] that st assms(3) same by simp
  with p c show ?thesis by blast
qed

text \<open>C3: a session refines a transaction. Every command that does not panic, in any order and
  whatever the checks, targets and other sessions do, acts on the abstract transaction as
  \<open>txn_step\<close> says: RCPT forgets no recipient, an accepted recipient is in the
  transaction, an accepted DATA ends it, a refused one ends it or leaves it as it was, RSET
  ends it, and MAIL begins one without recipients (at the first RCPT when the sender checks
  are deferred). This is for pipelines in which no modifier answers with an empty list and
  every recipient block that does not reject has a target.\<close>

theorem session_refines_transaction:
  assumes "sess_reach ep s m" and "no_sink (ep_env ep) (ep_pipeline ep)"
    and "Some (s', sv', r) \<in> set (exec ep c s sv)"
  shows "txn_step (clean ep) (ep_deferServerReject ep) c (r = None) (txn_of s) (txn_of s')"
  by (rule exec_txn [OF assms(3) sess_reach_deliv [OF assms(1)] assms(2)])

text \<open>C4: mail is taken only from authenticated clients where authentication is required.
  In every session that began unauthenticated, an open transaction on such an
  endpoint belongs to a user name and password one of the configured providers has
  accepted.\<close>

theorem mail_requires_auth:
  assumes "sess_reach ep s m" "ep_authAlwaysRequired ep" "ss_delivery s \<noteq> None"
  shows "cs_AuthUser (ss_conn s) \<noteq> []
    \<and> accepted_by (ep_sasl ep) (cs_AuthUser (ss_conn s)) (cs_AuthPassword (ss_conn s)) (sa_Plain (ep_sasl ep))"
  using sess_reach_auth [OF assms(1)] assms(2,3) by (auto simp: auth_inv_def has_auth_def)

text \<open>C34: replies disclose annotations only. The reply is the same for two errors with the
  same visible part: that it is a deadline, which has one fixed reply; the code and text of
  an error of go-smtp itself, which are passed on; and for every other error the temporary
  status and the three SMTP annotations. An error of the last kind without a message
  annotation has the generic text.\<close>

theorem reply_discloses_annotations_only:
  assumes "visible_part e = visible_part e'"
  shows "wrapErr ep i mng (Some e) = wrapErr ep i mng (Some e')
    \<and> (visible_part e = VDeadline \<longrightarrow> wrapErr ep i mng (Some e)
        = Some \<lparr>sr_Code = 451, sr_EnhancedCode = (4, 4, 5), sr_Message = ''High load, try again later''\<rparr>)
    \<and> (visible_part e = VFields t [c, ec, None] \<longrightarrow>
        map_option sr_Message (wrapErr ep i mng (Some e))
          = Some ((if mng then mangle else id) (''Internal server error'' @ (if i = [] then [] else '' (msg ID = '' @ i @ '')''))))"
proof (intro conjI impI)
  have "errors_Is e DeadlineExceeded = errors_Is e' DeadlineExceeded"
    using assms by (simp flip: visible_deadline)
  then show "wrapErr ep i mng (Some e) = wrapErr ep i mng (Some e')"
    using annotate_visible [OF assms] by (simp add: wrapErr_def)
next
  assume v: "visible_part e = VFields t [c, ec, None]"
  then have "\<not> errors_Is e DeadlineExceeded" by (simp flip: visible_deadline)
  with annotate_message [OF v] show "map_option sr_Message (wrapErr ep i mng (Some e))
      = Some ((if mng then mangle else id) (''Internal server error'' @ (if i = [] then [] else '' (msg ID = '' @ i @ '')'')))"
    by (simp add: wrapErr_def Let_def)
qed (simp add: wrapErr_def visible_deadline)

section \<open>A concrete server\<close>

definition demo_conn :: smtp_conn where
  "demo_conn = \<lparr>sc_Hostname = ''c'', sc_RemoteAddr = None, sc_HandshakeComplete = True\<rparr>"

definition demo_ep :: "nat endpoint" where
  "demo_ep = \<lparr>ep_env = pipe_env, ep_pipeline = pipe, ep_early = (\<lambda>_. None),
     ep_sasl = \<lparr>sa_EnableLogin = False, sa_AuthMap = None, sa_AuthNormalize = None, sa_Plain = []\<rparr>,
     ep_authAlwaysRequired = False, ep_submission = False, ep_lmtp = False, ep_LookupAddr = None, ep_deferServerReject = True, ep_maxLoggedRcptErrors = 5,
     ep_maxReceived = 50, ep_maxHeaderBytes = 1000, ep_Domain = ''mx'',
     ep_ErrAuthRequired = \<lparr>sr_Code = 502, sr_EnhancedCode = (5, 7, 0), sr_Message = ''Please authenticate first''\<rparr>,
     ep_EnhancedCodeNotSet = (0, 0, 0), ep_ReadHeader = (\<lambda>b _. Inr ([], b)), ep_buffer = (\<lambda>_. None),
     ep_ParseAddress = (\<lambda>_. None), ep_ParseAddressList = (\<lambda>_. Inr 1), ep_timeParse = (\<lambda>_ _. True), ep_earlyOrder = rev\<rparr>"

definition demo_inp :: inputs where
  "demo_inp = \<lparr>in_rawID = [], in_idErr = None, in_now = 0, in_ctx = None, in_msgID = Inr ''m'', in_date = ''d''\<rparr>"

definition demo_sv :: "nat server" where
  "demo_sv = \<lparr>sv_world = 0, sv_limits = demo_group, sv_sessionCnt = 0, sv_ended = []\<rparr>"

lemma demo_ep_sel:
  "ep_LookupAddr demo_ep = None" "\<not> ep_lmtp demo_ep" "ep_env demo_ep = pipe_env" "ep_pipeline demo_ep = pipe" "ep_deferServerReject demo_ep" "\<not> ep_authAlwaysRequired demo_ep"
  "ep_early demo_ep c = None" "ep_earlyOrder demo_ep = rev" "\<not> ep_submission demo_ep" "ep_maxReceived demo_ep = 50"
  "ep_ReadHeader demo_ep b e = Inr ([], b)" "ep_buffer demo_ep b = None"
  by (simp_all add: demo_ep_def)



lemma demo_mail: "sess_Mail demo_ep demo_inp [] no_opts (newSession demo_ep demo_conn) sv = [Some (newSession demo_ep demo_conn, sv, None)]"
  by (simp add: sess_Mail_def demo_ep_sel newSession_def)

lemma demo_clean: "IsASCII ''a@b'' \<and> CleanDomain ascii_lib ''a@b'' = (''a@b'', None)"
proof -
  have "Split ''a@b'' = (''a'', ''b'', None)" using Split_at [of "''b''" "''a''"] by simp
  then show ?thesis
    by (simp add: CleanDomain_def ascii_lib_def ToLower_def lower_ascii_def IsASCII_def char_of_eq_iff)
qed

definition demo_rcpt :: "(session \<times> nat server \<times> smtp_reply option) option" where
  "demo_rcpt = hd (sess_Rcpt demo_ep demo_inp ''a@b'' (newSession demo_ep demo_conn) (demo_sv\<lparr>sv_sessionCnt := 1\<rparr>))"

lemmas demo_eval = sess_Rcpt_def newSession_def conn_of_def startDelivery_def demo_inp_def GenerateMsgID_def no_opts_def start_limited_def
  start_pipeline_def demo_sv_def demo_group_def TakeMsg_def sem_TakeContext_def outs_bind_def take_ip_def take_source_def
  outs_then_def rcpt_open_def sess_rcpt_def demo_clean demo_ep_sel new_meta_def pipe_dd_eval

definition demo_s :: session where
  "demo_s = fst (the demo_rcpt)"

definition demo_sv1 :: "nat server" where
  "demo_sv1 = fst (snd (the demo_rcpt))"

lemma demo_rcpt_eval:
  "sess_Rcpt demo_ep demo_inp ''a@b'' (newSession demo_ep demo_conn) (demo_sv\<lparr>sv_sessionCnt := 1\<rparr>) = [Some (demo_s, demo_sv1, None)]"
  by (simp add: demo_s_def demo_sv1_def demo_rcpt_def demo_eval)

lemma demo_open: "\<exists>dd. ss_delivery demo_s = Some dd \<and> 5 \<in> open_targets dd \<and> 0 \<in> open_blocks dd"
  by (simp add: demo_s_def demo_rcpt_def open_targets_def open_blocks_def demo_eval)






lemma demo_data: "\<exists>s sv. sess_Data demo_ep demo_inp [] demo_s demo_sv1 = [Some (s, sv, None)]"
  by (simp add: sess_Data_def prepareBody_def checkRoutingLoops_def FieldsByKey_def tls_override_def hdr_Get_def EqualFold_def
      finish_def cleanSession_def releaseLimits_def ReleaseMsg_def global_Release_def sem_Release_def
      pipeline_Commit_def pd_close_def
      pipeline_Body_def top_checks_def add_received_def applyResults_def rewrite_body_def
      demo_s_def demo_sv1_def demo_rcpt_def demo_eval)

definition demo_sv2 :: "nat server" where
  "demo_sv2 = fst (snd (the (hd (sess_Data demo_ep demo_inp [] demo_s demo_sv1))))"

lemma demo_sess_reach: "sess_reach demo_ep demo_s True"
proof -
  have "sess_reach demo_ep (newSession demo_ep demo_conn) True"
    using sess_reach.mail [OF sess_reach.new, of "newSession demo_ep demo_conn" demo_sv None demo_ep demo_inp "[]" no_opts demo_conn demo_sv]
    by (simp add: demo_mail)
  from sess_reach.rcpt [OF this] demo_rcpt_eval show ?thesis by (metis list.set_intros(1))
qed

theorem accepted_data_committed_witness:
  "(5, CBody None) \<in> set (pd_log (last (sv_ended demo_sv2))) \<and> (5, CCommit None) \<in> set (pd_log (last (sv_ended demo_sv2)))
    \<and> passes pipe_env [] [] (pl_globalChecks pipe) \<and> passes pipe_env [] [] [7]"
proof -
  from demo_open obtain dd where d: "ss_delivery demo_s = Some dd" "5 \<in> open_targets dd" "0 \<in> open_blocks dd" by blast
  from demo_data obtain s where a: "Some (s, demo_sv2, None) \<in> set (sess_Data demo_ep demo_inp [] demo_s demo_sv1)"
    by (auto simp: demo_sv2_def)
  have p: "prepareBody demo_ep demo_inp [] dd = (dd', Inr (h, b)) \<Longrightarrow> h = [] \<and> b = []" for dd' h b
    by (auto simp: prepareBody_def demo_ep_sel Let_def split: if_splits option.splits sum.splits)
  have blk: "rb_checks (pl_block pipe 0) = [7]" by (simp add: pipe_def pl_block_def pipe_block_def)
  from accepted_data_committed [OF demo_sess_reach d(1) _ a] pipe_fair d p pipe_sound blk
  show ?thesis by (fastforce simp: committed_def demo_ep_sel)
qed

theorem session_refines_transaction_witness:
  "txn_step (clean demo_ep) True (Rcpt demo_inp ''a@b'') True Idle (txn_of demo_s)"
proof -
  have n: "no_sink (ep_env demo_ep) (ep_pipeline demo_ep)"
    by (simp add: no_sink_def demo_ep_sel pipe_sel pipe_mods_def pipe_def pl_block_def pipe_block_def nil_block_def)
  from session_refines_transaction [OF sess_reach.new n, of demo_s demo_sv1 None "Rcpt demo_inp ''a@b''" demo_conn "demo_sv\<lparr>sv_sessionCnt := 1\<rparr>"]
  have "txn_step (clean demo_ep) True (Rcpt demo_inp ''a@b'') True (txn_of (newSession demo_ep demo_conn)) (txn_of demo_s)"
    by (simp add: demo_rcpt_eval demo_ep_sel)
  then show ?thesis by (simp add: newSession_def)
qed

theorem reply_discloses_annotations_only_witness:
  "map_option sr_Message (wrapErr demo_ep [] False (Some (ErrNew ''/etc/secret: no such file''))) = Some ''Internal server error''"
proof -
  let ?e = "ErrNew ''/etc/secret: no such file''" and ?e' = "ErrNew ''x''"
  note ev = visible_part_def errors_Is.simps DeadlineExceeded_def smtp_fields_def Fields_def fields_loop.simps IsTemporary_def as_temporary.simps
  have p: "visible_part ?e = VFields False [None, None, None]" "visible_part ?e' = VFields False [None, None, None]"
    by (simp_all add: ev)
  then have "visible_part ?e = visible_part ?e'" by simp
  from conjunct2 [OF conjunct2 [OF reply_discloses_annotations_only [OF this, of demo_ep "[]" False False None None]]] p(1)
  show ?thesis by simp
qed

text \<open>The same with required authentication and a provider that knows one password.\<close>

definition auth_ep :: "nat endpoint" where
  "auth_ep = demo_ep\<lparr>ep_authAlwaysRequired := True,
     ep_sasl := \<lparr>sa_EnableLogin = False, sa_AuthMap = None, sa_AuthNormalize = None,
       sa_Plain = [\<lambda>u p w. (w, if p = ''pw'' then None else Some ErrInvalidAuthCred)]\<rparr>\<rparr>"

lemma auth_ep_sel:
  "ep_LookupAddr auth_ep = None" "\<not> ep_lmtp auth_ep" "ep_env auth_ep = pipe_env" "ep_pipeline auth_ep = pipe" "ep_deferServerReject auth_ep" "ep_authAlwaysRequired auth_ep"
  "ep_sasl auth_ep = \<lparr>sa_EnableLogin = False, sa_AuthMap = None, sa_AuthNormalize = None,
     sa_Plain = [\<lambda>u p w. (w, if p = ''pw'' then None else Some ErrInvalidAuthCred)]\<rparr>"
  by (simp_all add: auth_ep_def demo_ep_sel)

definition auth_s :: session where
  "auth_s = auth_success ''u'' ''pw'' (newSession auth_ep demo_conn)"

lemma auth_reach: "sess_reach auth_ep auth_s True"
proof -
  have "sess_reach auth_ep (newSession auth_ep demo_conn) False" by (rule sess_reach.new)
  moreover have "sasl_exchange auth_ep ''PLAIN'' [] ''u'' ''pw'' (newSession auth_ep demo_conn) demo_sv = (auth_s, demo_sv, None)"
    by (simp add: sasl_exchange_def sess_Auth_def CreateSASL_def plain_authenticate_def AuthPlain_def usernameForAuth_def
        auth_ep_sel auth_s_def demo_sv_def Let_def)
  moreover have "cs_AuthUser (ss_conn (newSession auth_ep demo_conn)) = []" by (simp add: newSession_def conn_of_def auth_ep_sel)
  ultimately have "sess_reach auth_ep auth_s False" by (blast intro: sess_reach.sasl)
  moreover have "Some (auth_s, demo_sv, None) \<in> set (sess_Mail auth_ep demo_inp [] no_opts auth_s demo_sv)"
    by (simp add: sess_Mail_def auth_ep_sel auth_s_def auth_success_def newSession_def)
  ultimately show ?thesis using sess_reach.mail [of auth_ep auth_s False auth_s demo_sv None] by simp
qed

lemma auth_rcpt:
  "\<exists>s sv. sess_Rcpt auth_ep demo_inp ''a@b'' auth_s demo_sv = [Some (s, sv, None)] \<and> ss_delivery s \<noteq> None \<and> ss_conn s = ss_conn auth_s"
  by (simp add: auth_s_def auth_success_def auth_ep_sel demo_eval)

theorem mail_requires_auth_witness:
  "accepted_by (ep_sasl auth_ep) ''u'' ''pw'' (sa_Plain (ep_sasl auth_ep))"
proof -
  from auth_rcpt obtain s sv where r: "sess_Rcpt auth_ep demo_inp ''a@b'' auth_s demo_sv = [Some (s, sv, None)]"
    and d: "ss_delivery s \<noteq> None" "ss_conn s = ss_conn auth_s" by blast
  have "sess_reach auth_ep s True" by (rule sess_reach.rcpt [OF auth_reach, of s sv None demo_inp "''a@b''" demo_sv]) (simp add: r)
  from mail_requires_auth [OF this auth_ep_sel(6) d(1)] d(2) show ?thesis by (simp add: auth_s_def auth_success_def)
qed

section \<open>Observations\<close>

text \<open>When the header has too many \<open>Received\<close> fields or a check, a modifier or a target
  refuses the body, the delivery is dropped without \<open>Abort\<close>: no target receives an
  ending call.\<close>

lemma body_error_not_aborted:
  assumes "Some (s', sv', r) \<in> set (sess_Data ep inp b s sv)" "ss_delivery s = Some dd" "pd_inv (ep_pipeline ep) dd"
    and "prepareBody ep inp b dd = (dd1, Inr (h, body))"
    and "checkRoutingLoops ep h \<noteq> None
      \<or> (\<exists>dd2 w e. pipeline_Body (ep_env ep) (ep_pipeline ep) h body (tls_override h dd1) (sv_world sv) = Some (dd2, w, Some e))"
  shows "\<exists>fin. sv_ended sv' = sv_ended sv @ [fin] \<and> ss_delivery s' = None \<and> ends fin t = 0"
proof -
  have inv: "pd_inv (ep_pipeline ep) dd1" using prepareBody_inv [OF assms(4), of "ep_pipeline ep"] assms(3) by simp
  have "\<exists>fin e svx. Some (s', sv', r) \<in> set (finish ep fin e s svx) \<and> sv_ended svx = sv_ended sv \<and> pd_inv (ep_pipeline ep) fin"
  proof (cases "checkRoutingLoops ep h")
    case (Some err)
    with assms(1,2,4) inv show ?thesis by (auto simp: sess_Data_def)
  next
    case None
    with assms(5) obtain dd2 w e where
      B: "pipeline_Body (ep_env ep) (ep_pipeline ep) h body (tls_override h dd1) (sv_world sv) = Some (dd2, w, Some e)" by blast
    have "pd_inv (ep_pipeline ep) dd2"
      using Body_inv [OF B] inv by (simp add: grows_def)
    with None B assms(1,2,4) show ?thesis by (auto simp: sess_Data_def intro!: exI [of _ dd2] exI [of _ "sv\<lparr>sv_world := w\<rparr>"])
  qed
  then show ?thesis using finish_outcome no_ends by metis
qed

text \<open>Without \<open>defer_sender_reject\<close> a successful MAIL leaves the address of the client
  in the session, not the normalised one whose domain the limit was taken for.\<close>

lemma mail_keeps_raw_sender:
  assumes "\<not> ep_deferServerReject ep" "Some (s', sv', None) \<in> set (sess_Mail ep inp sender opts s sv)"
  shows "ss_mailFrom s' = sender"
  using assms by (auto simp: sess_Mail_def elim!: outs_thenE split: if_splits option.splits)

text \<open>The error of a deferred sender check survives RSET and the next MAIL: the new
  sender gets the reply of the old one.\<close>

lemma sender_error_survives_reset:
  assumes "ss_delivery s = None" "ss_deliveryErr s = Some e" "ep_deferServerReject ep" "\<not> ep_authAlwaysRequired ep"
  shows "sess_Reset ep s sv = Some (s, sv)"
    and "sess_Mail ep inp sender opts s sv = [Some (s\<lparr>ss_mailFrom := sender, ss_opts := opts\<rparr>, sv, None)]"
    and "sess_Rcpt ep inp to (s\<lparr>ss_mailFrom := sender, ss_opts := opts\<rparr>) sv
      = [Some (s\<lparr>ss_mailFrom := sender, ss_opts := opts, ss_repeatedMailErrs := ss_repeatedMailErrs s + 1\<rparr>, sv, Some e)]"
  using assms by (simp_all add: sess_Reset_def sess_Mail_def sess_Rcpt_def)

text \<open>A connection the early checks refuse was not counted but is subtracted.\<close>

lemma refused_connection_uncounted:
  assumes "RunEarlyChecks ep (conn_of ep conn) (sv_world sv) = (w, Some err)"
  shows "\<exists>sv' r. NewSession ep conn sv = Some (sv', Inl r) \<and> sv_sessionCnt sv' = sv_sessionCnt sv - 1"
  using assms by (simp add: NewSession_def sess_Logout_def sess_Reset_def newSession_def)

end
