(* ===== verification/PipelineConfig.thy ===== *)
theory PipelineConfig
  imports MsgPipeline CheckAction
begin

text \<open>
  The configuration of the message pipeline (\<open>internal/msgpipeline/config.go\<close> and
  \<open>New\<close> of \<open>msgpipeline.go\<close>): the blocks of nodes are turned into the records
  the pipeline runs on. Modules are instantiated by the functions of \<open>cfg_mods\<close> on
  a state \<open>'g\<close>, the registry of modules; a rerouted pipeline becomes a target with
  an identity of its own. Recipient blocks are numbered per pipeline.
\<close>

section \<open>Modules\<close>

record 'g cfg_mods =
  cm_lib :: cfg_lib
  cm_text :: text_lib
  cm_Checks :: "node \<Rightarrow> 'g \<Rightarrow> 'g \<times> (go_err + nat list)"
  cm_Modifiers :: "node \<Rightarrow> 'g \<Rightarrow> 'g \<times> (go_err + nat list)"
  cm_Table :: "string list \<Rightarrow> 'g \<Rightarrow> 'g \<times> (go_err + nat)"
  cm_Target :: "node \<Rightarrow> 'g \<Rightarrow> 'g \<times> (go_err + nat)"
  cm_Pipeline :: "pipeline \<Rightarrow> 'g \<Rightarrow> 'g \<times> nat"

section \<open>The reject directive\<close>

definition parseEnhancedCode :: "cfg_lib \<Rightarrow> string \<Rightarrow> go_err + enh_code" where
  "parseEnhancedCode lib s =
    (let parts = split_byte CHR ''.'' s in
     if length parts \<noteq> 3 then Inl (ErrNew ''wrong amount of enhanced code parts'')
     else (case enh_parts lib parts of
         Inl e \<Rightarrow> Inl e
       | Inr nums \<Rightarrow> Inr (nums ! 0, nums ! 1, nums ! 2)))"

definition reject_one :: "cfg_lib \<Rightarrow> node \<Rightarrow> string \<Rightarrow> enh_code \<Rightarrow> string \<Rightarrow> go_err + go_err" where
  "reject_one lib node a ench msg =
    (case Atoi a of
       None \<Rightarrow> Inl (NodeErr node (''invalid error code integer: '' @ err_string (cl_atoiErr lib a)))
     | Some code \<Rightarrow>
         if go_div code 100 \<noteq> 4 \<and> go_div code 100 \<noteq> 5
         then Inl (NodeErr node ''error code should start with either 4 or 5'')
         else Inr (reject_err code ench msg))"

definition reject_two :: "cfg_lib \<Rightarrow> node \<Rightarrow> string \<Rightarrow> string \<Rightarrow> string \<Rightarrow> go_err + go_err" where
  "reject_two lib node a b msg =
    (case parseEnhancedCode lib b of
       Inl e \<Rightarrow> Inl (NodeErr node (err_string e))
     | Inr ench \<Rightarrow>
         if fst ench \<noteq> 4 \<and> fst ench \<noteq> 5
         then Inl (NodeErr node ''enhanced code should use either 4 or 5 as a first number'')
         else reject_one lib node a ench msg)"

definition parseRejectDirective :: "cfg_lib \<Rightarrow> node \<Rightarrow> go_err + go_err" where
  "parseRejectDirective lib node =
    (let msg = ''Message rejected due to a local policy'' in
     case n_Args node of
       [] \<Rightarrow> Inr (reject_err 554 (5, 7, 0) msg)
     | [a] \<Rightarrow> reject_one lib node a (5, 7, 0) msg
     | [a, b] \<Rightarrow> reject_two lib node a b msg
     | [a, b, m] \<Rightarrow> if m = [] then Inl (NodeErr node ''message can't be empty'') else reject_two lib node a b m
     | _ \<Rightarrow> Inl (NodeErr node ''invalid count of arguments''))"

section \<open>Matching rules\<close>

definition validMatchRule :: "text_lib \<Rightarrow> string \<Rightarrow> bool" where
  "validMatchRule lib rule = (ValidDomain lib rule \<or> Valid lib rule)"

definition match_rule :: "text_lib \<Rightarrow> string \<Rightarrow> string \<times> go_err option" where
  "match_rule lib rule = (if Contains rule ''@'' then ForLookup lib rule else dns_ForLookup lib rule)"

text \<open>The loop over the arguments of a \<open>source\<close> or \<open>destination\<close> node; the texts are
  those of its two errors. A rule that is already there is kept.\<close>

fun add_rules ::
  "text_lib \<Rightarrow> node \<Rightarrow> string \<times> string \<Rightarrow> 'b \<Rightarrow> string list \<Rightarrow> (string \<times> 'b) list \<Rightarrow> go_err + (string \<times> 'b) list" where
  "add_rules lib node texts blk [] m = Inr m"
| "add_rules lib node texts blk (rule # rules) m =
     (case match_rule lib rule of
        (rule, Some err) \<Rightarrow> Inl (NodeErr node (fst texts @ rule @ '': '' @ err_string err))
      | (rule, None) \<Rightarrow>
         if \<not> validMatchRule lib rule then Inl (NodeErr node (snd texts @ rule))
         else if map_of m rule \<noteq> None then add_rules lib node texts blk rules m
         else add_rules lib node texts blk rules (m @ [(rule, blk)]))"

definition src_texts :: "string \<times> string" where
  "src_texts = (''invalid source match rule: '', ''invalid source routing rule: '')"

definition rcpt_texts :: "string \<times> string" where
  "rcpt_texts = (''invalid destination match rule: '', ''invalid destination match rule: '')"

text \<open>The directives that are collected for the default block, and the children of the
  default node; a default node without a block leaves the variable nil.\<close>

definition rcpt_directives :: "string list" where
  "rcpt_directives = [''deliver_to'', ''reroute'', ''reject'']"

definition root_directives :: "string list" where
  "root_directives = [''deliver_to'', ''reroute'', ''destination_in'', ''destination'', ''default_destination'', ''reject'']"

definition othersRaw :: "string list \<Rightarrow> node list \<Rightarrow> node list" where
  "othersRaw names ns = filter (\<lambda>n. n_Name n \<in> set names) ns"

definition defaultRaw :: "string \<Rightarrow> node list \<Rightarrow> node list" where
  "defaultRaw name ns = (case rev (filter (\<lambda>n. n_Name n = name) ns) of [] \<Rightarrow> [] | n # _ \<Rightarrow> children n)"

section \<open>Blocks\<close>

definition empty_rcpt :: rcpt_block where
  "empty_rcpt = \<lparr>rb_checks = [], rb_modifiers = [], rb_rejectErr = None, rb_targets = []\<rparr>"

definition empty_src :: source_block where
  "empty_src = \<lparr>sb_checks = [], sb_modifiers = [], sb_rejectErr = None, sb_rcptIn = [], sb_perRcpt = Map.empty, sb_defaultRcpt = 0\<rparr>"

text \<open>The state of the loop of a source block: the block, its rules, the recipient blocks
  so far and the children of the default node.\<close>

record src_acc =
  sa_src :: source_block
  sa_per :: "(string \<times> nat) list"
  sa_blocks :: "rcpt_block list"
  sa_default :: "node list option"

record root_acc =
  ra_checks :: "nat list"
  ra_modifiers :: "nat list"
  ra_sourceIn :: "(nat \<times> source_block) list"
  ra_per :: "(string \<times> source_block) list"
  ra_doDMARC :: bool
  ra_blocks :: "rcpt_block list"
  ra_default :: "node list option"

definition pipeline_of :: "root_acc \<Rightarrow> source_block \<Rightarrow> rcpt_block list \<Rightarrow> pipeline" where
  "pipeline_of cfg dflt blocks =
    \<lparr>pl_globalChecks = ra_checks cfg, pl_globalModifiers = ra_modifiers cfg, pl_sourceIn = ra_sourceIn cfg,
     pl_perSource = map_of (ra_per cfg), pl_defaultSource = dflt, pl_doDMARC = ra_doDMARC cfg, pl_Hostname = [],
     pl_FirstPipeline = False, pl_blocks = blocks\<rparr>"

text \<open>The \<open>dmarc\<close> directive: with two or more arguments it is ignored.\<close>

definition parse_dmarc :: "node \<Rightarrow> bool \<Rightarrow> go_err + bool" where
  "parse_dmarc node doDMARC =
    (case n_Args node of
       [] \<Rightarrow> Inr True
     | [a] \<Rightarrow> if a = ''yes'' then Inr True else if a = ''no'' then Inr doDMARC
              else Inl (NodeErr node ''invalid argument for dmarc'')
     | _ \<Rightarrow> Inr doDMARC)"

lemma others_size: "size_list size (othersRaw names ns) \<le> size_list size ns"
  by (induction ns) (auto simp: othersRaw_def)

lemma children_size: "size_list size (children n) < size n"
  by (cases n; cases "n_Children n") (auto simp: children_def)

lemma children_add: "size_list size (children n) < Suc (size n + k)" "size_list size (children n) < size n + k"
  using children_size [of n] by simp_all

lemma member_size: "n \<in> set ns \<Longrightarrow> size n < size_list size ns"
  by (induction ns) auto

lemma default_size: "size_list size (defaultRaw name ns) \<le> size_list size ns"
proof -
  have "n \<in> set ns \<Longrightarrow> size_list size (children n) \<le> size_list size ns" for n
    using children_size [of n] member_size [of n ns] by simp
  moreover have "n \<in> set ns" if "rev (filter (\<lambda>n. n_Name n = name) ns) = n # m" for n m
    using arg_cong [OF that, of set] by auto
  ultimately show ?thesis by (auto simp: defaultRaw_def split: list.splits)
qed

text \<open>\<open>parseMsgPipelineRcptCfg\<close>, \<open>parseMsgPipelineSrcCfg\<close>, \<open>parseMsgPipelineRootCfg\<close> and
  \<open>New\<close>: the loops over the nodes, and what follows the loops. Only \<open>reroute\<close> leads
  from a recipient block back to a pipeline.\<close>

function (sequential)
  parse_rcpt :: "'g cfg_mods \<Rightarrow> node list \<Rightarrow> rcpt_block \<Rightarrow> 'g \<Rightarrow> 'g \<times> (go_err + rcpt_block)"
  and src_loop :: "'g cfg_mods \<Rightarrow> node list \<Rightarrow> src_acc \<Rightarrow> 'g \<Rightarrow> 'g \<times> (go_err + src_acc)"
  and parse_src :: "'g cfg_mods \<Rightarrow> node list \<Rightarrow> rcpt_block list \<Rightarrow> 'g \<Rightarrow> 'g \<times> (go_err + source_block \<times> rcpt_block list)"
  and root_loop :: "'g cfg_mods \<Rightarrow> node list \<Rightarrow> root_acc \<Rightarrow> 'g \<Rightarrow> 'g \<times> (go_err + root_acc)"
  and pipeline_New :: "'g cfg_mods \<Rightarrow> node list \<Rightarrow> 'g \<Rightarrow> 'g \<times> (go_err + pipeline)" where
  "parse_rcpt cm [] rcpt g = (g, Inr rcpt)"
| "parse_rcpt cm (n # ns) rcpt g =
     (if n_Name n = ''check'' then
        (case cm_Checks cm n g of
           (g, Inl err) \<Rightarrow> (g, Inl err)
         | (g, Inr cs) \<Rightarrow> parse_rcpt cm ns (rcpt\<lparr>rb_checks := rb_checks rcpt @ cs\<rparr>) g)
      else if n_Name n = ''modify'' then
        (case cm_Modifiers cm n g of
           (g, Inl err) \<Rightarrow> (g, Inl err)
         | (g, Inr ms) \<Rightarrow> parse_rcpt cm ns (rcpt\<lparr>rb_modifiers := rb_modifiers rcpt @ ms\<rparr>) g)
      else if n_Name n = ''deliver_to'' then
        (if rb_rejectErr rcpt \<noteq> None then (g, Inl (NodeErr n ''can't use 'reject' and 'deliver_to' together''))
         else if n_Args n = [] then (g, Inl (NodeErr n ''required at least one argument''))
         else (case cm_Target cm n g of
             (g, Inl err) \<Rightarrow> (g, Inl err)
           | (g, Inr t) \<Rightarrow> parse_rcpt cm ns (rcpt\<lparr>rb_targets := rb_targets rcpt @ [t]\<rparr>) g))
      else if n_Name n = ''reroute'' then
        (if children n = [] then (g, Inl (NodeErr n ''missing or empty reroute pipeline configuration''))
         else (case pipeline_New cm (children n) g of
             (g, Inl err) \<Rightarrow> (g, Inl err)
           | (g, Inr p) \<Rightarrow>
              (case cm_Pipeline cm p g of
                 (g, t) \<Rightarrow> parse_rcpt cm ns (rcpt\<lparr>rb_targets := rb_targets rcpt @ [t]\<rparr>) g)))
      else if n_Name n = ''reject'' then
        (if rb_targets rcpt \<noteq> [] then (g, Inl (NodeErr n ''can't use 'reject' and 'deliver_to' together''))
         else (case parseRejectDirective (cm_lib cm) n of
             Inl err \<Rightarrow> (g, Inl err)
           | Inr e \<Rightarrow> parse_rcpt cm ns (rcpt\<lparr>rb_rejectErr := Some e\<rparr>) g))
      else (g, Inl (NodeErr n ''invalid directive'')))"
| "src_loop cm [] acc g = (g, Inr acc)"
| "src_loop cm (n # ns) acc g =
     (if n_Name n = ''check'' then
        (case cm_Checks cm n g of
           (g, Inl err) \<Rightarrow> (g, Inl err)
         | (g, Inr cs) \<Rightarrow> src_loop cm ns (acc\<lparr>sa_src := (sa_src acc)\<lparr>sb_checks := sb_checks (sa_src acc) @ cs\<rparr>\<rparr>) g)
      else if n_Name n = ''modify'' then
        (case cm_Modifiers cm n g of
           (g, Inl err) \<Rightarrow> (g, Inl err)
         | (g, Inr ms) \<Rightarrow> src_loop cm ns (acc\<lparr>sa_src := (sa_src acc)\<lparr>sb_modifiers := sb_modifiers (sa_src acc) @ ms\<rparr>\<rparr>) g)
      else if n_Name n = ''destination_in'' then
        (case cm_Table cm (n_Args n) g of
           (g, Inl err) \<Rightarrow> (g, Inl err)
         | (g, Inr tbl) \<Rightarrow>
            (case parse_rcpt cm (children n) empty_rcpt g of
               (g, Inl err) \<Rightarrow> (g, Inl err)
             | (g, Inr rcpt) \<Rightarrow>
                src_loop cm ns (acc\<lparr>sa_src := (sa_src acc)\<lparr>sb_rcptIn := sb_rcptIn (sa_src acc) @ [(tbl, length (sa_blocks acc))]\<rparr>,
                  sa_blocks := sa_blocks acc @ [rcpt]\<rparr>) g))
      else if n_Name n = ''destination'' then
        (case parse_rcpt cm (children n) empty_rcpt g of
           (g, Inl err) \<Rightarrow> (g, Inl err)
         | (g, Inr rcpt) \<Rightarrow>
            if n_Args n = [] then (g, Inl (NodeErr n ''expected at least one destination match rule''))
            else (case add_rules (cm_text cm) n rcpt_texts (length (sa_blocks acc)) (n_Args n) (sa_per acc) of
                Inl err \<Rightarrow> (g, Inl err)
              | Inr per \<Rightarrow> src_loop cm ns (acc\<lparr>sa_per := per, sa_blocks := sa_blocks acc @ [rcpt]\<rparr>) g))
      else if n_Name n = ''default_destination'' then
        (if sa_default acc \<noteq> None then (g, Inl (NodeErr n ''duplicate 'default_destination' block''))
         else src_loop cm ns (acc\<lparr>sa_default := n_Children n\<rparr>) g)
      else if n_Name n \<in> set rcpt_directives then src_loop cm ns acc g
      else (g, Inl (NodeErr n (''unknown pipeline directive: '' @ n_Name n))))"
| "parse_src cm ns blocks g =
     (case src_loop cm ns \<lparr>sa_src = empty_src, sa_per = [], sa_blocks = blocks, sa_default = None\<rparr> g of
        (g, Inl err) \<Rightarrow> (g, Inl err)
      | (g, Inr acc) \<Rightarrow>
         (let others = othersRaw rcpt_directives ns;
              dflt = defaultRaw ''default_destination'' ns;
              src = (sa_src acc)\<lparr>sb_perRcpt := map_of (sa_per acc), sb_defaultRcpt := length (sa_blocks acc)\<rparr>
          in if sa_per acc = [] \<and> dflt = [] then
               (if others = [] then (g, Inl (ErrNew ''empty source block, use 'reject' to reject messages''))
                else (case parse_rcpt cm others empty_rcpt g of
                    (g, Inl err) \<Rightarrow> (g, Inl err)
                  | (g, Inr rcpt) \<Rightarrow> (g, Inr (src, sa_blocks acc @ [rcpt]))))
             else if others \<noteq> [] then
               (g, Inl (NodeErr (hd others) (''can't put handling directives together with destination rules, ''
                 @ ''did you mean to put it into 'default' block or into all recipient blocks?'')))
             else if dflt = [] then
               (g, Inl (NodeErr (hd ns) (''missing or empty default destination block, ''
                 @ ''use default_destination { reject } to reject messages'')))
             else (case parse_rcpt cm dflt empty_rcpt g of
                 (g, Inl err) \<Rightarrow> (g, Inl err)
               | (g, Inr rcpt) \<Rightarrow> (g, Inr (src, sa_blocks acc @ [rcpt])))))"
| "root_loop cm [] cfg g = (g, Inr cfg)"
| "root_loop cm (n # ns) cfg g =
     (if n_Name n = ''check'' then
        (case cm_Checks cm n g of
           (g, Inl err) \<Rightarrow> (g, Inl err)
         | (g, Inr cs) \<Rightarrow> root_loop cm ns (cfg\<lparr>ra_checks := ra_checks cfg @ cs\<rparr>) g)
      else if n_Name n = ''modify'' then
        (case cm_Modifiers cm n g of
           (g, Inl err) \<Rightarrow> (g, Inl err)
         | (g, Inr ms) \<Rightarrow> root_loop cm ns (cfg\<lparr>ra_modifiers := ra_modifiers cfg @ ms\<rparr>) g)
      else if n_Name n = ''source_in'' then
        (case cm_Table cm (n_Args n) g of
           (g, Inl err) \<Rightarrow> (g, Inl err)
         | (g, Inr tbl) \<Rightarrow>
            (case parse_src cm (children n) (ra_blocks cfg) g of
               (g, Inl err) \<Rightarrow> (g, Inl err)
             | (g, Inr (src, blocks)) \<Rightarrow>
                root_loop cm ns (cfg\<lparr>ra_sourceIn := ra_sourceIn cfg @ [(tbl, src)], ra_blocks := blocks\<rparr>) g))
      else if n_Name n = ''source'' then
        (case parse_src cm (children n) (ra_blocks cfg) g of
           (g, Inl err) \<Rightarrow> (g, Inl err)
         | (g, Inr (src, blocks)) \<Rightarrow>
            if n_Args n = [] then (g, Inl (NodeErr n ''expected at least one source matching rule''))
            else (case add_rules (cm_text cm) n src_texts src (n_Args n) (ra_per cfg) of
                Inl err \<Rightarrow> (g, Inl err)
              | Inr per \<Rightarrow> root_loop cm ns (cfg\<lparr>ra_per := per, ra_blocks := blocks\<rparr>) g))
      else if n_Name n = ''default_source'' then
        (if ra_default cfg \<noteq> None then (g, Inl (NodeErr n ''duplicate 'default_source' block''))
         else root_loop cm ns (cfg\<lparr>ra_default := n_Children n\<rparr>) g)
      else if n_Name n = ''dmarc'' then
        (case parse_dmarc n (ra_doDMARC cfg) of
           Inl err \<Rightarrow> (g, Inl err)
         | Inr b \<Rightarrow> root_loop cm ns (cfg\<lparr>ra_doDMARC := b\<rparr>) g)
      else if n_Name n \<in> set root_directives then root_loop cm ns cfg g
      else (g, Inl (NodeErr n (''unknown pipeline directive: '' @ n_Name n))))"
| "pipeline_New cm ns g =
     (case root_loop cm ns \<lparr>ra_checks = [], ra_modifiers = [], ra_sourceIn = [], ra_per = [], ra_doDMARC = False,
              ra_blocks = [], ra_default = None\<rparr> g of
        (g, Inl err) \<Rightarrow> (g, Inl err)
      | (g, Inr cfg) \<Rightarrow>
         (let others = othersRaw root_directives ns;
              dflt = defaultRaw ''default_source'' ns
          in if ra_per cfg = [] \<and> dflt = [] then
               (if others = [] then (g, Inl (ErrNew ''empty pipeline configuration, use 'reject' to reject messages''))
                else (case parse_src cm others (ra_blocks cfg) g of
                    (g, Inl err) \<Rightarrow> (g, Inl err)
                  | (g, Inr (src, blocks)) \<Rightarrow> (g, Inr (pipeline_of cfg src blocks))))
             else if others \<noteq> [] then
               (g, Inl (NodeErr (hd others) (''can't put handling directives together with source rules, ''
                 @ ''did you mean to put it into 'default_source' block or into all source blocks?'')))
             else if dflt = [] then
               (g, Inl (NodeErr (hd ns) (''missing or empty default source block, ''
                 @ ''use default_source { reject } to reject messages'')))
             else (case parse_src cm dflt (ra_blocks cfg) g of
                 (g, Inl err) \<Rightarrow> (g, Inl err)
               | (g, Inr (src, blocks)) \<Rightarrow> (g, Inr (pipeline_of cfg src blocks)))))"
  by pat_completeness auto

termination
  by (relation "measures [\<lambda>x. case x of
      Inl (Inl (_, ns, _)) \<Rightarrow> size_list size ns | Inl (Inr (_, ns, _)) \<Rightarrow> size_list size ns
    | Inr (Inl (_, ns, _)) \<Rightarrow> size_list size ns | Inr (Inr (Inl (_, ns, _))) \<Rightarrow> size_list size ns
    | Inr (Inr (Inr (_, ns, _))) \<Rightarrow> size_list size ns,
    \<lambda>x. case x of Inl (Inl _) \<Rightarrow> 0 | Inl (Inr _) \<Rightarrow> 1 | Inr (Inl _) \<Rightarrow> 2 | Inr (Inr (Inl _)) \<Rightarrow> 3 | Inr (Inr (Inr _)) \<Rightarrow> (4 :: nat)]")
    (use others_size default_size in \<open>auto simp: children_add le_less\<close>)

declare parse_src.simps [simp del] pipeline_New.simps [simp del]

end
