(* ===== verification/ConfigProps.thy ===== *)
theory ConfigProps
  imports PipelineConfig PipelineProps
begin

text \<open>
  Properties of parsed pipelines: rules, reject directives and references between
  blocks are well formed, and a configured destination rule routes the recipients it
  names to its block.
\<close>

section \<open>Well-formed blocks\<close>

definition reject_ok :: "go_err \<Rightarrow> bool" where
  "reject_ok e \<longleftrightarrow> go_div (se_Code e) 100 \<in> {4, 5} \<and> fst (se_EnhancedCode e) \<in> {4, 5} \<and> se_Message e \<noteq> []"

definition good_block :: "rcpt_block \<Rightarrow> bool" where
  "good_block b \<longleftrightarrow> (\<forall>e. rb_rejectErr b = Some e \<longrightarrow> reject_ok e)"

text \<open>A node of a configuration, at any depth, and a recipient block the parser made from nodes
  of it.\<close>

inductive within :: "node list \<Rightarrow> node \<Rightarrow> bool" for root where
  top: "n \<in> set root \<Longrightarrow> within root n"
| child: "within root m \<Longrightarrow> n \<in> set (children m) \<Longrightarrow> within root n"

definition parsed_block :: "'g cfg_mods \<Rightarrow> node list \<Rightarrow> rcpt_block \<Rightarrow> bool" where
  "parsed_block cm root b \<longleftrightarrow>
    (\<exists>ds g1 g2. (\<forall>n \<in> set ds. within root n) \<and> parse_rcpt cm ds empty_rcpt g1 = (g2, Inr b))"

lemma within_children: "within root n \<Longrightarrow> \<forall>m \<in> set (children n). within root m"
  by (blast intro: within.child)

lemma within_others: "\<forall>n \<in> set ns. within root n \<Longrightarrow> \<forall>n \<in> set (othersRaw names ns). within root n"
  by (auto simp: othersRaw_def)

lemma within_default: "\<forall>n \<in> set ns. within root n \<Longrightarrow> \<forall>n \<in> set (defaultRaw name ns). within root n"
proof -
  assume a: "\<forall>n \<in> set ns. within root n"
  show ?thesis
  proof (cases "rev (filter (\<lambda>n. n_Name n = name) ns)")
    case (Cons m ms)
    then have "m \<in> set (rev (filter (\<lambda>n. n_Name n = name) ns))" by (simp only: list.set_intros)
    then have "m \<in> set ns" by simp
    with a within_children have "\<forall>n \<in> set (children m). within root n" by blast
    then show ?thesis by (simp add: defaultRaw_def Cons)
  qed (simp add: defaultRaw_def)
qed

lemma parsed_blockI:
  "parse_rcpt cm ds empty_rcpt g1 = (g2, Inr b) \<Longrightarrow> \<forall>n \<in> set ds. within root n \<Longrightarrow> parsed_block cm root b"
  by (auto simp: parsed_block_def)

text \<open>A key of a map of rules: a valid rule in the form lookups use.\<close>

definition rule_ok :: "text_lib \<Rightarrow> string \<Rightarrow> bool" where
  "rule_ok lib k \<longleftrightarrow> validMatchRule lib k \<and> (\<exists>r. match_rule lib r = (k, None))"

definition src_ok :: "text_lib \<Rightarrow> nat \<Rightarrow> source_block \<Rightarrow> bool" where
  "src_ok lib n sb \<longleftrightarrow> list_all (\<lambda>(t, b). b < n) (sb_rcptIn sb) \<and> (\<forall>k b. sb_perRcpt sb k = Some b \<longrightarrow> rule_ok lib k \<and> b < n)
    \<and> sb_defaultRcpt sb < n \<and> sb_rejectErr sb = None"

lemma reject_one_ok: "reject_one lib n a ench msg = Inr e \<Longrightarrow> fst ench \<in> {4, 5} \<Longrightarrow> msg \<noteq> [] \<Longrightarrow> reject_ok e"
  by (auto simp: reject_one_def reject_ok_def reject_err_def split: option.splits if_splits)

lemma reject_two_ok: "reject_two lib n a b msg = Inr e \<Longrightarrow> msg \<noteq> [] \<Longrightarrow> reject_ok e"
  by (auto simp: reject_two_def split: sum.splits if_splits intro: reject_one_ok)

lemma parseRejectDirective_ok: "parseRejectDirective lib n = Inr e \<Longrightarrow> reject_ok e"
proof -
  assume a: "parseRejectDirective lib n = Inr e"
  consider "n_Args n = []" | x where "n_Args n = [x]" | x y where "n_Args n = [x, y]"
    | x y m where "n_Args n = [x, y, m]" "m \<noteq> []"
    using a by (auto simp: parseRejectDirective_def Let_def split: list.splits if_splits)
  then show ?thesis
  proof cases
    case 1
    with a show ?thesis by (auto simp: parseRejectDirective_def reject_ok_def reject_err_def go_div_def)
  qed (use a reject_one_ok reject_two_ok in \<open>auto simp: parseRejectDirective_def Let_def\<close>)
qed

lemma good_block_simps [simp]:
  "good_block empty_rcpt" "good_block (b\<lparr>rb_checks := cs\<rparr>) = good_block b" "good_block (b\<lparr>rb_modifiers := ms\<rparr>) = good_block b"
  "good_block (b\<lparr>rb_targets := ts\<rparr>) = good_block b" "good_block (b\<lparr>rb_rejectErr := Some e\<rparr>) = reject_ok e"
  by (simp_all add: good_block_def empty_rcpt_def)

lemma parse_rcpt_good: "parse_rcpt cm ns rcpt g = (g', Inr r) \<Longrightarrow> good_block rcpt \<Longrightarrow> good_block r"
proof (induction ns arbitrary: rcpt g)
  case (Cons n ns)
  from Cons.prems show ?case
    using parseRejectDirective_ok [of "cm_lib cm" n] by (auto split: if_splits prod.splits sum.splits dest: Cons.IH)
qed simp

lemma parsed_good: "parsed_block cm root b \<Longrightarrow> good_block b"
  by (auto simp: parsed_block_def dest: parse_rcpt_good)

lemma add_rules_ok:
  "add_rules lib n texts blk rules m = Inr m' \<Longrightarrow> (\<forall>(k, b) \<in> set m. rule_ok lib k \<and> P b) \<Longrightarrow> P blk
    \<Longrightarrow> \<forall>(k, b) \<in> set m'. rule_ok lib k \<and> P b"
proof (induction rules arbitrary: m)
  case (Cons rule rules)
  obtain k e where k: "match_rule lib rule = (k, e)" by fastforce
  with Cons.prems have e: "e = None" and v: "validMatchRule lib k" by (auto split: option.splits if_splits)
  with k have ok: "rule_ok lib k" by (auto simp: rule_ok_def)
  show ?case
  proof (cases "map_of m k")
    case None
    with Cons.prems k e v have "add_rules lib n texts blk rules (m @ [(k, blk)]) = Inr m'" by simp
    from Cons.IH [OF this] Cons.prems ok show ?thesis by auto
  next
    case (Some b)
    with Cons.prems k e v have "add_rules lib n texts blk rules m = Inr m'" by simp
    from Cons.IH [OF this] Cons.prems show ?thesis by auto
  qed
qed simp

text \<open>What one node of a source block adds.\<close>

inductive src_adds :: "'g cfg_mods \<Rightarrow> node \<Rightarrow> src_acc \<Rightarrow> src_acc \<Rightarrow> bool" for cm n where
  keep: "sa_per acc' = sa_per acc \<Longrightarrow> sa_blocks acc' = sa_blocks acc \<Longrightarrow> sb_rcptIn (sa_src acc') = sb_rcptIn (sa_src acc) \<Longrightarrow>
    sb_rejectErr (sa_src acc') = sb_rejectErr (sa_src acc) \<Longrightarrow> n_Name n \<noteq> ''destination'' \<Longrightarrow> src_adds cm n acc acc'"
| dest_in: "n_Name n = ''destination_in'' \<Longrightarrow> parse_rcpt cm (children n) empty_rcpt g1 = (g2, Inr rcpt) \<Longrightarrow>
    src_adds cm n acc (acc\<lparr>sa_src := (sa_src acc)\<lparr>sb_rcptIn := sb_rcptIn (sa_src acc) @ [(tbl, length (sa_blocks acc))]\<rparr>,
      sa_blocks := sa_blocks acc @ [rcpt]\<rparr>)"
| destn: "n_Name n = ''destination'' \<Longrightarrow> parse_rcpt cm (children n) empty_rcpt g1 = (g2, Inr rcpt) \<Longrightarrow>
    add_rules (cm_text cm) n rcpt_texts (length (sa_blocks acc)) (n_Args n) (sa_per acc) = Inr per \<Longrightarrow>
    src_adds cm n acc (acc\<lparr>sa_per := per, sa_blocks := sa_blocks acc @ [rcpt]\<rparr>)"

lemma src_loop_Cons:
  assumes "src_loop cm (n # ns) acc g = (g', Inr acc')"
  obtains acc1 g1 where "src_adds cm n acc acc1" "src_loop cm ns acc1 g1 = (g', Inr acc')"
proof (cases "n_Name n \<in> {''destination_in'', ''destination''}")
  case False
  then have keep: "src_adds cm n acc (acc\<lparr>sa_src := (sa_src acc)\<lparr>sb_checks := x\<rparr>\<rparr>)" "src_adds cm n acc acc"
    "src_adds cm n acc (acc\<lparr>sa_src := (sa_src acc)\<lparr>sb_modifiers := x\<rparr>\<rparr>)" "src_adds cm n acc (acc\<lparr>sa_default := y\<rparr>)" for x y
    by (auto intro: src_adds.keep)
  from assms False show thesis
    by (auto split: if_splits prod.splits sum.splits
        intro: that [OF keep(1)] that [OF keep(2)] that [OF keep(3)] that [OF keep(4)])
next
  case True
  then show thesis
  proof
    assume n: "n_Name n = ''destination_in''"
    from assms n obtain g1 tbl g2 rcpt where "cm_Table cm (n_Args n) g = (g1, Inr tbl)"
      and r: "parse_rcpt cm (children n) empty_rcpt g1 = (g2, Inr rcpt)"
      and l: "src_loop cm ns (acc\<lparr>sa_src := (sa_src acc)\<lparr>sb_rcptIn := sb_rcptIn (sa_src acc) @ [(tbl, length (sa_blocks acc))]\<rparr>,
        sa_blocks := sa_blocks acc @ [rcpt]\<rparr>) g2 = (g', Inr acc')"
      by (auto split: prod.splits sum.splits)
    from src_adds.dest_in [OF n r] l that show thesis by blast
  next
    assume "n_Name n \<in> {''destination''}"
    then have n: "n_Name n = ''destination''" by simp
    from assms n obtain g2 rcpt per where r: "parse_rcpt cm (children n) empty_rcpt g = (g2, Inr rcpt)"
      and p: "add_rules (cm_text cm) n rcpt_texts (length (sa_blocks acc)) (n_Args n) (sa_per acc) = Inr per"
      and l: "src_loop cm ns (acc\<lparr>sa_per := per, sa_blocks := sa_blocks acc @ [rcpt]\<rparr>) g2 = (g', Inr acc')"
      by (auto split: prod.splits sum.splits if_splits)
    from src_adds.destn [OF n r p] l that show thesis by blast
  qed
qed

definition sacc_ok :: "'g cfg_mods \<Rightarrow> node list \<Rightarrow> src_acc \<Rightarrow> bool" where
  "sacc_ok cm root acc \<longleftrightarrow> list_all (parsed_block cm root) (sa_blocks acc)
    \<and> (\<forall>(k, b) \<in> set (sa_per acc). rule_ok (cm_text cm) k \<and> b < length (sa_blocks acc))
    \<and> (\<forall>(t, b) \<in> set (sb_rcptIn (sa_src acc)). b < length (sa_blocks acc)) \<and> sb_rejectErr (sa_src acc) = None"

lemma src_adds_ok: "src_adds cm n acc acc' \<Longrightarrow> within root n \<Longrightarrow> sacc_ok cm root acc \<Longrightarrow>
    sacc_ok cm root acc' \<and> length (sa_blocks acc) \<le> length (sa_blocks acc')"
proof (induction rule: src_adds.induct)
  case (keep acc' acc)
  then show ?case by (simp add: sacc_ok_def)
next
  case (dest_in g1 g2 rcpt acc tbl)
  then show ?case using parsed_blockI [OF dest_in(2) within_children] by (fastforce simp: sacc_ok_def)
next
  case (destn g1 g2 rcpt acc per)
  have "\<forall>(k, b) \<in> set per. rule_ok (cm_text cm) k \<and> b < Suc (length (sa_blocks acc))"
    by (rule add_rules_ok [OF destn(3)]) (use destn(5) in \<open>auto simp: sacc_ok_def less_Suc_eq\<close>)
  then show ?case using parsed_blockI [OF destn(2) within_children [OF destn(4)]] destn(5) by (fastforce simp: sacc_ok_def)
qed

lemma src_loop_ok:
  "src_loop cm ns acc g = (g', Inr acc') \<Longrightarrow> \<forall>n \<in> set ns. within root n \<Longrightarrow> sacc_ok cm root acc \<Longrightarrow>
    sacc_ok cm root acc' \<and> length (sa_blocks acc) \<le> length (sa_blocks acc')"
proof (induction ns arbitrary: acc g)
  case (Cons n ns)
  from src_loop_Cons [OF Cons.prems(1)] obtain acc1 g1 where
    a: "src_adds cm n acc acc1" and l: "src_loop cm ns acc1 g1 = (g', Inr acc')" .
  from Cons.prems(2) have n: "within root n" "\<forall>n \<in> set ns. within root n" by simp_all
  from Cons.IH [OF l n(2)] src_adds_ok [OF a n(1) Cons.prems(3)] show ?case by simp
qed simp

lemma src_ok_mono: "src_ok lib n sb \<Longrightarrow> n \<le> m \<Longrightarrow> src_ok lib m sb"
  by (fastforce simp: src_ok_def list_all_iff)

text \<open>The default block is parsed last.\<close>

lemma parse_src_cases:
  assumes "parse_src cm ns blocks g = (g', Inr (sb, blocks'))"
  obtains g1 acc g2 rcpt ds where
    "src_loop cm ns \<lparr>sa_src = empty_src, sa_per = [], sa_blocks = blocks, sa_default = None\<rparr> g = (g1, Inr acc)"
    "parse_rcpt cm ds empty_rcpt g1 = (g2, Inr rcpt)" "ds = othersRaw rcpt_directives ns \<or> ds = defaultRaw ''default_destination'' ns"
    "sb = (sa_src acc)\<lparr>sb_perRcpt := map_of (sa_per acc), sb_defaultRcpt := length (sa_blocks acc)\<rparr>" "blocks' = sa_blocks acc @ [rcpt]"
  using assms that unfolding parse_src.simps
  by (auto simp: Let_def split: prod.splits sum.splits if_splits)

lemma empty_acc_ok: "list_all (parsed_block cm root) blocks
    \<Longrightarrow> sacc_ok cm root \<lparr>sa_src = empty_src, sa_per = [], sa_blocks = blocks, sa_default = None\<rparr>"
  by (simp add: sacc_ok_def empty_src_def)

lemma parse_src_ok:
  assumes "parse_src cm ns blocks g = (g', Inr (sb, blocks'))" "\<forall>n \<in> set ns. within root n"
    and "list_all (parsed_block cm root) blocks"
  shows "list_all (parsed_block cm root) blocks' \<and> src_ok (cm_text cm) (length blocks') sb \<and> length blocks \<le> length blocks'"
proof -
  from parse_src_cases [OF assms(1)] obtain g1 acc g2 rcpt ds where
    l: "src_loop cm ns \<lparr>sa_src = empty_src, sa_per = [], sa_blocks = blocks, sa_default = None\<rparr> g = (g1, Inr acc)"
    and r: "parse_rcpt cm ds empty_rcpt g1 = (g2, Inr rcpt)"
    and ds: "ds = othersRaw rcpt_directives ns \<or> ds = defaultRaw ''default_destination'' ns"
    and sb: "sb = (sa_src acc)\<lparr>sb_perRcpt := map_of (sa_per acc), sb_defaultRcpt := length (sa_blocks acc)\<rparr>"
    and bl: "blocks' = sa_blocks acc @ [rcpt]" .
  have ok: "sacc_ok cm root acc" "length blocks \<le> length (sa_blocks acc)"
    using src_loop_ok [OF l assms(2) empty_acc_ok [OF assms(3)]] by auto
  have "rule_ok (cm_text cm) k \<and> b < length blocks'" if "map_of (sa_per acc) k = Some b" for k b
    using map_of_SomeD [OF that] ok(1) bl by (auto simp: sacc_ok_def less_Suc_eq)
  moreover have "\<forall>n \<in> set ds. within root n" using ds within_others [OF assms(2)] within_default [OF assms(2)] by blast
  ultimately show ?thesis using ok parsed_blockI [OF r, of root]
    by (auto simp: sb bl sacc_ok_def src_ok_def list_all_iff less_Suc_eq)
qed

definition racc_ok :: "'g cfg_mods \<Rightarrow> node list \<Rightarrow> root_acc \<Rightarrow> bool" where
  "racc_ok cm root cfg \<longleftrightarrow> list_all (parsed_block cm root) (ra_blocks cfg)
    \<and> (\<forall>(k, sb) \<in> set (ra_per cfg). rule_ok (cm_text cm) k \<and> src_ok (cm_text cm) (length (ra_blocks cfg)) sb)
    \<and> (\<forall>(t, sb) \<in> set (ra_sourceIn cfg). src_ok (cm_text cm) (length (ra_blocks cfg)) sb)"

lemma racc_ok_simps [simp]:
  "racc_ok cm root (cfg\<lparr>ra_checks := x\<rparr>) = racc_ok cm root cfg" "racc_ok cm root (cfg\<lparr>ra_modifiers := x\<rparr>) = racc_ok cm root cfg"
  "racc_ok cm root (cfg\<lparr>ra_default := y\<rparr>) = racc_ok cm root cfg" "racc_ok cm root (cfg\<lparr>ra_doDMARC := b\<rparr>) = racc_ok cm root cfg"
  by (simp_all add: racc_ok_def)

lemma root_source_in_ok:
  assumes "parse_src cm (children n) (ra_blocks cfg) g = (g', Inr (sb, blocks))" "within root n" "racc_ok cm root cfg"
  shows "racc_ok cm root (cfg\<lparr>ra_sourceIn := ra_sourceIn cfg @ [(t, sb)], ra_blocks := blocks\<rparr>)"
  using parse_src_ok [OF assms(1) within_children [OF assms(2)]] assms(3) by (auto simp: racc_ok_def intro: src_ok_mono)

lemma root_source_ok:
  assumes "parse_src cm (children n) (ra_blocks cfg) g = (g', Inr (sb, blocks))" "within root n" "racc_ok cm root cfg"
    and "add_rules (cm_text cm) n texts sb rules (ra_per cfg) = Inr per"
  shows "racc_ok cm root (cfg\<lparr>ra_per := per, ra_blocks := blocks\<rparr>)"
proof -
  note ok = parse_src_ok [OF assms(1) within_children [OF assms(2)]]
  have "\<forall>(k, sb) \<in> set per. rule_ok (cm_text cm) k \<and> src_ok (cm_text cm) (length blocks) sb"
    by (rule add_rules_ok [OF assms(4)]) (use ok assms(3) in \<open>auto simp: racc_ok_def intro: src_ok_mono\<close>)
  with ok assms(3) show ?thesis by (auto simp: racc_ok_def intro: src_ok_mono)
qed

lemma root_loop_ok:
  "root_loop cm ns cfg g = (g', Inr cfg') \<Longrightarrow> \<forall>n \<in> set ns. within root n \<Longrightarrow> racc_ok cm root cfg \<Longrightarrow> racc_ok cm root cfg'"
proof (induction ns arbitrary: cfg g)
  case (Cons n ns)
  from Cons.prems show ?case
    by (auto split: if_splits prod.splits sum.splits dest: Cons.IH root_source_in_ok root_source_ok)
qed simp

definition pipeline_ok :: "text_lib \<Rightarrow> nat \<Rightarrow> pipeline \<Rightarrow> bool" where
  "pipeline_ok lib n p \<longleftrightarrow> src_ok lib n (pl_defaultSource p) \<and> (\<forall>(t, sb) \<in> set (pl_sourceIn p). src_ok lib n sb)
    \<and> (\<forall>k sb. pl_perSource p k = Some sb \<longrightarrow> rule_ok lib k \<and> src_ok lib n sb)"

lemma pipeline_New_cases:
  assumes "pipeline_New cm ns g = (g', Inr p)"
  obtains g1 cfg ds sb blocks where
    "root_loop cm ns \<lparr>ra_checks = [], ra_modifiers = [], ra_sourceIn = [], ra_per = [], ra_doDMARC = False,
      ra_blocks = [], ra_default = None\<rparr> g = (g1, Inr cfg)"
    "ds = othersRaw root_directives ns \<or> ds = defaultRaw ''default_source'' ns"
    "parse_src cm ds (ra_blocks cfg) g1 = (g', Inr (sb, blocks))" "p = pipeline_of cfg sb blocks"
  using assms that unfolding pipeline_New.simps
  by (auto simp: Let_def split: prod.splits sum.splits if_splits)

lemma pipeline_New_ok:
  assumes "pipeline_New cm ns g = (g', Inr p)"
  shows "pipeline_ok (cm_text cm) (length (pl_blocks p)) p \<and> list_all (parsed_block cm ns) (pl_blocks p)"
proof -
  from pipeline_New_cases [OF assms] obtain g1 cfg ds sb blocks where
    l: "root_loop cm ns \<lparr>ra_checks = [], ra_modifiers = [], ra_sourceIn = [], ra_per = [], ra_doDMARC = False,
      ra_blocks = [], ra_default = None\<rparr> g = (g1, Inr cfg)"
    and ds: "ds = othersRaw root_directives ns \<or> ds = defaultRaw ''default_source'' ns"
    and src: "parse_src cm ds (ra_blocks cfg) g1 = (g', Inr (sb, blocks))" and p: "p = pipeline_of cfg sb blocks" .
  have ns: "\<forall>n \<in> set ns. within ns n" by (simp add: within.top)
  have c: "racc_ok cm ns cfg" by (rule root_loop_ok [OF l ns]) (simp add: racc_ok_def)
  have "\<forall>n \<in> set ds. within ns n" using ds within_others [OF ns] within_default [OF ns] by blast
  from parse_src_ok [OF src this] c have s: "list_all (parsed_block cm ns) blocks" "src_ok (cm_text cm) (length blocks) sb"
    "length (ra_blocks cfg) \<le> length blocks" by (auto simp: racc_ok_def)
  have "rule_ok (cm_text cm) k \<and> src_ok (cm_text cm) (length blocks) sb" if "map_of (ra_per cfg) k = Some sb" for k sb
    using map_of_SomeD [OF that] c s(3) by (auto simp: racc_ok_def intro: src_ok_mono)
  with c s show ?thesis by (auto simp: pipeline_ok_def pipeline_of_def p racc_ok_def intro: src_ok_mono)
qed

lemma lookup_in_member: "lookup_in env ts key w = (w', Some b) \<Longrightarrow> b \<in> snd ` set ts"
  by (induction env ts key w rule: lookup_in.induct) (auto split: prod.splits sum.splits if_splits)

lemma src_routed:
  assumes "srcBlockForAddr env p addr w = (w', Inr sb)" "pipeline_ok lib n p"
  shows "src_ok lib n sb"
  using assms
  by (auto simp: srcBlockForAddr_def src_rules_def pipeline_ok_def split: prod.splits option.splits if_splits
      dest!: lookup_in_member)

lemma rcpt_routed:
  assumes "rcptBlockForAddr env sb addr w = (w', Inr b)" "src_ok lib n sb"
  shows "b < n"
  using assms
  by (auto simp: rcptBlockForAddr_def rcpt_rules_def src_ok_def list_all_iff split: prod.splits option.splits if_splits
      dest!: lookup_in_member)

section \<open>Routing by configured rules\<close>

lemma add_rules_keeps: "add_rules lib n texts blk rules m = Inr m' \<Longrightarrow> map_of m k = Some b \<Longrightarrow> map_of m' k = Some b"
  by (induction rules arbitrary: m) (auto simp: map_add_def split: prod.splits option.splits if_splits)

lemma add_rules_adds:
  "add_rules lib n texts blk rules m = Inr m' \<Longrightarrow> rule \<in> set rules \<Longrightarrow> match_rule lib rule = (k, None) \<Longrightarrow> map_of m k = None
    \<Longrightarrow> map_of m' k = Some blk"
proof (induction rules arbitrary: m)
  case (Cons r rules)
  obtain k' e where k': "match_rule lib r = (k', e)" by fastforce
  with Cons.prems have e: "e = None" and v: "validMatchRule lib k'" by (auto split: option.splits if_splits)
  let ?m = "if map_of m k' = None then m @ [(k', blk)] else m"
  have a: "add_rules lib n texts blk rules ?m = Inr m'" using Cons.prems(1) k' e v by (auto split: if_splits)
  show ?case
  proof (cases "k' = k")
    case True
    with Cons.prems(4) have "map_of ?m k = Some blk" by (simp add: map_add_def)
    with add_rules_keeps [OF a] show ?thesis by simp
  next
    case False
    then have "rule \<in> set rules" using Cons.prems(2,3) k' by auto
    moreover have "map_of ?m k = None" using False Cons.prems(4) by (auto simp: map_add_def)
    ultimately show ?thesis using Cons.IH [OF a] Cons.prems(3) by blast
  qed
qed simp

lemma add_rules_new:
  "add_rules lib n texts blk rules m = Inr m' \<Longrightarrow> \<forall>r \<in> set rules. fst (match_rule lib r) \<noteq> k \<Longrightarrow> map_of m k = None
    \<Longrightarrow> map_of m' k = None"
  by (induction rules arbitrary: m) (auto simp: map_add_def split: prod.splits option.splits if_splits)

lemma src_adds_keeps:
  "src_adds cm n acc acc' \<Longrightarrow> (map_of (sa_per acc) k = Some b \<longrightarrow> map_of (sa_per acc') k = Some b)
    \<and> (\<exists>ext. sa_blocks acc' = sa_blocks acc @ ext)"
  by (induction rule: src_adds.induct) (auto dest: add_rules_keeps)

lemma src_loop_keeps:
  "src_loop cm ns acc g = (g', Inr acc') \<Longrightarrow> (map_of (sa_per acc) k = Some b \<longrightarrow> map_of (sa_per acc') k = Some b)
    \<and> (\<exists>ext. sa_blocks acc' = sa_blocks acc @ ext)"
proof (induction ns arbitrary: acc g)
  case (Cons n ns)
  from src_loop_Cons [OF Cons.prems] obtain acc1 g1 where a: "src_adds cm n acc acc1"
    and l: "src_loop cm ns acc1 g1 = (g', Inr acc')" .
  from Cons.IH [OF l] src_adds_keeps [OF a, of k b] show ?case by auto
qed simp

text \<open>The first \<open>destination\<close> node that lists a key owns it.\<close>

definition lists :: "text_lib \<Rightarrow> string \<Rightarrow> node \<Rightarrow> bool" where
  "lists lib k n \<longleftrightarrow> n_Name n = ''destination'' \<and> (\<exists>r \<in> set (n_Args n). fst (match_rule lib r) = k)"

lemma src_loop_first:
  assumes "src_loop cm (pre @ d # post) acc g = (g', Inr acc')"
    and "n_Name d = ''destination''" "rule \<in> set (n_Args d)" "match_rule (cm_text cm) rule = (k, None)"
    and "\<forall>n \<in> set pre. \<not> lists (cm_text cm) k n" "map_of (sa_per acc) k = None"
  shows "\<exists>b g1 g2. map_of (sa_per acc') k = Some b \<and> b < length (sa_blocks acc')
    \<and> parse_rcpt cm (children d) empty_rcpt g1 = (g2, Inr (sa_blocks acc' ! b))"
  using assms(1,5,6)
proof (induction pre arbitrary: acc g)
  case Nil
  from src_loop_Cons [OF Nil(1) [unfolded append.simps]] obtain acc1 g1 where a: "src_adds cm d acc acc1"
    and l: "src_loop cm post acc1 g1 = (g', Inr acc')" .
  from a obtain g2 g3 rcpt per where r: "parse_rcpt cm (children d) empty_rcpt g2 = (g3, Inr rcpt)"
    and p: "add_rules (cm_text cm) d rcpt_texts (length (sa_blocks acc)) (n_Args d) (sa_per acc) = Inr per"
    and acc1: "acc1 = acc\<lparr>sa_per := per, sa_blocks := sa_blocks acc @ [rcpt]\<rparr>"
    using assms(2) by cases auto
  have "map_of per k = Some (length (sa_blocks acc))"
    by (rule add_rules_adds [OF p assms(3,4) Nil(3)])
  with src_loop_keeps [OF l, of k] acc1 obtain ext where
    "map_of (sa_per acc') k = Some (length (sa_blocks acc))" "sa_blocks acc' = sa_blocks acc @ rcpt # ext" by auto
  with r show ?case by (intro exI [of _ "length (sa_blocks acc)"]) auto
next
  case (Cons n pre)
  from src_loop_Cons [OF Cons.prems(1) [unfolded append.simps]] obtain acc1 g1 where a: "src_adds cm n acc acc1"
    and l: "src_loop cm (pre @ d # post) acc1 g1 = (g', Inr acc')" .
  have "map_of (sa_per acc1) k = None"
    using a Cons.prems(2,3) by cases (auto simp: lists_def dest: add_rules_new)
  with Cons.IH [OF l] Cons.prems(2) show ?case by simp
qed

section \<open>Properties\<close>

text \<open>C37: routing stays within the configuration. Whatever the configuration, the tables and
  the addresses are, the recipient block the router of a parsed pipeline selects is one of the
  blocks of that pipeline, it was parsed from directives of that configuration, and when it
  rejects, it does so with an SMTP failure: code and enhanced code of class 4 or 5 and a
  message.\<close>

theorem routed_block_typed:
  assumes "pipeline_New cm ns g = (g', Inr p)"
    and "srcBlockForAddr env p from w = (w1, Inr sb)" "rcptBlockForAddr env sb to w2 = (w3, Inr b)"
  shows "b < length (pl_blocks p)
    \<and> (\<exists>ds g1 g2. (\<forall>n \<in> set ds. within ns n) \<and> parse_rcpt cm ds empty_rcpt g1 = (g2, Inr (pl_block p b)))
    \<and> (\<forall>e. rb_rejectErr (pl_block p b) = Some e \<longrightarrow>
        go_div (se_Code e) 100 \<in> {4, 5} \<and> fst (se_EnhancedCode e) \<in> {4, 5} \<and> se_Message e \<noteq> [])"
proof -
  note ok = pipeline_New_ok [OF assms(1)]
  have b: "b < length (pl_blocks p)" by (rule rcpt_routed [OF assms(3) src_routed [OF assms(2) conjunct1 [OF ok]]])
  then have p: "parsed_block cm ns (pl_block p b)" using ok by (simp add: pl_block_def list_all_length)
  with b parsed_good [OF p] show ?thesis by (auto simp: parsed_block_def good_block_def reject_ok_def)
qed

text \<open>C30: configured rules route. In a parsed source block, take the first \<open>destination\<close>
  node that lists a rule with the lookup key \<open>k\<close>. A recipient whose lookup key is \<open>k\<close>, or
  whose domain is \<open>k\<close> while no rule names the recipient itself, goes to the block parsed from
  that node. The recipient has a lookup key, and no table of a \<open>destination_in\<close> node claims it.
  Rules and addresses are normalised alike.\<close>

theorem destination_rule_routes:
  assumes "parse_src cm (pre @ d # post) blocks g = (g', Inr (sb, blocks'))"
    and "n_Name d = ''destination''" "rule \<in> set (n_Args d)" "match_rule (cm_text cm) rule = (k, None)"
    and "\<forall>n \<in> set pre. \<not> lists (cm_text cm) k n"
    and "ForLookup (mp_lib env) rcpt = (key, None)" "lookup_in env (sb_rcptIn sb) key w = (w', None)"
    and "key = k \<or> (sb_perRcpt sb key = None \<and> (\<exists>mbox. Split key = (mbox, k, None)))"
  shows "\<exists>b g1 g2. rcptBlockForAddr env sb rcpt w = (w', Inr b) \<and> b < length blocks'
    \<and> parse_rcpt cm (children d) empty_rcpt g1 = (g2, Inr (blocks' ! b))"
proof -
  from parse_src_cases [OF assms(1)] obtain g1 acc g2 r ds where
    l: "src_loop cm (pre @ d # post) \<lparr>sa_src = empty_src, sa_per = [], sa_blocks = blocks, sa_default = None\<rparr> g = (g1, Inr acc)"
    and sb: "sb = (sa_src acc)\<lparr>sb_perRcpt := map_of (sa_per acc), sb_defaultRcpt := length (sa_blocks acc)\<rparr>"
    and bl: "blocks' = sa_blocks acc @ [r]" .
  from src_loop_first [OF l assms(2-5)] obtain b g3 g4 where b: "map_of (sa_per acc) k = Some b" "b < length (sa_blocks acc)"
    "parse_rcpt cm (children d) empty_rcpt g3 = (g4, Inr (sa_blocks acc ! b))" by auto
  have k: "sb_perRcpt sb k = Some b" using b(1) by (simp add: sb)
  have "rcpt_rules sb key = Inr b" using assms(8) k by (auto simp: rcpt_rules_def)
  then have "rcptBlockForAddr env sb rcpt w = (w', Inr b)" using assms(6,7) by (simp add: rcptBlockForAddr_def)
  moreover have "blocks' ! b = sa_blocks acc ! b" using b(2) by (simp add: bl nth_append)
  moreover have "b < length blocks'" using b(2) by (simp add: bl)
  ultimately show ?thesis using b(3) by metis
qed

section \<open>A concrete configuration\<close>

definition demo_cm :: "nat cfg_mods" where
  "demo_cm = \<lparr>cm_lib = demo_cfg_lib, cm_text = ascii_lib, cm_Checks = (\<lambda>_ g. (g, Inr [])), cm_Modifiers = (\<lambda>_ g. (g, Inr [])),
     cm_Table = (\<lambda>_ g. (g, Inr 0)), cm_Target = (\<lambda>_ g. (g + 1, Inr g)), cm_Pipeline = (\<lambda>_ g. (g + 1, g))\<rparr>"

definition dir :: "string \<Rightarrow> string list \<Rightarrow> node list \<Rightarrow> node" where
  "dir name args cs = Node name args (Some cs) False False [] 0"

definition demo_dest :: node where
  "demo_dest = dir ''destination'' [''a@b''] [dir ''deliver_to'' [''queue''] []]"

definition demo_nodes :: "node list" where
  "demo_nodes = [demo_dest, dir ''default_destination'' [] [dir ''reject'' [''450''] []]]"

lemma dir_sel [simp]: "n_Name (dir a b c) = a" "n_Args (dir a b c) = b" "children (dir a b c) = c" "n_Children (dir a b c) = Some c"
  by (simp_all add: dir_def children_def)

lemma demo_rule: "match_rule ascii_lib ''a@b'' = (''a@b'', None) \<and> validMatchRule ascii_lib ''a@b''"
proof -
  have sp: "Split ''a@b'' = (''a'', ''b'', None)" using Split_at [of "''b''" "''a''"] by simp
  have "ForLookup ascii_lib ''a@b'' = (''a@b'', None)"
    using sp by (simp add: ForLookup_def dns_ForLookup_def ascii_lib_def ToLower_def lower_ascii_def
        TrimSuffix_def HasSuffix_def char_of_eq_iff)
  moreover have "Valid ascii_lib ''a@b''"
    using sp by (simp add: Valid_def ValidMailboxName_def ValidDomain_def HasPrefix_def validGraphic_def ascii_lib_def)
  moreover have "Contains ''a@b'' ''@''" by (simp add: HasPrefix_def)
  ultimately show ?thesis by (simp add: match_rule_def validMatchRule_def)
qed

lemma demo_src:
  "parse_src demo_cm demo_nodes [] 0 = (1, Inr (empty_src\<lparr>sb_perRcpt := [''a@b'' \<mapsto> 0], sb_defaultRcpt := 1\<rparr>,
    [empty_rcpt\<lparr>rb_targets := [0]\<rparr>,
     empty_rcpt\<lparr>rb_rejectErr := Some (reject_err 450 (5, 7, 0) ''Message rejected due to a local policy'')\<rparr>]))"
proof -
  have "Atoi ''450'' = Some 450" by code_simp
  then show ?thesis
    by (simp add: parse_src.simps demo_nodes_def demo_dest_def othersRaw_def defaultRaw_def rcpt_directives_def demo_cm_def
        empty_rcpt_def demo_rule parseRejectDirective_def reject_one_def go_div_def Let_def)
qed

definition demo_pipeline :: pipeline where
  "demo_pipeline = projr (snd (pipeline_New demo_cm demo_nodes 0))"

lemma demo_New: "pipeline_New demo_cm demo_nodes 0 = (1, Inr demo_pipeline)"
  and demo_pipeline_default: "pl_defaultSource demo_pipeline = empty_src\<lparr>sb_perRcpt := [''a@b'' \<mapsto> 0], sb_defaultRcpt := 1\<rparr>"
  and demo_pipeline_sources: "pl_sourceIn demo_pipeline = []" "pl_perSource demo_pipeline = Map.empty"
  and demo_pipeline_reject: "rb_rejectErr (pl_block demo_pipeline 1) \<noteq> None"
proof -
  have others: "othersRaw root_directives demo_nodes = demo_nodes"
    by (simp add: othersRaw_def root_directives_def demo_nodes_def demo_dest_def)
  have d: "defaultRaw ''default_source'' demo_nodes = []" "demo_nodes \<noteq> []"
    by (simp_all add: defaultRaw_def demo_nodes_def demo_dest_def)
  have l: "root_loop demo_cm demo_nodes cfg g = (g, Inr cfg)" for cfg g
    by (simp add: demo_nodes_def demo_dest_def root_directives_def)
  note ev = pipeline_New.simps others d l demo_src pipeline_of_def pl_block_def demo_pipeline_def
  show "pipeline_New demo_cm demo_nodes 0 = (1, Inr demo_pipeline)" by (simp add: ev)
  show "pl_defaultSource demo_pipeline = empty_src\<lparr>sb_perRcpt := [''a@b'' \<mapsto> 0], sb_defaultRcpt := 1\<rparr>" by (simp add: ev)
  show "pl_sourceIn demo_pipeline = []" "pl_perSource demo_pipeline = Map.empty" by (simp_all add: ev)
  show "rb_rejectErr (pl_block demo_pipeline 1) \<noteq> None" by (simp add: ev)
qed

theorem routed_block_typed_witness:
  "1 < length (pl_blocks demo_pipeline) \<and> (\<exists>e. rb_rejectErr (pl_block demo_pipeline 1) = Some e \<and> go_div (se_Code e) 100 \<in> {4, 5})"
proof -
  have s: "srcBlockForAddr pipe_env demo_pipeline [] 0 = (0, Inr (pl_defaultSource demo_pipeline))"
    by (simp add: srcBlockForAddr_def src_rules_def demo_pipeline_sources split: prod.splits)
  have "ForLookup ascii_lib ''c@b'' = (''c@b'', None)" and sp: "Split ''c@b'' = (''c'', ''b'', None)"
  proof -
    show sp: "Split ''c@b'' = (''c'', ''b'', None)" using Split_at [of "''b''" "''c''"] by simp
    show "ForLookup ascii_lib ''c@b'' = (''c@b'', None)"
      using sp by (simp add: ForLookup_def dns_ForLookup_def ascii_lib_def ToLower_def lower_ascii_def
          TrimSuffix_def HasSuffix_def char_of_eq_iff)
  qed
  then have "rcptBlockForAddr pipe_env (pl_defaultSource demo_pipeline) ''c@b'' 0 = (0, Inr 1)"
    by (simp add: rcptBlockForAddr_def rcpt_rules_def demo_pipeline_default pipe_sel empty_src_def)
  note r = this
  from routed_block_typed [OF demo_New s r] demo_pipeline_reject show ?thesis by auto
qed

theorem destination_rule_routes_witness:
  "\<exists>b blocks sb. parse_src demo_cm demo_nodes [] 0 = (1, Inr (sb, blocks)) \<and> rcptBlockForAddr pipe_env sb ''a@b'' 0 = (0, Inr b)
    \<and> rb_targets (blocks ! b) \<noteq> []"
proof -
  let ?sb = "empty_src\<lparr>sb_perRcpt := [''a@b'' \<mapsto> 0], sb_defaultRcpt := 1\<rparr>"
  have n: "demo_nodes = [] @ demo_dest # [dir ''default_destination'' [] [dir ''reject'' [''450''] []]]"
    by (simp add: demo_nodes_def)
  have fl: "ForLookup ascii_lib ''a@b'' = (''a@b'', None)" using demo_rule by (simp add: match_rule_def HasPrefix_def)
  from destination_rule_routes [OF demo_src [unfolded n], of "''a@b''" "''a@b''" pipe_env "''a@b''" "''a@b''" 0 0]
  obtain b g1 g2 where r: "rcptBlockForAddr pipe_env ?sb ''a@b'' 0 = (0, Inr b)"
    and p: "parse_rcpt demo_cm (children demo_dest) empty_rcpt g1 = (g2, Inr ([empty_rcpt\<lparr>rb_targets := [0]\<rparr>,
      empty_rcpt\<lparr>rb_rejectErr := Some (reject_err 450 (5, 7, 0) ''Message rejected due to a local policy'')\<rparr>] ! b))"
    using demo_rule fl by (auto simp: demo_dest_def demo_cm_def pipe_sel empty_src_def)
  have "rb_targets x \<noteq> []" if "parse_rcpt demo_cm (children demo_dest) empty_rcpt g1 = (g2, Inr x)" for x
    using that by (auto simp: demo_dest_def demo_cm_def empty_rcpt_def)
  with demo_src r p show ?thesis by metis
qed

section \<open>Observations\<close>

text \<open>A \<open>destination\<close> block without \<open>deliver_to\<close> and \<open>reject\<close> is accepted: mail for it
  goes nowhere.\<close>

lemma empty_destination_accepted: "parse_rcpt cm [] empty_rcpt g = (g, Inr empty_rcpt)"
  by simp

text \<open>A code of class 4 alone keeps the enhanced code of class 5.\<close>

lemma reject_codes_disagree:
  assumes "n_Args n = [''450'']"
  shows "parseRejectDirective lib n = Inr (reject_err 450 (5, 7, 0) ''Message rejected due to a local policy'')"
proof -
  have "Atoi ''450'' = Some 450" by code_simp
  with assms show ?thesis by (simp add: parseRejectDirective_def reject_one_def go_div_def Let_def)
qed

text \<open>\<open>reject\<close> before \<open>reroute\<close> is accepted, although \<open>reject\<close> excludes targets.\<close>

lemma reject_then_reroute:
  assumes "parseRejectDirective (cm_lib cm) r = Inr e" "n_Name r = ''reject''" "n_Name n = ''reroute''" "children n \<noteq> []"
    and "pipeline_New cm (children n) g = (g1, Inr p)" "cm_Pipeline cm p g1 = (g2, t)"
  shows "parse_rcpt cm [r, n] empty_rcpt g = (g2, Inr (empty_rcpt\<lparr>rb_rejectErr := Some e, rb_targets := [t]\<rparr>))"
  using assms by (simp add: empty_rcpt_def)

text \<open>Two default blocks are reported only when the first has a block.\<close>

lemma second_default_accepted:
  assumes "n_Name n = ''default_destination''" "n_Children n = None"
  shows "src_loop cm (n # ns) acc g = (if sa_default acc = None then src_loop cm ns (acc\<lparr>sa_default := None\<rparr>) g
    else (g, Inl (NodeErr n ''duplicate 'default_destination' block'')))"
  using assms by simp

end
