(* ===== verification/CfgLexer.thy ===== *)
theory CfgLexer
  imports CfgNode
begin

text \<open>
  The lexer of configuration files (\<open>framework/config/lexer\<close>): \<open>lexer.go\<close> turns the
  runes of a file into tokens, \<open>parse.go\<close> collects them and \<open>dispenser.go\<close> hands them
  out line by line. A reader is its bytes and the error that ends them, \<open>None\<close> for the
  end of the file.
\<close>

section \<open>The lexer\<close>

definition IsSpace :: "rune \<Rightarrow> bool" where
  "IsSpace r = (9 \<le> r \<and> r \<le> 13 \<or> r \<in> {32, 133, 160, 5760} \<or> 8192 \<le> r \<and> r \<le> 8202 \<or> r \<in> {8232, 8233, 8239, 8287, 12288})"

record token =
  t_File :: string
  t_Line :: int
  t_Text :: string

type_synonym reader = "string \<times> go_err option"

definition ErrEOF :: go_err where
  "ErrEOF = ErrNew ''EOF''"

text \<open>What \<open>next\<close> leaves: a token, the unread runes and the line number, or the end of
  the input with the error of the reader.\<close>

datatype lexed = Token token "rune list" int | NoToken "go_err option"

text \<open>The loop of \<open>next\<close>: the value so far, the three flags, the line of the lexer and the
  line of the token.\<close>

fun next_loop :: "go_err option \<Rightarrow> rune list \<Rightarrow> rune list \<Rightarrow> bool \<Rightarrow> bool \<Rightarrow> bool \<Rightarrow> int \<Rightarrow> int \<Rightarrow> lexed" where
  "next_loop err [] val comment quoted escaped line tline =
     (if val \<noteq> [] then Token \<lparr>t_File = [], t_Line = tline, t_Text = encode_runes val\<rparr> [] line else NoToken err)"
| "next_loop err (ch # rs) val comment quoted escaped line tline =
     (if quoted then
        (if \<not> escaped \<and> ch = 92 then next_loop err rs val comment quoted True line tline
         else if \<not> escaped \<and> ch = 34 then Token \<lparr>t_File = [], t_Line = tline, t_Text = encode_runes val\<rparr> rs line
         else next_loop err rs ((if escaped \<and> ch \<noteq> 34 then val @ [92] else val) @ [ch]) comment quoted False
                (if ch = 10 then line + 1 else line) tline)
      else if IsSpace ch then
        (if ch = 13 then next_loop err rs val comment quoted escaped line tline
         else let line = (if ch = 10 then line + 1 else line); comment = (if ch = 10 then False else comment) in
           if val \<noteq> [] then Token \<lparr>t_File = [], t_Line = tline, t_Text = encode_runes val\<rparr> rs line
           else next_loop err rs val comment quoted escaped line tline)
      else let comment = (comment \<or> ch = 35) in
        if comment then next_loop err rs val comment quoted escaped line tline
        else let tline = (if val = [] then line else tline) in
          if val = [] \<and> ch = 34 then next_loop err rs val comment True escaped line tline
          else next_loop err rs (val @ [ch]) comment quoted escaped line tline)"

definition lexer_next :: "go_err option \<Rightarrow> rune list \<Rightarrow> int \<Rightarrow> lexed" where
  "lexer_next err rs line = next_loop err rs [] False False False line 0"

lemma next_loop_length:
  "next_loop err rs val c q e line tn = Token t rest line' \<Longrightarrow> length rest \<le> length rs"
proof (induction rs arbitrary: val c q e line tn)
  case (Cons ch rs)
  from Cons.prems show ?case
    by (simp add: Let_def split: if_splits) (auto dest!: Cons.IH)
qed (simp split: if_splits)

lemma lexer_next_length [termination_simp]:
  assumes "lexer_next err rs line = Token t rest line'"
  shows "length rest < length rs"
proof (cases rs)
  case (Cons ch rs')
  then show ?thesis using assms
    by (simp add: lexer_next_def Let_def split: if_splits) (auto dest!: next_loop_length)
qed (use assms in \<open>simp add: lexer_next_def\<close>)

text \<open>\<open>load\<close> drops a byte order mark; \<open>allTokens\<close> calls \<open>next\<close> until it fails.\<close>

fun tokens_loop :: "go_err option \<Rightarrow> rune list \<Rightarrow> int \<Rightarrow> go_err + token list" where
  "tokens_loop err rs line =
     (case lexer_next err rs line of
        NoToken None \<Rightarrow> Inr []
      | NoToken (Some e) \<Rightarrow> Inl e
      | Token t rest line' \<Rightarrow>
         (case tokens_loop err rest line' of Inl e \<Rightarrow> Inl e | Inr ts \<Rightarrow> Inr (t # ts)))"

declare tokens_loop.simps [simp del]

definition lexer_load :: "reader \<Rightarrow> go_err + rune list" where
  "lexer_load input =
    (case runes (fst input) of
       [] \<Rightarrow> Inl (case snd input of None \<Rightarrow> ErrEOF | Some e \<Rightarrow> e)
     | ch # rs \<Rightarrow> Inr (if ch = 65279 then rs else ch # rs))"

definition allTokens :: "reader \<Rightarrow> go_err + token list" where
  "allTokens input =
    (case lexer_load input of Inl e \<Rightarrow> Inl e | Inr rs \<Rightarrow> tokens_loop (snd input) rs 1)"

section \<open>The dispenser\<close>

record dispenser =
  d_filename :: string
  d_tokens :: "token list"
  d_cursor :: int
  d_nesting :: int

definition NewDispenserTokens :: "string \<Rightarrow> token list \<Rightarrow> dispenser" where
  "NewDispenserTokens filename ts = \<lparr>d_filename = filename, d_tokens = ts, d_cursor = -1, d_nesting = 0\<rparr>"

definition NewDispenser :: "string \<Rightarrow> reader \<Rightarrow> dispenser" where
  "NewDispenser filename input =
    NewDispenserTokens filename (case allTokens input of Inl _ \<Rightarrow> [] | Inr ts \<Rightarrow> ts)"

definition has_token :: "dispenser \<Rightarrow> int \<Rightarrow> bool" where
  "has_token d i = (0 \<le> i \<and> i < int (length (d_tokens d)))"

abbreviation tok_at :: "dispenser \<Rightarrow> int \<Rightarrow> token" where
  "tok_at d i \<equiv> d_tokens d ! nat i"

definition numLineBreaks :: "dispenser \<Rightarrow> int \<Rightarrow> int" where
  "numLineBreaks d i = (if \<not> has_token d i then 0 else int (count_list (t_Text (tok_at d i)) (CHR 10)))"

abbreviation advance :: "dispenser \<Rightarrow> dispenser" where
  "advance d \<equiv> d\<lparr>d_cursor := d_cursor d + 1\<rparr>"

definition d_Next :: "dispenser \<Rightarrow> dispenser \<times> bool" where
  "d_Next d = (if d_cursor d < int (length (d_tokens d)) - 1 then (advance d, True) else (d, False))"

definition NextArg :: "dispenser \<Rightarrow> dispenser \<times> bool" where
  "NextArg d =
    (if d_cursor d < 0 then (advance d, True)
     else if d_cursor d \<ge> int (length (d_tokens d)) then (d, False)
     else if d_cursor d < int (length (d_tokens d)) - 1
          \<and> t_File (tok_at d (d_cursor d)) = t_File (tok_at d (d_cursor d + 1))
          \<and> t_Line (tok_at d (d_cursor d)) + numLineBreaks d (d_cursor d) = t_Line (tok_at d (d_cursor d + 1))
     then (advance d, True)
     else (d, False))"

definition NextLine :: "dispenser \<Rightarrow> dispenser \<times> bool" where
  "NextLine d =
    (if d_cursor d < 0 then (advance d, True)
     else if d_cursor d \<ge> int (length (d_tokens d)) then (d, False)
     else if d_cursor d < int (length (d_tokens d)) - 1
          \<and> (t_File (tok_at d (d_cursor d)) \<noteq> t_File (tok_at d (d_cursor d + 1))
             \<or> t_Line (tok_at d (d_cursor d)) + numLineBreaks d (d_cursor d) < t_Line (tok_at d (d_cursor d + 1)))
     then (advance d, True)
     else (d, False))"

definition d_Val :: "dispenser \<Rightarrow> string" where
  "d_Val d = (if \<not> has_token d (d_cursor d) then [] else t_Text (tok_at d (d_cursor d)))"

definition d_Line :: "dispenser \<Rightarrow> int" where
  "d_Line d = (if \<not> has_token d (d_cursor d) then 0 else t_Line (tok_at d (d_cursor d)))"

definition d_File :: "dispenser \<Rightarrow> string" where
  "d_File d =
    (if \<not> has_token d (d_cursor d) then d_filename d
     else if t_File (tok_at d (d_cursor d)) \<noteq> [] then t_File (tok_at d (d_cursor d)) else d_filename d)"

definition NextBlock :: "dispenser \<Rightarrow> dispenser \<times> bool" where
  "NextBlock d =
    (if d_nesting d > 0 then
       (let d = fst (d_Next d) in
        if d_Val d = ''}'' then (d\<lparr>d_nesting := d_nesting d - 1\<rparr>, False) else (d, True))
     else case NextArg d of
       (d, False) \<Rightarrow> (d, False)
     | (d, True) \<Rightarrow>
        if d_Val d \<noteq> ''{'' then (d\<lparr>d_cursor := d_cursor d - 1\<rparr>, False)
        else let d = fst (d_Next d) in
          if d_Val d = ''}'' then (d, False) else (d\<lparr>d_nesting := d_nesting d + 1\<rparr>, True))"

text \<open>\<open>Args\<close> fills as many of \<open>n\<close> targets as the line has tokens.\<close>

fun d_Args :: "nat \<Rightarrow> dispenser \<Rightarrow> dispenser \<times> string list \<times> bool" where
  "d_Args 0 d = (d, [], True)"
| "d_Args (Suc n) d =
     (case NextArg d of
        (d, False) \<Rightarrow> (d, [], False)
      | (d, True) \<Rightarrow> (case d_Args n d of (d', vs, ok) \<Rightarrow> (d', d_Val d # vs, ok)))"

lemma NextArg_moves: "NextArg d = (d', True) \<Longrightarrow> d' = advance d \<and> (d_cursor d < 0 \<or> d_cursor d < int (length (d_tokens d)) - 1)"
  by (auto simp: NextArg_def split: if_splits)

function RemainingArgs :: "dispenser \<Rightarrow> dispenser \<times> string list" where
  "RemainingArgs d =
     (case NextArg d of
        (d, False) \<Rightarrow> (d, [])
      | (d', True) \<Rightarrow>
         if d_Val d' = ''{'' then (d'\<lparr>d_cursor := d_cursor d' - 1\<rparr>, [])
         else case RemainingArgs d' of (d'', vs) \<Rightarrow> (d'', d_Val d' # vs))"
  by pat_completeness auto

termination
  by (relation "measure (\<lambda>d. nat (int (length (d_tokens d)) - d_cursor d))") (auto dest!: NextArg_moves [OF sym])

declare RemainingArgs.simps [simp del]

definition d_Err :: "dispenser \<Rightarrow> string \<Rightarrow> go_err" where
  "d_Err d msg = ErrNew (d_File d @ '':'' @ FormatInt (d_Line d) 10 @ '' - Error during parsing: '' @ msg)"

definition SyntaxErr :: "dispenser \<Rightarrow> string \<Rightarrow> go_err" where
  "SyntaxErr d expected =
    ErrNew (d_File d @ '':'' @ FormatInt (d_Line d) 10 @ '' - Syntax error: Unexpected token '' @ [CHR 39]
      @ d_Val d @ [CHR 39] @ '', expecting '' @ [CHR 39] @ expected @ [CHR 39])"

definition ArgErr :: "dispenser \<Rightarrow> go_err" where
  "ArgErr d =
    (if d_Val d = ''{'' then d_Err d ''Unexpected token '{', expecting argument''
     else d_Err d (''Wrong argument count or unexpected line ending after '' @ [CHR 39] @ d_Val d @ [CHR 39]))"

definition EOFErr :: "dispenser \<Rightarrow> go_err" where
  "EOFErr d = d_Err d ''Unexpected EOF''"

end
