(* ===== verification/CfgParser.thy ===== *)
theory CfgParser
  imports CfgLexer
begin

text \<open>
  The parser of configuration files (\<open>framework/cfgparser\<close>): \<open>parse.go\<close> reads nodes, macros
  and snippets from the dispenser, \<open>imports.go\<close> expands macros and imports and \<open>env.go\<close>
  the variables of the environment. A result is a value, an error or a panic.
\<close>

datatype 'a pres = Panic | Fail go_err | Done 'a

text \<open>The files, the environment and the letters and digits of Unicode.\<close>

record penv =
  pe_Open :: "string \<Rightarrow> go_err + reader"
  pe_IsNotExist :: "go_err \<Rightarrow> bool"
  pe_Environ :: "string list"
  pe_IsLetter :: "rune \<Rightarrow> bool"
  pe_IsDigit :: "rune \<Rightarrow> bool"

text \<open>\<open>parseContext\<close>; a snippet without a block is a nil slice.\<close>

record pctx =
  pc_disp :: dispenser
  pc_nesting :: int
  pc_snippets :: "string \<rightharpoonup> node list option"
  pc_macros :: "string \<rightharpoonup> string list"
  pc_fileLocation :: string

abbreviation ctx_Err :: "pctx \<Rightarrow> string \<Rightarrow> 'a pres" where
  "ctx_Err ctx msg \<equiv> Fail (d_Err (pc_disp ctx) msg)"

section \<open>Names\<close>

definition allowedPunct :: "rune list" where
  "allowedPunct = [46, 45, 95]"

fun name_chars :: "penv \<Rightarrow> rune list \<Rightarrow> go_err option" where
  "name_chars env [] = None"
| "name_chars env (ch # rs) =
     (if \<not> pe_IsLetter env ch \<and> \<not> pe_IsDigit env ch \<and> ch \<notin> set allowedPunct
      then Some (ErrNew (''character not allowed in directive name: '' @ encode_rune ch))
      else name_chars env rs)"

definition validateNodeName :: "penv \<Rightarrow> string \<Rightarrow> go_err option" where
  "validateNodeName env s =
    (if s = [] then Some (ErrNew ''empty directive name'')
     else if pe_IsDigit env (hd (runes s)) then Some (ErrNew ''directive name cannot start with a digit'')
     else name_chars env (runes s))"

definition isSnippet :: "string \<Rightarrow> bool \<times> string" where
  "isSnippet name =
    (if HasPrefix name ''('' \<and> HasSuffix name '')'' then (True, butlast (tl name)) else (False, []))"

text \<open>A text of the form \<open>$(name)\<close> and its name.\<close>

definition macro_ref :: "string \<Rightarrow> bool" where
  "macro_ref s = (HasPrefix s ''$('' \<and> HasSuffix s '')'')"

definition macro_name :: "string \<Rightarrow> string" where
  "macro_name s = butlast (drop 2 s)"

definition parseAsMacro :: "pctx \<Rightarrow> string \<Rightarrow> string list \<Rightarrow> (string \<times> string list) pres" where
  "parseAsMacro ctx name args =
    (if \<not> HasPrefix name ''$('' then Done ([], [])
     else if \<not> HasSuffix name '')'' then ctx_Err ctx ''macro name must end with )''
     else if length args < 2 then ctx_Err ctx ''at least 2 arguments are required''
     else if hd args \<noteq> ''='' then ctx_Err ctx ''missing = in macro declaration''
     else Done (macro_name name, tl args))"

section \<open>Macros\<close>

text \<open>The leftmost longest match of the expressions \<open>\$\(([^\$]+)\)\<close> and \<open>{env:([^\$]+)}\<close>
  at the start of a text: its group and the text after the match.\<close>

definition match_here :: "string \<Rightarrow> char \<Rightarrow> string \<Rightarrow> (string \<times> string) option" where
  "match_here op cl s =
    (if HasPrefix s op then
       (let body = takeWhile (\<lambda>c. c \<noteq> CHR ''$'') (drop (length op) s); k = LastIndexByte body cl in
        if k \<ge> 1 then Some (take (nat k) body, drop (length op + nat k + 1) s) else None)
     else None)"

lemma match_here_length [termination_simp]: "match_here op cl s = Some (g, rest) \<Longrightarrow> s \<noteq> [] \<and> length rest < length s"
proof -
  have "s \<noteq> []" if "LastIndexByte (takeWhile P (drop n s)) cl \<ge> 1" for P n
    using that by (auto simp: LastIndexByte_def)
  then show "match_here op cl s = Some (g, rest) \<Longrightarrow> s \<noteq> [] \<and> length rest < length s"
    by (auto simp: match_here_def Let_def split: if_splits)
qed

function find_groups :: "string \<Rightarrow> char \<Rightarrow> string \<Rightarrow> string list" where
  "find_groups op cl s =
     (case match_here op cl s of
        Some (g, rest) \<Rightarrow> g # find_groups op cl rest
      | None \<Rightarrow> (case s of [] \<Rightarrow> [] | c # s' \<Rightarrow> find_groups op cl s'))"
  by pat_completeness auto

termination
  by (relation "measure (\<lambda>(_, _, s). length s)") (auto dest: match_here_length)

function remove_matches :: "string \<Rightarrow> char \<Rightarrow> string \<Rightarrow> string" where
  "remove_matches op cl s =
     (case match_here op cl s of
        Some (g, rest) \<Rightarrow> remove_matches op cl rest
      | None \<Rightarrow> (case s of [] \<Rightarrow> [] | c # s' \<Rightarrow> c # remove_matches op cl s'))"
  by pat_completeness auto

termination
  by (relation "measure (\<lambda>(_, _, s). length s)") (auto dest: match_here_length)

declare find_groups.simps [simp del] remove_matches.simps [simp del]

text \<open>\<open>strings.Replace\<close> of every occurrence of a nonempty text, and a \<open>strings.Replacer\<close>
  with nonempty keys: at every place the first pair that matches.\<close>

fun replacer :: "(string \<times> string) list \<Rightarrow> string \<Rightarrow> string" where
  "replacer pairs [] = []"
| "replacer pairs (c # s) =
     (case find (\<lambda>(key, _). key \<noteq> [] \<and> HasPrefix (c # s) key) pairs of
        Some (key, value) \<Rightarrow> value @ replacer pairs (drop (length key - 1) s)
      | None \<Rightarrow> c # replacer pairs s)"

abbreviation ReplaceAll :: "string \<Rightarrow> string \<Rightarrow> string \<Rightarrow> string" where
  "ReplaceAll s key value \<equiv> replacer [(key, value)] s"

fun single_loop :: "dispenser \<Rightarrow> (string \<rightharpoonup> string list) \<Rightarrow> string list \<Rightarrow> string \<Rightarrow> string pres" where
  "single_loop d macros [] arg = Done arg"
| "single_loop d macros (name # names) arg =
     (case macros name of
        None \<Rightarrow> single_loop d macros names (ReplaceAll arg (''$('' @ name @ '')'') [])
      | Some [] \<Rightarrow> Panic
      | Some [value] \<Rightarrow> single_loop d macros names (ReplaceAll arg (''$('' @ name @ '')'') value)
      | Some _ \<Rightarrow> Fail (d_Err d ''can't expand macro with multiple arguments inside a string''))"

definition expandSingleValueMacro :: "dispenser \<Rightarrow> (string \<rightharpoonup> string list) \<Rightarrow> string \<Rightarrow> string pres" where
  "expandSingleValueMacro d macros arg = single_loop d macros (find_groups ''$('' (CHR '')'') arg) arg"

fun expand_args :: "dispenser \<Rightarrow> (string \<rightharpoonup> string list) \<Rightarrow> string list \<Rightarrow> string list pres" where
  "expand_args d macros [] = Done []"
| "expand_args d macros (arg # args) =
     (case (if macro_ref arg then Done (case macros (macro_name arg) of None \<Rightarrow> [] | Some replacement \<Rightarrow> replacement)
            else if Contains arg ''$('' \<and> Contains arg '')'' then
              (case expandSingleValueMacro d macros arg of Panic \<Rightarrow> Panic | Fail e \<Rightarrow> Fail e | Done arg \<Rightarrow> Done [arg])
            else Done [arg]) of
        Panic \<Rightarrow> Panic
      | Fail e \<Rightarrow> Fail e
      | Done new \<Rightarrow> (case expand_args d macros args of Panic \<Rightarrow> Panic | Fail e \<Rightarrow> Fail e | Done args \<Rightarrow> Done (new @ args)))"

fun expandMacros :: "dispenser \<Rightarrow> (string \<rightharpoonup> string list) \<Rightarrow> node \<Rightarrow> node pres"
  and expand_children :: "dispenser \<Rightarrow> (string \<rightharpoonup> string list) \<Rightarrow> node list \<Rightarrow> node list pres" where
  "expandMacros d macros (Node name args cs sn ma file line) =
     (if macro_ref name then Fail (d_Err d ''can't use macro argument as directive name'')
      else case expand_args d macros args of
        Panic \<Rightarrow> Panic
      | Fail e \<Rightarrow> Fail e
      | Done args \<Rightarrow>
         (case cs of
            None \<Rightarrow> Done (Node name args None sn ma file line)
          | Some ns \<Rightarrow>
             (case expand_children d macros ns of
                Panic \<Rightarrow> Panic
              | Fail e \<Rightarrow> Fail e
              | Done ns \<Rightarrow> Done (Node name args (Some ns) sn ma file line))))"
| "expand_children d macros [] = Done []"
| "expand_children d macros (n # ns) =
     (case expandMacros d macros n of
        Panic \<Rightarrow> Panic
      | Fail e \<Rightarrow> Fail e
      | Done n \<Rightarrow> (case expand_children d macros ns of Panic \<Rightarrow> Panic | Fail e \<Rightarrow> Fail e | Done ns \<Rightarrow> Done (n # ns)))"

section \<open>Reading nodes\<close>

text \<open>The condition of the loop over arguments, and the start of a logical line: the end
  of the input, an error or the next token.\<close>

definition next_word :: "bool \<Rightarrow> dispenser \<Rightarrow> dispenser option" where
  "next_word continueOnLF d =
    (case NextArg d of
       (d', True) \<Rightarrow> Some d'
     | (d', False) \<Rightarrow> if continueOnLF then (case NextLine d' of (d'', True) \<Rightarrow> Some d'' | _ \<Rightarrow> None) else None)"

definition next_line :: "bool \<Rightarrow> dispenser \<Rightarrow> go_err option + dispenser" where
  "next_line requireNewLine d =
    (if requireNewLine then
       (case NextLine d of
          (d', True) \<Rightarrow> Inr d'
        | (d', False) \<Rightarrow>
           (case d_Next d' of
              (_, False) \<Rightarrow> Inl None
            | (d'', True) \<Rightarrow> Inl (Some (d_Err d'' ''newline is required after closing brace''))))
     else (case d_Next d of (d', True) \<Rightarrow> Inr d' | _ \<Rightarrow> Inl None))"

definition ends_in :: "string \<Rightarrow> string list \<Rightarrow> bool" where
  "ends_in s args = (args \<noteq> [] \<and> last args = s)"

text \<open>The part of \<open>readNode\<close> after the loops.\<close>

definition finish_node :: "penv \<Rightarrow> pctx \<Rightarrow> string \<Rightarrow> int \<Rightarrow> string \<Rightarrow> string list \<Rightarrow> node list option \<Rightarrow> node pres" where
  "finish_node env ctx file line word args cs =
    (let snippet = fst (isSnippet word); name = (if snippet then snd (isSnippet word) else word) in
     case parseAsMacro ctx name args of
       Panic \<Rightarrow> Panic
     | Fail e \<Rightarrow> Fail e
     | Done (mname, margs) \<Rightarrow>
        if mname \<noteq> [] then Done (Node mname margs cs snippet True file line)
        else if snippet then Done (Node name args cs True False file line)
        else case validateNodeName env name of
          Some e \<Rightarrow> Fail e
        | None \<Rightarrow> Done (Node name args cs False False file line))"

text \<open>What \<open>readNodes\<close> does with a node: a closing brace as its last argument ends the
  block; macros and snippets are stored, other nodes become part of the result. The
  flag says whether the loop stops.\<close>

definition accept_node :: "pctx \<Rightarrow> node \<Rightarrow> node list \<Rightarrow> (pctx \<times> node list \<times> bool) pres" where
  "accept_node ctx n res =
    (let shouldStop = ends_in ''}'' (n_Args n);
         ctx = (if shouldStop then ctx\<lparr>pc_nesting := pc_nesting ctx - 1\<rparr> else ctx);
         args = (if shouldStop then butlast (n_Args n) else n_Args n);
         n = Node (n_Name n) args (n_Children n) (n_Snippet n) (n_Macro n) (n_File n) (n_Line n)
     in if shouldStop \<and> pc_nesting ctx < 0 then ctx_Err ctx ''unexpected }''
        else if n_Macro n then
          (if pc_nesting ctx \<noteq> 0 then ctx_Err ctx ''macro declarations are only allowed at top-level''
           else case expandMacros (pc_disp ctx) (pc_macros ctx) n of
             Panic \<Rightarrow> Panic
           | Fail e \<Rightarrow> Fail e
           | Done n \<Rightarrow> Done (ctx\<lparr>pc_macros := (pc_macros ctx)(n_Name n \<mapsto> n_Args n)\<rparr>, res, False))
        else if n_Snippet n then
          (if pc_nesting ctx \<noteq> 0 then ctx_Err ctx ''snippet declarations are only allowed at top-level''
           else if n_Args n \<noteq> [] then ctx_Err ctx ''snippet declarations can't have arguments''
           else Done (ctx\<lparr>pc_snippets := (pc_snippets ctx)(n_Name n \<mapsto> n_Children n)\<rparr>, res, False))
        else (case expandMacros (pc_disp ctx) (pc_macros ctx) n of
            Panic \<Rightarrow> Panic
          | Fail e \<Rightarrow> Fail e
          | Done n \<Rightarrow> Done (ctx, res @ [n], shouldStop)))"

text \<open>The cursor only moves forward.\<close>

definition moved :: "dispenser \<Rightarrow> dispenser \<Rightarrow> bool" where
  "moved d d' = (d_tokens d' = d_tokens d \<and> d_filename d' = d_filename d \<and> d_cursor d \<le> d_cursor d')"

definition unread :: "dispenser \<Rightarrow> nat" where
  "unread d = nat (int (length (d_tokens d)) - d_cursor d)"

lemma moved_refl [simp]: "moved d d" by (simp add: moved_def)

lemma moved_trans: "moved d d' \<Longrightarrow> moved d' d'' \<Longrightarrow> moved d d''" by (auto simp: moved_def)

lemma moved_unread: "moved d d' \<Longrightarrow> unread d' \<le> unread d" by (auto simp: moved_def unread_def)

lemma next_word_moved: "next_word c d = Some d' \<Longrightarrow> moved d d' \<and> unread d' < unread d"
  by (auto simp: next_word_def NextArg_def NextLine_def moved_def unread_def split: if_splits prod.splits bool.splits)

lemma next_line_moved: "next_line r d = Inr d' \<Longrightarrow> moved d d' \<and> unread d' < unread d"
  by (auto simp: next_line_def d_Next_def NextLine_def moved_def unread_def split: if_splits prod.splits bool.splits)

lemma accept_disp: "accept_node ctx n res = Done (ctx', res', stop) \<Longrightarrow> pc_disp ctx' = pc_disp ctx"
  by (auto simp: accept_node_def Let_def split: if_splits pres.splits)

text \<open>\<open>args_loop\<close> is the loop of \<open>readNode\<close>, entered again after a backslash at the end of a
  line; \<open>nodes_loop\<close> is the loop of \<open>readNodes\<close>.\<close>

function (sequential)
  args_loop :: "penv \<Rightarrow> pctx \<Rightarrow> string list \<Rightarrow> node list option \<Rightarrow> bool \<Rightarrow> (pctx \<times> string list \<times> node list option) pres"
  and readNode :: "penv \<Rightarrow> pctx \<Rightarrow> (pctx \<times> node) pres"
  and readNodes :: "penv \<Rightarrow> pctx \<Rightarrow> (pctx \<times> node list) pres"
  and nodes_loop :: "penv \<Rightarrow> pctx \<Rightarrow> node list \<Rightarrow> bool \<Rightarrow> (pctx \<times> node list) pres" where
  "args_loop env ctx args cs continueOnLF =
     (case next_word continueOnLF (pc_disp ctx) of
        Some d \<Rightarrow>
          if d_Val d = ''{'' then
            (case readNodes env (ctx\<lparr>pc_disp := d\<rparr>) of
               Panic \<Rightarrow> Panic
             | Fail e \<Rightarrow> Fail e
             | Done (ctx', ns) \<Rightarrow>
                if ends_in [CHR 92] args then args_loop env ctx' (butlast args) (Some ns) True
                else Done (ctx', args, Some ns))
          else args_loop env (ctx\<lparr>pc_disp := d\<rparr>) (args @ [d_Val d]) cs False
      | None \<Rightarrow>
          if ends_in [CHR 92] args then args_loop env ctx (butlast args) cs True
          else Done (ctx, args, cs))"
| "readNode env ctx =
     (if d_Val (pc_disp ctx) = ''{'' then Fail (SyntaxErr (pc_disp ctx) ''block header'')
      else case args_loop env ctx [] None False of
        Panic \<Rightarrow> Panic
      | Fail e \<Rightarrow> Fail e
      | Done (ctx', args, cs) \<Rightarrow>
         (case finish_node env ctx' (d_File (pc_disp ctx)) (d_Line (pc_disp ctx)) (d_Val (pc_disp ctx)) args cs of
            Panic \<Rightarrow> Panic
          | Fail e \<Rightarrow> Fail e
          | Done n \<Rightarrow> Done (ctx', n)))"
| "readNodes env ctx =
     (if pc_nesting ctx > 255 then ctx_Err ctx ''nesting limit reached''
      else nodes_loop env (ctx\<lparr>pc_nesting := pc_nesting ctx + 1\<rparr>) [] False)"
| "nodes_loop env ctx res requireNewLine =
     (case next_line requireNewLine (pc_disp ctx) of
        Inl None \<Rightarrow> Done (ctx, res)
      | Inl (Some e) \<Rightarrow> Fail e
      | Inr d \<Rightarrow>
          if d_Val d = ''}'' then
            (if pc_nesting ctx - 1 < 0 then Fail (d_Err d ''unexpected }'')
             else Done (ctx\<lparr>pc_disp := d, pc_nesting := pc_nesting ctx - 1\<rparr>, res))
          else (case readNode env (ctx\<lparr>pc_disp := d\<rparr>) of
              Panic \<Rightarrow> Panic
            | Fail e \<Rightarrow> Fail e
            | Done (ctx', n) \<Rightarrow>
               (case accept_node ctx' n res of
                  Panic \<Rightarrow> Panic
                | Fail e \<Rightarrow> Fail e
                | Done (ctx'', res', shouldStop) \<Rightarrow>
                    if shouldStop then Done (ctx'', res') else nodes_loop env ctx'' res' True)))"
  by pat_completeness auto

termination
proof -
  have moved: "args_loop_readNode_readNodes_nodes_loop_dom (Inl (Inl (env, ctx, args, cs, c))) \<Longrightarrow>
      args_loop env ctx args cs c = Done (ctx', args', cs') \<Longrightarrow> moved (pc_disp ctx) (pc_disp ctx')"
    "args_loop_readNode_readNodes_nodes_loop_dom (Inl (Inr (env, ctx))) \<Longrightarrow>
      readNode env ctx = Done (ctx', n) \<Longrightarrow> moved (pc_disp ctx) (pc_disp ctx')"
    "args_loop_readNode_readNodes_nodes_loop_dom (Inr (Inl (env, ctx))) \<Longrightarrow>
      readNodes env ctx = Done (ctx', ns) \<Longrightarrow> moved (pc_disp ctx) (pc_disp ctx')"
    "args_loop_readNode_readNodes_nodes_loop_dom (Inr (Inr (env, ctx, res, r))) \<Longrightarrow>
      nodes_loop env ctx res r = Done (ctx', ns) \<Longrightarrow> moved (pc_disp ctx) (pc_disp ctx')"
    for env ctx args cs c ctx' args' cs' n ns res r
  proof (induction env ctx args cs c and env ctx and env ctx and env ctx res r
      arbitrary: ctx' args' cs' and ctx' n and ctx' ns and ctx' ns
      rule: args_loop_readNode_readNodes_nodes_loop.pinduct)
    case (1 env ctx args cs c)
    show ?case
    proof (cases "next_word c (pc_disp ctx)")
      case None
      with 1 show ?thesis by (auto simp: args_loop.psimps split: if_splits)
    next
      case (Some d)
      with 1 have "moved d (pc_disp ctx')"
        by (auto simp: args_loop.psimps split: if_splits pres.splits prod.splits) (rule moved_trans, blast, blast)
      with next_word_moved [OF Some] show ?thesis by (auto intro: moved_trans)
    qed
  next
    case (2 env ctx)
    then show ?case
      by (auto simp: readNode.psimps split: if_splits pres.splits prod.splits)
  next
    case (3 env ctx)
    then show ?case
      by (auto simp: readNodes.psimps split: if_splits)
  next
    case (4 env ctx res r)
    show ?case
    proof (cases "next_line r (pc_disp ctx)")
      case (Inl e)
      with 4 show ?thesis by (auto simp: nodes_loop.psimps split: option.splits)
    next
      case (Inr d)
      have "moved d (pc_disp ctx')"
      proof (cases "d_Val d = ''}''")
        case True
        with 4 Inr show ?thesis by (auto simp: nodes_loop.psimps split: if_splits)
      next
        case False
        with 4(1) "4.prems" Inr obtain c1 n c2 res' stop where
          r: "readNode env (ctx\<lparr>pc_disp := d\<rparr>) = Done (c1, n)" and a: "accept_node c1 n res = Done (c2, res', stop)"
          and f: "if stop then ctx' = c2 else nodes_loop env c2 res' True = Done (ctx', ns)"
          by (auto simp: nodes_loop.psimps split: pres.splits prod.splits if_splits)
        have "moved d (pc_disp c1)" using "4.IH"(1) [OF Inr False r] by simp
        moreover have "moved (pc_disp c2) (pc_disp ctx')"
          using f "4.IH"(2) [OF Inr False r _ a _ _ _] by (cases stop) auto
        ultimately show ?thesis using accept_disp [OF a] by (metis moved_trans)
      qed
      with next_line_moved [OF Inr] show ?thesis by (auto intro: moved_trans)
    qed
  qed
  show ?thesis
  proof (relation "measures [\<lambda>x. case x of
        Inl (Inl (_, ctx, _)) \<Rightarrow> unread (pc_disp ctx) | Inl (Inr (_, ctx)) \<Rightarrow> unread (pc_disp ctx)
      | Inr (Inl (_, ctx)) \<Rightarrow> unread (pc_disp ctx) | Inr (Inr (_, ctx, _)) \<Rightarrow> unread (pc_disp ctx),
      \<lambda>x. case x of Inl (Inl _) \<Rightarrow> 0 | Inl (Inr _) \<Rightarrow> 1 | Inr (Inl _) \<Rightarrow> 2 | Inr (Inr _) \<Rightarrow> 1,
      \<lambda>x. case x of Inl (Inl (_, _, args, _)) \<Rightarrow> length args | _ \<Rightarrow> 0]", goal_cases)
  qed (auto simp: ends_in_def dest!: next_word_moved next_line_moved accept_disp moved moved_unread)
qed

declare args_loop.simps [simp del] readNode.simps [simp del] readNodes.simps [simp del] nodes_loop.simps [simp del]

section \<open>Imports\<close>

text \<open>The functions of \<open>path/filepath\<close> on slash-separated paths.\<close>

fun clean_segs :: "bool \<Rightarrow> string list \<Rightarrow> string list \<Rightarrow> string list" where
  "clean_segs rooted out [] = out"
| "clean_segs rooted out (seg # segs) =
     (if seg = [] \<or> seg = ''.'' then clean_segs rooted out segs
      else if seg = ''..'' then
        (if out \<noteq> [] \<and> last out \<noteq> ''..'' then clean_segs rooted (butlast out) segs
         else if rooted then clean_segs rooted out segs
         else clean_segs rooted (out @ [seg]) segs)
      else clean_segs rooted (out @ [seg]) segs)"

definition filepath_IsAbs :: "string \<Rightarrow> bool" where
  "filepath_IsAbs path = HasPrefix path ''/''"

definition filepath_Clean :: "string \<Rightarrow> string" where
  "filepath_Clean path =
    (let rooted = filepath_IsAbs path; segs = clean_segs rooted [] (split_byte CHR ''/'' path) in
     if rooted then CHR ''/'' # join_byte CHR ''/'' segs
     else if segs = [] then ''.'' else join_byte CHR ''/'' segs)"

definition filepath_Dir :: "string \<Rightarrow> string" where
  "filepath_Dir path = filepath_Clean (take (nat (LastIndexByte path CHR ''/'' + 1)) path)"

text \<open>Opening the file of an import, with the extension \<open>.conf\<close> as a second try.\<close>

definition open_import :: "penv \<Rightarrow> pctx \<Rightarrow> node \<Rightarrow> string \<Rightarrow> go_err + (string \<times> reader)" where
  "open_import env ctx n name =
    (let file = (if filepath_IsAbs name then name
                 else filepath_Clean (filepath_Dir (pc_fileLocation ctx) @ ''/'' @ name)) in
     case pe_Open env file of
       Inr src \<Rightarrow> Inr (file, src)
     | Inl err \<Rightarrow>
        if pe_IsNotExist env err then
          (case pe_Open env (file @ ''.conf'') of
             Inr src \<Rightarrow> Inr (file, src)
           | Inl err \<Rightarrow>
              if pe_IsNotExist env err then Inl (NodeErr n (''unknown import: '' @ name)) else Inl err)
        else Inl err)"

text \<open>The first part of \<open>readTree\<close>: the root node of a file before its imports are expanded.\<close>

definition new_ctx :: "string \<Rightarrow> reader \<Rightarrow> pctx" where
  "new_ctx location r =
    \<lparr>pc_disp = NewDispenser location r, pc_nesting = -1, pc_snippets = Map.empty, pc_macros = Map.empty,
     pc_fileLocation = location\<rparr>"

definition parse_root :: "penv \<Rightarrow> string \<Rightarrow> reader \<Rightarrow> (pctx \<times> node) pres" where
  "parse_root env location r =
    (case readNodes env (new_ctx location r) of
       Panic \<Rightarrow> Panic
     | Fail e \<Rightarrow> Fail e
     | Done (ctx, ns) \<Rightarrow>
        if pc_nesting ctx > 0 then ctx_Err ctx ''unexpected EOF when looking for }''
        else Done (ctx, Node [] [] (Some ns) False False location 1))"

definition set_children :: "node \<Rightarrow> node list \<Rightarrow> node" where
  "set_children n ns = Node (n_Name n) (n_Args n) (Some ns) (n_Snippet n) (n_Macro n) (n_File n) (n_Line n)"

text \<open>The snippets and macros of an imported file are added to those of the importing one.\<close>

definition merge_ctx :: "pctx \<Rightarrow> pctx \<Rightarrow> pctx" where
  "merge_ctx ctx sub =
    ctx\<lparr>pc_snippets := pc_snippets ctx ++ pc_snippets sub, pc_macros := pc_macros ctx ++ pc_macros sub\<rparr>"

lemma children_smaller: "n_Children n = Some cs \<Longrightarrow> size_list size cs < size n"
  by (cases n) simp

text \<open>\<open>expandImports\<close> and its loop over the children, \<open>resolveImport\<close> and the second part of
  \<open>readTree\<close> included. The flag says whether a child was an import.\<close>

function (sequential)
  expandImports :: "penv \<Rightarrow> pctx \<Rightarrow> node \<Rightarrow> nat \<Rightarrow> (pctx \<times> node) pres"
  and imports_loop :: "penv \<Rightarrow> pctx \<Rightarrow> node list \<Rightarrow> nat \<Rightarrow> (pctx \<times> node list \<times> bool) pres" where
  "expandImports env ctx n depth =
     (case n_Children n of
        None \<Rightarrow> Done (ctx, n)
      | Some cs \<Rightarrow>
         (case imports_loop env ctx cs depth of
            Panic \<Rightarrow> Panic
          | Fail e \<Rightarrow> Fail e
          | Done (ctx', new, containsImports) \<Rightarrow>
             if containsImports then expandImports env ctx' (set_children n new) (depth + 1)
             else Done (ctx', set_children n new)))"
| "imports_loop env ctx [] depth = Done (ctx, [], False)"
| "imports_loop env ctx (c # cs) depth =
     (case expandImports env ctx c (depth + 1) of
        Panic \<Rightarrow> Panic
      | Fail e \<Rightarrow> Fail e
      | Done (ctx, c) \<Rightarrow>
         if n_Name c = ''import'' then
           (if depth > 255 then Fail (NodeErr c ''hit import expansion limit'')
            else if length (n_Args c) \<noteq> 1 then ctx_Err ctx ''import directive requires exactly 1 argument''
            else case
                (case pc_snippets ctx (hd (n_Args c)) of
                   Some subtree \<Rightarrow> Done (ctx, case subtree of None \<Rightarrow> [] | Some ns \<Rightarrow> ns)
                 | None \<Rightarrow>
                    (case open_import env ctx c (hd (n_Args c)) of
                       Inl e \<Rightarrow> Fail e
                     | Inr (file, src) \<Rightarrow>
                        (case parse_root env file src of
                           Panic \<Rightarrow> Panic
                         | Fail e \<Rightarrow> Fail e
                         | Done (sub, root) \<Rightarrow>
                            (case expandImports env sub root (depth + 1) of
                               Panic \<Rightarrow> Panic
                             | Fail e \<Rightarrow> Fail e
                             | Done (sub, root) \<Rightarrow> Done (merge_ctx ctx sub, children root))))) of
              Panic \<Rightarrow> Panic
            | Fail e \<Rightarrow> Fail e
            | Done (ctx, subtree) \<Rightarrow>
               (case imports_loop env ctx cs depth of
                  Panic \<Rightarrow> Panic
                | Fail e \<Rightarrow> Fail e
                | Done (ctx, new, _) \<Rightarrow> Done (ctx, subtree @ new, True)))
         else (case imports_loop env ctx cs depth of
             Panic \<Rightarrow> Panic
           | Fail e \<Rightarrow> Fail e
           | Done (ctx, new, containsImports) \<Rightarrow> Done (ctx, c # new, containsImports)))"
  by pat_completeness auto

termination
proof -
  have shallow: "expandImports_imports_loop_dom (Inl (env, ctx, n, depth)) \<Longrightarrow> True"
    "expandImports_imports_loop_dom (Inr (env, ctx, cs, depth)) \<Longrightarrow>
      imports_loop env ctx cs depth = Done (ctx', new, True) \<Longrightarrow> depth \<le> 255"
    for env ctx n depth cs ctx' new
  proof (induction env ctx n depth and env ctx cs depth arbitrary: and ctx' new
      rule: expandImports_imports_loop.pinduct)
    case (3 env ctx c cs depth)
    show ?case
    proof (rule ccontr)
      assume deep: "\<not> depth \<le> 255"
      note eq = "3.prems" [unfolded imports_loop.psimps(2) [OF 3(1)]]
      from eq obtain ctx1 c' where e: "expandImports env ctx c (depth + 1) = Done (ctx1, c')"
        by (cases "expandImports env ctx c (depth + 1)") auto
      with eq deep have n: "n_Name c' \<noteq> ''import''" by auto
      with eq e obtain new' where "imports_loop env ctx1 cs depth = Done (ctx', new', True)"
        by (cases "imports_loop env ctx1 cs depth") auto
      with "3.IH"(4) [OF e refl n] deep show False by simp
    qed
  qed (auto simp: imports_loop.psimps)
  show ?thesis
    by (relation "measures [\<lambda>x. case x of Inl (_, _, _, depth) \<Rightarrow> 256 - depth | Inr (_, _, _, depth) \<Rightarrow> 256 - depth,
      \<lambda>x. case x of Inl (_, _, n, _) \<Rightarrow> size n | Inr (_, _, cs, _) \<Rightarrow> size_list size cs]")
     (auto simp: children_smaller dest: shallow(2))
qed

declare expandImports.simps [simp del] imports_loop.simps [simp del]

definition readTree :: "penv \<Rightarrow> reader \<Rightarrow> string \<Rightarrow> nat \<Rightarrow> (pctx \<times> node list) pres" where
  "readTree env r location depth =
    (case parse_root env location r of
       Panic \<Rightarrow> Panic
     | Fail e \<Rightarrow> Fail e
     | Done (ctx, root) \<Rightarrow>
        (case expandImports env ctx root depth of
           Panic \<Rightarrow> Panic
         | Fail e \<Rightarrow> Fail e
         | Done (ctx, root) \<Rightarrow> Done (ctx, children root)))"

section \<open>The environment\<close>

text \<open>An entry of the environment without an equals sign makes \<open>buildEnvReplacer\<close> panic.\<close>

definition env_pair :: "string \<Rightarrow> (string \<times> string) option" where
  "env_pair entry =
    (if CHR ''='' \<in> set entry
     then Some (''{env:'' @ takeWhile (\<lambda>c. c \<noteq> CHR ''='') entry @ ''}'', tl (dropWhile (\<lambda>c. c \<noteq> CHR ''='') entry))
     else None)"

definition buildEnvReplacer :: "string list \<Rightarrow> (string \<times> string) list option" where
  "buildEnvReplacer entries =
    (if list_all (\<lambda>e. env_pair e \<noteq> None) entries then Some (map (the \<circ> env_pair) entries) else None)"

definition removeUnexpandedEnvvars :: "string \<Rightarrow> string" where
  "removeUnexpandedEnvvars s = remove_matches ''{env:'' (CHR ''}'') s"

fun expandEnvironment :: "(string \<times> string) list \<Rightarrow> node \<Rightarrow> node" where
  "expandEnvironment pairs (Node name args cs sn ma file line) =
     Node (removeUnexpandedEnvvars (replacer pairs name)) (map (\<lambda>a. removeUnexpandedEnvvars (replacer pairs a)) args)
       (case cs of None \<Rightarrow> None | Some ns \<Rightarrow> Some (map (expandEnvironment pairs) ns)) sn ma file line"

definition Read :: "penv \<Rightarrow> reader \<Rightarrow> string \<Rightarrow> node list pres" where
  "Read env r location =
    (case readTree env r location 0 of
       Panic \<Rightarrow> Panic
     | Fail e \<Rightarrow> (case buildEnvReplacer (pe_Environ env) of None \<Rightarrow> Panic | Some _ \<Rightarrow> Fail e)
     | Done (ctx, ns) \<Rightarrow>
        (case buildEnvReplacer (pe_Environ env) of
           None \<Rightarrow> Panic
         | Some pairs \<Rightarrow> Done (map (expandEnvironment pairs) ns)))"

end
