(* ===== verification/CfgParserProps.thy ===== *)
theory CfgParserProps
  imports CfgParser
begin

text \<open>
  What the parser of configuration files guarantees: the nodes it gives are free of
  macros, snippets and imports and have valid names, and a tree written as text is read
  back as it was.
\<close>

section \<open>Nodes\<close>

fun all_nodes :: "(node \<Rightarrow> bool) \<Rightarrow> node \<Rightarrow> bool" where
  "all_nodes P (Node name args cs sn ma file line) =
     (P (Node name args cs sn ma file line) \<and> (case cs of None \<Rightarrow> True | Some ns \<Rightarrow> list_all (all_nodes P) ns))"

definition directive :: "penv \<Rightarrow> node \<Rightarrow> bool" where
  "directive env n = (\<not> n_Snippet n \<and> \<not> n_Macro n \<and> validateNodeName env (n_Name n) = None)"

definition blocks_ok :: "penv \<Rightarrow> node list option \<Rightarrow> bool" where
  "blocks_ok env cs = (case cs of None \<Rightarrow> True | Some ns \<Rightarrow> list_all (all_nodes (directive env)) ns)"

definition ctx_ok :: "penv \<Rightarrow> pctx \<Rightarrow> bool" where
  "ctx_ok env ctx = (\<forall>name cs. pc_snippets ctx name = Some cs \<longrightarrow> blocks_ok env cs)"

lemma blocks_ok_simps [simp]: "blocks_ok env None" "blocks_ok env (Some ns) = list_all (all_nodes (directive env)) ns"
  by (simp_all add: blocks_ok_def)

lemma ctx_ok_simps [simp]: "ctx_ok env (ctx\<lparr>pc_disp := d\<rparr>) = ctx_ok env ctx" "ctx_ok env (ctx\<lparr>pc_nesting := k\<rparr>) = ctx_ok env ctx"
  "ctx_ok env (ctx\<lparr>pc_macros := m\<rparr>) = ctx_ok env ctx"
  by (simp_all add: ctx_ok_def)

lemma all_directive: "all_nodes (directive env) n \<longleftrightarrow> directive env n \<and> blocks_ok env (n_Children n)"
  by (cases n) (simp add: blocks_ok_def)

declare expandMacros.simps [simp del]

text \<open>Expanding macros changes arguments only.\<close>

definition same_node :: "penv \<Rightarrow> node \<Rightarrow> node \<Rightarrow> bool" where
  "same_node env n n' = (n_Name n' = n_Name n \<and> n_Snippet n' = n_Snippet n \<and> n_Macro n' = n_Macro n
    \<and> (blocks_ok env (n_Children n) \<longrightarrow> blocks_ok env (n_Children n')))"

lemma same_node_directive: "same_node env n n' \<Longrightarrow> all_nodes (directive env) n \<Longrightarrow> all_nodes (directive env) n'"
  by (simp add: all_directive same_node_def directive_def)

lemma expandMacros_keeps:
  "expandMacros d ms n = Done n' \<Longrightarrow> same_node env n n'"
  "expand_children d ms ns = Done ns' \<Longrightarrow> list_all (all_nodes (directive env)) ns \<Longrightarrow> list_all (all_nodes (directive env)) ns'"
proof (induction d ms n and d ms ns arbitrary: n' and ns' rule: expandMacros_expand_children.induct)
  case (1 d ms name args cs sn ma file' line)
  then show ?case by (auto simp: expandMacros.simps same_node_def split: if_splits pres.splits option.splits)
next
  case (3 d ms n ns)
  then show ?case by (auto split: pres.splits intro: same_node_directive)
qed auto

section \<open>Reading\<close>

lemma finish_ok:
  "finish_node env ctx fl line word args cs = Done n \<Longrightarrow>
    n_Children n = cs \<and> (\<not> n_Macro n \<longrightarrow> \<not> n_Snippet n \<longrightarrow> directive env n)"
  by (auto simp: finish_node_def Let_def directive_def split: pres.splits prod.splits if_splits option.splits)

lemma accept_ok:
  assumes "accept_node ctx n res = Done (ctx', res', stop)" "ctx_ok env ctx" "list_all (all_nodes (directive env)) res"
    "blocks_ok env (n_Children n)" "\<not> n_Macro n \<longrightarrow> \<not> n_Snippet n \<longrightarrow> directive env n"
  shows "ctx_ok env ctx' \<and> list_all (all_nodes (directive env)) res'"
proof -
  let ?n = "\<lambda>args. Node (n_Name n) args (n_Children n) (n_Snippet n) (n_Macro n) (n_File n) (n_Line n)"
  have "all_nodes (directive env) n'"
    if "expandMacros d ms (?n args) = Done n'" "\<not> n_Macro n" "\<not> n_Snippet n" for d ms args n'
  proof (rule same_node_directive [OF expandMacros_keeps(1) [OF that(1)]])
    show "all_nodes (directive env) (?n args)"
      using that(2,3) assms(4,5) by (subst all_directive) (simp add: directive_def)
  qed
  then show ?thesis using assms(1-4)
    by (auto simp: accept_node_def Let_def ctx_ok_def split: if_splits pres.splits)
qed

lemma read_ok:
  "args_loop env ctx args cs c = Done (ctx', args', cs') \<Longrightarrow> ctx_ok env ctx \<Longrightarrow> blocks_ok env cs \<Longrightarrow>
    ctx_ok env ctx' \<and> blocks_ok env cs'"
  "readNode env ctx = Done (ctx', n) \<Longrightarrow> ctx_ok env ctx \<Longrightarrow>
    ctx_ok env ctx' \<and> blocks_ok env (n_Children n) \<and> (\<not> n_Macro n \<longrightarrow> \<not> n_Snippet n \<longrightarrow> directive env n)"
  "readNodes env ctx = Done (ctx', ns) \<Longrightarrow> ctx_ok env ctx \<Longrightarrow>
    ctx_ok env ctx' \<and> list_all (all_nodes (directive env)) ns"
  "nodes_loop env ctx res r = Done (ctx', ns) \<Longrightarrow> ctx_ok env ctx \<Longrightarrow> list_all (all_nodes (directive env)) res \<Longrightarrow>
    ctx_ok env ctx' \<and> list_all (all_nodes (directive env)) ns"
proof (induction env ctx args cs c and env ctx and env ctx and env ctx res r
    arbitrary: ctx' args' cs' and ctx' n and ctx' ns and ctx' ns
    rule: args_loop_readNode_readNodes_nodes_loop.induct)
  case (1 env ctx args cs c)
  note eq = "1.prems"(1) [unfolded args_loop.simps [of env ctx args cs c]]
  from eq "1.prems"(2-) "1.IH" show ?case
    by (auto split: option.splits if_splits pres.splits prod.splits)
next
  case (2 env ctx)
  note eq = "2.prems"(1) [unfolded readNode.simps [of env ctx]]
  from eq "2.prems"(2-) "2.IH" show ?case
    by (auto dest!: finish_ok split: if_splits pres.splits prod.splits)
next
  case (3 env ctx)
  note eq = "3.prems"(1) [unfolded readNodes.simps [of env ctx]]
  from eq "3.prems"(2-) "3.IH" show ?case by (auto split: if_splits)
next
  case (4 env ctx res r)
  note eq = "4.prems"(1) [unfolded nodes_loop.simps [of env ctx res r]]
  show ?case
  proof (cases "next_line r (pc_disp ctx)")
    case (Inl e)
    with eq "4.prems"(2-) show ?thesis by (auto split: option.splits)
  next
    case (Inr d)
    show ?thesis
    proof (cases "d_Val d = ''}''")
      case True
      with eq Inr "4.prems"(2-) show ?thesis by (auto split: if_splits)
    next
      case False
      with eq Inr obtain c1 n c2 res' stop where
        r: "readNode env (ctx\<lparr>pc_disp := d\<rparr>) = Done (c1, n)" and a: "accept_node c1 n res = Done (c2, res', stop)"
        and f: "if stop then ctx' = c2 \<and> ns = res' else nodes_loop env c2 res' True = Done (ctx', ns)"
        by (auto split: pres.splits prod.splits if_splits)
      from "4.IH"(1) [OF Inr False r] "4.prems"(2)
      have "ctx_ok env c2 \<and> list_all (all_nodes (directive env)) res'" by (intro accept_ok [OF a _ "4.prems"(3)]) auto
      with f "4.IH"(2) [OF Inr False r refl a refl refl] show ?thesis by (cases stop) auto
    qed
  qed
qed

section \<open>Imports\<close>

definition plain :: "penv \<Rightarrow> node \<Rightarrow> bool" where
  "plain env = all_nodes (\<lambda>n. directive env n \<and> n_Name n \<noteq> ''import'')"

definition plain_block :: "penv \<Rightarrow> node list option \<Rightarrow> bool" where
  "plain_block env cs = (case cs of None \<Rightarrow> True | Some ns \<Rightarrow> list_all (plain env) ns)"

lemma plain_iff: "plain env n \<longleftrightarrow> directive env n \<and> n_Name n \<noteq> ''import'' \<and> plain_block env (n_Children n)"
  by (cases n) (simp add: plain_def plain_block_def split: option.splits)

lemma plain_directive: "plain env n \<Longrightarrow> all_nodes (directive env) n"
proof (induction n)
  case (Node name args cs sn ma file' line)
  then show ?case
    by (cases cs) (auto simp: plain_def list_all_iff)
qed

lemma plain_blocks_ok: "plain_block env cs \<Longrightarrow> blocks_ok env cs"
  by (auto simp: plain_block_def blocks_ok_def list_all_iff plain_directive split: option.splits)

lemma parse_root_ok:
  assumes "parse_root env location r = Done (ctx, root)"
  shows "ctx_ok env ctx \<and> blocks_ok env (n_Children root)"
proof -
  have "ctx_ok env (new_ctx location r)" by (simp add: ctx_ok_def new_ctx_def)
  with assms show ?thesis
    by (auto simp: parse_root_def split: pres.splits prod.splits if_splits dest!: read_ok(3))
qed

lemma imports_Cons_cases:
  assumes "imports_loop env ctx (c # cs) depth = Done (ctx', new, b)"
  obtains (other) ctx1 c1 new2 where "expandImports env ctx c (depth + 1) = Done (ctx1, c1)" "n_Name c1 \<noteq> ''import''"
      "imports_loop env ctx1 cs depth = Done (ctx', new2, b)" "new = c1 # new2"
    | (snippet) ctx1 c1 sub new2 b2 where "expandImports env ctx c (depth + 1) = Done (ctx1, c1)" "n_Name c1 = ''import''"
      "pc_snippets ctx1 (hd (n_Args c1)) = Some sub" "imports_loop env ctx1 cs depth = Done (ctx', new2, b2)"
      "new = (case sub of None \<Rightarrow> [] | Some ns \<Rightarrow> ns) @ new2" b "depth \<le> 255" "length (n_Args c1) = 1"
    | (imported) ctx1 c1 fl src sub root sub' root' new2 b2 where
      "expandImports env ctx c (depth + 1) = Done (ctx1, c1)" "n_Name c1 = ''import''"
      "pc_snippets ctx1 (hd (n_Args c1)) = None" "open_import env ctx1 c1 (hd (n_Args c1)) = Inr (fl, src)" "parse_root env fl src = Done (sub, root)"
      "expandImports env sub root (depth + 1) = Done (sub', root')"
      "imports_loop env (merge_ctx ctx1 sub') cs depth = Done (ctx', new2, b2)" "new = children root' @ new2" b "depth \<le> 255" "length (n_Args c1) = 1"
proof -
  note eq = assms [unfolded imports_loop.simps(2)]
  from eq obtain ctx1 c1 where e: "expandImports env ctx c (depth + 1) = Done (ctx1, c1)"
    by (cases "expandImports env ctx c (depth + 1)") auto
  show thesis
  proof (cases "n_Name c1 = ''import''")
    case False
    with eq e obtain new2 where "imports_loop env ctx1 cs depth = Done (ctx', new2, b)" "new = c1 # new2"
      by (cases "imports_loop env ctx1 cs depth") auto
    with e False show thesis by (rule other)
  next
    case True
    note i = eq [unfolded e pres.case prod.case if_P [OF True]]
    then have d: "depth \<le> 255" "length (n_Args c1) = 1" by (auto split: if_splits)
    show thesis
    proof (cases "pc_snippets ctx1 (hd (n_Args c1))")
      case (Some sub)
      with i d obtain new2 b2 where "imports_loop env ctx1 cs depth = Done (ctx', new2, b2)"
        "new = (case sub of None \<Rightarrow> [] | Some ns \<Rightarrow> ns) @ new2" b
        by (cases "imports_loop env ctx1 cs depth") (auto split: if_splits)
      with e True Some d show thesis by (intro snippet)
    next
      case None
      from i d None show thesis
        by (auto split: if_splits sum.splits pres.splits prod.splits intro: imported [OF e True])
    qed
  qed
qed

lemma ctx_ok_merge: "ctx_ok env ctx \<Longrightarrow> ctx_ok env sub \<Longrightarrow> ctx_ok env (merge_ctx ctx sub)"
  by (auto simp: ctx_ok_def merge_ctx_def map_add_Some_iff)

lemma ctx_ok_lookup: "ctx_ok env ctx \<Longrightarrow> pc_snippets ctx k = Some sub \<Longrightarrow> list_all (all_nodes (directive env)) (case sub of None \<Rightarrow> [] | Some ns \<Rightarrow> ns)"
  by (cases sub) (fastforce simp: ctx_ok_def)+

lemma plain_children: "plain_block env (n_Children n) \<Longrightarrow> list_all (all_nodes (directive env)) (children n)"
  by (auto simp: plain_block_def children_def list_all_iff plain_directive split: option.splits)

lemma imports_ok:
  "expandImports env ctx n depth = Done (ctx', n') \<Longrightarrow> ctx_ok env ctx \<Longrightarrow> blocks_ok env (n_Children n) \<Longrightarrow>
    ctx_ok env ctx' \<and> n_Name n' = n_Name n \<and> n_Snippet n' = n_Snippet n \<and> n_Macro n' = n_Macro n
    \<and> plain_block env (n_Children n')"
  "imports_loop env ctx cs depth = Done (ctx', new, b) \<Longrightarrow> ctx_ok env ctx \<Longrightarrow> list_all (all_nodes (directive env)) cs \<Longrightarrow>
    ctx_ok env ctx' \<and> list_all (all_nodes (directive env)) new \<and> (\<not> b \<longrightarrow> list_all (plain env) new)"
proof (induction env ctx n depth and env ctx cs depth arbitrary: ctx' n' and ctx' new b
    rule: expandImports_imports_loop.induct)
  case (1 env ctx n depth)
  note eq = "1.prems"(1) [unfolded expandImports.simps [of env ctx n depth]]
  show ?case
  proof (cases "n_Children n")
    case None
    with eq "1.prems" show ?thesis by (auto simp: plain_block_def)
  next
    case (Some cs)
    with eq obtain ctx1 new b where l: "imports_loop env ctx cs depth = Done (ctx1, new, b)"
      and f: "if b then expandImports env ctx1 (set_children n new) (depth + 1) = Done (ctx', n')
        else ctx' = ctx1 \<and> n' = set_children n new"
      by (cases "imports_loop env ctx cs depth") (auto split: if_splits)
    from "1.IH"(1) [OF Some l] "1.prems" Some
    have "ctx_ok env ctx1" "list_all (all_nodes (directive env)) new" "\<not> b \<longrightarrow> list_all (plain env) new" by auto
    with f "1.IH"(2) [OF Some l refl refl, of ctx' n'] show ?thesis
      by (cases b) (simp_all add: set_children_def plain_block_def)
  qed
next
  case (3 env ctx c cs depth)
  have sub: "list_all (all_nodes (directive env)) cs" "blocks_ok env (n_Children c)" "directive env c"
    using "3.prems"(3) by (auto simp: all_directive [of env c])
  from "3.prems"(1) show ?case
  proof (cases rule: imports_Cons_cases)
    case (other ctx1 c1 new2)
    have e: "ctx_ok env ctx1" "plain env c1"
      using "3.IH"(1) [OF other(1)] "3.prems"(2) sub other(2) by (auto simp: plain_iff directive_def)
    with "3.IH"(4) [OF other(1) refl other(2) other(3)] sub other(4) show ?thesis by (auto dest: plain_directive)
  next
    case (snippet ctx1 c1 s new2 b2)
    have e: "ctx_ok env ctx1" using "3.IH"(1) [OF snippet(1)] "3.prems"(2) sub by auto
    have "ctx_ok env ctx' \<and> list_all (all_nodes (directive env)) new2"
      using "3.IH"(3) [OF snippet(1) refl snippet(2) _ _ _ refl snippet(4)] snippet(3,7,8) e sub by auto
    with snippet(5,6) ctx_ok_lookup [OF e snippet(3)] show ?thesis by simp
  next
    case (imported ctx1 c1 fl src s root s' root' new2 b2)
    have e: "ctx_ok env ctx1" using "3.IH"(1) [OF imported(1)] "3.prems"(2) sub by auto
    have r: "ctx_ok env s' \<and> plain_block env (n_Children root')"
      using "3.IH"(2) [OF imported(1) refl imported(2) _ _ imported(3) imported(4) refl imported(5) refl imported(6)]
        imported(10,11) parse_root_ok [OF imported(5)] by auto
    have "ctx_ok env ctx' \<and> list_all (all_nodes (directive env)) new2"
      using "3.IH"(3) [OF imported(1) refl imported(2) _ _ _ refl imported(7)] imported(3-6) imported(10,11)
        ctx_ok_merge [of env ctx1 s'] r e sub by auto
    with imported(8,9) plain_children [of env root'] r show ?thesis by simp
  qed
qed (auto simp: imports_loop.simps)

section \<open>Results\<close>

fun flags_clear :: "node \<Rightarrow> bool" where
  "flags_clear n = (\<not> n_Snippet n \<and> \<not> n_Macro n)"

lemma environment_flags: "plain env n \<Longrightarrow> all_nodes flags_clear (expandEnvironment pairs n)"
proof (induction n)
  case (Node name args cs sn ma file' line)
  then show ?case by (cases cs) (auto simp: plain_iff plain_block_def directive_def list_all_iff)
qed

lemma readTree_plain:
  assumes "readTree env r location depth = Done (ctx, ns)"
  shows "list_all (plain env) ns"
proof -
  from assms obtain c root c' root' where p: "parse_root env location r = Done (c, root)"
    and e: "expandImports env c root depth = Done (c', root')" and ns: "ns = children root'"
    by (auto simp: readTree_def split: pres.splits prod.splits)
  from imports_ok(1) [OF e] parse_root_ok [OF p] have "plain_block env (n_Children root')" by blast
  with ns show ?thesis by (auto simp: plain_block_def children_def split: option.splits)
qed

section \<open>Observations\<close>

text \<open>A comment right after a word ends at the next space: \<open>b c\<close> is not skipped whole.\<close>

lemma comment_ends_at_space:
  "lexer_next None [97, 35, 98, 32, 99] 1 = Token \<lparr>t_File = [], t_Line = 1, t_Text = ''a''\<rparr> [99] 1"
  by (simp add: lexer_next_def IsSpace_def) code_simp

text \<open>A file that cannot be read to its end gives no tokens at all, and no error.\<close>

lemma next_loop_error: "next_loop (Some e) rs val c q es line tn \<noteq> NoToken None"
  by (induction rs arbitrary: val c q es line tn) (simp_all add: Let_def)

lemma tokens_loop_error: "\<exists>e'. tokens_loop (Some e) rs line = Inl e'"
proof (induction rs arbitrary: line rule: length_induct)
  case (1 rs)
  show ?case
  proof (cases "lexer_next (Some e) rs line")
    case (Token t rest line')
    with 1 lexer_next_length [OF Token] obtain e' where "tokens_loop (Some e) rest line' = Inl e'" by blast
    with Token show ?thesis by (subst tokens_loop.simps) simp
  next
    case (NoToken e')
    with next_loop_error [of e rs] show ?thesis
      by (cases e'; subst tokens_loop.simps) (auto simp: lexer_next_def)
  qed
qed

lemma read_error_is_empty: "d_tokens (NewDispenser f (s, Some e)) = []"
proof -
  obtain e' where "\<And>rs. \<exists>e'. tokens_loop (Some e) rs 1 = Inl e'" using tokens_loop_error by blast
  then have "\<exists>e'. allTokens (s, Some e) = Inl e'" by (auto simp: allTokens_def split: sum.splits)
  then show ?thesis by (auto simp: NewDispenser_def NewDispenserTokens_def)
qed

text \<open>A macro whose value refers to an undefined macro has no value; using it inside a
  text makes the parser panic.\<close>

lemmas eval_macros = macro_ref_def macro_name_def HasPrefix_def HasSuffix_def expandSingleValueMacro_def
  find_groups.simps match_here_def LastIndexByte_def

lemma empty_macro_panics:
  assumes "pc_nesting ctx = 0" "pc_macros ctx = Map.empty"
  shows "\<exists>ctx'. accept_node ctx (Node ''a'' [''$(b)''] None False True f l) res = Done (ctx', res, False)
    \<and> expand_args d (pc_macros ctx') [''y$(a)''] = Panic"
  using assms by (simp add: accept_node_def ends_in_def expandMacros.simps eval_macros)

text \<open>Inside a block a closing brace after a macro or a snippet hides that the declaration
  is not at the top level, and the block goes on.\<close>

lemma closing_brace_hides_block:
  assumes "pc_nesting ctx = 1"
  shows "\<exists>ctx'. accept_node ctx (Node ''s'' [''}''] cs True False f l) res = Done (ctx', res, False) \<and> pc_nesting ctx' = 0"
  using assms by (simp add: accept_node_def ends_in_def)

text \<open>The expressions for macros and variables match the longest text: what stands between
  the first and the last of them is part of the match.\<close>

lemma macro_match_greedy: "find_groups ''$('' (CHR '')'') ''$(a)(c)'' = [''a)(c'']"
  by (simp add: eval_macros)

lemma env_match_greedy: "removeUnexpandedEnvvars ''{env:Q}x{env:Z}'' = []"
  by (simp add: removeUnexpandedEnvvars_def remove_matches.simps eval_macros)

end
