(* ===== verification/CfgRoundtrip.thy ===== *)
theory CfgRoundtrip
  imports CfgParserProps
begin

text \<open>
  Writing a tree of nodes as text and reading it back: the printer, what the lexer makes
  of its output, and what the parser makes of the tokens.
\<close>

section \<open>Printing\<close>

text \<open>A text can be quoted unless a backslash of it would escape a quote: a backslash
  takes the rune after it along.\<close>

fun quotable :: "rune list \<Rightarrow> bool" where
  "quotable [] = True"
| "quotable (c # rs) = (if c = 92 then (case rs of [] \<Rightarrow> False | c' # rs' \<Rightarrow> c' \<noteq> 34 \<and> quotable rs') else quotable rs)"

definition esc_quotes :: "rune list \<Rightarrow> rune list" where
  "esc_quotes rs = concat (map (\<lambda>r. if r = 34 then [92, 34] else [r]) rs)"

definition print_args :: "string list \<Rightarrow> rune list" where
  "print_args args = concat (map (\<lambda>a. [32, 34] @ esc_quotes (runes a) @ [34]) args)"

fun print_node :: "node \<Rightarrow> rune list" where
  "print_node (Node name args cs sn ma file line) =
     runes name @ print_args args
     @ (case cs of None \<Rightarrow> [10] | Some ns \<Rightarrow> [32, 123, 10] @ concat (map print_node ns) @ [125, 10])"

definition print_nodes :: "node list \<Rightarrow> rune list" where
  "print_nodes ns = concat (map print_node ns)"

text \<open>The tokens of a tree and the line after it.\<close>

definition breaks :: "string \<Rightarrow> int" where
  "breaks s = int (count_list s (CHR 10))"

abbreviation word :: "int \<Rightarrow> string \<Rightarrow> token" where
  "word l s \<equiv> \<lparr>t_File = [], t_Line = l, t_Text = s\<rparr>"

fun arg_toks :: "int \<Rightarrow> string list \<Rightarrow> token list" where
  "arg_toks l [] = []"
| "arg_toks l (a # as) = word l a # arg_toks (l + breaks a) as"

definition args_end :: "int \<Rightarrow> string list \<Rightarrow> int" where
  "args_end l args = l + sum_list (map breaks args)"

fun node_toks :: "int \<Rightarrow> node \<Rightarrow> token list \<times> int"
  and nodes_toks :: "int \<Rightarrow> node list \<Rightarrow> token list \<times> int" where
  "node_toks l (Node name args cs sn ma file line) =
     (let l' = args_end l args in
      case cs of
        None \<Rightarrow> (word l name # arg_toks l args, l' + 1)
      | Some ns \<Rightarrow>
         (case nodes_toks (l' + 1) ns of
            (ts, l'') \<Rightarrow> (word l name # arg_toks l args @ word l' ''{'' # ts @ [word l'' ''}''], l'' + 1)))"
| "nodes_toks l [] = ([], l)"
| "nodes_toks l (n # ns) =
     (case node_toks l n of (ts, l') \<Rightarrow> (case nodes_toks l' ns of (ts', l'') \<Rightarrow> (ts @ ts', l'')))"

section \<open>Lexing\<close>

text \<open>Letters and digits are neither spaces nor punctuation.\<close>

definition unicode_classes :: "penv \<Rightarrow> bool" where
  "unicode_classes env =
    (\<forall>r. pe_IsLetter env r \<or> pe_IsDigit env r \<longrightarrow> \<not> IsSpace r \<and> r \<notin> {34, 35, 36, 40, 123, 125, 65279})"

definition word_rune :: "rune \<Rightarrow> bool" where
  "word_rune r = (\<not> IsSpace r \<and> r \<notin> {34, 35})"

lemma space_runes [simp]: "IsSpace 32" "IsSpace 10" "\<not> IsSpace 34" "\<not> IsSpace 123" "\<not> IsSpace 125"
  by (simp_all add: IsSpace_def)

lemma next_loop_word:
  "list_all word_rune rs \<Longrightarrow> val \<noteq> [] \<Longrightarrow> c = 32 \<or> c = 10 \<Longrightarrow>
    next_loop err (rs @ c # rest) val False False False line tn
      = Token (word tn (encode_runes (val @ rs))) rest (if c = 10 then line + 1 else line)"
  by (induction rs arbitrary: val) (auto simp: word_rune_def Let_def)

lemma lexer_next_space [simp]: "lexer_next err (32 # rs) line = lexer_next err rs line"
  "lexer_next err (10 # rs) line = lexer_next err rs (line + 1)"
  by (simp_all add: lexer_next_def Let_def)

lemma tokens_loop_space [simp]: "tokens_loop err (32 # rs) line = tokens_loop err rs line"
  "tokens_loop err (10 # rs) line = tokens_loop err rs (line + 1)"
  by (subst (1 2) tokens_loop.simps, simp)+

definition cons_tok :: "token list \<Rightarrow> go_err + token list \<Rightarrow> go_err + token list" where
  "cons_tok ts r = (case r of Inl e \<Rightarrow> Inl e | Inr us \<Rightarrow> Inr (ts @ us))"

lemma cons_tok_simps [simp]: "cons_tok [] r = r" "cons_tok ts (cons_tok us r) = cons_tok (ts @ us) r"
  "cons_tok ts (Inr us) = Inr (ts @ us)"
  by (simp_all add: cons_tok_def split: sum.splits)

lemma tokens_word:
  assumes "rs \<noteq> []" "list_all word_rune rs" "c = 32 \<or> c = 10"
  shows "tokens_loop err (rs @ c # rest) line = cons_tok [word line (encode_runes rs)] (tokens_loop err (c # rest) line)"
proof -
  obtain r rs' where rs: "rs = r # rs'" using assms(1) by (cases rs) auto
  have "lexer_next err (rs @ c # rest) line = Token (word line (encode_runes rs)) rest (if c = 10 then line + 1 else line)"
    using assms(2,3) next_loop_word [of rs' "[r]" c] by (auto simp: rs lexer_next_def word_rune_def Let_def)
  then show ?thesis using assms(3)
    by (subst tokens_loop.simps) (auto simp: cons_tok_def split: sum.splits)
qed

lemma next_loop_quoted:
  "quotable rs \<Longrightarrow> next_loop err (esc_quotes rs @ 34 # rest) val False True False line tn
    = Token (word tn (encode_runes (val @ rs))) rest (line + int (count_list rs 10))"
proof (induction rs arbitrary: val line rule: quotable.induct)
  case (2 c rs)
  show ?case
  proof (cases "c = 92")
    case True
    with "2.prems" obtain c' rs' where rs: "rs = c' # rs'" "c' \<noteq> 34" "quotable rs'" by (cases rs) auto
    with "2.IH"(1) [OF True rs(1), of "val @ [92, c']"] True show ?thesis
      by (auto simp: esc_quotes_def)
  next
    case False
    with "2.prems" "2.IH"(2) [OF False] show ?thesis by (auto simp: esc_quotes_def)
  qed
qed (simp add: esc_quotes_def)

lemma breaks_rune: "count_list (encode_rune r) (CHR 10) = (if r = 10 then 1 else 0)"
proof (cases "r < 128")
  case True
  then have "char_of r = CHR 10 \<longleftrightarrow> r = 10" by (auto simp: char_of_eq_iff take_bit_eq_mod)
  with True show ?thesis by simp
next
  case False
  then have "10 \<notin> set (encode_rune_bytes r)" by (auto simp: encode_rune_bytes_def Let_def runeError_def)
  then have "10 \<notin> byte_of ` set (encode_rune r)" by (metis list.set_map map_byte_of_encode_rune)
  then have "CHR 10 \<notin> set (encode_rune r)" by force
  with False show ?thesis by (simp add: count_list_0_iff)
qed

lemma breaks_runes: "count_list (encode_runes rs) (CHR 10) = count_list rs 10"
  by (induction rs) (auto simp: breaks_rune)

lemma tokens_quoted:
  assumes "quotable (runes a)" "valid_utf8 a"
  shows "tokens_loop err (34 # esc_quotes (runes a) @ 34 # rest) line
    = cons_tok [word line a] (tokens_loop err rest (line + breaks a))"
proof -
  have e: "encode_runes (runes a) = a" using assms(2) by (simp add: valid_utf8_def)
  then have b: "breaks a = int (count_list (runes a) 10)" by (metis breaks_def breaks_runes)
  have "lexer_next err (34 # esc_quotes (runes a) @ 34 # rest) line = Token (word line a) rest (line + breaks a)"
    using next_loop_quoted [OF assms(1), of err rest "[]" line line] by (simp add: lexer_next_def Let_def e b)
  then show ?thesis by (subst tokens_loop.simps) (auto simp: cons_tok_def split: sum.splits)
qed

text \<open>Arguments and nodes that survive being written as text. A brace would open or close
  a block, and a reference to a macro or a variable would be expanded.\<close>

definition writable_arg :: "string \<Rightarrow> bool" where
  "writable_arg a = (valid_utf8 a \<and> quotable (runes a) \<and> a \<noteq> ''{'' \<and> a \<noteq> ''}'' \<and> \<not> Contains a ''$('' \<and> \<not> Contains a ''{env:'')"

definition writable1 :: "penv \<Rightarrow> node \<Rightarrow> bool" where
  "writable1 env n = (directive env n \<and> n_Name n \<noteq> ''import'' \<and> valid_utf8 (n_Name n) \<and> list_all writable_arg (n_Args n))"

abbreviation writable :: "penv \<Rightarrow> node \<Rightarrow> bool" where
  "writable env \<equiv> all_nodes (writable1 env)"

lemma tokens_args:
  "list_all writable_arg args \<Longrightarrow>
    tokens_loop err (print_args args @ rest) l = cons_tok (arg_toks l args) (tokens_loop err rest (args_end l args))"
  by (induction args arbitrary: l)
    (auto simp: print_args_def args_end_def tokens_quoted writable_arg_def algebra_simps)

lemma name_chars_None:
  "name_chars env rs = None \<Longrightarrow> r \<in> set rs \<Longrightarrow> pe_IsLetter env r \<or> pe_IsDigit env r \<or> r \<in> set allowedPunct"
  by (induction rs) (auto split: if_splits)

lemma name_runes:
  assumes "unicode_classes env" "name_chars env rs = None" "r \<in> set rs"
  shows "word_rune r \<and> r \<notin> {36, 40, 123, 125, 65279}"
proof (cases "r \<in> set allowedPunct")
  case True
  then show ?thesis by (auto simp: allowedPunct_def word_rune_def IsSpace_def)
next
  case False
  with name_chars_None [OF assms(2,3)] assms(1) show ?thesis unfolding unicode_classes_def word_rune_def by blast
qed

lemma directive_name:
  assumes "unicode_classes env" "directive env n"
  shows "n_Name n \<noteq> []" "list_all word_rune (runes (n_Name n))" "\<forall>r \<in> set (runes (n_Name n)). r \<notin> {36, 40, 123, 125, 65279}"
  using assms name_runes [of env "runes (n_Name n)"]
  by (auto simp: directive_def validateNodeName_def list_all_iff split: if_splits)

lemma brace_chars: "char_of (123 :: nat) = CHR ''{''" "char_of (125 :: nat) = CHR ''}''"
  by (simp_all add: char_of_eq_iff)

lemma tokens_brace:
  "tokens_loop err (123 # 10 # rest) l = cons_tok [word l ''{''] (tokens_loop err rest (l + 1))"
  "tokens_loop err (125 # 10 # rest) l = cons_tok [word l ''}''] (tokens_loop err rest (l + 1))"
  using tokens_word [of "[123]" 10 err rest l] tokens_word [of "[125]" 10 err rest l]
  by (simp_all add: word_rune_def brace_chars)

lemma tokens_header:
  assumes "unicode_classes env" "writable1 env (Node name args cs sn ma fl line)" "c = 32 \<or> c = 10"
  shows "tokens_loop err (runes name @ print_args args @ c # rest) l
    = cons_tok (word l name # arg_toks l args) (tokens_loop err (c # rest) (args_end l args))"
proof -
  obtain c' rs' where c: "print_args args @ c # rest = c' # rs'" "c' = 32 \<or> c' = 10"
    using assms(3) by (cases args) (auto simp: print_args_def)
  from assms(2) have d: "directive env (Node name args cs sn ma fl line)" "valid_utf8 name" "list_all writable_arg args"
    by (auto simp: writable1_def)
  note n = directive_name [OF assms(1) d(1), simplified]
  have "tokens_loop err (runes name @ c' # rs') l = cons_tok [word l name] (tokens_loop err (c' # rs') l)"
    using tokens_word [OF _ n(2) c(2)] n(1) d(2) by (simp add: valid_utf8_def)
  then show ?thesis using tokens_args [OF d(3), of err "c # rest" l] by (simp add: c(1))
qed

lemma tokens_node:
  assumes "unicode_classes env"
  shows "writable env n \<Longrightarrow> node_toks l n = (ts, l') \<Longrightarrow>
      tokens_loop err (print_node n @ rest) l = cons_tok ts (tokens_loop err rest l')"
    and "list_all (writable env) ns \<Longrightarrow> nodes_toks l ns = (ts, l') \<Longrightarrow>
      tokens_loop err (concat (map print_node ns) @ rest) l = cons_tok ts (tokens_loop err rest l')"
proof (induction l n and l ns arbitrary: ts l' rest and ts l' rest rule: node_toks_nodes_toks.induct)
  case (1 l name args cs sn ma file' line)
  let ?l = "args_end l args"
  from "1.prems"(1) have w: "writable1 env (Node name args cs sn ma file' line)" by simp
  show ?case
  proof (cases cs)
    case None
    with "1.prems"(2) tokens_header [OF assms w, of 10 err rest l] show ?thesis by (auto simp: Let_def)
  next
    case (Some ns)
    obtain us l2 where u: "nodes_toks (?l + 1) ns = (us, l2)" by fastforce
    from "1.prems"(1) Some have "list_all (writable env) ns" by simp
    note ih = "1.IH" [OF refl Some this u, of "125 # 10 # rest"]
    from "1.prems"(2) Some u have "ts = word l name # arg_toks l args @ word ?l ''{'' # us @ [word l2 ''}'']" "l' = l2 + 1"
      by (auto simp: Let_def)
    with Some tokens_header [OF assms w, of 32 err "123 # 10 # concat (map print_node ns) @ 125 # 10 # rest" l]
    show ?thesis by (simp add: tokens_brace ih)
  qed
next
  case (3 l n ns)
  then show ?case by (auto split: prod.splits)
qed auto

section \<open>Parsing\<close>

text \<open>The dispenser at a token with the tokens that follow.\<close>

definition cursor_at :: "dispenser \<Rightarrow> token \<Rightarrow> token list \<Rightarrow> bool" where
  "cursor_at d t ts = (0 \<le> d_cursor d \<and> drop (nat (d_cursor d)) (d_tokens d) = t # ts)"

abbreviation end_line :: "token \<Rightarrow> int" where
  "end_line t \<equiv> t_Line t + breaks (t_Text t)"

lemma cursor_at_facts:
  assumes "cursor_at d t ts"
  shows "has_token d (d_cursor d)" "tok_at d (d_cursor d) = t" "int (length (d_tokens d)) = d_cursor d + 1 + int (length ts)"
    "d_Val d = t_Text t" "d_Line d = t_Line t" "numLineBreaks d (d_cursor d) = breaks (t_Text t)" "0 \<le> d_cursor d"
proof -
  let ?i = "nat (d_cursor d)"
  from assms have d: "drop ?i (d_tokens d) = t # ts" "0 \<le> d_cursor d" by (auto simp: cursor_at_def)
  then have l: "?i < length (d_tokens d)" by (metis drop_eq_Nil list.distinct(1) not_le)
  with d show h: "has_token d (d_cursor d)" by (simp add: has_token_def)
  from l d show t: "tok_at d (d_cursor d) = t" by (metis hd_drop_conv_nth list.sel(1))
  have "length (d_tokens d) - ?i = Suc (length ts)" using arg_cong [OF d(1), of length] by simp
  with l d(2) show "int (length (d_tokens d)) = d_cursor d + 1 + int (length ts)" by linarith
  from h t show "d_Val d = t_Text t" "d_Line d = t_Line t" "numLineBreaks d (d_cursor d) = breaks (t_Text t)"
    by (simp_all add: d_Val_def d_Line_def numLineBreaks_def breaks_def)
  from d show "0 \<le> d_cursor d" by simp
qed

lemma cursor_at_advance:
  assumes "cursor_at d t (u # ts)"
  shows "cursor_at (advance d) u ts" "tok_at d (d_cursor d + 1) = u"
proof -
  from assms have d: "drop (nat (d_cursor d)) (d_tokens d) = t # u # ts" "0 \<le> d_cursor d" by (auto simp: cursor_at_def)
  then have n: "nat (d_cursor d + 1) = Suc (nat (d_cursor d))" by linarith
  from d have s: "drop (Suc (nat (d_cursor d))) (d_tokens d) = u # ts" by (metis drop_Suc drop_tl list.sel(3))
  with d n show a: "cursor_at (advance d) u ts" by (simp add: cursor_at_def)
  show "tok_at d (d_cursor d + 1) = u" using cursor_at_facts(2) [OF a] by simp
qed

lemma dispense_end:
  assumes "cursor_at d t []"
  shows "d_Next d = (d, False)" "NextArg d = (d, False)" "NextLine d = (d, False)"
  using cursor_at_facts [OF assms] by (simp_all add: d_Next_def NextArg_def NextLine_def)

lemma dispense_next:
  assumes "cursor_at d t (u # ts)" "t_File t = []" "t_File u = []"
  shows "d_Next d = (advance d, True)"
    "NextArg d = (if end_line t = t_Line u then (advance d, True) else (d, False))"
    "NextLine d = (if end_line t < t_Line u then (advance d, True) else (d, False))"
  using cursor_at_facts [OF assms(1)] cursor_at_advance [OF assms(1)] assms(2,3)
  by (simp_all add: d_Next_def NextArg_def NextLine_def)

text \<open>The tokens that follow start on a later line, or there are none.\<close>

definition later :: "int \<Rightarrow> token list \<Rightarrow> bool" where
  "later l ts = (case ts of [] \<Rightarrow> True | t # _ \<Rightarrow> t_File t = [] \<and> l < t_Line t)"

lemma next_word_later: "cursor_at d t ts \<Longrightarrow> t_File t = [] \<Longrightarrow> later (end_line t) ts \<Longrightarrow> next_word False d = None"
  by (cases ts) (auto simp: later_def next_word_def dispense_end dispense_next)

lemma next_word_same: "cursor_at d t (u # ts) \<Longrightarrow> t_File t = [] \<Longrightarrow> t_File u = [] \<Longrightarrow> t_Line u = end_line t \<Longrightarrow> next_word False d = Some (advance d)"
  by (simp add: next_word_def dispense_next)

text \<open>The arguments of a line.\<close>

lemma args_loop_words:
  "\<lbrakk>cursor_at (pc_disp ctx) t (arg_toks (end_line t) args @ rest); t_File t = []; \<forall>a \<in> set args. a \<noteq> ''{''\<rbrakk> \<Longrightarrow>
    \<exists>d t'. args_loop env ctx args0 cs False = args_loop env (ctx\<lparr>pc_disp := d\<rparr>) (args0 @ args) cs False
      \<and> cursor_at d t' rest \<and> t_File t' = [] \<and> end_line t' = args_end (end_line t) args"
proof (induction args arbitrary: ctx t args0)
  case Nil
  then show ?case by (intro exI [of _ "pc_disp ctx"] exI [of _ t]) (simp add: args_end_def)
next
  case (Cons a args)
  let ?d = "advance (pc_disp ctx)" and ?u = "word (end_line t) a"
  have c: "cursor_at (pc_disp ctx) t (?u # arg_toks (end_line ?u) args @ rest)" using Cons.prems(1) by simp
  note adv = cursor_at_advance(1) [OF c]
  have step: "args_loop env ctx args0 cs False = args_loop env (ctx\<lparr>pc_disp := ?d\<rparr>) (args0 @ [a]) cs False"
    using next_word_same [OF c] Cons.prems(2,3) cursor_at_facts(4) [OF adv]
    by (subst args_loop.simps) simp
  have "cursor_at (pc_disp (ctx\<lparr>pc_disp := ?d\<rparr>)) ?u (arg_toks (end_line ?u) args @ rest)" using adv by simp
  from Cons.IH [OF this, of "args0 @ [a]"] Cons.prems(3) step show ?case by (auto simp: args_end_def add.assoc)
qed

text \<open>The place of a node in its file is not part of what is written; blocks may be nested
  256 deep.\<close>

fun unplaced :: "node \<Rightarrow> node" where
  "unplaced (Node name args cs sn ma file line) =
     Node name args (case cs of None \<Rightarrow> None | Some ns \<Rightarrow> Some (map unplaced ns)) sn ma [] 0"

fun shallow :: "nat \<Rightarrow> node \<Rightarrow> bool" where
  "shallow k (Node name args cs sn ma file line) =
     (case cs of None \<Rightarrow> True | Some ns \<Rightarrow> 0 < k \<and> list_all (shallow (k - 1)) ns)"

lemma writable_unplaced: "writable env (unplaced n) = writable env n"
proof (induction n)
  case (Node name args cs sn ma file' line)
  then show ?case
    by (cases cs) (auto simp: writable1_def directive_def list_all_iff)
qed

lemma writable_same: "unplaced n' = unplaced n \<Longrightarrow> writable env n \<Longrightarrow> writable env n'"
  by (metis writable_unplaced)

lemma HasPrefix_Contains: "HasPrefix s t \<Longrightarrow> Contains s t"
  by (cases s) (auto simp: HasPrefix_def)

lemma expand_args_id: "list_all (\<lambda>a. \<not> Contains a ''$('') args \<Longrightarrow> expand_args d ms args = Done args"
  by (induction args) (auto simp: macro_ref_def dest: HasPrefix_Contains)

lemma name_prefix:
  assumes "unicode_classes env" "directive env n"
  shows "\<not> HasPrefix (n_Name n) ''$(''" "\<not> HasPrefix (n_Name n) ''(''" "n_Name n \<noteq> ''{''" "n_Name n \<noteq> ''}''"
proof -
  have "\<not> (n_Name n = c # s \<and> byte_of c \<in> {36, 40, 123, 125})" for c s
    using directive_name(3) [OF assms] by (cases "byte_of c < 128") auto
  then show "\<not> HasPrefix (n_Name n) ''$(''" "\<not> HasPrefix (n_Name n) ''(''" "n_Name n \<noteq> ''{''" "n_Name n \<noteq> ''}''"
    by (cases "n_Name n"; force simp: HasPrefix_def)+
qed

lemma expandMacros_id:
  assumes "unicode_classes env"
  shows "writable env n \<Longrightarrow> expandMacros d ms n = Done n"
    and "list_all (writable env) ns \<Longrightarrow> expand_children d ms ns = Done ns"
proof (induction d ms n and d ms ns rule: expandMacros_expand_children.induct)
  case (1 d ms name args cs sn ma file' line)
  have "directive env (Node name args cs sn ma file' line)" and "list_all (\<lambda>a. \<not> Contains a ''$('') args"
    using 1 by (auto simp: writable1_def writable_arg_def list_all_iff)
  with 1 name_prefix(1) [OF assms this(1)] show ?case
    by (cases cs) (auto simp: expandMacros.simps macro_ref_def expand_args_id)
qed auto

lemma ends_writable: "list_all writable_arg args \<Longrightarrow> ends_in s args \<Longrightarrow> writable_arg s"
  by (metis ends_in_def last_in_set list_all_iff)

lemma not_backslash: "list_all writable_arg args \<Longrightarrow> \<not> ends_in [CHR 92] args"
  and not_brace: "list_all writable_arg args \<Longrightarrow> \<not> ends_in ''}'' args"
  using ends_writable [of args "[CHR 92]"] ends_writable [of args "''}''"] by (auto simp: writable_arg_def)

lemma writable_no_import: "all_nodes (writable1 env) n \<Longrightarrow> all_nodes (\<lambda>n. n_Name n \<noteq> ''import'') n"
proof (induction n)
  case (Node name args cs sn ma file' line)
  then show ?case by (cases cs) (auto simp: writable1_def list_all_iff)
qed

lemma accept_writable:
  assumes "unicode_classes env" "writable env n"
  shows "accept_node ctx n res = Done (ctx, res @ [n], False)"
proof -
  from assms(2) have w: "directive env n" "list_all writable_arg (n_Args n)" by (cases n; simp add: writable1_def)+
  then have "\<not> ends_in ''}'' (n_Args n)" by (simp add: not_brace)
  with w expandMacros_id(1) [OF assms] show ?thesis by (cases n) (simp add: accept_node_def directive_def)
qed

lemma finish_writable:
  assumes "unicode_classes env" "directive env (Node name args cs False False fl line)"
  shows "finish_node env ctx fl line name args cs' = Done (Node name args cs' False False fl line)"
  using name_prefix [OF assms] assms(2) by (simp add: finish_node_def isSnippet_def parseAsMacro_def directive_def)

text \<open>Where the loop over nodes stands: before the first token, at a token, or at a token
  after which a new line is required.\<close>

definition starts :: "dispenser \<Rightarrow> bool \<Rightarrow> token list \<Rightarrow> bool" where
  "starts d r us =
    (\<not> r \<and> d_cursor d = -1 \<and> d_tokens d = us
     \<or> (\<exists>t. cursor_at d t us \<and> t_File t = [] \<and> (r \<longrightarrow> later (end_line t) us)))"

lemma starts_end: "starts d r [] \<Longrightarrow> next_line r d = Inl None"
  by (auto simp: starts_def next_line_def dispense_end) (simp add: d_Next_def)

lemma starts_next:
  assumes "starts d r (u # us)" "t_File u = []"
  shows "next_line r d = Inr (advance d) \<and> cursor_at (advance d) u us"
  using assms(1) unfolding starts_def
proof (elim disjE exE conjE)
  assume "\<not> r" "d_cursor d = -1" "d_tokens d = u # us"
  then show ?thesis by (simp add: next_line_def d_Next_def cursor_at_def)
next
  fix t
  assume t: "cursor_at d t (u # us)" "t_File t = []" "r \<longrightarrow> later (end_line t) (u # us)"
  then show ?thesis
    using dispense_next [OF t(1,2) assms(2)] cursor_at_advance(1) [OF t(1)] by (auto simp: next_line_def later_def)
qed

lemma node_toks_Cons:
  obtains ts l' where "node_toks l n = (word l (n_Name n) # ts, l')"
  by (cases n; cases "n_Children n"; cases "nodes_toks (args_end l (n_Args n) + 1) (children n)")
    (auto simp: Let_def children_def)

lemma nodes_toks_later:
  assumes "nodes_toks l ns = (ts, l')" "later (l' - 1) rest"
  shows "later (l - 1) (ts @ rest)"
proof (cases ns)
  case (Cons n ns')
  obtain us l1 where "node_toks l n = (word l (n_Name n) # us, l1)" by (rule node_toks_Cons)
  with assms(1) Cons obtain vs where "ts = word l (n_Name n) # vs" by (cases "nodes_toks l1 ns'") auto
  then show ?thesis by (simp add: later_def)
qed (use assms in simp)

lemma breaks_name:
  assumes "unicode_classes env" "directive env n" "valid_utf8 (n_Name n)"
  shows "breaks (n_Name n) = 0"
proof -
  have "10 \<notin> set (runes (n_Name n))"
    using directive_name(2) [OF assms(1,2)] by (auto simp: list_all_iff word_rune_def)
  then show ?thesis using assms(3) breaks_runes [of "runes (n_Name n)"]
    by (simp add: breaks_def valid_utf8_def count_list_0_iff)
qed

lemma parse_tokens:
  assumes u: "unicode_classes env"
  shows "\<lbrakk>writable env n; node_toks l n = (t # ts, l'); shallow (nat (256 - pc_nesting ctx)) n; 0 \<le> pc_nesting ctx;
      cursor_at (pc_disp ctx) t (ts @ rest); later (l' - 1) rest\<rbrakk> \<Longrightarrow>
    \<exists>d n' t'. readNode env ctx = Done (ctx\<lparr>pc_disp := d\<rparr>, n') \<and> unplaced n' = unplaced n
      \<and> cursor_at d t' rest \<and> t_File t' = [] \<and> end_line t' = l' - 1"
    and "\<lbrakk>list_all (writable env) ns; nodes_toks l ns = (us, l'); list_all (shallow (nat (256 - pc_nesting ctx))) ns;
      0 \<le> pc_nesting ctx; starts (pc_disp ctx) r (us @ rest); later (l' - 1) rest\<rbrakk> \<Longrightarrow>
    \<exists>d ns' r'. nodes_loop env ctx res r = nodes_loop env (ctx\<lparr>pc_disp := d\<rparr>) (res @ ns') r'
      \<and> map unplaced ns' = map unplaced ns \<and> starts d r' rest"
proof (induction l n and l ns arbitrary: ctx t ts l' rest and ctx us l' rest res r
    rule: node_toks_nodes_toks.induct)
  case (1 l name args cs sn ma file' line)
  let ?l = "args_end l args" and ?n = "Node name args cs sn ma file' line"
  from "1.prems"(1) have w: "directive env ?n" "valid_utf8 name" "list_all writable_arg args" by (auto simp: writable1_def)
  then have [simp]: "\<not> sn" "\<not> ma" by (auto simp: directive_def)
  have nb: "breaks name = 0" using breaks_name [OF u w(1)] w(2) by simp
  have nw: "\<forall>a \<in> set args. a \<noteq> ''{''" using w(3) by (auto simp: list_all_iff writable_arg_def)
  have "\<exists>tail. t = word l name \<and> ts = arg_toks l args @ tail" using "1.prems"(2)
    by (auto simp: Let_def split: option.splits prod.splits)
  then obtain tail where t: "t = word l name" "ts = arg_toks l args @ tail" by blast
  have "cursor_at (pc_disp ctx) t (arg_toks (end_line t) args @ tail @ rest)" using "1.prems"(5) t nb by simp
  from args_loop_words [OF this _ nw, of env "[]" None] t nb obtain d t' where
    al: "args_loop env ctx [] None False = args_loop env (ctx\<lparr>pc_disp := d\<rparr>) args None False"
    and d: "cursor_at d t' (tail @ rest)" "t_File t' = []" "end_line t' = ?l" by auto
  have rd: "readNode env ctx = Done (ctx', Node name args cs' False False (d_File (pc_disp ctx)) (d_Line (pc_disp ctx)))"
    if "args_loop env (ctx\<lparr>pc_disp := d\<rparr>) args None False = Done (ctx', args, cs')" for ctx' cs'
    using that al cursor_at_facts(4) [OF "1.prems"(5)] t name_prefix(3) [OF u w(1)] w(1)
    by (subst readNode.simps) (simp add: finish_writable [OF u] directive_def)
  show ?case
  proof (cases cs)
    case None
    with "1.prems"(2) t have e: "tail = []" "l' = ?l + 1" by (auto simp: Let_def)
    with "1.prems"(6) d have "next_word False d = None" by (intro next_word_later [of d t' rest]) auto
    then have "args_loop env (ctx\<lparr>pc_disp := d\<rparr>) args None False = Done (ctx\<lparr>pc_disp := d\<rparr>, args, None)"
      by (subst args_loop.simps) (simp add: not_backslash [OF w(3)])
    from rd [OF this] d e None show ?thesis by (intro exI conjI) auto
  next
    case (Some ns)
    obtain us l2 where ns: "nodes_toks (?l + 1) ns = (us, l2)" by fastforce
    with "1.prems"(2) t Some have e: "tail = word ?l ''{'' # us @ [word l2 ''}'']" "l' = l2 + 1" by (auto simp: Let_def)
    let ?d = "advance d" and ?c = "ctx\<lparr>pc_disp := advance d, pc_nesting := pc_nesting ctx + 1\<rparr>"
    have at: "cursor_at d t' (word ?l ''{'' # us @ word l2 ''}'' # rest)" using d(1) e by simp
    note adv = cursor_at_advance(1) [OF at]
    from "1.prems"(1,3,4) Some have sub: "list_all (writable env) ns" "pc_nesting ctx \<le> 255"
      "list_all (shallow (nat (256 - pc_nesting ?c))) ns" by (auto simp: nat_diff_distrib)
    have "starts (pc_disp ?c) False (us @ word l2 ''}'' # rest)" using adv by (auto simp: starts_def)
    from "1.IH" [OF refl Some sub(1) ns sub(3) _ this, of "[]"] "1.prems"(4) obtain d2 ns' r' where
      l: "nodes_loop env ?c [] False = nodes_loop env (?c\<lparr>pc_disp := d2\<rparr>) ns' r'"
      and un: "map unplaced ns' = map unplaced ns" and s2: "starts d2 r' (word l2 ''}'' # rest)" by (auto simp: later_def)
    from starts_next [OF s2] have d3: "next_line r' d2 = Inr (advance d2)" "cursor_at (advance d2) (word l2 ''}'') rest" by auto
    have "nodes_loop env (?c\<lparr>pc_disp := d2\<rparr>) ns' r' = Done (ctx\<lparr>pc_disp := advance d2\<rparr>, ns')"
      using "1.prems"(4) d3(1) cursor_at_facts(4) [OF d3(2)] by (subst nodes_loop.simps) simp
    then have "readNodes env (ctx\<lparr>pc_disp := ?d\<rparr>) = Done (ctx\<lparr>pc_disp := advance d2\<rparr>, ns')"
      using l sub(2) by (subst readNodes.simps) simp
    then have "args_loop env (ctx\<lparr>pc_disp := d\<rparr>) args None False = Done (ctx\<lparr>pc_disp := advance d2\<rparr>, args, Some ns')"
      using next_word_same [OF at] d(2,3) cursor_at_facts(4) [OF adv]
      by (subst args_loop.simps) (simp add: not_backslash [OF w(3)])
    from rd [OF this] un d3(2) e(2) Some show ?thesis
      by (intro exI [of _ "advance d2"] exI [of _ "word l2 ''}''"] exI conjI) (auto simp: breaks_def)
  qed
next
  case (2 l)
  then show ?case by (intro exI [of _ "pc_disp ctx"] exI [of _ "[]"] exI [of _ r]) simp
next
  case (3 l n ns)
  obtain t1 l1 where n: "node_toks l n = (word l (n_Name n) # t1, l1)" by (rule node_toks_Cons)
  obtain us2 l2 where ns: "nodes_toks l1 ns = (us2, l2)" by fastforce
  from "3.prems"(2) n ns have us: "us = word l (n_Name n) # t1 @ us2" "l' = l2" by auto
  from "3.prems"(1) have w: "writable env n" "list_all (writable env) ns" by auto
  then have dn: "directive env n" by (cases n) (simp add: writable1_def)
  have lt: "later (l1 - 1) (us2 @ rest)" using nodes_toks_later [OF ns] "3.prems"(6) us(2) by simp
  let ?c = "ctx\<lparr>pc_disp := advance (pc_disp ctx)\<rparr>"
  have st: "next_line r (pc_disp ctx) = Inr (advance (pc_disp ctx))"
    and at: "cursor_at (pc_disp ?c) (word l (n_Name n)) (t1 @ us2 @ rest)"
    using starts_next [of "pc_disp ctx" r "word l (n_Name n)" "t1 @ us2 @ rest"] "3.prems"(5) us(1) by auto
  from "3.IH"(1) [OF w(1) n _ _ at lt] "3.prems"(3,4) obtain d n' t' where
    rd: "readNode env ?c = Done (?c\<lparr>pc_disp := d\<rparr>, n')" and un: "unplaced n' = unplaced n"
    and d: "cursor_at d t' (us2 @ rest)" "t_File t' = []" "end_line t' = l1 - 1" by auto
  have step: "nodes_loop env ctx res r = nodes_loop env (ctx\<lparr>pc_disp := d\<rparr>) (res @ [n']) True"
    using rd accept_writable [OF u writable_same [OF un w(1)]] name_prefix(4) [OF u dn] cursor_at_facts(4) [OF at]
    by (subst nodes_loop.simps) (simp add: st)
  have "starts (pc_disp (ctx\<lparr>pc_disp := d\<rparr>)) True (us2 @ rest)" using d lt by (auto simp: starts_def)
  from "3.IH"(2) [OF n [symmetric] w(2) ns _ _ this, of "res @ [n']"] "3.prems" us obtain d2 ns' r' where
    "nodes_loop env (ctx\<lparr>pc_disp := d\<rparr>) (res @ [n']) True = nodes_loop env (ctx\<lparr>pc_disp := d, pc_disp := d2\<rparr>) ((res @ [n']) @ ns') r'"
    "map unplaced ns' = map unplaced ns" "starts d2 r' rest" by auto
  with step un show ?case by (intro exI [of _ d2] exI [of _ "n' # ns'"] exI [of _ r']) simp
qed

section \<open>Imports and the environment\<close>

lemma imports_id:
  "all_nodes (\<lambda>n. n_Name n \<noteq> ''import'') n \<Longrightarrow> expandImports env ctx n depth = Done (ctx, n)"
proof (induction n arbitrary: ctx depth)
  case (Node name args cs sn ma file' line)
  show ?case
  proof (cases cs)
    case (Some ns)
    have "set ms \<subseteq> set ns \<Longrightarrow> imports_loop env ctx ms depth = Done (ctx, ms, False)" for ms
    proof (induction ms)
      case (Cons m ms)
      then have m: "m \<in> set ns" by simp
      with Node.prems Some have a: "all_nodes (\<lambda>n. n_Name n \<noteq> ''import'') m" by (simp add: list_all_iff)
      then have "n_Name m \<noteq> ''import''" by (cases m) simp
      with Node.IH [OF _ m a] Cons Some show ?case by (simp add: imports_loop.simps)
    qed (simp add: imports_loop.simps)
    with Some show ?thesis by (simp add: expandImports.simps set_children_def)
  qed (simp add: expandImports.simps)
qed

lemma HasPrefix_iff: "HasPrefix s p \<longleftrightarrow> (\<exists>r. s = p @ r)"
  unfolding HasPrefix_def by (metis append_eq_conv_conj append_take_drop_id)

lemma replacer_id:
  assumes "\<forall>(k, v) \<in> set pairs. HasPrefix k p" "\<not> Contains s p"
  shows "replacer pairs s = s"
  using assms(2)
proof (induction s)
  case (Cons c s)
  have "find (\<lambda>(key, _). key \<noteq> [] \<and> HasPrefix (c # s) key) pairs = None"
    using Cons.prems assms(1) by (fastforce simp: find_None_iff HasPrefix_iff)
  with Cons show ?case by auto
qed simp

lemma remove_matches_id: "\<not> Contains s op \<Longrightarrow> remove_matches op cl s = s"
proof (induction s)
  case (Cons c s)
  then show ?case by (subst remove_matches.simps) (auto simp: match_here_def)
next
  case Nil
  then show ?case by (subst remove_matches.simps) (auto simp: match_here_def HasPrefix_iff)
qed

lemma env_pairs: "buildEnvReplacer es = Some pairs \<Longrightarrow> \<forall>(k, v) \<in> set pairs. HasPrefix k ''{env:''"
  by (auto simp: buildEnvReplacer_def env_pair_def HasPrefix_iff list_all_iff split: if_splits)

lemma not_Contains: "p = c # p' \<Longrightarrow> c \<notin> set s \<Longrightarrow> \<not> Contains s p"
  by (induction s) (auto simp: HasPrefix_iff)

lemma writable_name:
  assumes "unicode_classes env" "writable1 env n"
  shows "\<not> Contains (n_Name n) ''{env:''"
proof -
  have "123 \<notin> set (runes (n_Name n))" using directive_name(3) [of env n] assms by (auto simp: writable1_def)
  then have "CHR ''{'' \<notin> set (n_Name n)" by (simp add: runes_ascii_mem brace_chars)
  then show ?thesis by (rule not_Contains [OF refl])
qed

lemma environment_id:
  assumes "unicode_classes env" "buildEnvReplacer es = Some pairs"
  shows "writable env n \<Longrightarrow> expandEnvironment pairs n = n"
proof (induction n)
  case (Node name args cs sn ma file' line)
  then have w: "writable1 env (Node name args cs sn ma file' line)" by simp
  then have a: "\<forall>a \<in> set args. \<not> Contains a ''{env:''" by (auto simp: writable1_def writable_arg_def list_all_iff)
  note id = replacer_id [OF env_pairs [OF assms(2)]] remove_matches_id
  have "map (expandEnvironment pairs) ns = ns" if "cs = Some ns" for ns
    using Node that by (auto simp: list_all_iff intro: map_idI)
  then show ?case using writable_name [OF assms(1) w] a
    by (cases cs) (auto simp: removeUnexpandedEnvvars_def id intro!: map_idI)
qed

section \<open>Reading what was written\<close>

lemma print_valid: "list_all valid_rune (print_node n)"
proof (induction n)
  case (Node name args cs sn ma file' line)
  have e: "list_all valid_rune (esc_quotes rs)" if "list_all valid_rune rs" for rs
    using that by (auto simp: esc_quotes_def list_all_iff valid_rune_def)
  have "list_all valid_rune (print_args args)"
    by (induction args) (simp_all add: print_args_def e valid_rune_ascii)
  moreover have "list_all valid_rune (concat (map print_node ns))" if "cs = Some ns" for ns
    using Node that by (auto simp: list_all_iff)
  ultimately show ?case by (cases cs) (simp_all add: valid_rune_ascii)
qed

lemma dispenser_written:
  assumes "unicode_classes env" "list_all (writable env) ns"
  shows "NewDispenser location (encode_runes (print_nodes ns), None) = NewDispenserTokens location (fst (nodes_toks 1 ns))"
proof -
  have r: "runes (encode_runes (print_nodes ns)) = print_nodes ns"
    by (rule runes_encode_runes) (auto simp: print_nodes_def list_all_iff print_valid [unfolded list_all_iff])
  have e: "tokens_loop None [] l = Inr []" for l by (subst tokens_loop.simps) (simp add: lexer_next_def)
  obtain ts l' where t: "nodes_toks 1 ns = (ts, l')" by fastforce
  have toks: "tokens_loop None (print_nodes ns) 1 = Inr ts"
    using tokens_node(2) [OF assms t, of None "[]"] by (simp add: print_nodes_def e)
  show ?thesis
  proof (cases ns)
    case Nil
    then show ?thesis by (simp add: NewDispenser_def allTokens_def lexer_load_def print_nodes_def)
  next
    case (Cons n ns')
    with assms(2) have d: "directive env n" by (cases n) (simp add: writable1_def)
    then obtain c rs where "runes (n_Name n) = c # rs" using directive_name(1) [OF assms(1) d] by (cases "runes (n_Name n)") auto
    with directive_name(3) [OF assms(1) d] Cons obtain rs' where "print_nodes ns = c # rs'" "c \<noteq> 65279"
      by (cases n) (auto simp: print_nodes_def)
    with toks t r show ?thesis by (simp add: NewDispenser_def allTokens_def lexer_load_def)
  qed
qed

lemma readNodes_written:
  assumes "unicode_classes env" "list_all (writable env) ns" "list_all (shallow 256) ns"
  obtains d ns' where "readNodes env (new_ctx location (encode_runes (print_nodes ns), None))
      = Done ((new_ctx location (encode_runes (print_nodes ns), None))\<lparr>pc_nesting := 0, pc_disp := d\<rparr>, ns')"
    "map unplaced ns' = map unplaced ns"
proof -
  let ?c = "(new_ctx location (encode_runes (print_nodes ns), None))\<lparr>pc_nesting := 0\<rparr>"
  obtain ts l' where t: "nodes_toks 1 ns = (ts, l')" by fastforce
  have "starts (pc_disp ?c) False (ts @ [])"
    using dispenser_written [OF assms(1,2)] t by (simp add: new_ctx_def starts_def NewDispenserTokens_def)
  from parse_tokens(2) [OF assms(1,2) t _ _ this, of "[]"] assms(3) obtain d ns' r' where
    l: "nodes_loop env ?c [] False = nodes_loop env (?c\<lparr>pc_disp := d\<rparr>) ns' r'"
    and u: "map unplaced ns' = map unplaced ns" and s: "starts d r' []" by (auto simp: later_def)
  have "nodes_loop env (?c\<lparr>pc_disp := d\<rparr>) ns' r' = Done (?c\<lparr>pc_disp := d\<rparr>, ns')"
    by (subst nodes_loop.simps) (simp add: starts_end [OF s])
  with l have "readNodes env (new_ctx location (encode_runes (print_nodes ns), None)) = Done (?c\<lparr>pc_disp := d\<rparr>, ns')"
    by (subst readNodes.simps) (simp add: new_ctx_def)
  then show thesis using u by (rule that)
qed

lemma read_written:
  assumes "unicode_classes env" "list_all (writable env) ns" "list_all (shallow 256) ns"
    and "buildEnvReplacer (pe_Environ env) \<noteq> None"
  shows "\<exists>ns'. Read env (encode_runes (print_nodes ns), None) location = Done ns' \<and> map unplaced ns' = map unplaced ns"
proof -
  obtain d ns' where r: "readNodes env (new_ctx location (encode_runes (print_nodes ns), None))
      = Done ((new_ctx location (encode_runes (print_nodes ns), None))\<lparr>pc_nesting := 0, pc_disp := d\<rparr>, ns')"
    and u: "map unplaced ns' = map unplaced ns" by (rule readNodes_written [OF assms(1-3)])
  have w: "list_all (writable env) ns'"
    using assms(2) u by (metis (no_types) list.pred_map list.pred_cong comp_apply writable_unplaced)
  let ?root = "Node [] [] (Some ns') False False location 1"
  from w have "all_nodes (\<lambda>n. n_Name n \<noteq> ''import'') n" if "n \<in> set ns'" for n
    using that by (auto simp: list_all_iff intro: writable_no_import)
  then have "expandImports env ctx ?root 0 = Done (ctx, ?root)" for ctx
    by (intro imports_id) (simp add: list_all_iff)
  with r have t: "\<exists>ctx. readTree env (encode_runes (print_nodes ns), None) location 0 = Done (ctx, ns')"
    by (simp add: readTree_def parse_root_def children_def)
  from assms(4) obtain pairs where p: "buildEnvReplacer (pe_Environ env) = Some pairs" by auto
  have "map (expandEnvironment pairs) ns' = ns'"
    using environment_id [OF assms(1) p] w by (intro map_idI) (auto simp: list_all_iff)
  with t p u show ?thesis by (auto simp: Read_def)
qed

definition demo_penv :: penv where
  "demo_penv = \<lparr>pe_Open = (\<lambda>_. Inl (ErrNew ''file does not exist'')), pe_IsNotExist = (\<lambda>_. True), pe_Environ = [''A=b''],
     pe_IsLetter = (\<lambda>r. 65 \<le> r \<and> r \<le> 90 \<or> 97 \<le> r \<and> r \<le> 122), pe_IsDigit = (\<lambda>r. 48 \<le> r \<and> r \<le> 57)\<rparr>"

definition demo_config :: "node list" where
  "demo_config = [Node ''smtp'' [''a b'', ''c'' @ [CHR 34]] (Some [Node ''reject'' [] None False False [] 0]) False False [] 0]"

lemma demo_unicode: "unicode_classes demo_penv"
  by (auto simp: unicode_classes_def demo_penv_def IsSpace_def)

lemma demo_written:
  "list_all (writable demo_penv) demo_config" "list_all (shallow 256) demo_config"
  "buildEnvReplacer (pe_Environ demo_penv) \<noteq> None" "map unplaced demo_config = demo_config"
  by (simp_all add: demo_config_def writable1_def writable_arg_def directive_def validateNodeName_def demo_penv_def
      valid_utf8_ascii ascii_def HasPrefix_def buildEnvReplacer_def env_pair_def)

section \<open>Properties\<close>

text \<open>C35: a configuration written as text is read back. \<open>Read\<close> of the written text succeeds
  and gives the same tree; only the places of the nodes are its own. The nodes are neither
  macros nor snippets nor imports, and their names are valid. An argument is valid UTF-8, is not
  a brace alone, has no \<open>$(\<close> and no \<open>{env:\<close>, and no backslash of it stands before a quote or at
  its end. Blocks are nested at most 256 deep. The environment is any whose entries all have the
  form key=value (another makes \<open>Read\<close> panic), the imported files are any, and letters and digits
  are what Unicode says: no spaces and none of the runes with a meaning of their own.\<close>

theorem written_config_read_back:
  assumes "unicode_classes env" "list_all (writable env) ns" "list_all (shallow 256) ns"
    and "buildEnvReplacer (pe_Environ env) \<noteq> None"
  shows "\<exists>ns'. Read env (encode_runes (print_nodes ns), None) location = Done ns' \<and> map unplaced ns' = map unplaced ns"
  using assms by (rule read_written)

theorem written_config_read_back_witness:
  "\<exists>ns'. Read demo_penv (encode_runes (print_nodes demo_config), None) ''maddy.conf'' = Done ns' \<and> map unplaced ns' = demo_config"
  using written_config_read_back [OF demo_unicode demo_written(1-3), of "''maddy.conf''"] demo_written(4) by simp

text \<open>C36: what \<open>Read\<close> returns is fully expanded. At every depth the nodes are neither macros
  nor snippets, and before the variables of the environment are filled in, every name is
  valid and no import is left, whatever the file and the imported files contain.\<close>

theorem read_gives_plain_nodes:
  assumes "Read env r location = Done ns"
  shows "list_all (all_nodes flags_clear) ns
    \<and> (\<exists>pairs ns0. buildEnvReplacer (pe_Environ env) = Some pairs \<and> ns = map (expandEnvironment pairs) ns0 \<and> list_all (plain env) ns0)"
proof -
  from assms obtain ctx ns0 pairs where t: "readTree env r location 0 = Done (ctx, ns0)"
    and p: "buildEnvReplacer (pe_Environ env) = Some pairs" and ns: "ns = map (expandEnvironment pairs) ns0"
    by (auto simp: Read_def split: pres.splits prod.splits option.splits)
  from readTree_plain [OF t] have pl: "list_all (plain env) ns0" .
  then have "list_all (all_nodes flags_clear) ns" by (auto simp: ns list_all_iff environment_flags)
  with p ns pl show ?thesis by blast
qed

theorem read_gives_plain_nodes_witness:
  "\<exists>ns. Read demo_penv (encode_runes (print_nodes demo_config), None) [] = Done ns \<and> length ns = 1 \<and> list_all (all_nodes flags_clear) ns"
proof -
  obtain ns where r: "Read demo_penv (encode_runes (print_nodes demo_config), None) [] = Done ns"
    and u: "map unplaced ns = map unplaced demo_config"
    using read_written [OF demo_unicode demo_written(1-3)] by blast
  have "length ns = 1" using arg_cong [OF u, of length] by (simp add: demo_config_def)
  with r read_gives_plain_nodes [OF r] show ?thesis by blast
qed

end
