(* ===== verification/DnsExt.thy ===== *)
theory DnsExt
  imports Module
begin

text \<open>
  The resolver that reports DNSSEC results (\<open>framework/dns/dnssec.go\<close>). The exchange of
  one message with one server is the library's; which answers count, when the flag for
  authenticated data is believed and how errors are reported is modelled here. The list
  of servers is never empty (\<open>NewExtResolver\<close> puts the local host into an empty one).
\<close>

section \<open>Messages\<close>

record tlsa =
  ta_Usage :: nat
  ta_Selector :: nat
  ta_MatchingType :: nat
  ta_Certificate :: string

record mx_record =
  mx_Host :: string
  mx_Pref :: nat

datatype rr =
    RR_A string string
  | RR_AAAA string string
  | RR_MX string nat
  | RR_TXT "string list"
  | RR_PTR string
  | RR_CNAME string
  | RR_TLSA tlsa
  | RR_Other

datatype qtype = TypeA | TypeAAAA | TypeMX | TypeTXT | TypePTR | TypeCNAME | TypeTLSA

record dns_msg =
  dm_Rcode :: int
  dm_AD :: bool
  dm_Answer :: "rr list"

text \<open>The client of the library on a world \<open>'w\<close>, the configured servers, the helpers of the
  library that build names and the test for loopback addresses.\<close>

record 'w ext_resolver =
  er_Exchange :: "string \<Rightarrow> string \<Rightarrow> qtype \<Rightarrow> 'w \<Rightarrow> 'w \<times> (go_err + dns_msg)"
  er_Server :: string
  er_Servers :: "string list"
  er_isLoopback :: "string \<Rightarrow> bool"
  er_Fqdn :: "string \<Rightarrow> string"
  er_ReverseAddr :: "string \<Rightarrow> go_err + string"
  er_TLSAName :: "string \<Rightarrow> string \<Rightarrow> string \<Rightarrow> go_err + string"

definition IsNotFound :: "go_err \<Rightarrow> bool" where
  "IsNotFound err =
    (case err of
       DNSError _ _ _ _ _ nf \<Rightarrow> nf
     | RCodeError _ code \<Rightarrow> code = 3
     | _ \<Rightarrow> False)"

section \<open>Exchanging messages\<close>

text \<open>One round of the loop of \<open>exchange\<close> and the loop: the servers are asked in order until
  one gives a success; the last error is reported otherwise.\<close>

definition ask :: "'w ext_resolver \<Rightarrow> string \<Rightarrow> string \<Rightarrow> qtype \<Rightarrow> 'w \<Rightarrow> 'w \<times> (go_err + dns_msg)" where
  "ask e srv name q w =
    (case er_Exchange e srv name q w of
       (w, Inl err) \<Rightarrow> (w, Inl err)
     | (w, Inr resp) \<Rightarrow>
        if dm_Rcode resp \<noteq> 0 then (w, Inl (RCodeError name (dm_Rcode resp)))
        else (w, Inr (if \<not> er_isLoopback e srv then resp\<lparr>dm_AD := False\<rparr> else resp)))"

fun exchange_loop :: "'w ext_resolver \<Rightarrow> string \<Rightarrow> string list \<Rightarrow> string \<Rightarrow> qtype \<Rightarrow> 'w \<Rightarrow> 'w \<times> (go_err + dns_msg)" where
  "exchange_loop e srv [] name q w = ask e srv name q w"
| "exchange_loop e srv (srv' # srvs) name q w =
     (case ask e srv name q w of
        (w, Inr resp) \<Rightarrow> (w, Inr resp)
      | (w, Inl _) \<Rightarrow> exchange_loop e srv' srvs name q w)"

definition exchange :: "'w ext_resolver \<Rightarrow> string \<Rightarrow> qtype \<Rightarrow> 'w \<Rightarrow> 'w \<times> (go_err + dns_msg)" where
  "exchange e name q w = exchange_loop e (er_Server e) (er_Servers e) name q w"

section \<open>Lookups\<close>

text \<open>The common part of the lookups: the answers a function picks, with the flag.\<close>

definition lookup_answers ::
  "'w ext_resolver \<Rightarrow> string \<Rightarrow> qtype \<Rightarrow> (rr \<Rightarrow> 'a option) \<Rightarrow> 'w \<Rightarrow> 'w \<times> (go_err + bool \<times> 'a list)" where
  "lookup_answers e name q pick w =
    (case exchange e name q w of
       (w, Inl err) \<Rightarrow> (w, Inl err)
     | (w, Inr resp) \<Rightarrow> (w, Inr (dm_AD resp, List.map_filter pick (dm_Answer resp))))"

definition pick_ptr :: "rr \<Rightarrow> string option" where
  "pick_ptr r = (case r of RR_PTR n \<Rightarrow> Some n | _ \<Rightarrow> None)"

definition pick_mx :: "rr \<Rightarrow> mx_record option" where
  "pick_mx r = (case r of RR_MX h p \<Rightarrow> Some \<lparr>mx_Host = h, mx_Pref = p\<rparr> | _ \<Rightarrow> None)"

definition pick_txt :: "rr \<Rightarrow> string option" where
  "pick_txt r = (case r of RR_TXT parts \<Rightarrow> Some (concat parts) | _ \<Rightarrow> None)"

definition pick_tlsa :: "rr \<Rightarrow> tlsa option" where
  "pick_tlsa r = (case r of RR_TLSA t \<Rightarrow> Some t | _ \<Rightarrow> None)"

definition pick_a :: "rr \<Rightarrow> (string \<times> string) option" where
  "pick_a r = (case r of RR_A n a \<Rightarrow> Some (n, a) | _ \<Rightarrow> None)"

definition pick_aaaa :: "rr \<Rightarrow> (string \<times> string) option" where
  "pick_aaaa r = (case r of RR_AAAA n a \<Rightarrow> Some (n, a) | _ \<Rightarrow> None)"

definition AuthLookupAddr :: "'w ext_resolver \<Rightarrow> string \<Rightarrow> 'w \<Rightarrow> 'w \<times> (go_err + bool \<times> string list)" where
  "AuthLookupAddr e addr w =
    (case er_ReverseAddr e addr of
       Inl err \<Rightarrow> (w, Inl err)
     | Inr revAddr \<Rightarrow> lookup_answers e revAddr TypePTR pick_ptr w)"

definition AuthLookupMX :: "'w ext_resolver \<Rightarrow> string \<Rightarrow> 'w \<Rightarrow> 'w \<times> (go_err + bool \<times> mx_record list)" where
  "AuthLookupMX e name w = lookup_answers e (er_Fqdn e name) TypeMX pick_mx w"

definition AuthLookupTXT :: "'w ext_resolver \<Rightarrow> string \<Rightarrow> 'w \<Rightarrow> 'w \<times> (go_err + bool \<times> string list)" where
  "AuthLookupTXT e name w = lookup_answers e (er_Fqdn e name) TypeTXT pick_txt w"

definition AuthLookupTLSA :: "'w ext_resolver \<Rightarrow> string \<Rightarrow> string \<Rightarrow> string \<Rightarrow> 'w \<Rightarrow> 'w \<times> (go_err + bool \<times> tlsa list)" where
  "AuthLookupTLSA e service network domain w =
    (case er_TLSAName e domain service network of
       Inl err \<Rightarrow> (w, Inl err)
     | Inr name \<Rightarrow> lookup_answers e (er_Fqdn e name) TypeTLSA pick_tlsa w)"

text \<open>\<open>CheckCNAMEAD\<close>: the name of the last address record, with the flag of its response;
  the second query is for hosts without IPv4 addresses and its error is dropped.\<close>

definition CheckCNAMEAD :: "'w ext_resolver \<Rightarrow> string \<Rightarrow> 'w \<Rightarrow> 'w \<times> (go_err + bool \<times> string)" where
  "CheckCNAMEAD e host w =
    (case lookup_answers e (er_Fqdn e host) TypeA pick_a w of
       (w, Inl err) \<Rightarrow> (w, Inl err)
     | (w, Inr (ad, recs)) \<Rightarrow>
        if recs \<noteq> [] \<and> fst (last recs) \<noteq> [] then (w, Inr (ad, fst (last recs)))
        else let ad4 = (if recs \<noteq> [] then ad else False) in
         (case lookup_answers e (er_Fqdn e host) TypeAAAA pick_aaaa w of
            (w, Inl _) \<Rightarrow> (w, Inr (ad4, []))
          | (w, Inr (ad6, recs6)) \<Rightarrow>
             if recs6 \<noteq> [] then (w, Inr (ad6, fst (last recs6))) else (w, Inr (ad4, []))))"

definition AuthLookupCNAME :: "'w ext_resolver \<Rightarrow> string \<Rightarrow> 'w \<Rightarrow> 'w \<times> (go_err + bool \<times> string)" where
  "AuthLookupCNAME e host w =
    (case lookup_answers e (er_Fqdn e host) TypeCNAME (\<lambda>r. case r of RR_CNAME t \<Rightarrow> Some t | _ \<Rightarrow> None) w of
       (w, Inl err) \<Rightarrow> (w, Inl err)
     | (w, Inr (ad, [])) \<Rightarrow> (w, Inr (ad, []))
     | (w, Inr (ad, t # _)) \<Rightarrow> (w, Inr (ad, t)))"

definition AuthLookupIPAddr :: "'w ext_resolver \<Rightarrow> string \<Rightarrow> 'w \<Rightarrow> 'w \<times> (go_err + bool \<times> string list)" where
  "AuthLookupIPAddr e host w =
    (case lookup_answers e (er_Fqdn e host) TypeAAAA pick_aaaa w of
       (w, r6) \<Rightarrow>
        (case lookup_answers e (er_Fqdn e host) TypeA pick_a w of
           (w, r4) \<Rightarrow>
            (case (r6, r4) of
               (Inl _, Inl err) \<Rightarrow> (w, Inl err)
             | _ \<Rightarrow>
                (let v6ad = (case r6 of Inl _ \<Rightarrow> False | Inr (ad, _) \<Rightarrow> ad);
                     v6addrs = (case r6 of Inl _ \<Rightarrow> [] | Inr (_, as) \<Rightarrow> map snd as);
                     v4ad = (case r4 of Inl _ \<Rightarrow> False | Inr (ad, _) \<Rightarrow> ad);
                     v4addrs = (case r4 of Inl _ \<Rightarrow> [] | Inr (_, as) \<Rightarrow> map snd as)
                 in (w, Inr (v4ad,
                      if \<not> v6ad \<and> \<not> v4ad then v6addrs @ v4addrs
                      else (if v6ad then v6addrs else []) @ v4addrs))))))"

definition AuthLookupHost :: "'w ext_resolver \<Rightarrow> string \<Rightarrow> 'w \<Rightarrow> 'w \<times> (go_err + bool \<times> string list)" where
  "AuthLookupHost e host w = AuthLookupIPAddr e host w"

section \<open>Trust\<close>

text \<open>An answer is reported as authenticated only when a configured server on a loopback
  address sent it, without an error and with the flag.\<close>

definition vouched :: "'w ext_resolver \<Rightarrow> string \<Rightarrow> qtype \<Rightarrow> rr list \<Rightarrow> bool" where
  "vouched e name q answer \<longleftrightarrow> (\<exists>srv \<in> set (er_Server e # er_Servers e). er_isLoopback e srv
     \<and> (\<exists>w w' resp. er_Exchange e srv name q w = (w', Inr resp) \<and> dm_Rcode resp = 0 \<and> dm_AD resp \<and> dm_Answer resp = answer))"

lemma ask_trust:
  "ask e srv name q w = (w', Inr resp) \<Longrightarrow> dm_AD resp \<Longrightarrow>
    er_isLoopback e srv \<and> er_Exchange e srv name q w = (w', Inr resp) \<and> dm_Rcode resp = 0"
  by (auto simp: ask_def split: prod.splits sum.splits if_splits)

lemma exchange_loop_trust:
  "exchange_loop e srv srvs name q w = (w', Inr resp) \<Longrightarrow> dm_AD resp \<Longrightarrow>
    \<exists>s \<in> set (srv # srvs). er_isLoopback e s \<and> (\<exists>w. er_Exchange e s name q w = (w', Inr resp)) \<and> dm_Rcode resp = 0"
proof (induction srvs arbitrary: srv w)
  case Nil
  then show ?case using ask_trust by fastforce
next
  case (Cons srv' srvs)
  obtain w1 r where a: "ask e srv name q w = (w1, r)" by fastforce
  show ?case
  proof (cases r)
    case (Inl err)
    with Cons.prems a have "exchange_loop e srv' srvs name q w1 = (w', Inr resp)" by simp
    from Cons.IH [OF this Cons.prems(2)] show ?thesis by auto
  next
    case (Inr x)
    with Cons.prems a have "ask e srv name q w = (w', Inr resp)" by simp
    from ask_trust [OF this Cons.prems(2)] show ?thesis by auto
  qed
qed

lemma lookup_trust:
  assumes "lookup_answers e name q pick w = (w', Inr (True, xs))"
  shows "\<exists>answer. vouched e name q answer \<and> xs = List.map_filter pick answer"
proof -
  from assms obtain resp where x: "exchange_loop e (er_Server e) (er_Servers e) name q w = (w', Inr resp)" "dm_AD resp"
    and xs: "xs = List.map_filter pick (dm_Answer resp)"
    by (auto simp: lookup_answers_def exchange_def split: prod.splits sum.splits)
  from exchange_loop_trust [OF x] x(2) xs show ?thesis unfolding vouched_def by blast
qed

end
