(* ===== verification/SmtpConn.thy ===== *)
theory SmtpConn
  imports Address Module "HOL-Library.AList"
begin

text \<open>
  The SMTP client connection (\<open>internal/smtpconn/smtpconn.go\<close>): connecting with or without
  TLS, the commands of a transaction and the translation of client errors. The client of
  go-smtp and the network are functions on a world \<open>'w\<close>; a client is a number. Timeouts are
  settings of the network and have no effect of their own.
\<close>

section \<open>The network\<close>

record tls_cfg =
  tc_ServerName :: string
  tc_InsecureSkipVerify :: bool
  tc_other :: nat

record tls_state =
  ts_ServerName :: string
  ts_HandshakeComplete :: bool
  ts_VerifiedChains :: bool
  ts_PeerCertificates :: "nat list"

record net_endpoint =
  en_Scheme :: string
  en_Host :: string
  en_Port :: string
  en_Path :: string

record 'w net =
  nt_Dial :: "string \<Rightarrow> string \<Rightarrow> 'w \<Rightarrow> 'w \<times> (go_err + nat)"
  nt_TLSClient :: "nat \<Rightarrow> tls_cfg \<Rightarrow> 'w \<Rightarrow> 'w \<times> nat"
  nt_NewClient :: "bool \<Rightarrow> nat \<Rightarrow> 'w \<Rightarrow> 'w \<times> nat"
  nt_Hello :: "nat \<Rightarrow> string \<Rightarrow> 'w \<Rightarrow> 'w \<times> go_err option"
  nt_Extension :: "nat \<Rightarrow> string \<Rightarrow> 'w \<Rightarrow> 'w \<times> bool"
  nt_StartTLS :: "nat \<Rightarrow> tls_cfg \<Rightarrow> 'w \<Rightarrow> 'w \<times> go_err option"
  nt_TLSState :: "nat \<Rightarrow> 'w \<Rightarrow> tls_state"
  nt_Mail :: "nat \<Rightarrow> string \<Rightarrow> bool \<Rightarrow> bool \<Rightarrow> 'w \<Rightarrow> 'w \<times> go_err option"
  nt_Rcpt :: "nat \<Rightarrow> string \<Rightarrow> 'w \<Rightarrow> 'w \<times> go_err option"
  nt_Data :: "nat \<Rightarrow> 'w \<Rightarrow> 'w \<times> go_err option"
  nt_WriteHeader :: "nat \<Rightarrow> header \<Rightarrow> 'w \<Rightarrow> 'w \<times> go_err option"
  nt_Copy :: "nat \<Rightarrow> string \<Rightarrow> 'w \<Rightarrow> 'w \<times> go_err option"
  nt_DataClose :: "nat \<Rightarrow> 'w \<Rightarrow> 'w \<times> (string \<times> go_err option) list \<times> go_err option"
  nt_Quit :: "nat \<Rightarrow> 'w \<Rightarrow> 'w \<times> go_err option"
  nt_Close :: "nat \<Rightarrow> 'w \<Rightarrow> 'w \<times> go_err option"
  nt_Reset :: "nat \<Rightarrow> 'w \<Rightarrow> 'w \<times> go_err option"
  nt_Noop :: "nat \<Rightarrow> 'w \<Rightarrow> 'w \<times> go_err option"
  nt_Auth :: "nat \<Rightarrow> string \<Rightarrow> 'w \<Rightarrow> 'w \<times> go_err option"

text \<open>\<open>net.JoinHostPort\<close> and the methods of \<open>config.Endpoint\<close>.\<close>

definition JoinHostPort :: "string \<Rightarrow> string \<Rightarrow> string" where
  "JoinHostPort host port =
    (if CHR '':'' \<in> set host \<or> CHR ''%'' \<in> set host then ''['' @ host @ '']:'' @ port else host @ '':'' @ port)"

definition en_Network :: "net_endpoint \<Rightarrow> string" where
  "en_Network e = (if en_Scheme e = ''unix'' then ''unix'' else ''tcp'')"

definition en_Address :: "net_endpoint \<Rightarrow> string" where
  "en_Address e = (if en_Scheme e = ''unix'' then en_Path e else JoinHostPort (en_Host e) (en_Port e))"

definition en_IsTLS :: "net_endpoint \<Rightarrow> bool" where
  "en_IsTLS e = (en_Scheme e = ''tls'')"

section \<open>The connection\<close>

record smtp_c =
  co_Hostname :: string
  co_AddrInSMTPMsg :: bool
  co_serverName :: string
  co_cl :: "nat option"
  co_rcpts :: "string list"
  co_lmtp :: bool

definition New_C :: smtp_c where
  "New_C = \<lparr>co_Hostname = ''localhost.localdomain'', co_AddrInSMTPMsg = False, co_serverName = [], co_cl = None,
     co_rcpts = [], co_lmtp = False\<rparr>"

text \<open>\<open>wrapClientErr\<close>. A server that answers 552 is taken to mean 452; the error of the library
  is changed in place, so the wrapped one has the new code, too.\<close>

definition rewrite_552 :: "int \<Rightarrow> enh_code \<Rightarrow> int \<times> enh_code" where
  "rewrite_552 code ench = (if code = 552 then (452, (4, snd ench)) else (code, ench))"

definition wrapClientErr :: "smtp_c \<Rightarrow> go_err \<Rightarrow> string \<Rightarrow> go_err" where
  "wrapClientErr c err serverName =
    (case err of
       TLSError _ \<Rightarrow> err
     | SMTPError _ _ _ _ _ _ _ _ \<Rightarrow> err
     | GoSMTPError code ench message t tmp \<Rightarrow>
        (let msg = (if co_AddrInSMTPMsg c then serverName @ '' said: '' @ message else message);
             code' = fst (rewrite_552 code ench); ench' = snd (rewrite_552 code ench);
             tmp' = (if code = 552 then map_option (\<lambda>_. True) tmp else tmp)
         in SMTPError code' ench' msg [] [] (Some (GoSMTPError code' ench' message t tmp')) []
              [(''remote_server'', FStr serverName)])
     | OpError op addr inner t tmp \<Rightarrow>
        (case inner of
           DNSError _ _ _ _ _ _ \<Rightarrow>
             (case UnwrapDNSErr err of
                (reason, misc) \<Rightarrow>
                  SMTPError (SMTPCode err 450 550) (SMTPEnchCode err (0, 4, 4)) ''DNS error'' [] [] (Some err) reason
                    (fset ''io_op'' (FStr op) (fset ''remote_server'' (FStr addr) misc)))
         | _ \<Rightarrow> SMTPError 450 (4, 4, 2) ''Network I/O error'' [] [] (Some err) []
                  [(''remote_addr'', FStr addr), (''io_op'', FStr op)])
     | _ \<Rightarrow> WithFields err [(''remote_server'', FStr serverName)])"

section \<open>Connecting\<close>

text \<open>\<open>errors.As\<close> for certificate verification errors.\<close>

fun as_verify :: "go_err \<Rightarrow> go_err option" where
  "as_verify e =
     (case e of
        VerifyError _ \<Rightarrow> Some e
      | _ \<Rightarrow> (case unwrap e of None \<Rightarrow> None | Some e' \<Rightarrow> as_verify e'))"

declare as_verify.simps [simp del]

definition quit_or_close :: "'w net \<Rightarrow> nat \<Rightarrow> 'w \<Rightarrow> 'w" where
  "quit_or_close net cl w = (case nt_Quit net cl w of (w, None) \<Rightarrow> w | (w, Some _) \<Rightarrow> fst (nt_Close net cl w))"

text \<open>The part of \<open>attemptConnect\<close> that starts TLS on a connected client.\<close>

definition start_tls :: "'w net \<Rightarrow> smtp_c \<Rightarrow> net_endpoint \<Rightarrow> tls_cfg \<Rightarrow> nat \<Rightarrow> 'w \<Rightarrow> 'w \<times> (go_err + bool \<times> nat)" where
  "start_tls net c endp tlsConfig cl w =
    (case nt_Extension net cl ''STARTTLS'' w of
       (w, False) \<Rightarrow> (quit_or_close net cl w, Inl (ErrNew ''TLS required but unsupported by downstream''))
     | (w, True) \<Rightarrow>
        (case nt_StartTLS net cl (tlsConfig\<lparr>tc_ServerName := en_Host endp\<rparr>) w of
           (w, Some err) \<Rightarrow> (quit_or_close net cl w, Inl (TLSError err))
         | (w, None) \<Rightarrow>
            (case nt_Hello net cl (co_Hostname c) w of
               (w, Some err) \<Rightarrow>
                 (fst (nt_Close net cl w), Inl (case as_verify err of Some tlsErr \<Rightarrow> TLSError tlsErr | None \<Rightarrow> err))
             | (w, None) \<Rightarrow> (w, Inr (True, cl)))))"

definition attemptConnect ::
  "'w net \<Rightarrow> smtp_c \<Rightarrow> bool \<Rightarrow> net_endpoint \<Rightarrow> bool \<Rightarrow> tls_cfg \<Rightarrow> 'w \<Rightarrow> 'w \<times> smtp_c \<times> (go_err + bool \<times> nat)" where
  "attemptConnect net c lmtp endp starttls tlsConfig w =
    (case nt_Dial net (en_Network endp) (en_Address endp) w of
       (w, Inl err) \<Rightarrow> (w, c, Inl err)
     | (w, Inr conn) \<Rightarrow>
        (case (if en_IsTLS endp then nt_TLSClient net conn (tlsConfig\<lparr>tc_ServerName := en_Host endp\<rparr>) w else (w, conn)) of
           (w, conn) \<Rightarrow>
            (case nt_NewClient net lmtp conn w of
               (w, cl) \<Rightarrow>
                (case nt_Hello net cl (co_Hostname c) w of
                   (w, Some err) \<Rightarrow> (fst (nt_Close net cl w), c\<lparr>co_lmtp := lmtp\<rparr>, Inl err)
                 | (w, None) \<Rightarrow>
                    if \<not> starttls then (w, c\<lparr>co_lmtp := lmtp\<rparr>, Inr (False, cl))
                    else (case start_tls net c endp tlsConfig cl w of (w, r) \<Rightarrow> (w, c\<lparr>co_lmtp := lmtp\<rparr>, r))))))"

text \<open>\<open>Connect\<close> and \<open>ConnectLMTP\<close> differ in the flag only.\<close>

definition C_Connect ::
  "'w net \<Rightarrow> smtp_c \<Rightarrow> bool \<Rightarrow> net_endpoint \<Rightarrow> bool \<Rightarrow> tls_cfg \<Rightarrow> 'w \<Rightarrow> 'w \<times> smtp_c \<times> (go_err + bool)" where
  "C_Connect net c lmtp endp starttls tlsConfig w =
    (case attemptConnect net c lmtp endp starttls tlsConfig w of
       (w, c, Inl err) \<Rightarrow> (w, c, Inl (wrapClientErr c err (en_Host endp)))
     | (w, c, Inr (didTLS, cl)) \<Rightarrow> (w, c\<lparr>co_serverName := en_Host endp, co_cl := Some cl\<rparr>, Inr didTLS))"

section \<open>Transactions\<close>

text \<open>A nil client is dereferenced: the result \<open>None\<close> is the panic.\<close>

definition C_Mail :: "'w net \<Rightarrow> text_lib \<Rightarrow> smtp_c \<Rightarrow> string \<Rightarrow> bool \<Rightarrow> bool \<Rightarrow> 'w \<Rightarrow> ('w \<times> go_err option) option" where
  "C_Mail net lib c from utf8 requireTLS w =
    (case co_cl c of
       None \<Rightarrow> None
     | Some cl \<Rightarrow> Some
        (case (if utf8 then
                 (case nt_Extension net cl ''SMTPUTF8'' w of
                    (w, True) \<Rightarrow> (w, Inr (from, True))
                  | (w, False) \<Rightarrow>
                     (case ToASCII lib from of
                        (_, Some err) \<Rightarrow> (w, Inl (SMTPError 550 (5, 6, 7) ''SMTPUTF8 is unsupported, cannot convert sender address''
                            [] [] (Some err) [] [(''remote_server'', FStr (co_serverName c))]))
                      | (from, None) \<Rightarrow> (w, Inr (from, False))))
               else (w, Inr (from, False))) of
           (w, Inl err) \<Rightarrow> (w, Some err)
         | (w, Inr (from, utf8)) \<Rightarrow>
            (case nt_Mail net cl from utf8 requireTLS w of
               (w, Some err) \<Rightarrow> (w, Some (wrapClientErr c err (co_serverName c)))
             | (w, None) \<Rightarrow> (w, None))))"

text \<open>\<open>Rcpt\<close> records the address it sent, after the conversion.\<close>

definition C_Rcpt :: "'w net \<Rightarrow> text_lib \<Rightarrow> smtp_c \<Rightarrow> string \<Rightarrow> 'w \<Rightarrow> ('w \<times> smtp_c \<times> go_err option) option" where
  "C_Rcpt net lib c to w =
    (case co_cl c of
       None \<Rightarrow> None
     | Some cl \<Rightarrow> Some
        (case nt_Extension net cl ''SMTPUTF8'' w of
           (w, ok) \<Rightarrow>
            (case (if \<not> IsASCII to \<and> \<not> ok then ToASCII lib to else (to, None)) of
               (_, Some err) \<Rightarrow>
                 (w, c, Some (SMTPError 553 (5, 6, 7) ''SMTPUTF8 is unsupported, cannot convert recipient address''
                    [] [] (Some err) [] [(''remote_server'', FStr (co_serverName c))]))
             | (to, None) \<Rightarrow>
                (case nt_Rcpt net cl to w of
                   (w, Some err) \<Rightarrow> (w, c, Some (wrapClientErr c err (co_serverName c)))
                 | (w, None) \<Rightarrow> (w, c\<lparr>co_rcpts := co_rcpts c @ [to]\<rparr>, None)))))"

text \<open>The message stream: opening it, the header, the body and the final dot. The statuses of
  LMTP recipients come with the end of the stream.\<close>

definition send_message :: "'w net \<Rightarrow> smtp_c \<Rightarrow> nat \<Rightarrow> header \<Rightarrow> string \<Rightarrow> 'w \<Rightarrow> 'w \<times> (string \<times> go_err option) list \<times> go_err option" where
  "send_message net c cl hdr body w =
    (case nt_Data net cl w of
       (w, Some err) \<Rightarrow> (w, [], Some (wrapClientErr c err (co_serverName c)))
     | (w, None) \<Rightarrow>
        (case nt_WriteHeader net cl hdr w of
           (w, Some err) \<Rightarrow> (w, [], Some (wrapClientErr c err (co_serverName c)))
         | (w, None) \<Rightarrow>
            (case nt_Copy net cl body w of
               (w, Some err) \<Rightarrow> (w, [], Some (wrapClientErr c err (co_serverName c)))
             | (w, None) \<Rightarrow>
                (case nt_DataClose net cl w of
                   (w, sts, Some err) \<Rightarrow> (w, sts, Some (wrapClientErr c err (co_serverName c)))
                 | (w, sts, None) \<Rightarrow> (w, sts, None)))))"

definition C_LMTPData :: "'w net \<Rightarrow> smtp_c \<Rightarrow> header \<Rightarrow> string \<Rightarrow> 'w \<Rightarrow> ('w \<times> (string \<times> go_err option) list \<times> go_err option) option" where
  "C_LMTPData net c hdr body w = map_option (\<lambda>cl. send_message net c cl hdr body w) (co_cl c)"

text \<open>\<open>lmtpError\<close>: the map of the statuses; it unwraps to its error when there is one only.\<close>

definition lmtp_map :: "(string \<times> go_err option) list \<Rightarrow> (string \<times> go_err option) list" where
  "lmtp_map sts = foldl (\<lambda>m (k, v). AList.update k v m) [] sts"

definition singleError :: "(string \<times> go_err option) list \<Rightarrow> go_err option" where
  "singleError l = (case List.map_filter snd l of [e] \<Rightarrow> Some e | _ \<Rightarrow> None)"

definition lmtpError :: "(string \<times> go_err option) list \<Rightarrow> string \<Rightarrow> go_err" where
  "lmtpError l t =
    (case singleError l of
       Some e \<Rightarrow> ErrWrap [] e
     | None \<Rightarrow> ErrNew (''multiple errors reported by LMTP downstream: '' @ t))"

definition smtpToLMTPData :: "'w net \<Rightarrow> smtp_c \<Rightarrow> header \<Rightarrow> string \<Rightarrow> string \<Rightarrow> 'w \<Rightarrow> ('w \<times> go_err option) option" where
  "smtpToLMTPData net c hdr body t w =
    (case C_LMTPData net c hdr body w of
       None \<Rightarrow> None
     | Some (w, sts, Some err) \<Rightarrow> Some (w, Some err)
     | Some (w, sts, None) \<Rightarrow>
        Some (w, if list_ex (\<lambda>(_, e). e \<noteq> None) (lmtp_map sts) then Some (lmtpError (lmtp_map sts) t) else None))"

text \<open>\<open>t\<close> is the printed map of an LMTP error.\<close>

definition C_Data :: "'w net \<Rightarrow> smtp_c \<Rightarrow> header \<Rightarrow> string \<Rightarrow> string \<Rightarrow> 'w \<Rightarrow> ('w \<times> go_err option) option" where
  "C_Data net c hdr body t w =
    (if co_lmtp c then smtpToLMTPData net c hdr body t w
     else (case co_cl c of
         None \<Rightarrow> None
       | Some cl \<Rightarrow> (case send_message net c cl hdr body w of (w, _, err) \<Rightarrow> Some (w, err))))"

definition C_Noop :: "'w net \<Rightarrow> smtp_c \<Rightarrow> 'w \<Rightarrow> 'w \<times> go_err option" where
  "C_Noop net c w =
    (case co_cl c of
       None \<Rightarrow> (w, Some (ErrNew ''smtpconn: not connected''))
     | Some cl \<Rightarrow> nt_Noop net cl w)"

text \<open>\<open>Close\<close> forgets the client only when QUIT succeeds.\<close>

definition C_Close :: "'w net \<Rightarrow> smtp_c \<Rightarrow> 'w \<Rightarrow> ('w \<times> smtp_c \<times> go_err option) option" where
  "C_Close net c w =
    (case co_cl c of
       None \<Rightarrow> None
     | Some cl \<Rightarrow>
        (case nt_Quit net cl w of
           (w, Some _) \<Rightarrow> (case nt_Close net cl w of (w, err) \<Rightarrow> Some (w, c, err))
         | (w, None) \<Rightarrow> Some (w, c\<lparr>co_cl := None, co_serverName := []\<rparr>, None)))"

definition C_DirectClose :: "'w net \<Rightarrow> smtp_c \<Rightarrow> 'w \<Rightarrow> ('w \<times> smtp_c) option" where
  "C_DirectClose net c w =
    (case co_cl c of
       None \<Rightarrow> None
     | Some cl \<Rightarrow> Some (fst (nt_Close net cl w), c\<lparr>co_cl := None, co_serverName := []\<rparr>))"

end
