(* ===== verification/RemoteSecurity.thy ===== *)
theory RemoteSecurity
  imports DnsExt SmtpConn CfgNode
begin

text \<open>
  The security policies of outbound connections (\<open>internal/target/remote/security.go\<close>,
  \<open>dane.go\<close> and \<open>policy_group.go\<close>) and their levels (\<open>framework/module/mxauth.go\<close>). MTA-STS
  policies, TLSA matching and X.509 verification come from libraries. A lookup started in the
  background is the result it will have; giving up on the wait is one of its errors.
\<close>

section \<open>Levels\<close>

datatype tls_level = TLSNone | TLSEncrypted | TLSAuthenticated

datatype mx_level = MXNone | MX_MTASTS | MX_DNSSEC

primrec tls_rank :: "tls_level \<Rightarrow> nat" where
  "tls_rank TLSNone = 0"
| "tls_rank TLSEncrypted = 1"
| "tls_rank TLSAuthenticated = 2"

primrec mx_rank :: "mx_level \<Rightarrow> nat" where
  "mx_rank MXNone = 0"
| "mx_rank MX_MTASTS = 1"
| "mx_rank MX_DNSSEC = 2"

lemma tls_rank_inj: "tls_rank a = tls_rank b \<Longrightarrow> a = b"
  by (cases a; cases b) auto

lemma mx_rank_inj: "mx_rank a = mx_rank b \<Longrightarrow> a = b"
  by (cases a; cases b) auto

instantiation tls_level :: linorder
begin

definition less_eq_tls_level :: "tls_level \<Rightarrow> tls_level \<Rightarrow> bool" where
  "less_eq_tls_level a b = (tls_rank a \<le> tls_rank b)"

definition less_tls_level :: "tls_level \<Rightarrow> tls_level \<Rightarrow> bool" where
  "less_tls_level a b = (tls_rank a < tls_rank b)"

instance
  by standard (auto simp: less_eq_tls_level_def less_tls_level_def intro: tls_rank_inj)

end

instantiation mx_level :: linorder
begin

definition less_eq_mx_level :: "mx_level \<Rightarrow> mx_level \<Rightarrow> bool" where
  "less_eq_mx_level a b = (mx_rank a \<le> mx_rank b)"

definition less_mx_level :: "mx_level \<Rightarrow> mx_level \<Rightarrow> bool" where
  "less_mx_level a b = (mx_rank a < mx_rank b)"

instance
  by standard (auto simp: less_eq_mx_level_def less_mx_level_def intro: mx_rank_inj)

end

primrec tls_String :: "tls_level \<Rightarrow> string" where
  "tls_String TLSNone = ''none''"
| "tls_String TLSEncrypted = ''encrypted''"
| "tls_String TLSAuthenticated = ''authenticated''"

primrec mx_String :: "mx_level \<Rightarrow> string" where
  "mx_String MXNone = ''none''"
| "mx_String MX_MTASTS = ''mtasts''"
| "mx_String MX_DNSSEC = ''dnssec''"

section \<open>DANE\<close>

record sts_policy =
  sp_Enforce :: bool
  sp_Match :: "string \<Rightarrow> bool"

record 'w sec_env =
  sx_mtastsGet :: "string \<Rightarrow> 'w \<Rightarrow> 'w \<times> (go_err + sts_policy)"
  sx_ext :: "'w ext_resolver option"
  sx_smtpPort :: string
  sx_FQDN :: "string \<Rightarrow> string"
  sx_tlsaVerify :: "tlsa \<Rightarrow> nat \<Rightarrow> bool"
  sx_IsCA :: "nat \<Rightarrow> bool"
  sx_x509Verify :: "string \<Rightarrow> nat list \<Rightarrow> nat list \<Rightarrow> nat \<Rightarrow> bool"

definition dane_err :: "int \<Rightarrow> enh_code \<Rightarrow> string \<Rightarrow> tls_state \<Rightarrow> go_err" where
  "dane_err code ench msg st = SMTPError code ench msg [] ''remote'' None [] [(''remote_server'', FStr (ts_ServerName st))]"

definition usable_tlsa :: "nat \<Rightarrow> tlsa \<Rightarrow> bool" where
  "usable_tlsa usage r = (ta_MatchingType r \<in> {0, 1, 2} \<and> ta_Selector r \<in> {0, 1} \<and> ta_Usage r = usage)"

text \<open>The split of the presented certificates into roots and intermediates; a pool keeps a
  certificate that is added again only once.\<close>

definition ta_roots :: "'w sec_env \<Rightarrow> tlsa list \<Rightarrow> nat list \<Rightarrow> nat list" where
  "ta_roots sx taRecs certs = filter (\<lambda>c. list_ex (\<lambda>r. sx_IsCA sx c \<and> sx_tlsaVerify sx r c) taRecs) certs"

definition ta_intermediates :: "'w sec_env \<Rightarrow> tlsa list \<Rightarrow> nat list \<Rightarrow> nat list" where
  "ta_intermediates sx taRecs certs = filter (\<lambda>c. \<not> list_ex (\<lambda>r. sx_IsCA sx c \<and> sx_tlsaVerify sx r c) taRecs) certs"

text \<open>\<open>verifyDANE\<close>; without a peer certificate the first one is out of range, a panic.\<close>

definition verifyDANE :: "'w sec_env \<Rightarrow> tlsa list \<Rightarrow> tls_state \<Rightarrow> (bool \<times> go_err option) option" where
  "verifyDANE sx recs st =
    (let eeRecs = filter (usable_tlsa 3) recs; taRecs = filter (usable_tlsa 2) recs in
     if recs = [] then Some (False, None)
     else if \<not> ts_HandshakeComplete st then
       Some (False, Some (dane_err 550 (5, 7, 1) ''TLS is required but unsupported or failed (enforced by DANE)'' st))
     else if eeRecs = [] \<and> taRecs = [] then Some (False, None)
     else case ts_PeerCertificates st of
       [] \<Rightarrow> None
     | cert # certs \<Rightarrow>
        if list_ex (\<lambda>r. sx_tlsaVerify sx r cert) eeRecs then Some (True, None)
        else if taRecs = [] then Some (True, Some (dane_err 550 (5, 7, 0) ''No matching TLSA records'' st))
        else if sx_x509Verify sx (ts_ServerName st) (ta_roots sx taRecs (cert # certs))
                  (ta_intermediates sx taRecs (cert # certs)) cert
        then Some (True, None)
        else Some (False, Some (dane_err 550 (5, 7, 0) ''No matching TLSA records'' st)))"

text \<open>The last part of \<open>discoverTLSA\<close>: the records under the name of the server itself.\<close>

definition tlsa_initial :: "'w sec_env \<Rightarrow> 'w ext_resolver \<Rightarrow> string \<Rightarrow> 'w \<Rightarrow> 'w \<times> (go_err + tlsa list)" where
  "tlsa_initial sx e mx w =
    (case AuthLookupTLSA e (sx_smtpPort sx) ''tcp'' mx w of
       (w, Inl err) \<Rightarrow> if \<not> IsNotFound err then (w, Inl err) else (w, Inr [])
     | (w, Inr (ad, recs)) \<Rightarrow> if \<not> ad then (w, Inr []) else (w, Inr recs))"

definition tlsa_lookup :: "'w sec_env \<Rightarrow> 'w ext_resolver \<Rightarrow> string \<Rightarrow> string \<Rightarrow> 'w \<Rightarrow> 'w \<times> (go_err + tlsa list)" where
  "tlsa_lookup sx e rname mx w =
    (if rname \<noteq> mx then
       (case AuthLookupTLSA e (sx_smtpPort sx) ''tcp'' rname w of
          (w, Inl err) \<Rightarrow> if \<not> IsNotFound err then (w, Inl err) else tlsa_initial sx e mx w
        | (w, Inr (ad, recs)) \<Rightarrow> if ad \<and> recs \<noteq> [] then (w, Inr recs) else tlsa_initial sx e mx w)
     else tlsa_initial sx e mx w)"

definition discoverTLSA :: "'w sec_env \<Rightarrow> 'w ext_resolver \<Rightarrow> string \<Rightarrow> 'w \<Rightarrow> 'w \<times> (go_err + tlsa list)" where
  "discoverTLSA sx e mx w =
    (case CheckCNAMEAD e mx w of
       (w, Inl err) \<Rightarrow> (w, Inl err)
     | (w, Inr (adA, rname)) \<Rightarrow>
        if rname = [] then (w, Inl (ErrNew ''no address associated with the host''))
        else if \<not> adA then
          (if rname = mx then (w, Inr [])
           else case AuthLookupCNAME e mx w of
             (w, Inl err) \<Rightarrow> (w, Inl err)
           | (w, Inr (cnameAD, _)) \<Rightarrow> if \<not> cnameAD then (w, Inr []) else tlsa_lookup sx e rname mx w)
        else tlsa_lookup sx e rname mx w)"

section \<open>Policies\<close>

text \<open>The configured policies and the objects they make for a delivery. The object of MTA-STS
  and of DANE holds the result of a lookup, nil before it was started.\<close>

datatype policy = Mtasts | StsPreload | Dnssec | Dane | LocalPolicy tls_level mx_level

datatype dpolicy =
    MtastsDelivery "(go_err + sts_policy) option"
  | PreloadDelivery
  | DnssecDelivery
  | DaneDelivery "(go_err + tlsa list) option"
  | LocalDelivery tls_level mx_level

primrec policy_Start :: "policy \<Rightarrow> dpolicy" where
  "policy_Start Mtasts = MtastsDelivery None"
| "policy_Start StsPreload = PreloadDelivery"
| "policy_Start Dnssec = DnssecDelivery"
| "policy_Start Dane = DaneDelivery None"
| "policy_Start (LocalPolicy t m) = LocalDelivery t m"

fun PrepareDomain :: "'w sec_env \<Rightarrow> string \<Rightarrow> dpolicy \<Rightarrow> 'w \<Rightarrow> 'w \<times> dpolicy" where
  "PrepareDomain sx domain (MtastsDelivery _) w = (case sx_mtastsGet sx domain w of (w, r) \<Rightarrow> (w, MtastsDelivery (Some r)))"
| "PrepareDomain sx domain p w = (w, p)"

fun PrepareConn :: "'w sec_env \<Rightarrow> string \<Rightarrow> dpolicy \<Rightarrow> 'w \<Rightarrow> 'w \<times> dpolicy" where
  "PrepareConn sx mx (DaneDelivery fut) w =
     (case sx_ext sx of
        None \<Rightarrow> (w, DaneDelivery fut)
      | Some e \<Rightarrow> (case discoverTLSA sx e (sx_FQDN sx mx) w of (w, r) \<Rightarrow> (w, DaneDelivery (Some r))))"
| "PrepareConn sx mx p w = (w, p)"

text \<open>The checks of MTA-STS; waiting for a nil future panics.\<close>

definition mtasts_CheckMX :: "(go_err + sts_policy) option \<Rightarrow> string \<Rightarrow> (mx_level \<times> go_err option) option" where
  "mtasts_CheckMX fut mx =
    (case fut of
       None \<Rightarrow> None
     | Some (Inl err) \<Rightarrow> Some (MXNone, None)
     | Some (Inr pol) \<Rightarrow> Some
        (if \<not> sp_Match pol mx then
           (if sp_Enforce pol then (MXNone, Some (smtpErr 550 (5, 7, 0) ''Failed to establish the MX record authenticity (MTA-STS)''))
            else (MXNone, None))
         else (MX_MTASTS, None)))"

definition mtasts_CheckConn :: "(go_err + sts_policy) option \<Rightarrow> tls_level \<Rightarrow> tls_state \<Rightarrow> (tls_level \<times> go_err option) option" where
  "mtasts_CheckConn fut tlsLevel st =
    (case fut of
       None \<Rightarrow> None
     | Some (Inl err) \<Rightarrow> Some (TLSNone, None)
     | Some (Inr pol) \<Rightarrow> Some
        (if \<not> sp_Enforce pol then (TLSNone, None)
         else if \<not> ts_HandshakeComplete st then
           (TLSNone, Some (smtpErr 451 (4, 7, 1) ''TLS is required but unavailable or failed (MTA-STS)''))
         else if \<not> ts_VerifiedChains st then
           (TLSNone, Some (SMTPError 451 (4, 7, 1)
              (''Recipient server TLS certificate is not trusted but '' @ ''authentication is required by MTA-STS'')
              [] [] None [] [(''tls_level'', FInt (int (tls_rank tlsLevel)))]))
         else (TLSNone, None)))"

text \<open>DNSSEC, DANE and the local policy.\<close>

definition dnssec_CheckMX :: "bool \<Rightarrow> mx_level \<times> go_err option" where
  "dnssec_CheckMX dnssec = (if dnssec then MX_DNSSEC else MXNone, None)"

definition dane_CheckConn :: "'w sec_env \<Rightarrow> (go_err + tlsa list) option \<Rightarrow> tls_state \<Rightarrow> (tls_level \<times> go_err option) option" where
  "dane_CheckConn sx fut st =
    (if sx_ext sx = None then Some (TLSNone, None)
     else case fut of
       None \<Rightarrow> None
     | Some (Inl err) \<Rightarrow> Some (if IsNotFound err then (TLSNone, None) else (TLSNone, Some (WithTemporary err True)))
     | Some (Inr recs) \<Rightarrow>
        (case verifyDANE sx recs st of
           None \<Rightarrow> None
         | Some (_, Some err) \<Rightarrow> Some (TLSNone, Some err)
         | Some (overridePKIX, None) \<Rightarrow> Some (if overridePKIX then TLSAuthenticated else TLSNone, None)))"

definition local_CheckMX :: "mx_level \<Rightarrow> mx_level \<Rightarrow> mx_level \<times> go_err option" where
  "local_CheckMX minMXLevel mxLevel =
    (if mxLevel < minMXLevel then
       (MXNone, Some (SMTPError 451 (4, 7, 0) ''Failed to establish the MX record authenticity'' [] [] None []
          [(''mx_level'', FInt (int (mx_rank mxLevel))), (''required_mx_level'', FInt (int (mx_rank minMXLevel)))]))
     else (MXNone, None))"

definition local_CheckConn :: "tls_level \<Rightarrow> tls_level \<Rightarrow> tls_level \<times> go_err option" where
  "local_CheckConn minTLSLevel tlsLevel =
    (if tlsLevel < minTLSLevel then
       (TLSNone, Some (SMTPError 451 (4, 7, 1) ''TLS it not available or unauthenticated but required'' [] [] None []
          [(''tls_level'', FInt (int (tls_rank tlsLevel))), (''required_tls_level'', FInt (int (tls_rank minTLSLevel)))]))
     else (TLSNone, None))"

text \<open>The methods of the interface.\<close>

fun CheckMX :: "dpolicy \<Rightarrow> mx_level \<Rightarrow> string \<Rightarrow> string \<Rightarrow> bool \<Rightarrow> (mx_level \<times> go_err option) option" where
  "CheckMX (MtastsDelivery fut) mxLevel domain mx dnssec = mtasts_CheckMX fut mx"
| "CheckMX PreloadDelivery mxLevel domain mx dnssec = Some (mxLevel, None)"
| "CheckMX DnssecDelivery mxLevel domain mx dnssec = Some (dnssec_CheckMX dnssec)"
| "CheckMX (DaneDelivery fut) mxLevel domain mx dnssec = Some (MXNone, None)"
| "CheckMX (LocalDelivery minTLS minMX) mxLevel domain mx dnssec = Some (local_CheckMX minMX mxLevel)"

fun CheckConn :: "'w sec_env \<Rightarrow> dpolicy \<Rightarrow> mx_level \<Rightarrow> tls_level \<Rightarrow> string \<Rightarrow> string \<Rightarrow> tls_state \<Rightarrow> (tls_level \<times> go_err option) option" where
  "CheckConn sx (MtastsDelivery fut) mxLevel tlsLevel domain mx st = mtasts_CheckConn fut tlsLevel st"
| "CheckConn sx PreloadDelivery mxLevel tlsLevel domain mx st = Some (tlsLevel, None)"
| "CheckConn sx DnssecDelivery mxLevel tlsLevel domain mx st = Some (TLSNone, None)"
| "CheckConn sx (DaneDelivery fut) mxLevel tlsLevel domain mx st = dane_CheckConn sx fut st"
| "CheckConn sx (LocalDelivery minTLS minMX) mxLevel tlsLevel domain mx st = Some (local_CheckConn minTLS tlsLevel)"

lemmas policy_checks = mtasts_CheckMX_def mtasts_CheckConn_def dnssec_CheckMX_def dane_CheckConn_def local_CheckMX_def local_CheckConn_def

fun policy_Reset :: "dpolicy \<Rightarrow> dpolicy" where
  "policy_Reset (MtastsDelivery _) = MtastsDelivery None"
| "policy_Reset p = p"

section \<open>Configuration\<close>

definition local_Init :: "string \<Rightarrow> string \<Rightarrow> policy" where
  "local_Init minTLSLevel minMXLevel =
    LocalPolicy
      (if minTLSLevel = ''encrypted'' then TLSEncrypted else if minTLSLevel = ''authenticated'' then TLSAuthenticated else TLSNone)
      (if minMXLevel = ''mtasts'' then MX_MTASTS else if minMXLevel = ''dnssec'' then MX_DNSSEC else MXNone)"

text \<open>The order in which policies are applied, and \<open>PolicyGroup.Init\<close>: blocks are turned into
  policies by a function \<open>mk\<close> and then sorted by name; a name that is not in the list is dropped.\<close>

definition policy_names :: "string list" where
  "policy_names = [''mtasts'', ''sts_preload'', ''dane'', ''dnssec'', ''local_policy'']"

fun read_policies :: "(node \<Rightarrow> go_err + policy) \<Rightarrow> node list \<Rightarrow> (string \<times> policy) list \<Rightarrow> go_err + (string \<times> policy) list" where
  "read_policies mk [] pols = Inr pols"
| "read_policies mk (block # blocks) pols =
     (if map_of pols (n_Name block) \<noteq> None then Inl (NodeErr block (''duplicate policy block: '' @ n_Name block))
      else case mk block of
        Inl err \<Rightarrow> Inl err
      | Inr p \<Rightarrow> read_policies mk blocks (pols @ [(n_Name block, p)]))"

definition PolicyGroup_Init :: "(node \<Rightarrow> go_err + policy) \<Rightarrow> node list \<Rightarrow> go_err + policy list" where
  "PolicyGroup_Init mk blocks =
    (case read_policies mk blocks [] of
       Inl err \<Rightarrow> Inl err
     | Inr pols \<Rightarrow> Inr (List.map_filter (map_of pols) policy_names))"

end
