(* ===== verification/ConnPool.thy ===== *)
theory ConnPool
  imports Module
begin

text \<open>
  The pool of idle connections (\<open>internal/smtpconn/pool/pool.go\<close>). A bucket is the list of the
  connections in its channel and the time it carries. Connections are values of a type
  \<open>'c\<close> with the methods of the interface \<open>Conn\<close> on a world \<open>'w\<close>; calls the pool makes in
  goroutines of their own are made in place. \<open>now\<close> is the time of the call in nanoseconds. The
  order in which a map is walked is that of the list.
\<close>

record ('c, 'w) conn_ops =
  cn_Usable :: "'c \<Rightarrow> 'w \<Rightarrow> 'w \<times> bool"
  cn_LastUseAt :: "'c \<Rightarrow> int"
  cn_Close :: "'c \<Rightarrow> 'w \<Rightarrow> 'w"

text \<open>The sizes are natural numbers. In Go they are an \<open>int\<close>: a negative number of connections, which
  the configuration does not exclude, makes \<open>Return\<close> panic when it allocates a channel.\<close>

record pool_cfg =
  pl_MaxKeys :: nat
  pl_MaxConnsPerKey :: nat
  pl_MaxConnLifetimeSec :: int
  pl_StaleKeyLifetimeSec :: int

record 'c slot =
  sl_c :: "'c list"
  sl_lastUse :: int

text \<open>The keys of a closed pool are the nil map.\<close>

record 'c conn_pool =
  po_cfg :: pool_cfg
  po_keys :: "(string \<times> 'c slot) list option"

definition pool_New :: "pool_cfg \<Rightarrow> 'c conn_pool" where
  "pool_New cfg = \<lparr>po_cfg = cfg, po_keys = Some []\<rparr>"

definition po_map :: "'c conn_pool \<Rightarrow> (string \<times> 'c slot) list" where
  "po_map p = (case po_keys p of None \<Rightarrow> [] | Some m \<Rightarrow> m)"

definition drop_key :: "string \<Rightarrow> (string \<times> 'c slot) list \<Rightarrow> (string \<times> 'c slot) list" where
  "drop_key k m = filter (\<lambda>(k', _). k' \<noteq> k) m"

definition with_bucket :: "string \<Rightarrow> ('c slot \<Rightarrow> 'c slot) \<Rightarrow> (string \<times> 'c slot) list \<Rightarrow> (string \<times> 'c slot) list" where
  "with_bucket key f m = map (\<lambda>(k, v). if k = key then (k, f v) else (k, v)) m"

definition close_conns :: "('c, 'w) conn_ops \<Rightarrow> 'c list \<Rightarrow> 'w \<Rightarrow> 'w" where
  "close_conns ops cs w = foldl (\<lambda>w c. cn_Close ops c w) w cs"

definition Unix :: "int \<Rightarrow> int" where
  "Unix t = t div secondNs"

text \<open>Dropping the stale buckets, in \<open>CleanUp\<close> and in \<open>Return\<close>: the loop over the map.\<close>

definition is_stale :: "pool_cfg \<Rightarrow> int \<Rightarrow> 'c slot \<Rightarrow> bool" where
  "is_stale cfg now v = (\<not> sl_lastUse v + pl_StaleKeyLifetimeSec cfg > Unix now)"

fun drop_stale :: "('c, 'w) conn_ops \<Rightarrow> pool_cfg \<Rightarrow> int \<Rightarrow> (string \<times> 'c slot) list \<Rightarrow> 'w \<Rightarrow> 'w \<times> (string \<times> 'c slot) list" where
  "drop_stale ops cfg now [] w = (w, [])"
| "drop_stale ops cfg now ((k, v) # m) w =
     (if is_stale cfg now v then drop_stale ops cfg now m (close_conns ops (sl_c v) w)
      else (case drop_stale ops cfg now m w of (w, m') \<Rightarrow> (w, (k, v) # m')))"

definition pool_CleanUp :: "('c, 'w) conn_ops \<Rightarrow> int \<Rightarrow> 'c conn_pool \<Rightarrow> 'w \<Rightarrow> 'w \<times> 'c conn_pool" where
  "pool_CleanUp ops now p w =
    (case po_keys p of
       None \<Rightarrow> (w, p)
     | Some m \<Rightarrow> (case drop_stale ops (po_cfg p) now m w of (w, m') \<Rightarrow> (w, p\<lparr>po_keys := Some m'\<rparr>)))"

text \<open>The loop of \<open>Get\<close> over the channel: unusable and old connections are closed.\<close>

definition conn_expired :: "('c, 'w) conn_ops \<Rightarrow> pool_cfg \<Rightarrow> int \<Rightarrow> 'c \<Rightarrow> bool" where
  "conn_expired ops cfg now c = (cn_LastUseAt ops c + pl_MaxConnLifetimeSec cfg * secondNs < now)"

fun get_loop :: "('c, 'w) conn_ops \<Rightarrow> pool_cfg \<Rightarrow> int \<Rightarrow> 'c list \<Rightarrow> 'w \<Rightarrow> 'w \<times> 'c list \<times> 'c option" where
  "get_loop ops cfg now [] w = (w, [], None)"
| "get_loop ops cfg now (c # cs) w =
     (case cn_Usable ops c w of
        (w, False) \<Rightarrow> get_loop ops cfg now cs (cn_Close ops c w)
      | (w, True) \<Rightarrow>
         if conn_expired ops cfg now c then get_loop ops cfg now cs (cn_Close ops c w)
         else (w, cs, Some c))"

text \<open>\<open>Get\<close> without a constructor for new connections: no connection is the nil value.\<close>

definition pool_Get :: "('c, 'w) conn_ops \<Rightarrow> int \<Rightarrow> string \<Rightarrow> 'c conn_pool \<Rightarrow> 'w \<Rightarrow> 'w \<times> 'c conn_pool \<times> 'c option" where
  "pool_Get ops now key p w =
    (case map_of (po_map p) key of
       None \<Rightarrow> (w, p, None)
     | Some bucket \<Rightarrow>
        if Unix now - sl_lastUse bucket > pl_MaxConnLifetimeSec (po_cfg p) then
          (close_conns ops (sl_c bucket) w, p\<lparr>po_keys := Some (drop_key key (po_map p))\<rparr>, None)
        else (case get_loop ops (po_cfg p) now (sl_c bucket) w of
            (w, cs, r) \<Rightarrow>
              (w, p\<lparr>po_keys := Some (with_bucket key (\<lambda>v. v\<lparr>sl_c := cs\<rparr>) (po_map p))\<rparr>, r)))"

text \<open>\<open>Return\<close>: a new key gets a bucket, after stale ones were dropped from a full map. The time
  of the bucket is assigned to a copy of the slot and is lost.\<close>

definition ensure_bucket :: "('c, 'w) conn_ops \<Rightarrow> pool_cfg \<Rightarrow> int \<Rightarrow> string \<Rightarrow> (string \<times> 'c slot) list \<Rightarrow> 'w \<Rightarrow> 'w \<times> (string \<times> 'c slot) list" where
  "ensure_bucket ops cfg now key m w =
    (if map_of m key \<noteq> None then (w, m)
     else case (if length m = pl_MaxKeys cfg then drop_stale ops cfg now m w else (w, m)) of
       (w, m) \<Rightarrow> (w, m @ [(key, \<lparr>sl_c = [], sl_lastUse = Unix now\<rparr>)]))"

definition pool_Return :: "('c, 'w) conn_ops \<Rightarrow> int \<Rightarrow> string \<Rightarrow> 'c \<Rightarrow> 'c conn_pool \<Rightarrow> 'w \<Rightarrow> 'w \<times> 'c conn_pool" where
  "pool_Return ops now key c p w =
    (case po_keys p of
       None \<Rightarrow> (w, p)
     | Some m \<Rightarrow>
        (case ensure_bucket ops (po_cfg p) now key m w of
           (w, m) \<Rightarrow>
            if (case map_of m key of None \<Rightarrow> False | Some b \<Rightarrow> length (sl_c b) < pl_MaxConnsPerKey (po_cfg p))
            then (w, p\<lparr>po_keys := Some (with_bucket key (\<lambda>v. v\<lparr>sl_c := sl_c v @ [c]\<rparr>) m)\<rparr>)
            else (cn_Close ops c w, p\<lparr>po_keys := Some m\<rparr>)))"

definition pool_Close :: "('c, 'w) conn_ops \<Rightarrow> 'c conn_pool \<Rightarrow> 'w \<Rightarrow> 'w \<times> 'c conn_pool" where
  "pool_Close ops p w = (close_conns ops (concat (map (sl_c \<circ> snd) (po_map p))) w, p\<lparr>po_keys := None\<rparr>)"

section \<open>What the pool keeps\<close>

text \<open>The keys of a map are distinct, no bucket is longer than its channel, and its connections
  have a given property.\<close>

definition keys_ok :: "(string \<Rightarrow> 'c \<Rightarrow> bool) \<Rightarrow> nat \<Rightarrow> (string \<times> 'c slot) list \<Rightarrow> bool" where
  "keys_ok P n m = (distinct (map fst m) \<and> (\<forall>k v. (k, v) \<in> set m \<longrightarrow> length (sl_c v) \<le> n \<and> (\<forall>c \<in> set (sl_c v). P k c)))"

definition pool_ok :: "(string \<Rightarrow> 'c \<Rightarrow> bool) \<Rightarrow> 'c conn_pool \<Rightarrow> bool" where
  "pool_ok P p = keys_ok P (pl_MaxConnsPerKey (po_cfg p)) (po_map p)"

lemma po_map_simps [simp]: "po_map (p\<lparr>po_keys := Some m\<rparr>) = m" "po_map (p\<lparr>po_keys := None\<rparr>) = []"
  by (simp_all add: po_map_def)

lemma drop_stale_filter: "snd (drop_stale ops cfg now m w) = filter (\<lambda>(k, v). \<not> is_stale cfg now v) m"
  by (induction m arbitrary: w) (auto split: prod.splits simp: prod_eq_iff)

lemma keys_ok_filter: "keys_ok P n m \<Longrightarrow> keys_ok P n (filter Q m)"
  by (auto simp: keys_ok_def distinct_map_filter)

lemma with_bucket_keys: "map fst (with_bucket key f m) = map fst m"
  by (auto simp: with_bucket_def)

lemma keys_ok_with:
  assumes "keys_ok P n m" "\<And>b. map_of m key = Some b \<Longrightarrow> length (sl_c (f b)) \<le> n \<and> (\<forall>c \<in> set (sl_c (f b)). P key c)"
  shows "keys_ok P n (with_bucket key f m)"
proof -
  have "map_of m key = Some v" if "(key, v) \<in> set m" for v
    using assms(1) that by (simp add: keys_ok_def)
  with assms show ?thesis unfolding keys_ok_def with_bucket_keys
    by (auto simp: with_bucket_def split: if_splits)
qed

lemma keys_ok_new: "keys_ok P n m \<Longrightarrow> map_of m key = None \<Longrightarrow> keys_ok P n (m @ [(key, \<lparr>sl_c = [], sl_lastUse = t\<rparr>)])"
  by (auto simp: keys_ok_def map_of_eq_None_iff)

lemma keys_ok_bucket: "keys_ok P n m \<Longrightarrow> map_of m key = Some b \<Longrightarrow> length (sl_c b) \<le> n \<and> (\<forall>c \<in> set (sl_c b). P key c)"
  by (auto simp: keys_ok_def dest: map_of_SomeD)

lemma get_loop_spec:
  "get_loop ops cfg now cs w = (w', cs', r) \<Longrightarrow>
    set cs' \<subseteq> set cs \<and> length cs' \<le> length cs
    \<and> (\<forall>c. r = Some c \<longrightarrow> c \<in> set cs \<and> \<not> conn_expired ops cfg now c \<and> (\<exists>w0. cn_Usable ops c w0 = (w', True)))"
proof (induction cs arbitrary: w)
  case (Cons c cs)
  obtain w1 u where u: "cn_Usable ops c w = (w1, u)" by fastforce
  show ?case
  proof (cases "u \<and> \<not> conn_expired ops cfg now c")
    case True
    with Cons.prems u show ?thesis by auto
  next
    case False
    with Cons.prems u have "get_loop ops cfg now cs (cn_Close ops c w1) = (w', cs', r)" by (auto split: if_splits bool.splits)
    from Cons.IH [OF this] show ?thesis by auto
  qed
qed auto

lemma Get_spec:
  assumes "pool_Get ops now key p w = (w', p', r)" "pool_ok P p"
  shows "pool_ok P p' \<and> po_cfg p' = po_cfg p
    \<and> (\<forall>c. r = Some c \<longrightarrow> P key c \<and> \<not> conn_expired ops (po_cfg p) now c \<and> (\<exists>w0. cn_Usable ops c w0 = (w', True)))"
proof (cases "map_of (po_map p) key")
  case None
  with assms show ?thesis by (auto simp: pool_Get_def)
next
  case (Some b)
  note b = keys_ok_bucket [OF assms(2) [unfolded pool_ok_def] Some]
  show ?thesis
  proof (cases "Unix now - sl_lastUse b > pl_MaxConnLifetimeSec (po_cfg p)")
    case True
    with assms Some show ?thesis
      by (auto simp: pool_Get_def pool_ok_def drop_key_def intro: keys_ok_filter)
  next
    case False
    obtain w1 cs r1 where g: "get_loop ops (po_cfg p) now (sl_c b) w = (w1, cs, r1)" by (metis prod_cases3)
    note sp = get_loop_spec [OF g]
    from assms(1) Some False g have r: "w1 = w'" "r1 = r"
      and p': "p' = p\<lparr>po_keys := Some (with_bucket key (\<lambda>v. v\<lparr>sl_c := cs\<rparr>) (po_map p))\<rparr>"
      by (auto simp: pool_Get_def)
    have "pool_ok P p'" using assms(2) b sp unfolding p' pool_ok_def by (simp, intro keys_ok_with) auto
    then show ?thesis using sp r p' b by auto
  qed
qed

lemma Return_spec:
  assumes "pool_Return ops now key c p w = (w', p')" "pool_ok P p" "P key c"
  shows "pool_ok P p' \<and> po_cfg p' = po_cfg p"
proof (cases "po_keys p")
  case None
  with assms show ?thesis by (auto simp: pool_Return_def)
next
  case (Some m)
  let ?n = "pl_MaxConnsPerKey (po_cfg p)"
  from Some assms(2) have m: "keys_ok P ?n m" by (simp add: pool_ok_def po_map_def)
  define r where "r = ensure_bucket ops (po_cfg p) now key m w"
  have "keys_ok P ?n (snd (drop_stale ops (po_cfg p) now m w))"
    "map_of m key = None \<Longrightarrow> map_of (snd (drop_stale ops (po_cfg p) now m w)) key = None"
    using m by (auto simp: drop_stale_filter map_of_eq_None_iff intro: keys_ok_filter)
  with m have k: "keys_ok P ?n (snd r)"
    by (auto simp: r_def ensure_bucket_def case_prod_beta intro: keys_ok_new)
  have "p' = p\<lparr>po_keys := Some (with_bucket key (\<lambda>v. v\<lparr>sl_c := sl_c v @ [c]\<rparr>) (snd r))\<rparr>
      \<and> (\<exists>b. map_of (snd r) key = Some b \<and> length (sl_c b) < ?n) \<or> p' = p\<lparr>po_keys := Some (snd r)\<rparr>"
    using assms(1) Some by (auto simp: pool_Return_def r_def [symmetric] case_prod_beta split: if_splits option.splits)
  then show ?thesis
  proof (elim disjE conjE exE)
    fix b
    assume p': "p' = p\<lparr>po_keys := Some (with_bucket key (\<lambda>v. v\<lparr>sl_c := sl_c v @ [c]\<rparr>) (snd r))\<rparr>"
      and b: "map_of (snd r) key = Some b" "length (sl_c b) < ?n"
    from keys_ok_bucket [OF k b(1)] b assms(3) have "keys_ok P ?n (with_bucket key (\<lambda>v. v\<lparr>sl_c := sl_c v @ [c]\<rparr>) (snd r))"
      by (intro keys_ok_with [OF k]) auto
    then show ?thesis by (simp add: p' pool_ok_def)
  qed (use k in \<open>simp add: pool_ok_def\<close>)
qed

text \<open>The time of a bucket is the time it was made: using it does not keep it alive.\<close>

lemma bucket_time_fixed:
  assumes "po_keys p = Some m" "map_of m key = Some b" "pool_Return ops now key c p w = (w', p')"
  shows "\<exists>b'. map_of (po_map p') key = Some b' \<and> sl_lastUse b' = sl_lastUse b"
proof -
  have u: "map_of (with_bucket key f m) key = map_option f (map_of m key)" for f
    by (induction m) (auto simp: with_bucket_def)
  with assms show ?thesis by (auto simp: pool_Return_def ensure_bucket_def split: if_splits)
qed

end
