(* ===== verification/RemoteTarget.thy ===== *)
theory RemoteTarget
  imports RemoteSecurity ConnPool Limits
begin

text \<open>
  Delivery to the servers of the recipient domains (\<open>internal/target/remote/connect.go\<close> and
  \<open>remote.go\<close>): choosing a server, connecting with the best TLS it supports, the security
  policies, the reuse of connections and the transaction of a message. Operations that may wait
  for a limit have the list of their outcomes as result, empty when they wait forever; an
  outcome \<open>None\<close> is a panic. \<open>now\<close> is the time of the call in nanoseconds.
\<close>

section \<open>Connections\<close>

record mx_conn =
  mc_C :: smtp_c
  mc_domain :: string
  mc_dnssecOk :: bool
  mc_errored :: bool
  mc_reuseLimit :: int
  mc_transactions :: int
  mc_lastUseAt :: int
  mc_mxLevel :: mx_level
  mc_tlsLevel :: tls_level

definition mc_Usable :: "'w net \<Rightarrow> mx_conn \<Rightarrow> 'w \<Rightarrow> 'w \<times> bool" where
  "mc_Usable net c w =
    (if mc_transactions c > mc_reuseLimit c then (w, False)
     else case co_cl (mc_C c) of
       None \<Rightarrow> (w, False)
     | Some cl \<Rightarrow>
        if mc_errored c then (w, False)
        else (case nt_Reset net cl w of (w, err) \<Rightarrow> (w, err = None)))"

definition mc_Close :: "'w net \<Rightarrow> mx_conn \<Rightarrow> 'w \<Rightarrow> ('w \<times> mx_conn) option" where
  "mc_Close net c w = map_option (\<lambda>(w, C, _). (w, c\<lparr>mc_C := C\<rparr>)) (C_Close net (mc_C c) w)"

text \<open>The methods the pool calls. It only closes connections that have a client.\<close>

definition mx_ops :: "'w net \<Rightarrow> (mx_conn, 'w) conn_ops" where
  "mx_ops net = \<lparr>cn_Usable = mc_Usable net, cn_LastUseAt = mc_lastUseAt,
     cn_Close = (\<lambda>c w. case mc_Close net c w of None \<Rightarrow> w | Some (w, _) \<Rightarrow> w)\<rparr>"

definition isVerifyError :: "go_err \<Rightarrow> bool" where
  "isVerifyError err = (as_verify err \<noteq> None)"

section \<open>The target and its deliveries\<close>

text \<open>\<open>rt_sort\<close> is the sorting of MX records, which may order equal preferences in any way.\<close>

record 'w rtarget =
  rt_hostname :: string
  rt_tlsConfig :: "tls_cfg option"
  rt_policies :: "policy list"
  rt_allowSecOverride :: bool
  rt_relaxedREQUIRETLS :: bool
  rt_connReuseLimit :: int
  rt_smtpPort :: string
  rt_net :: "'w net"
  rt_ext :: "'w ext_resolver option"
  rt_LookupMX :: "string \<Rightarrow> 'w \<Rightarrow> 'w \<times> (go_err + mx_record list)"
  rt_sort :: "mx_record list \<Rightarrow> mx_record list"
  rt_sec :: "'w sec_env"
  rt_text :: text_lib

record rdelivery =
  rd_mailFrom :: string
  rd_msgMeta :: msg_meta
  rd_recipients :: "string list"
  rd_connections :: "(string \<times> mx_conn) list"
  rd_policies :: "dpolicy list"

record 'w rstate =
  rs_world :: 'w
  rs_limits :: group
  rs_pool :: "mx_conn conn_pool"

definition obind :: "'a option list \<Rightarrow> ('a \<Rightarrow> 'b option list) \<Rightarrow> 'b option list" where
  "obind xs f = concat (map (\<lambda>x. case x of None \<Rightarrow> [None] | Some a \<Rightarrow> f a) xs)"

section \<open>Connecting to a server\<close>

definition mx_endpoint :: "'w rtarget \<Rightarrow> string \<Rightarrow> net_endpoint" where
  "mx_endpoint rt host = \<lparr>en_Scheme = [], en_Host = host, en_Port = rt_smtpPort rt, en_Path = []\<rparr>"

definition no_tls :: tls_cfg where
  "no_tls = \<lparr>tc_ServerName = [], tc_InsecureSkipVerify = False, tc_other = 0\<rparr>"

text \<open>What is left to try: a verified handshake, an unverified one, none.\<close>

definition retries_left :: "tls_cfg option \<Rightarrow> tls_level \<Rightarrow> nat" where
  "retries_left tlsCfg tlsLevel = (case tlsCfg of None \<Rightarrow> 0 | Some _ \<Rightarrow> if tlsLevel = TLSAuthenticated then 2 else 1)"

text \<open>The loop of \<open>connect\<close> over the label \<open>retry\<close>. The last components of a result are the TLS
  level, the error of TLS and the error of the connection.\<close>

function connect_loop ::
  "'w rtarget \<Rightarrow> smtp_c \<Rightarrow> string \<Rightarrow> tls_cfg option \<Rightarrow> tls_level \<Rightarrow> go_err option \<Rightarrow> 'w
    \<Rightarrow> ('w \<times> smtp_c \<times> tls_level \<times> go_err option \<times> go_err option) option" where
  "connect_loop rt c host tlsCfg tlsLevel tlsErr w =
    (case C_Connect (rt_net rt) c False (mx_endpoint rt host) False no_tls w of
       (w, c, Inl err) \<Rightarrow> Some (w, c, TLSNone, None, Some err)
     | (w, c, Inr _) \<Rightarrow>
        (case co_cl c of
           None \<Rightarrow> None
         | Some cl \<Rightarrow>
            (case nt_Extension (rt_net rt) cl ''STARTTLS'' w of
               (w, starttlsOk) \<Rightarrow>
                (case tlsCfg of
                   None \<Rightarrow> Some (w, c, TLSNone, tlsErr, None)
                 | Some cfg \<Rightarrow>
                    if \<not> starttlsOk then Some (w, c, TLSNone, tlsErr, None)
                    else (case nt_StartTLS (rt_net rt) cl cfg w of
                        (w, Some err) \<Rightarrow>
                          map_option (\<lambda>(w, c). (w, c, TLSNone, None, Some err)) (C_DirectClose (rt_net rt) c w)
                      | (w, None) \<Rightarrow>
                         (case nt_Hello (rt_net rt) cl (rt_hostname rt) w of
                            (w, None) \<Rightarrow> Some (w, c, tlsLevel, tlsErr, None)
                          | (w, Some err) \<Rightarrow>
                             (case C_DirectClose (rt_net rt) c w of
                                None \<Rightarrow> None
                              | Some (w, c) \<Rightarrow>
                                 if isVerifyError err \<and> tlsLevel = TLSAuthenticated then
                                   connect_loop rt c host (Some (cfg\<lparr>tc_InsecureSkipVerify := True\<rparr>)) TLSEncrypted (Some err) w
                                 else connect_loop rt c host None TLSNone (Some err) w)))))))"
  by pat_completeness auto
termination
  by (relation "measure (\<lambda>(rt, c, host, tlsCfg, tlsLevel, tlsErr, w). retries_left tlsCfg tlsLevel)")
     (auto simp: retries_left_def)

declare connect_loop.simps [simp del]

definition remote_connect ::
  "'w rtarget \<Rightarrow> smtp_c \<Rightarrow> string \<Rightarrow> 'w \<Rightarrow> ('w \<times> smtp_c \<times> tls_level \<times> go_err option \<times> go_err option) option" where
  "remote_connect rt c host w =
    connect_loop rt c host (map_option (\<lambda>cfg. cfg\<lparr>tc_ServerName := host\<rparr>) (rt_tlsConfig rt)) TLSAuthenticated None w"

section \<open>Policies on a server\<close>

text \<open>The first loop of \<open>attemptMX\<close>. The list is that of the policies after it; an error leaves
  the ones not reached as they are.\<close>

fun check_mx_loop ::
  "'w sec_env \<Rightarrow> string \<Rightarrow> string \<Rightarrow> bool \<Rightarrow> mx_level \<Rightarrow> dpolicy list \<Rightarrow> 'w
    \<Rightarrow> ('w \<times> dpolicy list \<times> (go_err + mx_level)) option" where
  "check_mx_loop sx domain host dnssecOk mxLevel [] w = Some (w, [], Inr mxLevel)"
| "check_mx_loop sx domain host dnssecOk mxLevel (p # ps) w =
     (case CheckMX p mxLevel domain host dnssecOk of
        None \<Rightarrow> None
      | Some (_, Some err) \<Rightarrow> Some (w, p # ps, Inl err)
      | Some (policyLevel, None) \<Rightarrow>
         (case PrepareConn sx host p w of
            (w, p) \<Rightarrow>
              map_option (\<lambda>(w, ps, r). (w, p # ps, r))
                (check_mx_loop sx domain host dnssecOk (if policyLevel > mxLevel then policyLevel else mxLevel) ps w)))"

text \<open>The second loop.\<close>

fun check_conn_loop ::
  "'w sec_env \<Rightarrow> mx_level \<Rightarrow> string \<Rightarrow> string \<Rightarrow> tls_state \<Rightarrow> tls_level \<Rightarrow> dpolicy list \<Rightarrow> (go_err + tls_level) option" where
  "check_conn_loop sx mxLevel domain host st tlsLevel [] = Some (Inr tlsLevel)"
| "check_conn_loop sx mxLevel domain host st tlsLevel (p # ps) =
     (case CheckConn sx p mxLevel tlsLevel domain host st of
        None \<Rightarrow> None
      | Some (_, Some err) \<Rightarrow> Some (Inl err)
      | Some (policyLevel, None) \<Rightarrow>
         check_conn_loop sx mxLevel domain host st (if policyLevel > tlsLevel then policyLevel else tlsLevel) ps)"

definition attemptMX ::
  "'w rtarget \<Rightarrow> dpolicy list \<Rightarrow> mx_conn \<Rightarrow> mx_record \<Rightarrow> 'w \<Rightarrow> ('w \<times> dpolicy list \<times> mx_conn \<times> go_err option) option" where
  "attemptMX rt ps conn rec w =
    (case check_mx_loop (rt_sec rt) (mc_domain conn) (mx_Host rec) (mc_dnssecOk conn) MXNone ps w of
       None \<Rightarrow> None
     | Some (w, ps, Inl err) \<Rightarrow> Some (w, ps, conn, Some err)
     | Some (w, ps, Inr mxLevel) \<Rightarrow>
        (case remote_connect rt (mc_C conn) (mx_Host rec) w of
           None \<Rightarrow> None
         | Some (w, c, _, _, Some err) \<Rightarrow> Some (w, ps, conn\<lparr>mc_C := c\<rparr>, Some err)
         | Some (w, c, tlsLevel, tlsErr, None) \<Rightarrow>
            (case co_cl c of
               None \<Rightarrow> None
             | Some cl \<Rightarrow>
                (case check_conn_loop (rt_sec rt) mxLevel (mc_domain conn) (mx_Host rec) (nt_TLSState (rt_net rt) cl w) tlsLevel ps of
                   None \<Rightarrow> None
                 | Some (Inl err) \<Rightarrow>
                    map_option (\<lambda>(w, conn). (w, ps, conn,
                        Some (WithFields err [(''tls_err'', case tlsErr of None \<Rightarrow> FNil | Some e \<Rightarrow> FStr (err_string e))])))
                      (mc_Close (rt_net rt) (conn\<lparr>mc_C := c\<rparr>) w)
                 | Some (Inr tlsLevel) \<Rightarrow>
                    Some (w, ps, conn\<lparr>mc_C := c, mc_mxLevel := mxLevel, mc_tlsLevel := tlsLevel\<rparr>, None)))))"

section \<open>Opening a connection\<close>

definition lookupMX :: "'w rtarget \<Rightarrow> string \<Rightarrow> 'w \<Rightarrow> 'w \<times> (go_err + bool \<times> mx_record list)" where
  "lookupMX rt domain w =
    (case (case rt_ext rt of
             Some e \<Rightarrow> AuthLookupMX e domain w
           | None \<Rightarrow> (case rt_LookupMX rt (sx_FQDN (rt_sec rt) domain) w of
               (w, Inl err) \<Rightarrow> (w, Inl err)
             | (w, Inr recs) \<Rightarrow> (w, Inr (False, recs)))) of
       (w, Inl err) \<Rightarrow>
         (w, Inl (case UnwrapDNSErr err of
            (reason, misc) \<Rightarrow> SMTPError (SMTPCode err 451 554) (SMTPEnchCode err (0, 4, 4)) ''MX lookup error'' []
              ''remote'' (Some err) reason misc))
     | (w, Inr (dnssecOk, records)) \<Rightarrow>
        (let records = rt_sort rt records in
         (w, Inr (dnssecOk, if records = [] then [\<lparr>mx_Host = domain, mx_Pref = 0\<rparr>] else records))))"

definition null_mx_err :: go_err where
  "null_mx_err = smtpErr 556 (5, 1, 10) ''Domain does not accept email (null MX)''"

text \<open>The loop over the records. Its result is an error that ends the whole operation, or the
  last error.\<close>

fun mx_loop ::
  "'w rtarget \<Rightarrow> dpolicy list \<Rightarrow> mx_conn \<Rightarrow> mx_record list \<Rightarrow> go_err option \<Rightarrow> 'w
    \<Rightarrow> ('w \<times> dpolicy list \<times> mx_conn \<times> (go_err + go_err option)) option" where
  "mx_loop rt ps conn [] lastErr w = Some (w, ps, conn, Inr lastErr)"
| "mx_loop rt ps conn (rec # recs) lastErr w =
     (if mx_Host rec = ''.'' then Some (w, ps, conn, Inl null_mx_err)
      else case attemptMX rt ps conn rec w of
        None \<Rightarrow> None
      | Some (w, ps, conn, Some err) \<Rightarrow> mx_loop rt ps conn recs (Some err) w
      | Some (w, ps, conn, None) \<Rightarrow> Some (w, ps, conn, Inr lastErr))"

fun prepare_domain_loop :: "'w sec_env \<Rightarrow> string \<Rightarrow> dpolicy list \<Rightarrow> 'w \<Rightarrow> 'w \<times> dpolicy list" where
  "prepare_domain_loop sx domain [] w = (w, [])"
| "prepare_domain_loop sx domain (p # ps) w =
     (case PrepareDomain sx domain p w of
        (w, p) \<Rightarrow> (case prepare_domain_loop sx domain ps w of (w, ps) \<Rightarrow> (w, p # ps)))"

definition fresh_conn :: "'w rtarget \<Rightarrow> int \<Rightarrow> string \<Rightarrow> mx_conn" where
  "fresh_conn rt now domain =
    \<lparr>mc_C = New_C\<lparr>co_Hostname := rt_hostname rt, co_AddrInSMTPMsg := True\<rparr>, mc_domain = domain, mc_dnssecOk = False,
     mc_errored = False, mc_reuseLimit = rt_connReuseLimit rt, mc_transactions = 0, mc_lastUseAt = now,
     mc_mxLevel = MXNone, mc_tlsLevel = TLSNone\<rparr>"

definition newConn ::
  "'w rtarget \<Rightarrow> int \<Rightarrow> dpolicy list \<Rightarrow> string \<Rightarrow> 'w \<Rightarrow> ('w \<times> dpolicy list \<times> (go_err + mx_conn)) option" where
  "newConn rt now ps domain w =
    (case prepare_domain_loop (rt_sec rt) domain ps w of
       (w, ps) \<Rightarrow>
        (case lookupMX rt domain w of
           (w, Inl err) \<Rightarrow> Some (w, ps, Inl err)
         | (w, Inr (dnssecOk, records)) \<Rightarrow>
            (case mx_loop rt ps ((fresh_conn rt now domain)\<lparr>mc_dnssecOk := dnssecOk\<rparr>) records None w of
               None \<Rightarrow> None
             | Some (w, ps, conn, Inl err) \<Rightarrow> Some (w, ps, Inl err)
             | Some (w, ps, conn, Inr lastErr) \<Rightarrow>
                if co_cl (mc_C conn) \<noteq> None then Some (w, ps, Inr conn)
                else map_option (\<lambda>lastErr. (w, ps, Inl (SMTPError (SMTPCode lastErr 451 550) (SMTPEnchCode lastErr (0, 4, 0))
                         (''No usable MXs, last err: '' @ err_string lastErr) [] ''remote'' (Some lastErr) []
                         [(''domain'', FStr domain)])))
                       lastErr)))"

section \<open>The connection of a domain\<close>

definition requiretls_err :: "mx_conn \<Rightarrow> go_err option" where
  "requiretls_err conn =
    (if mc_tlsLevel conn < TLSAuthenticated then
       Some (SMTPError 550 (5, 7, 30) ''TLS it not available or unauthenticated but required (REQUIRETLS)'' [] [] None []
         [(''tls_level'', FInt (int (tls_rank (mc_tlsLevel conn))))])
     else if mc_mxLevel conn < MX_MTASTS then
       Some (SMTPError 550 (5, 7, 30) ''Failed to establish the MX record authenticity (REQUIRETLS)'' [] [] None []
         [(''mx_level'', FInt (int (mx_rank (mc_mxLevel conn))))])
     else None)"

text \<open>Closing the connection and returning an error.\<close>

definition close_with ::
  "'w rtarget \<Rightarrow> mx_conn \<Rightarrow> go_err \<Rightarrow> rdelivery \<Rightarrow> 'w rstate \<Rightarrow> ('w rstate \<times> rdelivery \<times> (go_err + mx_conn)) option list" where
  "close_with rt conn err rd st =
    [map_option (\<lambda>(w, _). (st\<lparr>rs_world := w\<rparr>, rd, Inl err)) (mc_Close (rt_net rt) conn (rs_world st))]"

text \<open>The end of \<open>connectionForDomain\<close>, from the extension to the sender.\<close>

definition begin_mail ::
  "'w rtarget \<Rightarrow> int \<Rightarrow> string \<Rightarrow> mx_conn \<Rightarrow> rdelivery \<Rightarrow> 'w rstate \<Rightarrow> ('w rstate \<times> rdelivery \<times> (go_err + mx_conn)) option list" where
  "begin_mail rt now domain conn rd st =
    (case co_cl (mc_C conn) of
       None \<Rightarrow> [None]
     | Some cl \<Rightarrow>
        (case nt_Extension (rt_net rt) cl ''REQUIRETLS'' (rs_world st) of
           (w, ok) \<Rightarrow>
            (let rd = (if rt_relaxedREQUIRETLS rt \<and> \<not> ok
                       then rd\<lparr>rd_msgMeta := (rd_msgMeta rd)\<lparr>mm_RequireTLS := False\<rparr>\<rparr> else rd) in
             case C_Mail (rt_net rt) (rt_text rt) (mc_C conn) (rd_mailFrom rd) (mm_UTF8 (rd_msgMeta rd))
                    (mm_RequireTLS (rd_msgMeta rd)) w of
               None \<Rightarrow> [None]
             | Some (w, Some err) \<Rightarrow> close_with rt conn err rd (st\<lparr>rs_world := w\<rparr>)
             | Some (w, None) \<Rightarrow>
                (let conn = conn\<lparr>mc_lastUseAt := now\<rparr> in
                 [Some (st\<lparr>rs_world := w\<rparr>,
                    rd\<lparr>rd_connections := AList.update domain conn (rd_connections rd)\<rparr>, Inr conn)]))))"

definition take_dest ::
  "'w rtarget \<Rightarrow> go_err option \<Rightarrow> int \<Rightarrow> string \<Rightarrow> mx_conn \<Rightarrow> rdelivery \<Rightarrow> 'w rstate \<Rightarrow> ('w rstate \<times> rdelivery \<times> (go_err + mx_conn)) option list" where
  "take_dest rt ctx now domain conn rd st =
    obind (TakeDest ctx now domain (rs_limits st)) (\<lambda>(g, e).
      case e of
        Some err \<Rightarrow> close_with rt conn err rd (st\<lparr>rs_limits := g\<rparr>)
      | None \<Rightarrow> begin_mail rt now domain conn rd (st\<lparr>rs_limits := g\<rparr>))"

definition use_conn ::
  "'w rtarget \<Rightarrow> go_err option \<Rightarrow> int \<Rightarrow> string \<Rightarrow> mx_conn \<Rightarrow> rdelivery \<Rightarrow> 'w rstate \<Rightarrow> ('w rstate \<times> rdelivery \<times> (go_err + mx_conn)) option list" where
  "use_conn rt ctx now domain conn rd st =
    (case (if mm_RequireTLS (rd_msgMeta rd) then requiretls_err conn else None) of
       Some err \<Rightarrow> close_with rt conn err rd st
     | None \<Rightarrow> take_dest rt ctx now domain conn rd st)"

definition connectionForDomain ::
  "'w rtarget \<Rightarrow> go_err option \<Rightarrow> int \<Rightarrow> string \<Rightarrow> rdelivery \<Rightarrow> 'w rstate \<Rightarrow> ('w rstate \<times> rdelivery \<times> (go_err + mx_conn)) option list" where
  "connectionForDomain rt ctx now domain rd st =
    (case map_of (rd_connections rd) domain of
       Some c \<Rightarrow> [Some (st, rd, Inr c)]
     | None \<Rightarrow>
        (case pool_Get (mx_ops (rt_net rt)) now domain (rs_pool st) (rs_world st) of
           (w, p, pooledConn) \<Rightarrow>
            (let st = st\<lparr>rs_world := w, rs_pool := p\<rparr> in
             case (if mm_RequireTLS (rd_msgMeta rd) then None else pooledConn) of
               Some conn \<Rightarrow> use_conn rt ctx now domain conn rd st
             | None \<Rightarrow>
                (case newConn rt now (rd_policies rd) domain w of
                   None \<Rightarrow> [None]
                 | Some (w, ps, Inl err) \<Rightarrow> [Some (st\<lparr>rs_world := w\<rparr>, rd\<lparr>rd_policies := ps\<rparr>, Inl err)]
                 | Some (w, ps, Inr conn) \<Rightarrow> use_conn rt ctx now domain conn (rd\<lparr>rd_policies := ps\<rparr>) (st\<lparr>rs_world := w\<rparr>)))))"

section \<open>Transactions\<close>

definition moduleError :: "go_err \<Rightarrow> go_err" where
  "moduleError err = WithFields err [(''target'', FStr ''remote'')]"

definition source_addr :: "msg_meta \<Rightarrow> string" where
  "source_addr m = (case mm_Conn m of None \<Rightarrow> ''127.0.0.1''
     | Some conn \<Rightarrow> (case cs_RemoteAddr conn of None \<Rightarrow> ''127.0.0.1'' | Some ip \<Rightarrow> ip))"

definition ratelimit_domain :: "string \<Rightarrow> go_err + string" where
  "ratelimit_domain mailFrom =
    (if mailFrom = [] then Inr [] else case Split mailFrom of (_, _, Some err) \<Rightarrow> Inl err | (_, domain, None) \<Rightarrow> Inr domain)"

definition remote_Start ::
  "'w rtarget \<Rightarrow> go_err option \<Rightarrow> int \<Rightarrow> msg_meta \<Rightarrow> string \<Rightarrow> 'w rstate \<Rightarrow> ('w rstate \<times> (go_err + rdelivery)) option list" where
  "remote_Start rt ctx now msgMeta mailFrom st =
    (let ps = (if mm_TLSRequireOverride msgMeta \<and> rt_allowSecOverride rt then [] else map policy_Start (rt_policies rt)) in
     case ratelimit_domain mailFrom of
       Inl err \<Rightarrow> [Some (st, Inl (SMTPError 501 (5, 1, 8) ''Malformed sender address'' [] ''remote'' (Some err) [] []))]
     | Inr domain \<Rightarrow>
        map (map_option (\<lambda>(g, e). (st\<lparr>rs_limits := g\<rparr>,
            case e of
              Some err \<Rightarrow> Inl (SMTPError 451 (4, 4, 5) ''High load, try again later'' [] ''remote'' (Some err)
                ''Global limit timeout'' [])
            | None \<Rightarrow> Inr \<lparr>rd_mailFrom = mailFrom, rd_msgMeta = msgMeta, rd_recipients = [], rd_connections = [],
                rd_policies = ps\<rparr>)))
          (TakeMsg ctx now (source_addr msgMeta) domain (rs_limits st)))"

definition quarantine_err :: "string \<Rightarrow> go_err" where
  "quarantine_err msg = SMTPError 550 (5, 7, 0) msg [] ''remote'' None [] []"

definition remote_AddRcpt ::
  "'w rtarget \<Rightarrow> go_err option \<Rightarrow> int \<Rightarrow> string \<Rightarrow> rdelivery \<Rightarrow> 'w rstate \<Rightarrow> ('w rstate \<times> rdelivery \<times> go_err option) option list" where
  "remote_AddRcpt rt ctx now to rd st =
    (if mm_Quarantine (rd_msgMeta rd) then [Some (st, rd, Some (quarantine_err ''Refusing to deliver a quarantined message''))]
     else case Split to of
       (_, _, Some err) \<Rightarrow> [Some (st, rd, Some err)]
     | (_, domain, None) \<Rightarrow>
        if domain = [] then
          [Some (st, rd, Some (SMTPError 550 (5, 1, 1) ''<postmaster> address it no supported'' [] ''remote'' None [] []))]
        else if HasPrefix domain ''['' then
          [Some (st, rd, Some (SMTPError 550 (5, 1, 1) ''IP address literals are not supported'' [] ''remote'' None [] []))]
        else obind (connectionForDomain rt ctx now domain rd st) (\<lambda>(st, rd, r).
          case r of
            Inl err \<Rightarrow> [Some (st, rd, Some err)]
          | Inr conn \<Rightarrow>
             (case C_Rcpt (rt_net rt) (rt_text rt) (mc_C conn) to (rs_world st) of
                None \<Rightarrow> [None]
              | Some (w, c, Some err) \<Rightarrow>
                 [Some (st\<lparr>rs_world := w\<rparr>,
                    rd\<lparr>rd_connections := AList.update domain (conn\<lparr>mc_C := c\<rparr>) (rd_connections rd)\<rparr>, Some (moduleError err))]
              | Some (w, c, None) \<Rightarrow>
                 [Some (st\<lparr>rs_world := w\<rparr>,
                    rd\<lparr>rd_connections := AList.update domain (conn\<lparr>mc_C := c, mc_lastUseAt := now\<rparr>) (rd_connections rd),
                       rd_recipients := rd_recipients rd @ [to]\<rparr>, None)])))"

text \<open>\<open>BodyNonAtomic\<close>: the message goes to the connections in an order \<open>ds\<close> of their domains, each with a
  reader of its own (\<open>open\<close>). The result has the statuses in the order they are set.\<close>

definition send_to ::
  "'w rtarget \<Rightarrow> int \<Rightarrow> header \<Rightarrow> (string \<Rightarrow> go_err + string) \<Rightarrow> string \<Rightarrow> mx_conn \<Rightarrow> 'w
    \<Rightarrow> ('w \<times> mx_conn \<times> (string \<times> go_err option) list) option" where
  "send_to rt now hdr openb domain conn w =
    (case openb domain of
       Inl err \<Rightarrow> Some (w, conn, map (\<lambda>r. (r, Some err)) (co_rcpts (mc_C conn)))
     | Inr body \<Rightarrow>
        (case C_Data (rt_net rt) (mc_C conn) hdr body [] w of
           None \<Rightarrow> None
         | Some (w, err) \<Rightarrow>
             Some (w, conn\<lparr>mc_errored := (err \<noteq> None), mc_lastUseAt := now\<rparr>, map (\<lambda>r. (r, err)) (co_rcpts (mc_C conn)))))"

fun body_loop ::
  "'w rtarget \<Rightarrow> int \<Rightarrow> header \<Rightarrow> (string \<Rightarrow> go_err + string) \<Rightarrow> string list \<Rightarrow> (string \<times> mx_conn) list \<Rightarrow> 'w
    \<Rightarrow> ('w \<times> (string \<times> mx_conn) list \<times> (string \<times> go_err option) list) option" where
  "body_loop rt now hdr openb [] conns w = Some (w, conns, [])"
| "body_loop rt now hdr openb (d # ds) conns w =
     (case map_of conns d of
        None \<Rightarrow> body_loop rt now hdr openb ds conns w
      | Some conn \<Rightarrow>
         (case send_to rt now hdr openb d conn w of
            None \<Rightarrow> None
          | Some (w, conn, sts) \<Rightarrow>
              map_option (\<lambda>(w, conns, sts'). (w, conns, sts @ sts'))
                (body_loop rt now hdr openb ds (AList.update d conn conns) w)))"

definition remote_BodyNonAtomic ::
  "'w rtarget \<Rightarrow> int \<Rightarrow> header \<Rightarrow> (string \<Rightarrow> go_err + string) \<Rightarrow> string list \<Rightarrow> rdelivery \<Rightarrow> 'w rstate
    \<Rightarrow> ('w rstate \<times> rdelivery \<times> (string \<times> go_err option) list) option" where
  "remote_BodyNonAtomic rt now hdr openb ds rd st =
    (if mm_Quarantine (rd_msgMeta rd) then
       Some (st, rd, map (\<lambda>r. (r, Some (quarantine_err ''Refusing to deliver quarantined message''))) (rd_recipients rd))
     else map_option (\<lambda>(w, conns, sts). (st\<lparr>rs_world := w\<rparr>, rd\<lparr>rd_connections := conns\<rparr>, sts))
       (body_loop rt now hdr openb ds (rd_connections rd) (rs_world st)))"

text \<open>\<open>multipleErrs\<close> with the fields of its method; \<open>t\<close> is the printed map.\<close>

definition multi_map :: "(string \<times> go_err option) list \<Rightarrow> (string \<times> go_err option) list" where
  "multi_map sts = foldl (\<lambda>m (k, v). AList.update k v m) [] sts"

definition multipleErrs :: "(string \<times> go_err option) list \<Rightarrow> string \<Rightarrow> go_err" where
  "multipleErrs errs t =
    (let temp = list_ex (\<lambda>(_, e). case e of None \<Rightarrow> False | Some e \<Rightarrow> IsTemporary e) errs in
     FieldsWrap (ErrNew (''Partial delivery failure, per-rcpt info: '' @ t))
       [(''smtp_code'', FInt (if temp then 451 else 550)),
        (''smtp_enchcode'', FEnch (if temp then (4, 0, 0) else (5, 0, 0))),
        (''smtp_msg'', FStr ''Partial delivery failure, additional attempts may result in duplicates''),
        (''target'', FStr ''remote''), (''errs'', FStr t)])"

definition remote_Body ::
  "'w rtarget \<Rightarrow> int \<Rightarrow> header \<Rightarrow> (string \<Rightarrow> go_err + string) \<Rightarrow> string list \<Rightarrow> string \<Rightarrow> rdelivery \<Rightarrow> 'w rstate
    \<Rightarrow> ('w rstate \<times> rdelivery \<times> go_err option) option" where
  "remote_Body rt now hdr openb ds t rd st =
    map_option (\<lambda>(st, rd, sts).
      (st, rd, case multi_map sts of
                 [(_, v)] \<Rightarrow> v
               | errs \<Rightarrow> if list_ex (\<lambda>(_, e). e \<noteq> None) errs then Some (multipleErrs errs t) else None))
      (remote_BodyNonAtomic rt now hdr openb ds rd st)"

text \<open>\<open>Close\<close>, which is \<open>Abort\<close> and \<open>Commit\<close>, too. The connections are walked in an order \<open>ds\<close>.\<close>

fun close_loop :: "'w rtarget \<Rightarrow> int \<Rightarrow> string list \<Rightarrow> (string \<times> mx_conn) list \<Rightarrow> 'w rstate \<Rightarrow> 'w rstate option" where
  "close_loop rt now [] conns st = Some st"
| "close_loop rt now (d # ds) conns st =
     (case map_of conns d of
        None \<Rightarrow> close_loop rt now ds conns st
      | Some conn \<Rightarrow>
         (case ReleaseDest (mc_domain conn) (rs_limits st) of
            None \<Rightarrow> None
          | Some g \<Rightarrow>
             (let conn = conn\<lparr>mc_transactions := mc_transactions conn + 1\<rparr> in
              case mc_Usable (rt_net rt) conn (rs_world st) of
                (w, False) \<Rightarrow>
                  (case mc_Close (rt_net rt) conn w of
                     None \<Rightarrow> None
                   | Some (w, _) \<Rightarrow> close_loop rt now ds conns (st\<lparr>rs_limits := g, rs_world := w\<rparr>))
              | (w, True) \<Rightarrow>
                  (case pool_Return (mx_ops (rt_net rt)) now (mc_domain conn) conn (rs_pool st) w of
                     (w, p) \<Rightarrow> close_loop rt now ds conns (st\<lparr>rs_limits := g, rs_world := w, rs_pool := p\<rparr>)))))"

definition remote_Close ::
  "'w rtarget \<Rightarrow> int \<Rightarrow> string list \<Rightarrow> rdelivery \<Rightarrow> 'w rstate \<Rightarrow> ('w rstate \<times> go_err option) option" where
  "remote_Close rt now ds rd st =
    (case close_loop rt now ds (rd_connections rd) st of
       None \<Rightarrow> None
     | Some st \<Rightarrow>
        (case ratelimit_domain (rd_mailFrom rd) of
           Inl err \<Rightarrow> Some (st, Some err)
         | Inr domain \<Rightarrow>
            map_option (\<lambda>g. (st\<lparr>rs_limits := g\<rparr>, None)) (ReleaseMsg (source_addr (rd_msgMeta rd)) domain (rs_limits st))))"

definition target_Close :: "'w rtarget \<Rightarrow> 'w rstate \<Rightarrow> 'w rstate" where
  "target_Close rt st =
    (case pool_Close (mx_ops (rt_net rt)) (rs_pool st) (rs_world st) of (w, p) \<Rightarrow> st\<lparr>rs_world := w, rs_pool := p\<rparr>)"

end
