(* ===== verification/RemoteInv.thy ===== *)
theory RemoteInv
  imports RemoteTarget
begin

text \<open>
  Invariants of remote delivery: what connecting, choosing a connection, adding recipients,
  sending and closing keep, and the runs of a delivery among others.
\<close>

section \<open>Connecting\<close>

lemma Connect_client:
  "C_Connect net c lmtp endp st cfg w = (w', c', r) \<Longrightarrow>
    co_rcpts c' = co_rcpts c \<and> (case r of Inl _ \<Rightarrow> co_cl c' = co_cl c | Inr _ \<Rightarrow> (\<exists>cl. co_cl c' = Some cl))"
  by (auto simp: C_Connect_def attemptConnect_def split: prod.splits sum.splits if_splits option.splits)

lemma DirectClose_client:
  "co_cl c = Some cl \<Longrightarrow> \<exists>w' c'. C_DirectClose net c w = Some (w', c') \<and> co_cl c' = None \<and> co_rcpts c' = co_rcpts c"
  by (simp add: C_DirectClose_def)

text \<open>\<open>connect\<close> returns on every path, and unless there is an error with a client whose
  level \<open>Q\<close> allows, where \<open>Q\<close> holds of the level none and of the level of every handshake that
  succeeds. \<open>F\<close> relates the configuration of a handshake and its level.\<close>

definition connects :: "(nat \<Rightarrow> tls_level \<Rightarrow> 'w \<Rightarrow> bool) \<Rightarrow> smtp_c \<Rightarrow> ('w \<times> smtp_c \<times> tls_level \<times> go_err option \<times> go_err option) option \<Rightarrow> bool" where
  "connects Q c r = (case r of None \<Rightarrow> False
     | Some (w, c', lvl, te, e) \<Rightarrow> co_rcpts c' = co_rcpts c
         \<and> (case e of Some _ \<Rightarrow> co_cl c = None \<longrightarrow> co_cl c' = None
            | None \<Rightarrow> (case co_cl c' of None \<Rightarrow> False | Some cl \<Rightarrow> Q cl lvl w)))"

lemma connect_loop_connects:
  assumes enc: "\<And>k. F k TLSAuthenticated \<Longrightarrow> F (k\<lparr>tc_InsecureSkipVerify := True\<rparr>) TLSEncrypted"
    and none: "\<And>c host w w1 c1 d cl w2 ok. C_Connect (rt_net rt) c False (mx_endpoint rt host) False no_tls w = (w1, c1, Inr d)
      \<Longrightarrow> co_cl c1 = Some cl \<Longrightarrow> nt_Extension (rt_net rt) cl ''STARTTLS'' w1 = (w2, ok) \<Longrightarrow> Q cl TLSNone w2"
    and tls: "\<And>cl k lvl w w1 w2. F k lvl \<Longrightarrow> nt_StartTLS (rt_net rt) cl k w = (w1, None)
      \<Longrightarrow> nt_Hello (rt_net rt) cl (rt_hostname rt) w1 = (w2, None) \<Longrightarrow> Q cl lvl w2"
  shows "pred_option (\<lambda>k. F k lvl0) cfg \<Longrightarrow> connects Q c (connect_loop rt c host cfg lvl0 te0 w)"
  using none tls
proof (induction rt c host cfg lvl0 te0 w rule: connect_loop.induct)
  case (1 rt c host cfg lvl0 te0 w)
  note IH = "1.IH" and fits = "1.prems"(1) and none = "1.prems"(2) and tls = "1.prems"(3)
  obtain w1 c1 r where C: "C_Connect (rt_net rt) c False (mx_endpoint rt host) False no_tls w = (w1, c1, r)"
    by (metis prod_cases3)
  note cc = Connect_client [OF C]
  show ?case
  proof (cases r)
    case (Inl err)
    with C cc show ?thesis by (subst connect_loop.simps) (simp add: connects_def)
  next
    case (Inr d)
    with cc obtain cl where cl: "co_cl c1 = Some cl" by auto
    obtain w2 ok where E: "nt_Extension (rt_net rt) cl ''STARTTLS'' w1 = (w2, ok)" by fastforce
    show ?thesis
    proof (cases "ok \<and> cfg \<noteq> None")
      case False
      with C Inr cl E cc show ?thesis
        by (subst connect_loop.simps) (auto simp: connects_def split: option.splits intro: none [OF C [unfolded Inr] cl E])
    next
      case True
      then obtain k where k: "cfg = Some k" and ok: "ok" by auto
      obtain w3 se where S: "nt_StartTLS (rt_net rt) cl k w2 = (w3, se)" by fastforce
      obtain w4 he where H: "nt_Hello (rt_net rt) cl (rt_hostname rt) w3 = (w4, he)" by fastforce
      obtain w5 c5 where D: "C_DirectClose (rt_net rt) c1 w4 = Some (w5, c5)" "co_cl c5 = None" "co_rcpts c5 = co_rcpts c1"
        using DirectClose_client [OF cl, of "rt_net rt" w4] by blast
      obtain w6 c6 where D3: "C_DirectClose (rt_net rt) c1 w3 = Some (w6, c6)" "co_cl c6 = None" "co_rcpts c6 = co_rcpts c1"
        using DirectClose_client [OF cl, of "rt_net rt" w3] by blast
      show ?thesis
      proof (cases se)
        case (Some err)
        with C Inr cl E ok k S D3 cc show ?thesis by (subst connect_loop.simps) (simp add: connects_def)
      next
        case None
        note eqs = C Inr cl E ok k S None H cc
        show ?thesis
        proof (cases he)
          case None
          with eqs fits show ?thesis
            by (subst connect_loop.simps) (simp add: connects_def tls [OF _ S [unfolded \<open>se = None\<close>] H [unfolded None]])
        next
          case (Some err)
          have again: "connect_loop rt c host cfg lvl0 te0 w =
              (if isVerifyError err \<and> lvl0 = TLSAuthenticated
               then connect_loop rt c5 host (Some (k\<lparr>tc_InsecureSkipVerify := True\<rparr>)) TLSEncrypted (Some err) w5
               else connect_loop rt c5 host None TLSNone (Some err) w5)"
            using eqs Some D by (subst connect_loop.simps) simp
          show ?thesis
          proof (cases "isVerifyError err \<and> lvl0 = TLSAuthenticated")
            case True
            have "connects Q c5 (connect_loop rt c5 host (Some (k\<lparr>tc_InsecureSkipVerify := True\<rparr>)) TLSEncrypted (Some err) w5)"
              by (rule IH(1)) (use eqs Some D True none tls fits in \<open>auto intro: enc\<close>)
            with D cc show ?thesis unfolding again if_P [OF True] by (auto simp: connects_def split: option.splits)
          next
            case False
            have "connects Q c5 (connect_loop rt c5 host None TLSNone (Some err) w5)"
              by (rule IH(2)) (use eqs Some D False none tls in \<open>auto intro: enc\<close>)
            with D cc show ?thesis unfolding again if_not_P [OF False] by (auto simp: connects_def split: option.splits)
          qed
        qed
      qed
    qed
  qed
qed

lemma remote_connect_total: "connects (\<lambda>_ _ _. True) c (remote_connect rt c host w)"
  unfolding remote_connect_def
  by (rule connect_loop_connects [where F = "\<lambda>_ _. True"]) (auto simp: option.pred_True)

text \<open>What the documentation of \<open>crypto/tls\<close> and go-smtp says of a client. After a
  handshake that succeeded it is on TLS, and there are verified chains unless verification
  was switched off. Before one there is no state of TLS.\<close>

definition tls_sound :: "'w net \<Rightarrow> bool" where
  "tls_sound net \<longleftrightarrow>
    (\<forall>cl k h w w1 w2. nt_StartTLS net cl k w = (w1, None) \<longrightarrow> nt_Hello net cl h w1 = (w2, None) \<longrightarrow>
       ts_HandshakeComplete (nt_TLSState net cl w2) \<and> ts_VerifiedChains (nt_TLSState net cl w2) = (\<not> tc_InsecureSkipVerify k))
    \<and> (\<forall>netw addr conn lmtp cl h x ok w w1 w2 w3 w4. nt_Dial net netw addr w = (w1, Inr conn) \<longrightarrow>
        nt_NewClient net lmtp conn w1 = (w2, cl) \<longrightarrow> nt_Hello net cl h w2 = (w3, None) \<longrightarrow> nt_Extension net cl x w3 = (w4, ok) \<longrightarrow>
        \<not> ts_HandshakeComplete (nt_TLSState net cl w4) \<and> \<not> ts_VerifiedChains (nt_TLSState net cl w4))"

definition level_true :: "'w net \<Rightarrow> nat \<Rightarrow> tls_level \<Rightarrow> 'w \<Rightarrow> bool" where
  "level_true net cl lvl w \<longleftrightarrow>
     ts_HandshakeComplete (nt_TLSState net cl w) = (TLSEncrypted \<le> lvl)
     \<and> ts_VerifiedChains (nt_TLSState net cl w) = (lvl = TLSAuthenticated)"

lemma plain_connect:
  assumes "C_Connect net c lmtp endp False k w = (w1, c1, Inr d)" "co_cl c1 = Some cl" "\<not> en_IsTLS endp"
  shows "\<exists>w2 w3 conn. nt_Dial net (en_Network endp) (en_Address endp) w = (w2, Inr conn)
    \<and> nt_NewClient net lmtp conn w2 = (w3, cl) \<and> nt_Hello net cl (co_Hostname c) w3 = (w1, None)"
  using assms by (auto simp: C_Connect_def attemptConnect_def split: prod.splits sum.splits option.splits)

lemma connect_level_true:
  assumes "tls_sound (rt_net rt)" "\<forall>k. rt_tlsConfig rt = Some k \<longrightarrow> \<not> tc_InsecureSkipVerify k"
  shows "connects (level_true (rt_net rt)) c (remote_connect rt c host w)"
  unfolding remote_connect_def
proof (rule connect_loop_connects [where F = "\<lambda>k lvl. lvl = (if tc_InsecureSkipVerify k then TLSEncrypted else TLSAuthenticated)"])
  fix cl k lvl w w1 w2
  assume l: "lvl = (if tc_InsecureSkipVerify k then TLSEncrypted else TLSAuthenticated)"
    and "nt_StartTLS (rt_net rt) cl k w = (w1, None)" "nt_Hello (rt_net rt) cl (rt_hostname rt) w1 = (w2, None)"
  with assms(1) have "ts_HandshakeComplete (nt_TLSState (rt_net rt) cl w2)"
    "ts_VerifiedChains (nt_TLSState (rt_net rt) cl w2) = (\<not> tc_InsecureSkipVerify k)" unfolding tls_sound_def by blast+
  with l show "level_true (rt_net rt) cl lvl w2" by (simp add: level_true_def less_eq_tls_level_def)
next
  fix c host w w1 c1 d cl w2 ok
  assume C: "C_Connect (rt_net rt) c False (mx_endpoint rt host) False no_tls w = (w1, c1, Inr d)" "co_cl c1 = Some cl"
    and E: "nt_Extension (rt_net rt) cl ''STARTTLS'' w1 = (w2, ok)"
  have "\<not> en_IsTLS (mx_endpoint rt host)" by (simp add: en_IsTLS_def mx_endpoint_def)
  from plain_connect [OF C this] E assms(1)
  have "\<not> ts_HandshakeComplete (nt_TLSState (rt_net rt) cl w2) \<and> \<not> ts_VerifiedChains (nt_TLSState (rt_net rt) cl w2)"
    unfolding tls_sound_def by blast
  then show "level_true (rt_net rt) cl TLSNone w2" by (simp add: level_true_def less_eq_tls_level_def)
qed (use assms(2) in \<open>auto simp: option.pred_set split: if_splits\<close>)

section \<open>Policies\<close>

text \<open>The loops only raise a level, and a local policy they pass is met.\<close>

lemma check_mx_loop_levels:
  "check_mx_loop sx domain host dnssecOk lvl ps w = Some (w', ps', Inr lvl') \<Longrightarrow>
    lvl \<le> lvl' \<and> (\<forall>t m. LocalDelivery t m \<in> set ps \<longrightarrow> m \<le> lvl' \<and> LocalDelivery t m \<in> set ps')
    \<and> (lvl' = MX_DNSSEC \<longrightarrow> lvl = MX_DNSSEC \<or> dnssecOk \<and> DnssecDelivery \<in> set ps)"
proof (induction ps arbitrary: lvl w ps')
  case (Cons p ps)
  obtain pl where ck: "CheckMX p lvl domain host dnssecOk = Some (pl, None)"
    using Cons.prems by (auto split: option.splits prod.splits)
  obtain w1 p1 where pr: "PrepareConn sx host p w = (w1, p1)" by fastforce
  let ?l = "if pl > lvl then pl else lvl"
  from Cons.prems ck pr obtain ps1 where
    r: "check_mx_loop sx domain host dnssecOk ?l ps w1 = Some (w', ps1, Inr lvl')" and ps': "ps' = p1 # ps1" by auto
  have loc: "\<And>t m. p = LocalDelivery t m \<Longrightarrow> m \<le> lvl \<and> p1 = p"
    using ck pr by (auto simp: policy_checks split: if_splits)
  have sec: "pl = MX_DNSSEC \<Longrightarrow> lvl = MX_DNSSEC \<or> dnssecOk \<and> p = DnssecDelivery"
    using ck by (cases p) (auto simp: policy_checks split: if_splits option.splits sum.splits)
  from Cons.IH [OF r] loc sec show ?case unfolding ps' by (auto split: if_splits)
qed auto

lemma check_conn_loop_levels:
  "check_conn_loop sx mxl domain host st lvl ps = Some (Inr lvl') \<Longrightarrow>
    lvl \<le> lvl' \<and> (\<forall>t m. LocalDelivery t m \<in> set ps \<longrightarrow> t \<le> lvl')"
proof (induction ps arbitrary: lvl)
  case (Cons p ps)
  obtain pl where ck: "CheckConn sx p mxl lvl domain host st = Some (pl, None)"
    using Cons.prems by (auto split: option.splits prod.splits)
  let ?l = "if pl > lvl then pl else lvl"
  from Cons.prems ck have r: "check_conn_loop sx mxl domain host st ?l ps = Some (Inr lvl')" by simp
  have loc: "\<And>t m. p = LocalDelivery t m \<Longrightarrow> t \<le> lvl" using ck by (auto simp: policy_checks split: if_splits)
  from Cons.IH [OF r] loc show ?case by (auto split: if_splits)
qed auto

section \<open>New connections\<close>

text \<open>What an attempt leaves of a connection: its levels are set only when it succeeds.\<close>

definition same_conn :: "mx_conn \<Rightarrow> mx_conn \<Rightarrow> bool" where
  "same_conn a b \<longleftrightarrow> mc_domain a = mc_domain b \<and> mc_errored a = mc_errored b \<and> mc_transactions a = mc_transactions b
     \<and> mc_reuseLimit a = mc_reuseLimit b \<and> mc_dnssecOk a = mc_dnssecOk b \<and> co_rcpts (mc_C a) = co_rcpts (mc_C b)"

definition quit_works :: "'w net \<Rightarrow> bool" where
  "quit_works net \<longleftrightarrow> (\<forall>cl w. snd (nt_Quit net cl w) = None)"

definition meets_local :: "dpolicy list \<Rightarrow> mx_conn \<Rightarrow> bool" where
  "meets_local ps conn \<longleftrightarrow> (\<forall>t m. LocalDelivery t m \<in> set ps \<longrightarrow> t \<le> mc_tlsLevel conn \<and> m \<le> mc_mxLevel conn)"

lemma mc_Close_spec:
  "mc_Close net conn w = Some (w', conn') \<Longrightarrow>
    same_conn conn' conn \<and> mc_mxLevel conn' = mc_mxLevel conn \<and> mc_tlsLevel conn' = mc_tlsLevel conn
    \<and> (quit_works net \<longrightarrow> co_cl (mc_C conn') = None)"
  by (auto simp: mc_Close_def C_Close_def same_conn_def quit_works_def split: option.splits prod.splits)
     (metis option.distinct(1) snd_conv)+

lemma check_mx_loop_local:
  "check_mx_loop sx domain host dnssecOk lvl ps w = Some (w', ps', r) \<Longrightarrow> LocalDelivery t m \<in> set ps \<longleftrightarrow> LocalDelivery t m \<in> set ps'"
proof (induction ps arbitrary: lvl w ps')
  case (Cons p ps)
  have "\<And>w1 p1. PrepareConn sx host p w = (w1, p1) \<Longrightarrow> (p = LocalDelivery t m) = (p1 = LocalDelivery t m)"
    by (cases p) (auto split: option.splits prod.splits)
  with Cons show ?case by (fastforce split: option.splits prod.splits)
qed auto

lemma attemptMX_spec:
  assumes "attemptMX rt ps conn rec w = Some (w', ps', conn', e)"
  shows "same_conn conn' conn \<and> (\<forall>t m. LocalDelivery t m \<in> set ps' \<longleftrightarrow> LocalDelivery t m \<in> set ps)
    \<and> (case e of
         None \<Rightarrow> co_cl (mc_C conn') \<noteq> None \<and> meets_local ps conn'
       | Some _ \<Rightarrow> mc_mxLevel conn' = mc_mxLevel conn \<and> mc_tlsLevel conn' = mc_tlsLevel conn
           \<and> (quit_works (rt_net rt) \<longrightarrow> co_cl (mc_C conn) = None \<longrightarrow> co_cl (mc_C conn') = None))"
proof -
  obtain w1 ps1 r where mx: "check_mx_loop (rt_sec rt) (mc_domain conn) (mx_Host rec) (mc_dnssecOk conn) MXNone ps w = Some (w1, ps1, r)"
    using assms by (auto simp: attemptMX_def split: option.splits)
  note loc = check_mx_loop_local [OF mx]
  show ?thesis
  proof (cases r)
    case (Inl err)
    with assms mx loc show ?thesis by (auto simp: attemptMX_def same_conn_def)
  next
    case (Inr mxl)
    note lv = check_mx_loop_levels [OF mx [unfolded Inr]]
    obtain w2 c2 tl te e2 where co: "remote_connect rt (mc_C conn) (mx_Host rec) w1 = Some (w2, c2, tl, te, e2)"
      using remote_connect_total [of "mc_C conn" rt "mx_Host rec" w1] by (auto simp: connects_def split: option.splits)
    note tot = remote_connect_total [of "mc_C conn" rt "mx_Host rec" w1, unfolded connects_def co, simplified]
    show ?thesis
    proof (cases e2)
      case (Some err)
      with assms mx Inr co tot loc show ?thesis by (auto simp: attemptMX_def same_conn_def)
    next
      case None
      with tot obtain cl where cl: "co_cl c2 = Some cl" and rc: "co_rcpts c2 = co_rcpts (mc_C conn)"
        by (auto split: option.splits)
      obtain rr where cn: "check_conn_loop (rt_sec rt) mxl (mc_domain conn) (mx_Host rec) (nt_TLSState (rt_net rt) cl w2) tl ps1 = Some rr"
        using assms mx Inr co None cl by (auto simp: attemptMX_def split: option.splits)
      show ?thesis
      proof (cases rr)
        case (Inl err)
        with assms mx \<open>r = Inr mxl\<close> co None cl cn rc loc show ?thesis
          by (auto simp: attemptMX_def same_conn_def dest!: mc_Close_spec)
      next
        case (Inr tl')
        note lc = check_conn_loop_levels [OF cn [unfolded Inr]]
        from assms mx \<open>r = Inr mxl\<close> co None cl cn rc loc lv lc Inr show ?thesis
          by (auto simp: attemptMX_def same_conn_def meets_local_def)
      qed
    qed
  qed
qed

lemma same_conn_trans: "same_conn a b \<Longrightarrow> same_conn b c \<Longrightarrow> same_conn a c"
  by (simp add: same_conn_def)

lemma mx_loop_spec:
  "mx_loop rt ps conn recs le w = Some (w', ps', conn', r) \<Longrightarrow>
    same_conn conn' conn \<and> (\<forall>t m. LocalDelivery t m \<in> set ps' \<longleftrightarrow> LocalDelivery t m \<in> set ps)
    \<and> (co_cl (mc_C conn') \<noteq> None \<and> meets_local ps conn'
       \<or> mc_mxLevel conn' = mc_mxLevel conn \<and> mc_tlsLevel conn' = mc_tlsLevel conn
         \<and> (quit_works (rt_net rt) \<longrightarrow> co_cl (mc_C conn) = None \<longrightarrow> co_cl (mc_C conn') = None))"
proof (induction rt ps conn recs le w rule: mx_loop.induct)
  case (2 rt ps conn rec recs le w)
  show ?case
  proof (cases "mx_Host rec = ''.''")
    case True
    with "2.prems" show ?thesis by (auto simp: same_conn_def)
  next
    case False
    obtain w1 ps1 conn1 e where a: "attemptMX rt ps conn rec w = Some (w1, ps1, conn1, e)"
      using "2.prems" False by (auto split: option.splits)
    note sp = attemptMX_spec [OF a]
    show ?thesis
    proof (cases e)
      case None
      with "2.prems" False a sp show ?thesis by auto
    next
      case (Some err)
      have "mx_loop rt ps1 conn1 recs (Some err) w1 = Some (w', ps', conn', r)" using "2.prems" False a Some by simp
      note IH = "2.IH" [OF False a refl refl refl Some this]
      from sp have "meets_local ps1 = meets_local ps" by (auto simp: meets_local_def fun_eq_iff)
      with IH sp Some show ?thesis by (auto intro: same_conn_trans)
    qed
  qed
qed (auto simp: same_conn_def)

lemma prepare_domain_local:
  "prepare_domain_loop sx domain ps w = (w', ps') \<Longrightarrow> LocalDelivery t m \<in> set ps' \<longleftrightarrow> LocalDelivery t m \<in> set ps"
proof (induction ps arbitrary: w ps')
  case (Cons p ps)
  have "\<And>w1 p1. PrepareDomain sx domain p w = (w1, p1) \<Longrightarrow> (p = LocalDelivery t m) = (p1 = LocalDelivery t m)"
    by (cases p) (auto split: prod.splits)
  with Cons show ?case by (fastforce split: prod.splits)
qed auto

lemma newConn_spec:
  assumes "newConn rt now ps domain w = Some (w', ps', Inr conn)"
  shows "co_cl (mc_C conn) \<noteq> None \<and> mc_domain conn = domain \<and> \<not> mc_errored conn \<and> co_rcpts (mc_C conn) = []
    \<and> (meets_local ps conn \<or> \<not> quit_works (rt_net rt) \<and> mc_mxLevel conn = MXNone \<and> mc_tlsLevel conn = TLSNone)"
proof -
  obtain w1 ps1 where pd: "prepare_domain_loop (rt_sec rt) domain ps w = (w1, ps1)" by fastforce
  obtain w2 d recs where lk: "lookupMX rt domain w1 = (w2, Inr (d, recs))"
    using assms pd by (auto simp: newConn_def split: prod.splits sum.splits)
  let ?c = "(fresh_conn rt now domain)\<lparr>mc_dnssecOk := d\<rparr>"
  obtain le where lp: "mx_loop rt ps1 ?c recs None w2 = Some (w', ps', conn, Inr le)" and cl: "co_cl (mc_C conn) \<noteq> None"
    using assms pd lk by (auto simp: newConn_def split: option.splits prod.splits sum.splits if_splits)
  have "meets_local ps1 = meets_local ps" using prepare_domain_local [OF pd] by (auto simp: meets_local_def fun_eq_iff)
  with mx_loop_spec [OF lp] cl show ?thesis
    by (auto simp: same_conn_def fresh_conn_def New_C_def)
qed

section \<open>Outcomes\<close>

lemma Some_eq_map_option: "Some y = map_option f x \<longleftrightarrow> (\<exists>z. x = Some z \<and> y = f z)"
  by (cases x) auto

lemma in_obind: "Some y \<in> set (obind xs f) \<Longrightarrow> \<exists>a. Some a \<in> set xs \<and> Some y \<in> set (f a)"
  by (auto simp: obind_def split: option.splits)

lemma close_with_out: "Some (st', rd', r) \<in> set (close_with rt conn err rd st) \<Longrightarrow> rd' = rd \<and> r = Inl err \<and> rs_pool st' = rs_pool st \<and> rs_limits st' = rs_limits st"
  by (auto simp: close_with_def Some_eq_map_option)

text \<open>What choosing a connection may change of a delivery.\<close>

definition secure :: "mx_conn \<Rightarrow> bool" where
  "secure conn \<longleftrightarrow> mc_tlsLevel conn = TLSAuthenticated \<and> MX_MTASTS \<le> mc_mxLevel conn"

lemma requiretls_secure: "requiretls_err conn = None \<longleftrightarrow> secure conn"
  by (cases "mc_tlsLevel conn")
     (auto simp: requiretls_err_def secure_def less_tls_level_def not_less)

definition keeps_delivery :: "'w rtarget \<Rightarrow> rdelivery \<Rightarrow> rdelivery \<Rightarrow> bool" where
  "keeps_delivery rt rd rd' \<longleftrightarrow> rd_recipients rd' = rd_recipients rd \<and> rd_mailFrom rd' = rd_mailFrom rd
     \<and> mm_Quarantine (rd_msgMeta rd') = mm_Quarantine (rd_msgMeta rd)
     \<and> (\<not> rt_relaxedREQUIRETLS rt \<longrightarrow> mm_RequireTLS (rd_msgMeta rd') = mm_RequireTLS (rd_msgMeta rd))"

lemma C_Mail_client: "co_cl c = Some cl \<Longrightarrow> \<exists>w' e. C_Mail net lib c from utf8 rtls w = Some (w', e)"
  unfolding C_Mail_def by (simp only: option.case option.inject) (rule surj_pair)

lemma begin_mail_out:
  assumes "Some (st', rd', r) \<in> set (begin_mail rt now domain conn rd st)"
  shows "rs_pool st' = rs_pool st \<and> rs_limits st' = rs_limits st \<and> keeps_delivery rt rd rd'
    \<and> (case r of Inl _ \<Rightarrow> rd_connections rd' = rd_connections rd
       | Inr c \<Rightarrow> c = conn\<lparr>mc_lastUseAt := now\<rparr> \<and> rd_connections rd' = AList.update domain c (rd_connections rd))"
proof (cases "co_cl (mc_C conn)")
  case None
  with assms show ?thesis by (simp add: begin_mail_def)
next
  case (Some cl)
  obtain w1 ok where ext: "nt_Extension (rt_net rt) cl ''REQUIRETLS'' (rs_world st) = (w1, ok)" by fastforce
  define rd1 where "rd1 = (if rt_relaxedREQUIRETLS rt \<and> \<not> ok
    then rd\<lparr>rd_msgMeta := (rd_msgMeta rd)\<lparr>mm_RequireTLS := False\<rparr>\<rparr> else rd)"
  have k: "keeps_delivery rt rd rd1" "rd_connections rd1 = rd_connections rd" by (auto simp: keeps_delivery_def rd1_def)
  obtain w2 e where m: "C_Mail (rt_net rt) (rt_text rt) (mc_C conn) (rd_mailFrom rd1) (mm_UTF8 (rd_msgMeta rd1))
      (mm_RequireTLS (rd_msgMeta rd1)) w1 = Some (w2, e)"
    using C_Mail_client [OF Some, of "rt_net rt" "rt_text rt" "rd_mailFrom rd1" "mm_UTF8 (rd_msgMeta rd1)"
        "mm_RequireTLS (rd_msgMeta rd1)" w1] by blast
  from assms Some ext m k show ?thesis
    by (cases e) (auto simp: begin_mail_def Let_def rd1_def [symmetric] keeps_delivery_def dest!: close_with_out)
qed

lemma use_conn_out:
  assumes "Some (st', rd', r) \<in> set (use_conn rt ctx now domain conn rd st)"
  shows "rs_pool st' = rs_pool st \<and> keeps_delivery rt rd rd'
    \<and> (case r of Inl _ \<Rightarrow> rd_connections rd' = rd_connections rd
       | Inr c \<Rightarrow> c = conn\<lparr>mc_lastUseAt := now\<rparr> \<and> rd_connections rd' = AList.update domain c (rd_connections rd)
           \<and> (mm_RequireTLS (rd_msgMeta rd) \<longrightarrow> secure c))"
proof (cases "if mm_RequireTLS (rd_msgMeta rd) then requiretls_err conn else None")
  case (Some err)
  with assms show ?thesis by (auto simp: use_conn_def keeps_delivery_def dest!: close_with_out)
next
  case None
  then have "mm_RequireTLS (rd_msgMeta rd) \<longrightarrow> secure conn" by (auto simp: requiretls_secure split: if_splits)
  moreover have "Some (st', rd', r) \<in> set (take_dest rt ctx now domain conn rd st)" using assms None by (simp add: use_conn_def)
  ultimately show ?thesis
    by (auto simp: take_dest_def keeps_delivery_def secure_def split: option.splits prod.splits sum.splits
        dest!: in_obind close_with_out begin_mail_out)
qed

section \<open>Deliveries\<close>

text \<open>A connection of a domain with a client, and one the pool may hold for it.\<close>

definition alive :: "string \<Rightarrow> mx_conn \<Rightarrow> bool" where
  "alive d c \<longleftrightarrow> mc_domain c = d \<and> co_cl (mc_C c) \<noteq> None"

definition healthy :: "string \<Rightarrow> mx_conn \<Rightarrow> bool" where
  "healthy d c \<longleftrightarrow> alive d c \<and> \<not> mc_errored c \<and> mc_transactions c \<le> mc_reuseLimit c"

lemma alive_lastUse [simp]: "alive d (c\<lparr>mc_lastUseAt := t\<rparr>) = alive d c"
  by (simp add: alive_def)

lemma connectionForDomain_out:
  assumes out: "Some (st', rd', r) \<in> set (connectionForDomain rt ctx now domain rd st)"
    and pool: "pool_ok healthy (rs_pool st)" and old: "\<forall>d c. map_of (rd_connections rd) d = Some c \<longrightarrow> alive d c"
  shows "pool_ok healthy (rs_pool st') \<and> keeps_delivery rt rd rd'
    \<and> (case r of Inl _ \<Rightarrow> rd_connections rd' = rd_connections rd
       | Inr c \<Rightarrow> alive domain c \<and> map_of (rd_connections rd') = (map_of (rd_connections rd))(domain \<mapsto> c)
           \<and> (map_of (rd_connections rd) domain = Some c
              \<or> (mm_RequireTLS (rd_msgMeta rd) \<longrightarrow> secure c) \<and> map_of (rd_connections rd) domain = None))"
proof (cases "map_of (rd_connections rd) domain")
  case (Some c)
  with out old pool show ?thesis by (auto simp: connectionForDomain_def keeps_delivery_def fun_upd_idem)
next
  case None
  obtain w p pc where g: "pool_Get (mx_ops (rt_net rt)) now domain (rs_pool st) (rs_world st) = (w, p, pc)"
    by (metis prod_cases3)
  note gs = Get_spec [OF g pool]
  let ?st = "st\<lparr>rs_world := w, rs_pool := p\<rparr>"
  have used: ?thesis if u: "Some (st', rd', r) \<in> set (use_conn rt ctx now domain conn rd1 st1)"
    and a: "alive domain conn" and rd1: "rd1 = rd\<lparr>rd_policies := ps\<rparr>" and st1: "rs_pool st1 = p" for conn rd1 st1 ps
    using use_conn_out [OF u] a None gs unfolding rd1 st1
    by (auto simp: keeps_delivery_def update_conv' split: sum.splits)
  show ?thesis
  proof (cases "if mm_RequireTLS (rd_msgMeta rd) then None else pc")
    case (Some conn)
    with gs have "alive domain conn" by (auto simp: healthy_def split: if_splits)
    moreover have "Some (st', rd', r) \<in> set (use_conn rt ctx now domain conn rd ?st)"
      using out None g Some by (simp add: connectionForDomain_def Let_def)
    ultimately show ?thesis using used [of conn rd ?st "rd_policies rd"] by simp
  next
    case none: None
    from out None g none obtain w2 ps q where n: "newConn rt now (rd_policies rd) domain w = Some (w2, ps, q)"
      by (cases "newConn rt now (rd_policies rd) domain w") (auto simp: connectionForDomain_def Let_def)
    show ?thesis
    proof (cases q)
      case (Inl err)
      with out None g none n gs show ?thesis by (auto simp: connectionForDomain_def keeps_delivery_def Let_def)
    next
      case (Inr conn)
      have "alive domain conn" using newConn_spec [OF n [unfolded Inr]] by (auto simp: alive_def)
      moreover have "Some (st', rd', r) \<in> set (use_conn rt ctx now domain conn (rd\<lparr>rd_policies := ps\<rparr>) (?st\<lparr>rs_world := w2\<rparr>))"
        using out None g none n Inr by (simp add: connectionForDomain_def Let_def)
      ultimately show ?thesis using used [of conn _ "?st\<lparr>rs_world := w2\<rparr>" ps] by simp
    qed
  qed
qed

text \<open>A delivery from its start: recipients are added, the body is sent, and other deliveries
  may change the world, the limits and the pool, which they leave with healthy connections.\<close>

inductive rd_run :: "'w rtarget \<Rightarrow> msg_meta \<Rightarrow> rdelivery \<Rightarrow> 'w rstate \<Rightarrow> bool" for rt msgMeta where
  start: "pool_ok healthy (rs_pool st) \<Longrightarrow> Some (st', Inr rd) \<in> set (remote_Start rt ctx now msgMeta mailFrom st)
    \<Longrightarrow> rd_run rt msgMeta rd st'"
| rcpt: "rd_run rt msgMeta rd st \<Longrightarrow> Some (st', rd', e) \<in> set (remote_AddRcpt rt ctx now to rd st) \<Longrightarrow> rd_run rt msgMeta rd' st'"
| body: "rd_run rt msgMeta rd st \<Longrightarrow> remote_BodyNonAtomic rt now hdr openb ds rd st = Some (st', rd', sts)
    \<Longrightarrow> rd_run rt msgMeta rd' st'"
| others: "rd_run rt msgMeta rd st \<Longrightarrow> pool_ok healthy (rs_pool st') \<Longrightarrow> rd_run rt msgMeta rd st'"

text \<open>The connections of a delivery; \<open>strict\<close> when REQUIRETLS is enforced.\<close>

definition conns_ok :: "bool \<Rightarrow> (string \<rightharpoonup> mx_conn) \<Rightarrow> string list \<Rightarrow> bool" where
  "conns_ok strict M rs \<longleftrightarrow> (\<forall>d c. M d = Some c \<longrightarrow> alive d c \<and> (strict \<longrightarrow> secure c))
     \<and> (\<forall>r \<in> set rs. IsASCII r \<longrightarrow> (\<exists>d c. M d = Some c \<and> r \<in> set (co_rcpts (mc_C c))))"

definition strict_tls :: "'w rtarget \<Rightarrow> msg_meta \<Rightarrow> bool" where
  "strict_tls rt msgMeta \<longleftrightarrow> \<not> rt_relaxedREQUIRETLS rt \<and> mm_RequireTLS msgMeta"

definition rd_inv :: "'w rtarget \<Rightarrow> msg_meta \<Rightarrow> rdelivery \<Rightarrow> 'w rstate \<Rightarrow> bool" where
  "rd_inv rt msgMeta rd st \<longleftrightarrow> pool_ok healthy (rs_pool st)
     \<and> conns_ok (strict_tls rt msgMeta) (map_of (rd_connections rd)) (rd_recipients rd)
     \<and> (strict_tls rt msgMeta \<longrightarrow> mm_RequireTLS (rd_msgMeta rd))"

lemma conns_ok_upd:
  assumes ok: "conns_ok s M rs" and new: "alive d c'" "s \<longrightarrow> secure c'" "\<forall>r \<in> set rs'. IsASCII r \<longrightarrow> r \<in> set (co_rcpts (mc_C c'))"
    and old: "\<forall>c. M d = Some c \<longrightarrow> set (co_rcpts (mc_C c)) \<subseteq> set (co_rcpts (mc_C c'))"
  shows "conns_ok s (M(d \<mapsto> c')) (rs @ rs')"
proof -
  have "\<exists>e x. (M(d \<mapsto> c')) e = Some x \<and> r \<in> set (co_rcpts (mc_C x))" if r: "r \<in> set (rs @ rs')" "IsASCII r" for r
  proof (cases "r \<in> set (co_rcpts (mc_C c'))")
    case True
    then show ?thesis by (intro exI [of _ d] exI [of _ c']) simp
  next
    case False
    with r new ok obtain e x where e: "M e = Some x" "r \<in> set (co_rcpts (mc_C x))" unfolding conns_ok_def by auto
    with old False have "e \<noteq> d" by auto
    with e show ?thesis by (intro exI [of _ e] exI [of _ x]) simp
  qed
  moreover have "\<forall>e x. (M(d \<mapsto> c')) e = Some x \<longrightarrow> alive e x \<and> (s \<longrightarrow> secure x)"
    using ok new by (simp add: conns_ok_def)
  ultimately show ?thesis unfolding conns_ok_def by blast
qed

lemma rd_Start_inv:
  "pool_ok healthy (rs_pool st) \<Longrightarrow> Some (st', Inr rd) \<in> set (remote_Start rt ctx now msgMeta mailFrom st) \<Longrightarrow> rd_inv rt msgMeta rd st'"
  by (auto simp: remote_Start_def Let_def rd_inv_def conns_ok_def strict_tls_def Some_eq_map_option split: sum.splits option.splits)

lemma C_Rcpt_out:
  assumes "C_Rcpt net lib c to w = Some (w', c', e)"
  shows "co_cl c' = co_cl c \<and> set (co_rcpts c) \<subseteq> set (co_rcpts c') \<and> (e = None \<longrightarrow> IsASCII to \<longrightarrow> to \<in> set (co_rcpts c'))"
proof (cases "co_cl c")
  case None
  with assms show ?thesis by (simp add: C_Rcpt_def)
next
  case (Some cl)
  obtain w1 ok where x: "nt_Extension net cl ''SMTPUTF8'' w = (w1, ok)" by fastforce
  obtain a ae where t: "(if \<not> IsASCII to \<and> \<not> ok then ToASCII lib to else (to, None)) = (a, ae)" by fastforce
  obtain w2 re where r: "nt_Rcpt net cl a w1 = (w2, re)" by fastforce
  have "IsASCII to \<longrightarrow> a = to" using t by (auto split: if_splits)
  with assms Some x t r show ?thesis by (cases ae; cases re) (auto simp: C_Rcpt_def)
qed

lemma secure_upd [simp]: "secure (c\<lparr>mc_C := x\<rparr>) = secure c" "secure (c\<lparr>mc_lastUseAt := t\<rparr>) = secure c"
  by (simp_all add: secure_def)

lemma cfd_inv:
  assumes inv: "rd_inv rt m rd st" and out: "Some (st', rd', r) \<in> set (connectionForDomain rt ctx now d rd st)"
  shows "rd_inv rt m rd' st' \<and> rd_recipients rd' = rd_recipients rd
    \<and> (\<forall>c. r = Inr c \<longrightarrow> map_of (rd_connections rd') d = Some c)"
proof -
  have a: "\<forall>d c. map_of (rd_connections rd) d = Some c \<longrightarrow> alive d c" and p: "pool_ok healthy (rs_pool st)"
    using inv by (auto simp: rd_inv_def conns_ok_def)
  note sp = connectionForDomain_out [OF out p a]
  show ?thesis
  proof (cases r)
    case (Inl err)
    with sp inv show ?thesis by (auto simp: rd_inv_def keeps_delivery_def strict_tls_def)
  next
    case (Inr c)
    have "strict_tls rt m \<longrightarrow> secure c" using sp inv Inr by (auto simp: rd_inv_def conns_ok_def)
    then have "conns_ok (strict_tls rt m) ((map_of (rd_connections rd))(d \<mapsto> c)) (rd_recipients rd @ [])"
      using sp inv Inr by (intro conns_ok_upd) (auto simp: rd_inv_def)
    with sp inv Inr show ?thesis by (auto simp: rd_inv_def keeps_delivery_def strict_tls_def)
  qed
qed

lemma rd_AddRcpt_inv:
  assumes inv: "rd_inv rt m rd st" and out: "Some (st', rd', e) \<in> set (remote_AddRcpt rt ctx now to rd st)"
  shows "rd_inv rt m rd' st'"
proof -
  obtain mb d se where sp: "Split to = (mb, d, se)" by (metis prod_cases3)
  show ?thesis
  proof (cases "mm_Quarantine (rd_msgMeta rd) \<or> se \<noteq> None \<or> d = [] \<or> HasPrefix d ''[''")
    case True
    with inv out sp show ?thesis by (auto simp: remote_AddRcpt_def split: option.splits if_splits)
  next
    case False
    with out sp obtain st1 rd1 r where cfd: "Some (st1, rd1, r) \<in> set (connectionForDomain rt ctx now d rd st)"
      and k: "Some (st', rd', e) \<in> set (case r of
            Inl err \<Rightarrow> [Some (st1, rd1, Some err)]
          | Inr conn \<Rightarrow>
             (case C_Rcpt (rt_net rt) (rt_text rt) (mc_C conn) to (rs_world st1) of
                None \<Rightarrow> [None]
              | Some (w, c, Some err) \<Rightarrow>
                 [Some (st1\<lparr>rs_world := w\<rparr>,
                    rd1\<lparr>rd_connections := AList.update d (conn\<lparr>mc_C := c\<rparr>) (rd_connections rd1)\<rparr>, Some (moduleError err))]
              | Some (w, c, None) \<Rightarrow>
                 [Some (st1\<lparr>rs_world := w\<rparr>,
                    rd1\<lparr>rd_connections := AList.update d (conn\<lparr>mc_C := c, mc_lastUseAt := now\<rparr>) (rd_connections rd1),
                       rd_recipients := rd_recipients rd1 @ [to]\<rparr>, None)]))"
      by (auto simp: remote_AddRcpt_def dest!: in_obind)
    note ci = cfd_inv [OF inv cfd]
    show ?thesis
    proof (cases r)
      case (Inl err)
      with ci k show ?thesis by auto
    next
      case (Inr conn)
      with ci have mo: "map_of (rd_connections rd1) d = Some conn" and ok: "alive d conn" "strict_tls rt m \<longrightarrow> secure conn"
        by (auto simp: rd_inv_def conns_ok_def)
      with k Inr obtain w c re where rc: "C_Rcpt (rt_net rt) (rt_text rt) (mc_C conn) to (rs_world st1) = Some (w, c, re)"
        by (cases "C_Rcpt (rt_net rt) (rt_text rt) (mc_C conn) to (rs_world st1)") auto
      note ro = C_Rcpt_out [OF rc]
      have "conns_ok (strict_tls rt m) ((map_of (rd_connections rd1))(d \<mapsto> c')) (rd_recipients rd1 @ (if re = None then [to] else []))"
        if "c' \<in> {conn\<lparr>mc_C := c\<rparr>, conn\<lparr>mc_C := c, mc_lastUseAt := now\<rparr>}" for c'
        using ci ok mo ro that by (intro conns_ok_upd) (auto simp: rd_inv_def alive_def)
      with ci k Inr rc show ?thesis
        by (cases re) (auto simp: rd_inv_def update_conv')
    qed
  qed
qed

section \<open>Sending and closing\<close>

lemma C_Data_client: "co_cl c = Some cl \<Longrightarrow> \<exists>w' e. C_Data net c hdr b t w = Some (w', e)"
  by (auto simp: C_Data_def smtpToLMTPData_def C_LMTPData_def split: prod.splits option.splits)

definition kept :: "mx_conn \<Rightarrow> mx_conn \<Rightarrow> bool" where
  "kept a b \<longleftrightarrow> mc_C b = mc_C a \<and> mc_domain b = mc_domain a \<and> mc_tlsLevel b = mc_tlsLevel a \<and> mc_mxLevel b = mc_mxLevel a"

lemma kept_simps: "kept a b \<Longrightarrow> alive d b = alive d a \<and> secure b = secure a \<and> co_rcpts (mc_C b) = co_rcpts (mc_C a)"
  by (simp add: kept_def alive_def secure_def)

lemma send_to_spec:
  assumes "alive d conn"
  obtains w' conn' e where "send_to rt now hdr openb d conn w = Some (w', conn', map (\<lambda>r. (r, e)) (co_rcpts (mc_C conn)))"
    "kept conn conn'"
proof (cases "openb d")
  case (Inl err)
  show ?thesis by (rule that [of w conn "Some err"]) (auto simp: send_to_def Inl kept_def)
next
  case (Inr b)
  from assms obtain cl where "co_cl (mc_C conn) = Some cl" by (auto simp: alive_def)
  from C_Data_client [OF this, of "rt_net rt" hdr b "[]" w] obtain w' e where
    "C_Data (rt_net rt) (mc_C conn) hdr b [] w = Some (w', e)" by blast
  then show ?thesis
    by (intro that [of w' "conn\<lparr>mc_errored := (e \<noteq> None), mc_lastUseAt := now\<rparr>" e]) (auto simp: send_to_def Inr kept_def)
qed

text \<open>The whole loop: it does not panic, keeps the connections and reports every recipient of
  the domains it walks.\<close>

lemma body_loop_spec:
  assumes "\<forall>d c. map_of conns d = Some c \<longrightarrow> alive d c"
  shows "\<exists>w' conns' sts. body_loop rt now hdr openb ds conns w = Some (w', conns', sts)
    \<and> (\<forall>d. rel_option kept (map_of conns d) (map_of conns' d))
    \<and> (\<forall>d c r. d \<in> set ds \<longrightarrow> map_of conns d = Some c \<longrightarrow> r \<in> set (co_rcpts (mc_C c)) \<longrightarrow> r \<in> fst ` set sts)"
  using assms
proof (induction ds arbitrary: conns w)
  case Nil
  then show ?case by (auto simp: kept_def option.rel_refl)
next
  case (Cons d ds)
  show ?case
  proof (cases "map_of conns d")
    case None
    from Cons.IH [OF Cons.prems, of w] None show ?thesis by auto
  next
    case (Some c)
    with Cons.prems have "alive d c" by blast
    from send_to_spec [OF this, of rt now hdr openb w] obtain w1 c1 e where
      st: "send_to rt now hdr openb d c w = Some (w1, c1, map (\<lambda>r. (r, e)) (co_rcpts (mc_C c)))" and k: "kept c c1" by blast
    let ?conns = "AList.update d c1 conns"
    have "\<forall>d c. map_of ?conns d = Some c \<longrightarrow> alive d c"
      using Cons.prems Some kept_simps [OF k] by (auto simp: update_conv')
    from Cons.IH [OF this, of w1] obtain w2 conns2 sts where
      b: "body_loop rt now hdr openb ds ?conns w1 = Some (w2, conns2, sts)"
      and r: "\<forall>d. rel_option kept (map_of ?conns d) (map_of conns2 d)"
      and m: "\<forall>d c r. d \<in> set ds \<longrightarrow> map_of ?conns d = Some c \<longrightarrow> r \<in> set (co_rcpts (mc_C c)) \<longrightarrow> r \<in> fst ` set sts" by blast
    have "rel_option kept (map_of conns x) (map_of conns2 x)" for x
      using r [rule_format, of x] k Some by (cases "x = d") (auto simp: update_conv' kept_def option_rel_Some1)
    moreover have "q \<in> fst ` set (map (\<lambda>r. (r, e)) (co_rcpts (mc_C c)) @ sts)"
      if "x \<in> set (d # ds)" "map_of conns x = Some y" "q \<in> set (co_rcpts (mc_C y))" for x y q
    proof (cases "x = d")
      case True
      with that Some show ?thesis by (force simp: image_iff)
    next
      case False
      with that m [rule_format, of x y q] show ?thesis by (auto simp: update_conv')
    qed
    moreover have "body_loop rt now hdr openb (d # ds) conns w = Some (w2, conns2, map (\<lambda>r. (r, e)) (co_rcpts (mc_C c)) @ sts)"
      using Some st b by simp
    ultimately show ?thesis by blast
  qed
qed

lemma conns_ok_kept:
  assumes "conns_ok s M rs" "\<forall>d. rel_option kept (M d) (M' d)"
  shows "conns_ok s M' rs"
proof -
  have bwd: "\<exists>c. M d = Some c \<and> kept c c'" if "M' d = Some c'" for d c'
    using assms(2) [rule_format, of d] that by (cases "M d") auto
  have fwd: "\<exists>c'. M' d = Some c' \<and> kept c c'" if "M d = Some c" for d c
    using assms(2) [rule_format, of d] that by (cases "M' d") auto
  have "\<exists>d c. M' d = Some c \<and> r \<in> set (co_rcpts (mc_C c))" if "r \<in> set rs" "IsASCII r" for r
  proof -
    from that assms(1) obtain d c where "M d = Some c" "r \<in> set (co_rcpts (mc_C c))" unfolding conns_ok_def by blast
    with fwd [of d c] kept_simps show ?thesis by metis
  qed
  moreover have "alive d c' \<and> (s \<longrightarrow> secure c')" if "M' d = Some c'" for d c'
  proof -
    from bwd [OF that] obtain c where "M d = Some c" "kept c c'" by blast
    with assms(1) kept_simps [of c c' d] show ?thesis unfolding conns_ok_def by auto
  qed
  ultimately show ?thesis unfolding conns_ok_def by blast
qed

lemma body_inv:
  assumes inv: "rd_inv rt m rd st" and out: "remote_BodyNonAtomic rt now hdr openb ds rd st = Some (st', rd', sts)"
  shows "rd_inv rt m rd' st'"
proof (cases "mm_Quarantine (rd_msgMeta rd)")
  case True
  with inv out show ?thesis by (auto simp: remote_BodyNonAtomic_def)
next
  case False
  have "\<forall>d c. map_of (rd_connections rd) d = Some c \<longrightarrow> alive d c" using inv by (auto simp: rd_inv_def conns_ok_def)
  from body_loop_spec [OF this, of rt now hdr openb ds "rs_world st"] obtain w' conns' sts' where
    b: "body_loop rt now hdr openb ds (rd_connections rd) (rs_world st) = Some (w', conns', sts')"
    and r: "\<forall>d. rel_option kept (map_of (rd_connections rd) d) (map_of conns' d)" by blast
  from inv have "conns_ok (strict_tls rt m) (map_of conns') (rd_recipients rd)"
    using conns_ok_kept [OF _ r] by (auto simp: rd_inv_def)
  with False b inv out show ?thesis by (auto simp: remote_BodyNonAtomic_def rd_inv_def)
qed

lemma run_inv: "rd_run rt m rd st \<Longrightarrow> rd_inv rt m rd st"
proof (induction rule: rd_run.induct)
  case (others rd st st')
  then show ?case by (simp add: rd_inv_def)
qed (blast intro: rd_Start_inv rd_AddRcpt_inv body_inv)+

lemma Usable_healthy: "mc_Usable net c w = (w', True) \<Longrightarrow> alive d c \<Longrightarrow> healthy d c"
  by (auto simp: mc_Usable_def healthy_def alive_def split: if_splits option.splits prod.splits)

lemma close_loop_pool:
  assumes "close_loop rt now ds conns st = Some st'" "pool_ok healthy (rs_pool st)"
    "\<forall>d c. map_of conns d = Some c \<longrightarrow> alive d c"
  shows "pool_ok healthy (rs_pool st')"
  using assms
proof (induction ds arbitrary: st)
  case (Cons d ds)
  show ?case
  proof (cases "map_of conns d")
    case None
    with Cons show ?thesis by simp
  next
    case (Some c)
    let ?c = "c\<lparr>mc_transactions := mc_transactions c + 1\<rparr>"
    have al: "alive d ?c" using Cons.prems(3) Some by (auto simp: alive_def)
    obtain g where g: "ReleaseDest (mc_domain c) (rs_limits st) = Some g"
      using Cons.prems(1) Some by (auto split: option.splits)
    obtain w u where u: "mc_Usable (rt_net rt) ?c (rs_world st) = (w, u)" by fastforce
    show ?thesis
    proof (cases u)
      case False
      with Cons.prems(1) Some g u obtain w1 c1 where cl: "mc_Close (rt_net rt) ?c w = Some (w1, c1)"
        by (cases "mc_Close (rt_net rt) ?c w") auto
      with Cons.prems Some g u False show ?thesis by (intro Cons.IH [of "st\<lparr>rs_limits := g, rs_world := w1\<rparr>"]) auto
    next
      case True
      obtain w1 p where ret: "pool_Return (mx_ops (rt_net rt)) now (mc_domain ?c) ?c (rs_pool st) w = (w1, p)"
        by fastforce
      have "pool_ok healthy p"
        using Return_spec [OF ret Cons.prems(2)] Usable_healthy [of "rt_net rt" ?c "rs_world st" w d] u True al by (auto simp: alive_def)
      with Cons.prems Some g u True ret show ?thesis
        by (intro Cons.IH [of "st\<lparr>rs_limits := g, rs_world := w1, rs_pool := p\<rparr>"]) auto
    qed
  qed
qed simp

section \<open>DANE\<close>

text \<open>The records are those of an answer a resolver vouched for, to the question for the TLSA
  records of SMTP on a host.\<close>

definition tlsa_of :: "'w sec_env \<Rightarrow> 'w ext_resolver \<Rightarrow> string \<Rightarrow> tlsa list \<Rightarrow> bool" where
  "tlsa_of sx e host recs \<longleftrightarrow> (\<exists>name answer. er_TLSAName e host (sx_smtpPort sx) ''tcp'' = Inr name
     \<and> vouched e (er_Fqdn e name) TypeTLSA answer \<and> recs = List.map_filter pick_tlsa answer)"

lemma LookupTLSA_trust: "AuthLookupTLSA e (sx_smtpPort sx) ''tcp'' host w = (w', Inr (True, recs)) \<Longrightarrow> tlsa_of sx e host recs"
  by (auto simp: AuthLookupTLSA_def tlsa_of_def split: sum.splits dest!: lookup_trust)

lemma tlsa_initial_trust: "tlsa_initial sx e mx w = (w', Inr recs) \<Longrightarrow> recs \<noteq> [] \<Longrightarrow> tlsa_of sx e mx recs"
  by (auto simp: tlsa_initial_def split: if_splits prod.splits sum.splits intro: LookupTLSA_trust)

lemma tlsa_lookup_trust:
  "tlsa_lookup sx e rname mx w = (w', Inr recs) \<Longrightarrow> recs \<noteq> [] \<Longrightarrow> tlsa_of sx e rname recs \<or> tlsa_of sx e mx recs"
  by (auto simp: tlsa_lookup_def split: if_splits prod.splits sum.splits dest: LookupTLSA_trust tlsa_initial_trust)

lemma discoverTLSA_trust:
  assumes "discoverTLSA sx e mx w = (w', Inr recs)" "recs \<noteq> []"
  shows "tlsa_of sx e mx recs \<or> (\<exists>w1 ad rname. CheckCNAMEAD e mx w = (w1, Inr (ad, rname)) \<and> tlsa_of sx e rname recs)"
proof -
  obtain w1 ad rname where c: "CheckCNAMEAD e mx w = (w1, Inr (ad, rname))"
    using assms by (auto simp: discoverTLSA_def split: prod.splits sum.splits)
  with assms obtain w2 where "tlsa_lookup sx e rname mx w2 = (w', Inr recs)"
    by (auto simp: discoverTLSA_def split: if_splits prod.splits sum.splits)
  from tlsa_lookup_trust [OF this assms(2)] c show ?thesis by blast
qed

text \<open>The certificate of the server matches a usable record, or chains to a presented CA
  certificate that does.\<close>

definition dane_match :: "'w sec_env \<Rightarrow> tlsa list \<Rightarrow> tls_state \<Rightarrow> bool" where
  "dane_match sx recs st = (case ts_PeerCertificates st of
     [] \<Rightarrow> False
   | cert # certs \<Rightarrow> list_ex (\<lambda>r. usable_tlsa 3 r \<and> sx_tlsaVerify sx r cert) recs
       \<or> list_ex (usable_tlsa 2) recs
         \<and> sx_x509Verify sx (ts_ServerName st) (ta_roots sx (filter (usable_tlsa 2) recs) (cert # certs))
             (ta_intermediates sx (filter (usable_tlsa 2) recs) (cert # certs)) cert)"

lemma verifyDANE_true: "verifyDANE sx recs st = Some (True, None) \<Longrightarrow> recs \<noteq> [] \<and> ts_HandshakeComplete st \<and> dane_match sx recs st"
  by (auto simp: verifyDANE_def Let_def dane_match_def list_ex_iff filter_empty_conv split: if_splits list.splits)

lemma verifyDANE_strict:
  assumes "list_ex (usable_tlsa 3) recs \<or> list_ex (usable_tlsa 2) recs" "\<not> dane_match sx recs st"
    "verifyDANE sx recs st = Some (b, e)"
  shows "e \<noteq> None"
  using assms by (auto simp: verifyDANE_def Let_def dane_match_def list_ex_iff filter_empty_conv split: if_splits list.splits)

end
