(* ===== verification/RemoteProps.thy ===== *)
theory RemoteProps
  imports RemoteInv
begin

text \<open>
  Properties of remote delivery: the TLS level reported for a connection is the one the
  handshake had, connections meet the local policy and REQUIRETLS, DANE trusts only answers
  of a local resolver, the pool holds only connections fit for another transaction, and every
  accepted recipient gets a status. The section on observations states where the code does
  less than its comments say.
\<close>

section \<open>A target to run\<close>

text \<open>A server that offers TLS and accepts everything; client 0 is the only one. The world is the
  number of QUIT commands.\<close>

definition rdemo_tls :: tls_state where
  "rdemo_tls = \<lparr>ts_ServerName = ''mx'', ts_HandshakeComplete = True, ts_VerifiedChains = True, ts_PeerCertificates = [7]\<rparr>"

definition rdemo_net :: "nat net" where
  "rdemo_net = \<lparr>nt_Dial = (\<lambda>_ _ w. (w, Inr 0)), nt_TLSClient = (\<lambda>c _ w. (w, c)), nt_NewClient = (\<lambda>_ c w. (w, c)),
     nt_Hello = (\<lambda>_ _ w. (w, None)), nt_Extension = (\<lambda>_ _ w. (w, True)), nt_StartTLS = (\<lambda>_ _ w. (w, None)),
     nt_TLSState = (\<lambda>_ _. rdemo_tls), nt_Mail = (\<lambda>_ _ _ _ w. (w, None)), nt_Rcpt = (\<lambda>_ _ w. (w, None)),
     nt_Data = (\<lambda>_ w. (w, None)), nt_WriteHeader = (\<lambda>_ _ w. (w, None)), nt_Copy = (\<lambda>_ _ w. (w, None)),
     nt_DataClose = (\<lambda>_ w. (w, [], None)), nt_Quit = (\<lambda>_ w. (Suc w, None)), nt_Close = (\<lambda>_ w. (w, None)),
     nt_Reset = (\<lambda>_ w. (w, None)), nt_Noop = (\<lambda>_ w. (w, None)), nt_Auth = (\<lambda>_ _ w. (w, None))\<rparr>"

definition rdemo_ext :: "nat ext_resolver" where
  "rdemo_ext = \<lparr>er_Exchange = (\<lambda>srv name q w. (w, Inr \<lparr>dm_Rcode = 0, dm_AD = True, dm_Answer =
       (case q of TypeA \<Rightarrow> [RR_A name ''192.0.2.1'']
        | TypeTLSA \<Rightarrow> [RR_TLSA \<lparr>ta_Usage = 3, ta_Selector = 1, ta_MatchingType = 1, ta_Certificate = ''h''\<rparr>]
        | _ \<Rightarrow> [])\<rparr>)),
     er_Server = ''127.0.0.1'', er_Servers = [], er_isLoopback = (\<lambda>s. s = ''127.0.0.1''), er_Fqdn = (\<lambda>s. s),
     er_ReverseAddr = Inr, er_TLSAName = (\<lambda>d s n. Inr (''_'' @ s @ ''._'' @ n @ ''.'' @ d))\<rparr>"

definition rdemo_sec :: "nat sec_env" where
  "rdemo_sec = \<lparr>sx_mtastsGet = (\<lambda>d w. (w, Inr \<lparr>sp_Enforce = True, sp_Match = (\<lambda>mx. mx = ''mx.'' @ d)\<rparr>)), sx_ext = Some rdemo_ext,
     sx_smtpPort = ''25'', sx_FQDN = (\<lambda>s. s), sx_tlsaVerify = (\<lambda>r c. c = 7), sx_IsCA = (\<lambda>_. False),
     sx_x509Verify = (\<lambda>_ _ _ _. False)\<rparr>"

definition rdemo_target :: "nat rtarget" where
  "rdemo_target = \<lparr>rt_hostname = ''h'', rt_tlsConfig = Some no_tls, rt_policies = [Mtasts, LocalPolicy TLSEncrypted MX_MTASTS],
     rt_allowSecOverride = True, rt_relaxedREQUIRETLS = False, rt_connReuseLimit = 10, rt_smtpPort = ''25'', rt_net = rdemo_net,
     rt_ext = None, rt_LookupMX = (\<lambda>d w. (w, Inr [\<lparr>mx_Host = ''mx.'' @ d, mx_Pref = 10\<rparr>])), rt_sort = sort_key mx_Pref,
     rt_sec = rdemo_sec, rt_text = ascii_lib\<rparr>"

definition rdemo_meta :: msg_meta where
  "rdemo_meta = \<lparr>mm_ID = ''m'', mm_OriginalFrom = ''s@a'', mm_DontTraceSender = False, mm_Quarantine = False,
     mm_OriginalRcpts = Map.empty, mm_UTF8 = False, mm_RequireTLS = True, mm_Conn = None, mm_TLSRequireOverride = False\<rparr>"

definition rdemo_state :: "nat rstate" where
  "rdemo_state = \<lparr>rs_world = 0, rs_limits = \<lparr>g_global = [], g_ip = None, g_source = None, g_dest = None\<rparr>,
     rs_pool = pool_New \<lparr>pl_MaxKeys = 5000, pl_MaxConnsPerKey = 5, pl_MaxConnLifetimeSec = 150, pl_StaleKeyLifetimeSec = 300\<rparr>\<rparr>"

definition rdemo_conn :: mx_conn where
  "rdemo_conn = \<lparr>mc_C = \<lparr>co_Hostname = ''h'', co_AddrInSMTPMsg = True, co_serverName = ''mx.b'', co_cl = Some 0,
       co_rcpts = [''r@b''], co_lmtp = False\<rparr>, mc_domain = ''b'', mc_dnssecOk = False, mc_errored = False, mc_reuseLimit = 10,
     mc_transactions = 0, mc_lastUseAt = 5, mc_mxLevel = MX_MTASTS, mc_tlsLevel = TLSAuthenticated\<rparr>"

definition rdemo_pols :: "dpolicy list" where
  "rdemo_pols = [MtastsDelivery None, LocalDelivery TLSEncrypted MX_MTASTS]"

definition rdemo_started :: rdelivery where
  "rdemo_started = \<lparr>rd_mailFrom = ''s@a'', rd_msgMeta = rdemo_meta, rd_recipients = [], rd_connections = [], rd_policies = rdemo_pols\<rparr>"

definition rdemo_sent :: rdelivery where
  "rdemo_sent = rdemo_started\<lparr>rd_recipients := [''r@b''], rd_connections := [(''b'', rdemo_conn)],
     rd_policies := [MtastsDelivery (Some (Inr \<lparr>sp_Enforce = True, sp_Match = (\<lambda>mx. mx = ''mx.b'')\<rparr>)), LocalDelivery TLSEncrypted MX_MTASTS]\<rparr>"

lemmas rdemo_defs = policy_checks rdemo_net_def rdemo_sec_def rdemo_target_def rdemo_meta_def rdemo_state_def rdemo_started_def rdemo_sent_def
  rdemo_conn_def rdemo_pols_def rdemo_tls_def

lemma rdemo_Split: "Split ''s@a'' = (''s'', ''a'', None)" "Split ''r@b'' = (''r'', ''b'', None)"
  by code_simp+

lemmas levels = less_tls_level_def less_eq_tls_level_def less_mx_level_def less_eq_mx_level_def

lemma rdemo_Start: "remote_Start rdemo_target None 0 rdemo_meta ''s@a'' rdemo_state = [Some (rdemo_state, Inr rdemo_started)]"
  by (simp add: remote_Start_def rdemo_defs ratelimit_domain_def rdemo_Split TakeMsg_def outs_bind_def take_ip_def take_source_def)

definition rdemo_fresh :: mx_conn where
  "rdemo_fresh = rdemo_conn\<lparr>mc_C := (mc_C rdemo_conn)\<lparr>co_rcpts := []\<rparr>\<rparr>"

lemma rdemo_newConn: "newConn rdemo_target 5 rdemo_pols ''b'' 0 = Some (0, rd_policies rdemo_sent, Inr rdemo_fresh)"
  by (simp add: newConn_def lookupMX_def attemptMX_def remote_connect_def connect_loop.simps C_Connect_def attemptConnect_def
      rdemo_fresh_def rdemo_defs fresh_conn_def New_C_def levels no_tls_def mx_endpoint_def en_IsTLS_def)

lemma rdemo_mail:
  "begin_mail rdemo_target 5 ''b'' rdemo_fresh (rdemo_started\<lparr>rd_policies := rd_policies rdemo_sent\<rparr>) rdemo_state =
    [Some (rdemo_state, rdemo_sent\<lparr>rd_recipients := [], rd_connections := [(''b'', rdemo_fresh)]\<rparr>, Inr rdemo_fresh)]"
  by (simp add: begin_mail_def C_Mail_def rdemo_fresh_def rdemo_defs Let_def)

lemma rdemo_cfd:
  "connectionForDomain rdemo_target None 5 ''b'' rdemo_started rdemo_state =
    [Some (rdemo_state, rdemo_sent\<lparr>rd_recipients := [], rd_connections := [(''b'', rdemo_fresh)]\<rparr>, Inr rdemo_fresh)]"
proof -
  have m: "mm_RequireTLS (rd_msgMeta rdemo_started)" "rd_connections rdemo_started = []" "rd_policies rdemo_started = rdemo_pols"
    "rs_world rdemo_state = 0" "g_dest (rs_limits rdemo_state) = None" "rdemo_state\<lparr>rs_world := 0\<rparr> = rdemo_state"
    by (simp_all add: rdemo_defs)
  have g: "pool_Get ops n ''b'' (rs_pool rdemo_state) 0 = (0, rs_pool rdemo_state, None)" for ops :: "(mx_conn, nat) conn_ops" and n
    by (simp add: pool_Get_def rdemo_state_def pool_New_def po_map_def)
  have r: "requiretls_err rdemo_fresh = None"
    by (simp add: requiretls_secure secure_def rdemo_conn_def rdemo_fresh_def levels)
  show ?thesis
    by (simp add: connectionForDomain_def m g rdemo_newConn use_conn_def r take_dest_def TakeDest_def obind_def rdemo_mail)
qed

lemma rdemo_AddRcpt:
  "remote_AddRcpt rdemo_target None 5 ''r@b'' rdemo_started rdemo_state = [Some (rdemo_state, rdemo_sent, None)]"
proof -
  have q: "\<not> mm_Quarantine (rd_msgMeta rdemo_started)" by (simp add: rdemo_defs)
  have c: "C_Rcpt (rt_net rdemo_target) (rt_text rdemo_target) (mc_C rdemo_fresh) ''r@b'' (rs_world rdemo_state) =
      Some (0, mc_C rdemo_conn, None)"
    by (simp add: C_Rcpt_def rdemo_fresh_def rdemo_defs)
  show ?thesis
    by (simp add: remote_AddRcpt_def rdemo_Split q HasPrefix_def rdemo_cfd obind_def c)
       (simp add: rdemo_fresh_def rdemo_defs)
qed

lemma rdemo_run: "rd_run rdemo_target rdemo_meta rdemo_sent rdemo_state"
proof -
  have s: "Some (rdemo_state, Inr rdemo_started) \<in> set (remote_Start rdemo_target None 0 rdemo_meta ''s@a'' rdemo_state)"
    by (simp add: rdemo_Start)
  have a: "Some (rdemo_state, rdemo_sent, None) \<in> set (remote_AddRcpt rdemo_target None 5 ''r@b'' rdemo_started rdemo_state)"
    by (simp add: rdemo_AddRcpt)
  have "pool_ok healthy (rs_pool rdemo_state)" by (simp add: pool_ok_def keys_ok_def rdemo_state_def pool_New_def po_map_def)
  from rd_run.rcpt [OF rd_run.start [OF this s] a] show ?thesis .
qed

section \<open>Security of connections\<close>

text \<open>C9: On a target that does not relax REQUIRETLS, whatever other deliveries do meanwhile, every connection
  a delivery of a message that requires TLS uses has an authenticated TLS session with a server
  whose name was authenticated, too.\<close>

theorem requiretls_enforced:
  assumes "rd_run rt msgMeta rd st" "\<not> rt_relaxedREQUIRETLS rt" "mm_RequireTLS msgMeta"
    and "map_of (rd_connections rd) d = Some c"
  shows "mc_tlsLevel c = TLSAuthenticated \<and> MX_MTASTS \<le> mc_mxLevel c"
  using run_inv [OF assms(1)] assms(2-4) by (auto simp: rd_inv_def conns_ok_def strict_tls_def secure_def)

theorem requiretls_enforced_witness: "mc_tlsLevel rdemo_conn = TLSAuthenticated \<and> MX_MTASTS \<le> mc_mxLevel rdemo_conn"
  by (rule requiretls_enforced [OF rdemo_run, of "''b''"]) (simp_all add: rdemo_target_def rdemo_meta_def rdemo_sent_def)

text \<open>C10: A new connection, on a server whose QUIT works, has the TLS and MX levels every local policy
  of the delivery asks for.\<close>

theorem new_connection_meets_policy:
  assumes "newConn rt now ps domain w = Some (w', ps', Inr conn)" "quit_works (rt_net rt)" "LocalDelivery t l \<in> set ps"
  shows "co_cl (mc_C conn) \<noteq> None \<and> t \<le> mc_tlsLevel conn \<and> l \<le> mc_mxLevel conn"
  using newConn_spec [OF assms(1)] assms(2,3) by (auto simp: meets_local_def)

theorem new_connection_meets_policy_witness:
  "co_cl (mc_C rdemo_fresh) \<noteq> None \<and> TLSEncrypted \<le> mc_tlsLevel rdemo_fresh \<and> MX_MTASTS \<le> mc_mxLevel rdemo_fresh"
  by (rule new_connection_meets_policy [OF rdemo_newConn]) (simp_all add: quit_works_def rdemo_target_def rdemo_net_def rdemo_pols_def)

text \<open>C11: The level \<open>connect\<close> reports is the one the connection has, on every path through the
  fallbacks: it is encrypted or more exactly when a TLS handshake finished, and authenticated
  exactly when there are verified chains. This is for a configuration that does not switch off
  the verification of certificates, and a TLS library that does what it says: a finished handshake
  has verified chains unless that is switched off, and a client without one has no TLS state.\<close>

theorem connect_level_truthful:
  assumes "tls_sound (rt_net rt)" "\<forall>k. rt_tlsConfig rt = Some k \<longrightarrow> \<not> tc_InsecureSkipVerify k"
    and "remote_connect rt c host w = Some (w', c', lvl, tlsErr, None)"
  shows "\<exists>cl. co_cl c' = Some cl \<and> (TLSEncrypted \<le> lvl \<longleftrightarrow> ts_HandshakeComplete (nt_TLSState (rt_net rt) cl w'))
    \<and> (lvl = TLSAuthenticated \<longleftrightarrow> ts_VerifiedChains (nt_TLSState (rt_net rt) cl w'))"
  using connect_level_true [OF assms(1,2), of c host w] assms(3) by (auto simp: connects_def level_true_def split: option.splits)

text \<open>A server whose certificate is trusted or not. The world is 0 without TLS, 1 after a
  handshake without verification and 2 after one with it.\<close>

definition tdemo_target :: "bool \<Rightarrow> nat rtarget" where
  "tdemo_target trusted = rdemo_target\<lparr>rt_net := rdemo_net\<lparr>nt_Dial := (\<lambda>_ _ _. (0, Inr 0)),
     nt_StartTLS := (\<lambda>_ k _. (if tc_InsecureSkipVerify k then 1 else 2, None)),
     nt_Hello := (\<lambda>_ _ w. (w, if w = 2 \<and> \<not> trusted then Some (VerifyError (ErrNew ''x509'')) else None)),
     nt_TLSState := (\<lambda>_ w. rdemo_tls\<lparr>ts_HandshakeComplete := 0 < w, ts_VerifiedChains := w = 2\<rparr>)\<rparr>\<rparr>"

lemma tdemo_sound: "tls_sound (rt_net (tdemo_target trusted))"
  by (simp add: tls_sound_def tdemo_target_def rdemo_net_def)

lemma tdemo_verifies: "\<forall>k. rt_tlsConfig (tdemo_target trusted) = Some k \<longrightarrow> \<not> tc_InsecureSkipVerify k"
  by (simp add: tdemo_target_def rdemo_target_def no_tls_def)

lemma tdemo_connect:
  "\<exists>c' e. remote_connect (tdemo_target trusted) New_C ''mx.b'' 0 =
    Some (if trusted then 2 else 1, c', if trusted then TLSAuthenticated else TLSEncrypted, e, None) \<and> co_cl c' = Some 0"
  by (simp add: remote_connect_def connect_loop.simps C_Connect_def attemptConnect_def C_DirectClose_def New_C_def tdemo_target_def
      rdemo_target_def rdemo_net_def no_tls_def mx_endpoint_def en_IsTLS_def isVerifyError_def as_verify.simps)

theorem connect_level_truthful_witness:
  "ts_VerifiedChains (nt_TLSState (rt_net (tdemo_target True)) 0 2)
    \<and> ts_HandshakeComplete (nt_TLSState (rt_net (tdemo_target False)) 0 1)
    \<and> \<not> ts_VerifiedChains (nt_TLSState (rt_net (tdemo_target False)) 0 1)"
proof -
  obtain c e where t: "remote_connect (tdemo_target True) New_C ''mx.b'' 0 = Some (2, c, TLSAuthenticated, e, None)" "co_cl c = Some 0"
    using tdemo_connect [of True] by auto
  obtain c' e' where f: "remote_connect (tdemo_target False) New_C ''mx.b'' 0 = Some (1, c', TLSEncrypted, e', None)" "co_cl c' = Some 0"
    using tdemo_connect [of False] by auto
  from connect_level_truthful [OF tdemo_sound tdemo_verifies t(1)] t(2)
    connect_level_truthful [OF tdemo_sound tdemo_verifies f(1)] f(2) show ?thesis by simp
qed

text \<open>C12: DANE raises a connection to authenticated only when its handshake finished and its
  certificate matches a usable one of TLSA records that were looked up for the server. All of these
  records are from one answer, which a configured resolver on a loopback address gave without an
  error and with the flag of DNSSEC, to the question for the TLSA records of the server or of the
  name its address records have.\<close>

theorem dane_authenticates:
  assumes "sx_ext sx = Some e" "PrepareConn sx mx (DaneDelivery fut) w = (w', p)"
    "CheckConn sx p mxLevel tlsLevel domain mx st = Some (TLSAuthenticated, None)"
  shows "ts_HandshakeComplete st
    \<and> (\<exists>recs. discoverTLSA sx e (sx_FQDN sx mx) w = (w', Inr recs) \<and> dane_match sx recs st
        \<and> (tlsa_of sx e (sx_FQDN sx mx) recs
           \<or> (\<exists>w1 ad rname. CheckCNAMEAD e (sx_FQDN sx mx) w = (w1, Inr (ad, rname)) \<and> tlsa_of sx e rname recs)))"
proof -
  obtain r where d: "discoverTLSA sx e (sx_FQDN sx mx) w = (w', r)" and p: "p = DaneDelivery (Some r)"
    using assms(1,2) by (auto split: prod.splits)
  with assms(1,3) obtain recs where r: "r = Inr recs" and v: "verifyDANE sx recs st = Some (True, None)"
    by (auto simp: policy_checks split: sum.splits option.splits prod.splits if_splits)
  from verifyDANE_true [OF v] discoverTLSA_trust [OF d [unfolded r]] d r show ?thesis by blast
qed

theorem dane_authenticates_witness:
  "ts_HandshakeComplete rdemo_tls
    \<and> tlsa_of rdemo_sec rdemo_ext ''mx'' [\<lparr>ta_Usage = 3, ta_Selector = 1, ta_MatchingType = 1, ta_Certificate = ''h''\<rparr>]"
proof -
  let ?recs = "[\<lparr>ta_Usage = 3, ta_Selector = 1, ta_MatchingType = 1, ta_Certificate = ''h''\<rparr>]"
  note ev = CheckCNAMEAD_def AuthLookupTLSA_def lookup_answers_def exchange_def ask_def rdemo_ext_def rdemo_sec_def pick_a_def
    pick_tlsa_def List.map_filter_def
  have d: "discoverTLSA rdemo_sec rdemo_ext ''mx'' 0 = (0, Inr ?recs)"
    by (simp add: discoverTLSA_def tlsa_lookup_def tlsa_initial_def ev)
  have n: "CheckCNAMEAD rdemo_ext ''mx'' 0 = (w1, Inr (ad, rname)) \<Longrightarrow> rname = ''mx''" for w1 ad rname by (simp add: ev)
  have e: "sx_ext rdemo_sec = Some rdemo_ext" "sx_FQDN rdemo_sec ''mx'' = ''mx''"
    by (simp_all add: rdemo_sec_def rdemo_ext_def)
  have p: "PrepareConn rdemo_sec ''mx'' (DaneDelivery None) 0 = (0, DaneDelivery (Some (Inr ?recs)))" by (simp add: e d)
  have c: "CheckConn rdemo_sec (DaneDelivery (Some (Inr ?recs))) MXNone TLSEncrypted ''b'' ''mx'' rdemo_tls = Some (TLSAuthenticated, None)"
    by (simp add: policy_checks e) (simp add: verifyDANE_def rdemo_tls_def usable_tlsa_def rdemo_sec_def)
  from dane_authenticates [OF e(1) p c] d n show ?thesis unfolding e(2) by auto
qed

section \<open>Connections of a delivery and of the pool\<close>

text \<open>C13: Closing a delivery leaves in the pool, under each domain, only connections to that domain
  that have a client, had no error and are within their reuse limit.\<close>

theorem pool_stays_healthy:
  assumes "rd_run rt msgMeta rd st" "remote_Close rt now ds rd st = Some (st', e)"
  shows "pool_ok healthy (rs_pool st')"
proof -
  note inv = run_inv [OF assms(1)]
  obtain st1 where c: "close_loop rt now ds (rd_connections rd) st = Some st1" and p: "rs_pool st' = rs_pool st1"
    using assms(2) by (auto simp: remote_Close_def split: option.splits sum.splits)
  from inv have "pool_ok healthy (rs_pool st)" "\<forall>d c. map_of (rd_connections rd) d = Some c \<longrightarrow> alive d c"
    by (auto simp: rd_inv_def conns_ok_def)
  from close_loop_pool [OF c this] p show ?thesis by simp
qed

definition rdemo_closed :: "nat rstate" where
  "rdemo_closed = rdemo_state\<lparr>rs_pool := (rs_pool rdemo_state)\<lparr>po_keys :=
     Some [(''b'', \<lparr>sl_c = [rdemo_conn\<lparr>mc_transactions := 1\<rparr>], sl_lastUse = 0\<rparr>)]\<rparr>\<rparr>"

lemma rdemo_Close: "remote_Close rdemo_target 6 [''b''] rdemo_sent rdemo_state = Some (rdemo_closed, None)"
  by (simp add: remote_Close_def ReleaseDest_def ratelimit_domain_def rdemo_Split ReleaseMsg_def global_Release_def mc_Usable_def
      pool_Return_def pool_New_def ensure_bucket_def with_bucket_def rdemo_closed_def rdemo_defs Unix_def secondNs_def)

theorem pool_stays_healthy_witness: "pool_ok healthy (rs_pool rdemo_closed)"
  by (rule pool_stays_healthy [OF rdemo_run rdemo_Close])

text \<open>C14: \<open>BodyNonAtomic\<close> never panics, and reports a status for every recipient with an ASCII address the
  delivery accepted, when it is told all domains of its connections.\<close>

theorem accepted_rcpts_reported:
  assumes "rd_run rt msgMeta rd st" "set ds = dom (map_of (rd_connections rd))"
  shows "\<exists>st' rd' sts. remote_BodyNonAtomic rt now hdr openb ds rd st = Some (st', rd', sts)
    \<and> (\<forall>r \<in> set (rd_recipients rd). IsASCII r \<longrightarrow> r \<in> fst ` set sts)"
proof (cases "mm_Quarantine (rd_msgMeta rd)")
  case True
  then show ?thesis by (auto simp: remote_BodyNonAtomic_def image_iff)
next
  case False
  from run_inv [OF assms(1)] have ok: "conns_ok (strict_tls rt msgMeta) (map_of (rd_connections rd)) (rd_recipients rd)"
    by (simp add: rd_inv_def)
  then have "\<forall>d c. map_of (rd_connections rd) d = Some c \<longrightarrow> alive d c" by (simp add: conns_ok_def)
  from body_loop_spec [OF this, of rt now hdr openb ds "rs_world st"] obtain w' conns' sts where
    b: "body_loop rt now hdr openb ds (rd_connections rd) (rs_world st) = Some (w', conns', sts)"
    and m: "\<forall>d c r. d \<in> set ds \<longrightarrow> map_of (rd_connections rd) d = Some c \<longrightarrow> r \<in> set (co_rcpts (mc_C c)) \<longrightarrow> r \<in> fst ` set sts"
    by blast
  have "r \<in> fst ` set sts" if r: "r \<in> set (rd_recipients rd)" "IsASCII r" for r
  proof -
    from ok r obtain d c where d: "map_of (rd_connections rd) d = Some c" "r \<in> set (co_rcpts (mc_C c))"
      unfolding conns_ok_def by blast
    then have "d \<in> set ds" using assms(2) by (auto simp: dom_def)
    with d m show ?thesis by blast
  qed
  with False b show ?thesis by (auto simp: remote_BodyNonAtomic_def)
qed

theorem accepted_rcpts_reported_witness:
  "\<exists>st' rd' sts. remote_BodyNonAtomic rdemo_target 6 [] (\<lambda>_. Inr ''x'') [''b''] rdemo_sent rdemo_state = Some (st', rd', sts)
    \<and> ''r@b'' \<in> fst ` set sts"
proof -
  have d: "set [''b''] = dom (map_of (rd_connections rdemo_sent))" and r: "''r@b'' \<in> set (rd_recipients rdemo_sent)"
    by (auto simp: rdemo_sent_def)
  have a: "IsASCII ''r@b''" by code_simp
  show ?thesis using accepted_rcpts_reported [OF rdemo_run d, of 6 "[]" "\<lambda>_. Inr ''x''"] r a by blast
qed

section \<open>Observations\<close>

text \<open>With relaxed REQUIRETLS a server without the extension clears the requirement of the whole
  message, so that the connections of the domains that follow are not checked.\<close>

lemma relaxed_requiretls_forgets:
  assumes "rt_relaxedREQUIRETLS rt" "co_cl (mc_C conn) = Some cl"
    "nt_Extension (rt_net rt) cl ''REQUIRETLS'' (rs_world st) = (w, False)"
    "Some (st', rd', r) \<in> set (begin_mail rt now domain conn rd st)"
  shows "\<not> mm_RequireTLS (rd_msgMeta rd')"
proof -
  let ?m = "(rd_msgMeta rd)\<lparr>mm_RequireTLS := False\<rparr>"
  from C_Mail_client [OF assms(2), of "rt_net rt" "rt_text rt" "rd_mailFrom rd" "mm_UTF8 (rd_msgMeta rd)" False w]
  obtain w1 e where "C_Mail (rt_net rt) (rt_text rt) (mc_C conn) (rd_mailFrom rd) (mm_UTF8 (rd_msgMeta rd)) False w = Some (w1, e)"
    by blast
  with assms show ?thesis by (cases e) (auto simp: begin_mail_def Let_def dest!: close_with_out)
qed

text \<open>A message without requirements takes a pooled connection as it is, whatever its levels and its policies.\<close>

lemma pooled_connection_unchecked:
  assumes "map_of (rd_connections rd) domain = None" "\<not> mm_RequireTLS (rd_msgMeta rd)"
    "pool_Get (mx_ops (rt_net rt)) now domain (rs_pool st) (rs_world st) = (w, p, Some conn)"
  shows "connectionForDomain rt ctx now domain rd st = take_dest rt ctx now domain conn rd (st\<lparr>rs_world := w, rs_pool := p\<rparr>)"
  using assms by (simp add: connectionForDomain_def use_conn_def)

text \<open>A reused connection still lists the recipients of the messages before.\<close>

lemma reused_connection_keeps_rcpts:
  "Some (st', rd', Inr c) \<in> set (use_conn rt ctx now domain conn rd st) \<Longrightarrow> co_rcpts (mc_C c) = co_rcpts (mc_C conn)"
  using use_conn_out [of st' rd' "Inr c"] by fastforce

text \<open>A sender the server refuses leaves the limit of the domain taken.\<close>

lemma refused_sender_keeps_limit:
  "Some (st', rd', Inl err) \<in> set (begin_mail rt now domain conn rd st) \<Longrightarrow> rs_limits st' = rs_limits st"
  by (simp add: begin_mail_out)

text \<open>The recorded recipient is the converted one, which is the address its status is reported for.\<close>

lemma converted_rcpt_recorded:
  assumes "co_cl c = Some cl" "nt_Extension net cl ''SMTPUTF8'' w = (w1, False)" "\<not> IsASCII to" "ToASCII lib to = (a, None)"
    "nt_Rcpt net cl a w1 = (w2, None)"
  shows "C_Rcpt net lib c to w = Some (w2, c\<lparr>co_rcpts := co_rcpts c @ [a]\<rparr>, None)"
  using assms by (simp add: C_Rcpt_def)

text \<open>A refused connection on which QUIT fails keeps its client: \<open>newConn\<close> returns it in place of the
  error of the policy. The server below offers no TLS, which the local policy asks for.\<close>

definition rdemo_quit_fails :: "nat rtarget" where
  "rdemo_quit_fails = rdemo_target\<lparr>rt_tlsConfig := None,
     rt_net := rdemo_net\<lparr>nt_Quit := \<lambda>_ w. (Suc w, Some (ErrNew ''EOF''))\<rparr>\<rparr>"

lemma closed_connection_returned:
  "newConn rdemo_quit_fails 5 [LocalDelivery TLSEncrypted MXNone] ''b'' 0 =
    Some (1, [LocalDelivery TLSEncrypted MXNone], Inr (rdemo_fresh\<lparr>mc_tlsLevel := TLSNone, mc_mxLevel := MXNone\<rparr>))"
  by (simp add: newConn_def lookupMX_def attemptMX_def remote_connect_def connect_loop.simps C_Connect_def attemptConnect_def
      mc_Close_def C_Close_def rdemo_quit_fails_def rdemo_fresh_def rdemo_defs fresh_conn_def New_C_def levels no_tls_def
      mx_endpoint_def en_IsTLS_def)

end
