(* ===== verification/TextIO.thy ===== *)
theory TextIO
  imports GoText
begin

text \<open>
  More of the standard library: trimming and splitting of strings, the line scanner of
  \<open>bufio\<close>, unsigned numbers and the standard base64 encoding, with the round trips of the last
  two. Strings are byte lists.
\<close>

section \<open>Trimming and splitting\<close>

text \<open>The UTF-8 encodings of the runes \<open>unicode.IsSpace\<close> accepts. A string ends with a space rune
  exactly when it ends with its encoding.\<close>

definition space_encodings :: "string list" where
  "space_encodings = [
     [CHR 0x09], [CHR 0x0A], [CHR 0x0B], [CHR 0x0C],
     [CHR 0x0D], [CHR 0x20], [CHR 0xC2, CHR 0x85], [CHR 0xC2, CHR 0xA0],
     [CHR 0xE1, CHR 0x9A, CHR 0x80], [CHR 0xE2, CHR 0x80, CHR 0x80], [CHR 0xE2, CHR 0x80, CHR 0x81], [CHR 0xE2, CHR 0x80, CHR 0x82],
     [CHR 0xE2, CHR 0x80, CHR 0x83], [CHR 0xE2, CHR 0x80, CHR 0x84], [CHR 0xE2, CHR 0x80, CHR 0x85], [CHR 0xE2, CHR 0x80, CHR 0x86],
     [CHR 0xE2, CHR 0x80, CHR 0x87], [CHR 0xE2, CHR 0x80, CHR 0x88], [CHR 0xE2, CHR 0x80, CHR 0x89], [CHR 0xE2, CHR 0x80, CHR 0x8A],
     [CHR 0xE2, CHR 0x80, CHR 0xA8], [CHR 0xE2, CHR 0x80, CHR 0xA9], [CHR 0xE2, CHR 0x80, CHR 0xAF], [CHR 0xE2, CHR 0x81, CHR 0x9F],
     [CHR 0xE3, CHR 0x80, CHR 0x80]]"

lemma HasPrefix_conv: "HasPrefix s p \<longleftrightarrow> (\<exists>r. s = p @ r)"
  by (auto simp: HasPrefix_def) (metis append_take_drop_id)

lemma HasSuffix_conv: "HasSuffix s p \<longleftrightarrow> (\<exists>r. s = r @ p)"
  by (auto simp: HasSuffix_def) (metis append_take_drop_id)

lemma HasPrefix_before: "c \<notin> set p \<Longrightarrow> HasPrefix (a @ c # b) p \<Longrightarrow> HasPrefix a p"
  by (auto simp: HasPrefix_conv append_eq_append_conv2 Cons_eq_append_conv)

lemma HasSuffix_after: "c \<notin> set p \<Longrightarrow> HasSuffix (a @ c # b) p \<Longrightarrow> HasSuffix b p"
  by (auto simp: HasSuffix_conv append_eq_append_conv2 Cons_eq_append_conv)

lemma find_nonempty: "find (\<lambda>p. p \<noteq> [] \<and> Q p) xs = Some p \<Longrightarrow> p \<noteq> [] \<and> Q p"
  by (auto simp: find_Some_iff)

lemma prefix_shorter: "p \<noteq> [] \<Longrightarrow> HasPrefix s p \<or> HasSuffix s p \<Longrightarrow> length s - length p < length s"
  by (cases s) (auto simp: HasPrefix_def HasSuffix_def)

function trim_left :: "string \<Rightarrow> string" where
  "trim_left s = (case find (\<lambda>p. p \<noteq> [] \<and> HasPrefix s p) space_encodings of None \<Rightarrow> s | Some p \<Rightarrow> trim_left (drop (length p) s))"
  by pat_completeness auto
termination
  by (relation "measure length") (auto dest!: find_nonempty simp: prefix_shorter)

function trim_right :: "string \<Rightarrow> string" where
  "trim_right s = (case find (\<lambda>p. p \<noteq> [] \<and> HasSuffix s p) space_encodings of None \<Rightarrow> s | Some p \<Rightarrow> trim_right (take (length s - length p) s))"
  by pat_completeness auto
termination
  by (relation "measure length") (auto dest!: find_nonempty simp: prefix_shorter)

declare trim_left.simps [simp del] trim_right.simps [simp del]

definition TrimSpace :: "string \<Rightarrow> string" where
  "TrimSpace s = trim_right (trim_left s)"

fun Join :: "string \<Rightarrow> string list \<Rightarrow> string" where
  "Join sep [] = []"
| "Join sep [x] = x"
| "Join sep (x # y # xs) = x @ sep @ Join sep (y # xs)"

text \<open>\<open>strings.SplitN\<close> with a one-byte separator and a positive count.\<close>

fun SplitN :: "char \<Rightarrow> nat \<Rightarrow> string \<Rightarrow> string list" where
  "SplitN c (Suc (Suc n)) s =
     (if c \<in> set s then takeWhile (\<lambda>x. x \<noteq> c) s # SplitN c (Suc n) (tl (dropWhile (\<lambda>x. x \<noteq> c) s)) else [s])"
| "SplitN c n s = [s]"

lemma SplitN_append: "c \<notin> set a \<Longrightarrow> SplitN c (Suc (Suc n)) (a @ c # s) = a # SplitN c (Suc n) s"
  by (simp add: takeWhile_append2 dropWhile_append2 takeWhile_tail dropWhile_append)

lemma SplitN_free: "c \<notin> set s \<Longrightarrow> SplitN c n s = [s]"
  by (cases "(c, n, s)" rule: SplitN.cases) auto

lemma length_SplitN: "length (SplitN c (Suc n) s) \<le> Suc n \<and> SplitN c (Suc n) s \<noteq> []"
  by (induction n arbitrary: s) auto

lemma split_byte_append: "c \<notin> set a \<Longrightarrow> split_byte c (a @ c # s) = a # split_byte c s"
  by (induction a) auto

lemma split_byte_none: "c \<notin> set a \<Longrightarrow> split_byte c a = [a]"
  by (induction a) auto

lemma split_join_byte: "ps \<noteq> [] \<Longrightarrow> \<forall>p \<in> set ps. c \<notin> set p \<Longrightarrow> split_byte c (join_byte c ps) = ps"
  by (induction c ps rule: join_byte.induct) (auto simp: split_byte_append split_byte_none)

section \<open>Lines\<close>

text \<open>\<open>bufio.Scanner\<close> with its default function: lines without the end of line; a line of 65536 bytes
  or more stops it with an error.\<close>

definition drop_cr :: "string \<Rightarrow> string" where
  "drop_cr l = TrimSuffix l [CHR 0x0D]"

definition raw_lines :: "string \<Rightarrow> string list" where
  "raw_lines s = (let ls = split_byte (CHR 0x0A) s in if last ls = [] then butlast ls else ls)"

definition scan_lines :: "string \<Rightarrow> string list \<times> bool" where
  "scan_lines s = (map drop_cr (takeWhile (\<lambda>l. length l < 65536) (raw_lines s)), list_ex (\<lambda>l. 65536 \<le> length l) (raw_lines s))"

section \<open>Unsigned numbers\<close>

definition FormatUint :: "nat \<Rightarrow> string" where
  "FormatUint n = show_nat_base 10 n"

text \<open>\<open>strconv.ParseUint(s, 10, bits)\<close>; \<open>None\<close> for a syntax or range error.\<close>

definition ParseUint :: "nat \<Rightarrow> string \<Rightarrow> nat option" where
  "ParseUint bits s =
    (let v = foldl (\<lambda>a c. a * 10 + (byte_of c - 48)) 0 s in
     if s = [] \<or> \<not> list_all is_digit s \<or> 2 ^ bits \<le> v then None else Some v)"

lemma show_nat_base_digits: "list_all is_digit (show_nat_base 10 n) \<and> show_nat_base 10 n \<noteq> []
    \<and> foldl (\<lambda>a c. a * 10 + (byte_of c - 48)) 0 (show_nat_base 10 n) = n"
proof (induction n rule: less_induct)
  case (less n)
  have d: "is_digit (hex_digit k) \<and> byte_of (hex_digit k) - 48 = k" if "k < 10" for k :: nat
    using that by (simp add: hex_digit_def is_digit_def)
  show ?case
  proof (cases "n < 10")
    case True
    with d [of n] show ?thesis by (subst (1 2 3) show_nat_base.simps) simp
  next
    case False
    then have "n div 10 < n" by simp
    from less.IH [OF this] d [of "n mod 10"] False show ?thesis
      by (subst (1 2 3) show_nat_base.simps) simp
  qed
qed

lemma ParseUint_FormatUint: "n < 2 ^ bits \<Longrightarrow> ParseUint bits (FormatUint n) = Some n"
  using show_nat_base_digits [of n] by (simp add: ParseUint_def FormatUint_def Let_def)

lemma digit_not_colon: "list_all is_digit s \<Longrightarrow> CHR '':'' \<notin> set s"
  by (induction s) (auto simp: is_digit_def)

section \<open>Base64\<close>

definition b64_alphabet :: string where
  "b64_alphabet = ''ABCDEFGHIJKLMNOPQRSTUVWXYZabcdefghijklmnopqrstuvwxyz0123456789+/''"

definition b64_char :: "nat \<Rightarrow> char" where
  "b64_char n = b64_alphabet ! n"

definition b64_val :: "char \<Rightarrow> nat option" where
  "b64_val c = map_of (zip b64_alphabet [0..<64]) c"

fun b64_encode :: "nat list \<Rightarrow> string" where
  "b64_encode [] = []"
| "b64_encode [a] = [b64_char (a div 4), b64_char (a mod 4 * 16), CHR ''='', CHR ''='']"
| "b64_encode [a, b] = [b64_char (a div 4), b64_char (a mod 4 * 16 + b div 16), b64_char (b mod 16 * 4), CHR ''='']"
| "b64_encode (a # b # c # bs) =
     b64_char (a div 4) # b64_char (a mod 4 * 16 + b div 16) # b64_char (b mod 16 * 4 + c div 64) # b64_char (c mod 64) # b64_encode bs"

text \<open>\<open>base64.StdEncoding\<close>; decoding skips line ends and does not look at the bits that pad a last
  group. \<open>None\<close> is a corrupt input.\<close>

definition EncodeToString :: "string \<Rightarrow> string" where
  "EncodeToString s = b64_encode (map byte_of s)"

fun b64_decode :: "string \<Rightarrow> nat list option" where
  "b64_decode [] = Some []"
| "b64_decode (p # q # r # s # cs) =
     (case (b64_val p, b64_val q) of
        (Some a, Some b) \<Rightarrow>
          if r = CHR ''='' \<and> s = CHR ''='' then (if cs = [] then Some [a * 4 + b div 16] else None)
          else (case b64_val r of
             None \<Rightarrow> None
           | Some c \<Rightarrow>
              if s = CHR ''='' then (if cs = [] then Some [a * 4 + b div 16, b mod 16 * 16 + c div 4] else None)
              else (case b64_val s of
                 None \<Rightarrow> None
               | Some d \<Rightarrow>
                  map_option (\<lambda>bs. (a * 4 + b div 16) # (b mod 16 * 16 + c div 4) # (c mod 4 * 64 + d) # bs) (b64_decode cs)))
      | _ \<Rightarrow> None)"
| "b64_decode _ = None"

definition DecodeString :: "string \<Rightarrow> string option" where
  "DecodeString s = map_option (map char_of) (b64_decode (filter (\<lambda>c. c \<noteq> CHR 0x0A \<and> c \<noteq> CHR 0x0D) s))"

lemma b64_val_char: "n < 64 \<Longrightarrow> b64_val (b64_char n) = Some n"
proof -
  have "list_all (\<lambda>n. b64_val (b64_char n) = Some n) [0..<64]" by code_simp
  then show "n < 64 \<Longrightarrow> b64_val (b64_char n) = Some n" by (simp add: list_all_iff)
qed

lemma b64_char_plain: "n < 64 \<Longrightarrow> b64_char n \<noteq> CHR ''='' \<and> b64_char n \<noteq> CHR '':'' \<and> b64_char n \<noteq> CHR 0x0A \<and> b64_char n \<noteq> CHR 0x0D"
proof -
  have "list_all (\<lambda>n. b64_char n \<noteq> CHR ''='' \<and> b64_char n \<noteq> CHR '':'' \<and> b64_char n \<noteq> CHR 0x0A \<and> b64_char n \<noteq> CHR 0x0D) [0..<64]"
    by code_simp
  then show "n < 64 \<Longrightarrow> b64_char n \<noteq> CHR ''='' \<and> b64_char n \<noteq> CHR '':'' \<and> b64_char n \<noteq> CHR 0x0A \<and> b64_char n \<noteq> CHR 0x0D"
    by (simp add: list_all_iff)
qed

lemma b64_decode_encode: "\<forall>b \<in> set bs. b < 256 \<Longrightarrow> b64_decode (b64_encode bs) = Some bs"
proof (induction bs rule: b64_encode.induct)
  case (4 a b c bs)
  then have "a div 4 < 64" "a mod 4 * 16 + b div 16 < 64" "b mod 16 * 4 + c div 64 < 64" "c mod 64 < 64" by auto
  moreover have "(a mod 4 * 16 + b div 16) div 16 = a mod 4" "(a mod 4 * 16 + b div 16) mod 16 = b div 16"
    "(b mod 16 * 4 + c div 64) div 4 = b mod 16" "(b mod 16 * 4 + c div 64) mod 4 = c div 64"
    using 4 by (auto simp: div_mult_self3 less_mult_imp_div_less)
  ultimately show ?case using 4 by (simp add: b64_val_char b64_char_plain)
qed (auto simp: b64_val_char b64_char_plain)

lemma b64_encode_plain: "\<forall>b \<in> set bs. b < 256 \<Longrightarrow> c \<in> set (b64_encode bs) \<Longrightarrow> c \<noteq> CHR '':'' \<and> c \<noteq> CHR 0x0A \<and> c \<noteq> CHR 0x0D"
  by (induction bs rule: b64_encode.induct) (auto simp: b64_char_plain)

lemma bytes_below: "\<forall>b \<in> set (map byte_of s). b < (256 :: nat)"
  by simp

lemma DecodeString_EncodeToString: "DecodeString (EncodeToString s) = Some s"
proof -
  have "filter (\<lambda>c. c \<noteq> CHR 0x0A \<and> c \<noteq> CHR 0x0D) (EncodeToString s) = EncodeToString s"
    using b64_encode_plain [OF bytes_below] by (auto simp: EncodeToString_def filter_id_conv)
  then show ?thesis
    by (simp add: DecodeString_def EncodeToString_def b64_decode_encode [OF bytes_below] comp_def)
qed

lemma EncodeToString_no_colon: "CHR '':'' \<notin> set (EncodeToString s)"
  using b64_encode_plain [OF bytes_below] by (auto simp: EncodeToString_def)

end
