(* ===== verification/Tables.thy ===== *)
theory Tables
  imports TextIO Auth CfgNode Module
begin

text \<open>
  The table modules (\<open>internal/table\<close>) and the modifiers that replace addresses with them
  (\<open>internal/modify/replace_addr.go\<close>). A table has a lookup of one value and may have one of
  several; both act on a world \<open>'w\<close>.
\<close>

type_synonym 'w multi_lookup = "string \<Rightarrow> 'w \<Rightarrow> 'w \<times> (go_err + string list)"

record 'w table =
  tb_Lookup :: "'w lookup"
  tb_LookupMulti :: "'w multi_lookup option"

text \<open>Several tables give the first of their values as the single one.\<close>

definition first_value :: "'w multi_lookup \<Rightarrow> 'w lookup" where
  "first_value multi key w =
    (case multi key w of
       (w, Inl err) \<Rightarrow> (w, [], False, Some err)
     | (w, Inr []) \<Rightarrow> (w, [], False, None)
     | (w, Inr (v # _)) \<Rightarrow> (w, v, True, None))"

section \<open>Simple tables\<close>

definition identity_Lookup :: "'w lookup" where
  "identity_Lookup key w = (w, key, True, None)"

definition localpart_Lookup :: "bool \<Rightarrow> 'w lookup" where
  "localpart_Lookup allowNonEmail key w =
    (case Split key of
       (_, _, Some err) \<Rightarrow> if allowNonEmail then (w, key, True, None) else (w, [], False, None)
     | (mbox, _, None) \<Rightarrow> (w, mbox, True, None))"

definition withdomain_Init :: "text_lib \<Rightarrow> string \<Rightarrow> string list \<Rightarrow> go_err option" where
  "withdomain_Init lib modName domains =
    (case find (\<lambda>d. \<not> ValidDomain lib d) domains of
       Some d \<Rightarrow> Some (ErrNew (modName @ '': invalid domain: '' @ d))
     | None \<Rightarrow> if domains = [] then Some (ErrNew (modName @ '': at least one domain is required'')) else None)"

text \<open>The single lookup reads the first domain and panics when there is none.\<close>

definition withdomain_Lookup :: "string list \<Rightarrow> string \<Rightarrow> (string \<times> bool \<times> go_err option) option" where
  "withdomain_Lookup domains key =
    (case domains of [] \<Rightarrow> None | d # _ \<Rightarrow> Some (QuoteMbox key @ ''@'' @ d, True, None))"

definition withdomain_LookupMulti :: "string list \<Rightarrow> 'w multi_lookup" where
  "withdomain_LookupMulti domains key w = (w, Inr (map (\<lambda>d. QuoteMbox key @ ''@'' @ d) domains))"

text \<open>The callback of the directive \<open>entry\<close>, and the table.\<close>

definition static_entry :: "node \<Rightarrow> (string \<rightharpoonup> string list) \<Rightarrow> go_err + (string \<rightharpoonup> string list)" where
  "static_entry nd m =
    (case n_Args nd of
       k # v # vs \<Rightarrow> Inr (m(k \<mapsto> v # vs))
     | _ \<Rightarrow> Inl (NodeErr nd ''expected at least one value''))"

fun static_entries :: "node list \<Rightarrow> (string \<rightharpoonup> string list) \<Rightarrow> go_err + (string \<rightharpoonup> string list)" where
  "static_entries [] m = Inr m"
| "static_entries (nd # nds) m = (case static_entry nd m of Inl err \<Rightarrow> Inl err | Inr m \<Rightarrow> static_entries nds m)"

definition static_Lookup :: "(string \<rightharpoonup> string list) \<Rightarrow> 'w lookup" where
  "static_Lookup m key w = (case map_get [] m key of [] \<Rightarrow> (w, [], False, None) | v # _ \<Rightarrow> (w, v, True, None))"

definition static_LookupMulti :: "(string \<rightharpoonup> string list) \<Rightarrow> 'w multi_lookup" where
  "static_LookupMulti m key w = (w, Inr (map_get [] m key))"

section \<open>Regular expressions\<close>

text \<open>The package \<open>regexp\<close>: compilation of a text, and of a compiled expression the positions of a
  match and the expansion of a template.\<close>

record 're regexp_lib =
  re_Compile :: "string \<Rightarrow> go_err + 're"
  re_FindSubmatch :: "'re \<Rightarrow> string \<Rightarrow> int list option"
  re_Expand :: "'re \<Rightarrow> string \<Rightarrow> string \<Rightarrow> int list \<Rightarrow> string"

record 're regexp_table =
  rx_re :: 're
  rx_replacements :: "string list"
  rx_expand :: bool

definition regexp_text :: "bool \<Rightarrow> bool \<Rightarrow> string \<Rightarrow> string" where
  "regexp_text fullMatch caseInsensitive regex =
    (let regex = (if fullMatch \<and> \<not> HasPrefix regex ''^'' then ''^'' @ regex else regex);
         regex = (if fullMatch \<and> \<not> HasSuffix regex ''$'' then regex @ ''$'' else regex)
     in if caseInsensitive then ''(?i)'' @ regex else regex)"

definition regexp_Init :: "'re regexp_lib \<Rightarrow> string \<Rightarrow> bool \<Rightarrow> bool \<Rightarrow> bool \<Rightarrow> string list \<Rightarrow> (go_err + 're regexp_table) option" where
  "regexp_Init lib modName fullMatch caseInsensitive expandPlaceholders inlineArgs =
    (case inlineArgs of
       [] \<Rightarrow> None
     | regex # replacements \<Rightarrow> Some
        (case re_Compile lib (regexp_text fullMatch caseInsensitive regex) of
           Inl err \<Rightarrow> Inl (ErrNew (modName @ '': '' @ err_string err))
         | Inr re \<Rightarrow> Inr \<lparr>rx_re = re, rx_replacements = replacements, rx_expand = expandPlaceholders\<rparr>))"

definition regexp_LookupMulti :: "'re regexp_lib \<Rightarrow> 're regexp_table \<Rightarrow> 'w multi_lookup" where
  "regexp_LookupMulti lib r key w =
    (w, Inr (case re_FindSubmatch lib (rx_re r) key of
       None \<Rightarrow> []
     | Some matches \<Rightarrow>
        map (\<lambda>replacement. if \<not> rx_expand r then replacement else re_Expand lib (rx_re r) replacement key matches)
          (rx_replacements r)))"

definition regexp_Lookup :: "'re regexp_lib \<Rightarrow> 're regexp_table \<Rightarrow> 'w lookup" where
  "regexp_Lookup lib r = first_value (regexp_LookupMulti lib r)"

section \<open>Chains\<close>

text \<open>One table on all values found so far: an error, no value for one of them, or the new values.\<close>

fun chain_step :: "'w table \<Rightarrow> string list \<Rightarrow> string list \<Rightarrow> 'w \<Rightarrow> 'w \<times> (go_err + string list option)" where
  "chain_step step [] newResult w = (w, Inr (Some newResult))"
| "chain_step step (key # keys) newResult w =
     (case tb_LookupMulti step of
        Some multi \<Rightarrow>
          (case multi key w of
             (w, Inl err) \<Rightarrow> (w, Inl err)
           | (w, Inr []) \<Rightarrow> (w, Inr None)
           | (w, Inr val) \<Rightarrow> chain_step step keys (newResult @ val) w)
      | None \<Rightarrow>
          (case tb_Lookup step key w of
             (w, _, _, Some err) \<Rightarrow> (w, Inl err)
           | (w, val, ok, None) \<Rightarrow> if \<not> ok then (w, Inr None) else chain_step step keys (newResult @ [val]) w))"

fun chain_loop :: "('w table \<times> bool) list \<Rightarrow> string list \<Rightarrow> 'w \<Rightarrow> 'w \<times> (go_err + string list)" where
  "chain_loop [] result w = (w, Inr result)"
| "chain_loop ((step, optional) # steps) result w =
     (case chain_step step result [] w of
        (w, Inl err) \<Rightarrow> (w, Inl err)
      | (w, Inr None) \<Rightarrow> if optional then chain_loop steps result w else (w, Inr [])
      | (w, Inr (Some newResult)) \<Rightarrow> chain_loop steps newResult w)"

definition chain_LookupMulti :: "('w table \<times> bool) list \<Rightarrow> 'w multi_lookup" where
  "chain_LookupMulti chain key w = chain_loop chain [key] w"

definition chain_Lookup :: "('w table \<times> bool) list \<Rightarrow> 'w lookup" where
  "chain_Lookup chain = first_value (chain_LookupMulti chain)"

section \<open>Files\<close>

text \<open>Reading the lines of a table file into a map. The counter is that of the line before.\<close>

definition add_values :: "string \<Rightarrow> string list \<Rightarrow> (string \<rightharpoonup> string list) \<Rightarrow> (string \<rightharpoonup> string list)" where
  "add_values k tos m = foldl (\<lambda>m t. m(k \<mapsto> map_get [] m k @ [TrimSpace t])) m tos"

fun read_lines :: "string \<Rightarrow> nat \<Rightarrow> string list \<Rightarrow> (string \<rightharpoonup> string list) \<Rightarrow> (string \<rightharpoonup> string list) \<times> go_err option" where
  "read_lines path n [] m = (m, None)"
| "read_lines path n (l # ls) m =
     (if HasPrefix l ''#'' \<or> TrimSpace l = [] then read_lines path (Suc n) ls m
      else let parts = SplitN (CHR '':'') 2 (TrimSpace l);
               k = TrimSpace (parts ! 0);
               rest = (if length parts = 1 then [] else parts ! 1)
           in if k = [] then (m, Some (ErrNew (path @ '':'' @ FormatUint (Suc n) @ '': '' @ ''empty address before colon'')))
              else read_lines path (Suc n) ls (add_values k (split_byte (CHR '','') rest) m))"

text \<open>The file system: opening a file gives its bytes and the error that ends them, if any; the
  status of a file is the time of its last change.\<close>

record 'w fs_ops =
  fs_Open :: "string \<Rightarrow> 'w \<Rightarrow> 'w \<times> (go_err + string \<times> go_err option)"
  fs_Stat :: "string \<Rightarrow> 'w \<Rightarrow> 'w \<times> (go_err + int)"
  fs_IsNotExist :: "go_err \<Rightarrow> bool"

definition ErrTooLong :: go_err where
  "ErrTooLong = ErrNew ''bufio.Scanner: token too long''"

definition readFile :: "'w fs_ops \<Rightarrow> string \<Rightarrow> (string \<rightharpoonup> string list) \<Rightarrow> 'w \<Rightarrow> 'w \<times> (string \<rightharpoonup> string list) \<times> go_err option" where
  "readFile fs path out w =
    (case fs_Open fs path w of
       (w, Inl err) \<Rightarrow> (w, out, Some err)
     | (w, Inr (content, readErr)) \<Rightarrow>
        (case scan_lines content of
           (ls, tooLong) \<Rightarrow>
            (case read_lines path 0 ls out of
               (out, Some err) \<Rightarrow> (w, out, Some err)
             | (out, None) \<Rightarrow> (w, out, if tooLong then Some ErrTooLong else readErr))))"

text \<open>The module: its map with the time stamp, and whether the goroutine that reloads it runs.\<close>

record file_table =
  ft_file :: string
  ft_m :: "string \<rightharpoonup> string list"
  ft_mStamp :: int
  ft_running :: bool

definition NewFile :: "string list \<Rightarrow> go_err + file_table" where
  "NewFile inlineArgs =
    (case inlineArgs of
       [] \<Rightarrow> Inr \<lparr>ft_file = [], ft_m = Map.empty, ft_mStamp = zeroTime, ft_running = False\<rparr>
     | [f] \<Rightarrow> Inr \<lparr>ft_file = f, ft_m = Map.empty, ft_mStamp = zeroTime, ft_running = False\<rparr>
     | _ \<Rightarrow> Inl (ErrNew ''table.file: cannot use multiple files with single table.file, use table.file multiple times to do so''))"

text \<open>\<open>Init\<close> after the directives were read; \<open>file\<close> is the value of the directive of that name.\<close>

definition file_Init :: "'w fs_ops \<Rightarrow> string \<Rightarrow> file_table \<Rightarrow> 'w \<Rightarrow> 'w \<times> (go_err + file_table)" where
  "file_Init fs file' f w =
    (if file' \<noteq> [] \<and> ft_file f \<noteq> [] then
       (w, Inl (ErrNew ''table.file: file path specified both in directive and in argument, do it once''))
     else let f = (if file' \<noteq> [] then f\<lparr>ft_file := file'\<rparr> else f) in
       (case readFile fs (ft_file f) (ft_m f) w of
          (w, m, None) \<Rightarrow> (w, Inr (f\<lparr>ft_m := m, ft_running := True\<rparr>))
        | (w, m, Some err) \<Rightarrow>
           if \<not> fs_IsNotExist fs err then (w, Inl err) else (w, Inr (f\<lparr>ft_m := m, ft_running := True\<rparr>))))"

definition reloadInterval :: int where
  "reloadInterval = 15 * secondNs"

text \<open>\<open>reload\<close> at a time \<open>now\<close>. After an error of the first status other than a missing file the
  missing status is dereferenced, a panic.\<close>

definition reload :: "'w fs_ops \<Rightarrow> int \<Rightarrow> file_table \<Rightarrow> 'w \<Rightarrow> ('w \<times> file_table) option" where
  "reload fs now f w =
    (case fs_Stat fs (ft_file f) w of
       (w, Inl err) \<Rightarrow> if fs_IsNotExist fs err then Some (w, f\<lparr>ft_m := Map.empty\<rparr>) else None
     | (w, Inr mtime) \<Rightarrow>
        if mtime < ft_mStamp f \<or> now - mtime < reloadInterval div 2 then Some (w, f)
        else (case readFile fs (ft_file f) Map.empty w of
            (w, _, Some err) \<Rightarrow> Some (w, f)
          | (w, newm, None) \<Rightarrow>
             (case fs_Stat fs (ft_file f) w of
                (w, Inl err) \<Rightarrow> Some (w, f)
              | (w, Inr mtime2) \<Rightarrow> Some (w, if mtime2 \<noteq> mtime then f else f\<lparr>ft_m := newm, ft_mStamp := mtime\<rparr>))))"

text \<open>A round of the goroutine: a panic is recovered and ends it. Sending to it waits until it
  receives, so once it has ended \<open>Close\<close> and a forced reload wait forever.\<close>

definition reloader_round :: "'w fs_ops \<Rightarrow> int \<Rightarrow> file_table \<Rightarrow> 'w \<Rightarrow> 'w \<times> file_table" where
  "reloader_round fs now f w = (case reload fs now f w of None \<Rightarrow> (w, f\<lparr>ft_running := False\<rparr>) | Some r \<Rightarrow> r)"

definition force_reload :: "'w fs_ops \<Rightarrow> int \<Rightarrow> file_table \<Rightarrow> 'w \<Rightarrow> ('w \<times> file_table) list" where
  "force_reload fs now f w = (if ft_running f then [reloader_round fs now f w] else [])"

definition file_Close :: "file_table \<Rightarrow> file_table list" where
  "file_Close f = (if ft_running f then [f\<lparr>ft_running := False\<rparr>] else [])"

definition file_Lookup :: "file_table \<Rightarrow> 'w lookup" where
  "file_Lookup f val w = (case map_get [] (ft_m f) val of [] \<Rightarrow> (w, [], False, None) | v # _ \<Rightarrow> (w, v, True, None))"

definition file_LookupMulti :: "file_table \<Rightarrow> 'w multi_lookup" where
  "file_LookupMulti f val w = (w, Inr (map_get [] (ft_m f) val))"

section \<open>Replacing addresses\<close>

record 'w replace_addr =
  ra_replaceSender :: bool
  ra_replaceRcpt :: bool
  ra_table :: "'w multi_lookup"

definition NewReplaceAddr :: "string \<Rightarrow> 'w multi_lookup \<Rightarrow> 'w replace_addr" where
  "NewReplaceAddr modName tbl = \<lparr>ra_replaceSender = (modName = ''modify.replace_sender''),
     ra_replaceRcpt = (modName = ''modify.replace_rcpt''), ra_table = tbl\<rparr>"

definition is_address :: "string \<Rightarrow> bool" where
  "is_address r \<longleftrightarrow> Contains r ''@'' \<and> \<not> HasPrefix r [CHR 0x22] \<and> \<not> HasSuffix r [CHR 0x22]"

fun complete_each :: "text_lib \<Rightarrow> string \<Rightarrow> string list \<Rightarrow> go_err + string list" where
  "complete_each lib domain [] = Inr []"
| "complete_each lib domain (r # rs) =
     (if is_address r \<and> \<not> Valid lib r then Inl (ErrNew (''refusing to replace recipient with invalid address '' @ r))
      else case complete_each lib domain rs of
        Inl err \<Rightarrow> Inl err
      | Inr xs \<Rightarrow> Inr ((if is_address r then r else r @ ''@'' @ domain) # xs))"

text \<open>\<open>rewrite\<close>; the list that goes with an error is not used by its callers and left out.\<close>

definition ra_rewrite :: "text_lib \<Rightarrow> 'w replace_addr \<Rightarrow> 'w multi_lookup" where
  "ra_rewrite lib r val w =
    (case ForLookup lib val of
       (_, Some err) \<Rightarrow> (w, Inl (ErrNew (''malformed address: '' @ err_string err)))
     | (normAddr, None) \<Rightarrow>
        (case ra_table r normAddr w of
           (w, Inl err) \<Rightarrow> (w, Inl err)
         | (w, Inr replacements) \<Rightarrow>
            if replacements \<noteq> [] then
              (case find (\<lambda>x. \<not> Valid lib x) replacements of
                 Some x \<Rightarrow> (w, Inl (ErrNew (''refusing to replace recipient with the invalid address '' @ x)))
               | None \<Rightarrow> (w, Inr replacements))
            else (case Split normAddr of
                (_, _, Some err) \<Rightarrow> (w, Inr [val])
              | (mbox, domain, None) \<Rightarrow>
                 (case ra_table r mbox w of
                    (w, Inl err) \<Rightarrow> (w, Inl err)
                  | (w, Inr replacements) \<Rightarrow>
                     if replacements \<noteq> [] then (w, complete_each lib domain replacements) else (w, Inr [val])))))"

text \<open>The first result is read without a test; \<open>None\<close> would be its panic.\<close>

definition ra_RewriteSender :: "text_lib \<Rightarrow> 'w replace_addr \<Rightarrow> string \<Rightarrow> 'w \<Rightarrow> ('w \<times> (go_err + string)) option" where
  "ra_RewriteSender lib r mailFrom w =
    (if ra_replaceSender r then
       (case ra_rewrite lib r mailFrom w of
          (w, Inl err) \<Rightarrow> Some (w, Inl err)
        | (w, Inr []) \<Rightarrow> None
        | (w, Inr (x # _)) \<Rightarrow> Some (w, Inr x))
     else Some (w, Inr mailFrom))"

definition ra_RewriteRcpt :: "text_lib \<Rightarrow> 'w replace_addr \<Rightarrow> 'w multi_lookup" where
  "ra_RewriteRcpt lib r rcptTo w = (if ra_replaceRcpt r then ra_rewrite lib r rcptTo w else (w, Inr [rcptTo]))"

end
