(* ===== verification/TablesProps.thy ===== *)
theory TablesProps
  imports Tables
begin

text \<open>
  Properties of tables: the contract that single and multiple lookups agree, with its consequence
  for the authorisation of addresses, reading a written table file back, chains, and the
  addresses a replacing modifier gives.
\<close>

section \<open>Single and multiple lookups\<close>

locale multi_table =
  fixes single :: "'w lookup" and multi :: "'w multi_lookup"
  assumes agree: "single key w = first_value multi key w"
begin

text \<open>The single lookup finds a key exactly when the other one has a value.\<close>

lemma found_iff: "single key w = (w', v, True, None) \<longleftrightarrow> (\<exists>vs. multi key w = (w', Inr (v # vs)))"
  by (auto simp: agree first_value_def split: prod.splits sum.splits list.splits)

text \<open>What a user may do by the single values is allowed by all values, too.\<close>

lemma authorized_more:
  assumes "AuthorizeEmailUse user addrs single None w = (w', Inr True)"
  shows "AuthorizeEmailUse user addrs single (Some multi) w = (w', Inr True)"
proof -
  have mono: "authorized (v # vs) as = Inr True" if "authorized [v] as = Inr True" for v vs as
    using that by (induction as) (auto split: prod.splits option.splits if_splits)
  have none: "authorized [] as \<noteq> Inr True" for as by (induction as) (auto split: prod.splits option.splits)
  from assms show ?thesis
    by (auto simp: AuthorizeEmailUse_def agree first_value_def none intro: mono split: prod.splits sum.splits list.splits)
qed

end

interpretation static_tab: multi_table "static_Lookup m" "static_LookupMulti m"
  by unfold_locales (simp add: static_Lookup_def static_LookupMulti_def first_value_def split: list.splits)

interpretation file_tab: multi_table "file_Lookup f" "file_LookupMulti f"
  by unfold_locales (simp add: file_Lookup_def file_LookupMulti_def first_value_def split: list.splits)

interpretation regexp_tab: multi_table "regexp_Lookup lib r" "regexp_LookupMulti lib r"
  by unfold_locales (simp add: regexp_Lookup_def)

interpretation chain_tab: multi_table "chain_Lookup chain" "chain_LookupMulti chain"
  by unfold_locales (simp add: chain_Lookup_def)

section \<open>Table files\<close>

definition trimmed :: "string \<Rightarrow> bool" where
  "trimmed s \<longleftrightarrow> list_all (\<lambda>p. \<not> HasPrefix s p \<and> \<not> HasSuffix s p) space_encodings"

lemma TrimSpace_trimmed: "trimmed s \<Longrightarrow> TrimSpace s = s"
proof -
  assume t: "trimmed s"
  then have "find (\<lambda>p. p \<noteq> [] \<and> HasPrefix s p) space_encodings = None" "find (\<lambda>p. p \<noteq> [] \<and> HasSuffix s p) space_encodings = None"
    by (auto simp: find_None_iff trimmed_def list_all_iff)
  then show ?thesis by (simp add: TrimSpace_def trim_left.simps [of s] trim_right.simps [of s])
qed

lemma spaces_plain: "p \<in> set space_encodings \<Longrightarrow> p \<noteq> [] \<and> CHR '':'' \<notin> set p \<and> CHR '','' \<notin> set p"
proof -
  have "list_all (\<lambda>p. p \<noteq> [] \<and> CHR '':'' \<notin> set p \<and> CHR '','' \<notin> set p) space_encodings" by code_simp
  then show "p \<in> set space_encodings \<Longrightarrow> p \<noteq> [] \<and> CHR '':'' \<notin> set p \<and> CHR '','' \<notin> set p" by (simp add: list_all_iff)
qed

text \<open>Entries that can be written: keys without a colon and values without a comma, both without
  white space around them and without line ends, on lines the scanner takes.\<close>

definition no_eol :: "string \<Rightarrow> bool" where
  "no_eol s \<longleftrightarrow> CHR 0x0A \<notin> set s"

definition entry_line :: "string \<times> string list \<Rightarrow> string" where
  "entry_line e = fst e @ '':'' @ join_byte (CHR '','') (snd e)"

definition writable_entry :: "string \<times> string list \<Rightarrow> bool" where
  "writable_entry e \<longleftrightarrow> fst e \<noteq> [] \<and> trimmed (fst e) \<and> CHR '':'' \<notin> set (fst e) \<and> \<not> HasPrefix (fst e) ''#'' \<and> snd e \<noteq> []
     \<and> list_all (\<lambda>v. trimmed v \<and> CHR '','' \<notin> set v) (snd e) \<and> no_eol (entry_line e)
     \<and> length (entry_line e) < 65536"

definition print_table :: "(string \<times> string list) list \<Rightarrow> string" where
  "print_table es = concat (map (\<lambda>e. entry_line e @ [CHR 0x0A]) es)"

lemma join_suffix: "vs \<noteq> [] \<Longrightarrow> \<exists>a. join_byte c vs = a @ last vs \<and> (a = [] \<or> last a = c)"
proof (induction c vs rule: join_byte.induct)
  case (3 c p q ps)
  then obtain a where "join_byte c (q # ps) = a @ last (q # ps)" "a = [] \<or> last a = c" by auto
  then show ?case by (intro exI [of _ "p @ c # a"]) auto
qed auto

lemma line_trimmed:
  assumes "writable_entry e"
  shows "trimmed (entry_line e)"
proof -
  obtain k vs where e: "e = (k, vs)" by fastforce
  from assms e obtain a where j: "join_byte (CHR '','') vs = a @ last vs" "a = [] \<or> last a = CHR '',''"
    using join_suffix [of vs "CHR '',''"] by (auto simp: writable_entry_def)
  have v: "trimmed (last vs)" using assms e by (auto simp: writable_entry_def list_all_iff)
  have "\<not> HasPrefix (entry_line e) p \<and> \<not> HasSuffix (entry_line e) p" if p: "p \<in> set space_encodings" for p
  proof
    have "HasPrefix (entry_line e) p \<Longrightarrow> HasPrefix k p"
      using HasPrefix_before [of "CHR '':''" p k] spaces_plain [OF p] e by (simp add: entry_line_def)
    then show "\<not> HasPrefix (entry_line e) p" using assms e p by (auto simp: writable_entry_def trimmed_def list_all_iff)
    have "HasSuffix (entry_line e) p \<Longrightarrow> HasSuffix (last vs) p"
    proof (cases a rule: rev_cases)
      case Nil
      assume "HasSuffix (entry_line e) p"
      with Nil j e have "HasSuffix (k @ CHR '':'' # last vs) p" by (simp add: entry_line_def)
      then show ?thesis using HasSuffix_after [of "CHR '':''" p] spaces_plain [OF p] by blast
    next
      case (snoc b x)
      assume "HasSuffix (entry_line e) p"
      with snoc j e have "HasSuffix ((k @ CHR '':'' # b) @ CHR '','' # last vs) p" by (simp add: entry_line_def)
      then show ?thesis using HasSuffix_after [of "CHR '',''" p] spaces_plain [OF p] by blast
    qed
    then show "\<not> HasSuffix (entry_line e) p" using v p by (auto simp: trimmed_def list_all_iff)
  qed
  then show ?thesis by (auto simp: trimmed_def list_all_iff)
qed

lemma add_values_trimmed:
  "\<forall>v \<in> set vs. trimmed v \<Longrightarrow> m k = None \<Longrightarrow> vs \<noteq> [] \<Longrightarrow> add_values k vs m = m(k \<mapsto> vs)"
proof -
  have "foldl (\<lambda>m t. m(k \<mapsto> map_get [] m k @ [TrimSpace t])) (m(k \<mapsto> us)) vs = m(k \<mapsto> us @ vs)"
    if "\<forall>v \<in> set vs. trimmed v" for us vs and m :: "string \<rightharpoonup> string list"
    using that by (induction vs arbitrary: us) (auto simp: TrimSpace_trimmed map_get_def)
  from this [of "tl vs" m "[hd vs]"] show "\<forall>v \<in> set vs. trimmed v \<Longrightarrow> m k = None \<Longrightarrow> vs \<noteq> [] \<Longrightarrow> add_values k vs m = m(k \<mapsto> vs)"
    by (cases vs) (auto simp: add_values_def map_get_def TrimSpace_trimmed)
qed

lemma read_line_written:
  assumes "writable_entry (k, vs)" "m k = None"
  shows "read_lines path n (entry_line (k, vs) # ls) m = read_lines path (Suc n) ls (m(k \<mapsto> vs))"
proof -
  have t: "TrimSpace (entry_line (k, vs)) = entry_line (k, vs)" "TrimSpace k = k"
    using TrimSpace_trimmed line_trimmed [OF assms(1)] assms(1) by (auto simp: writable_entry_def)
  have h: "\<not> HasPrefix (entry_line (k, vs)) ''#''"
    using assms(1) HasPrefix_before [of "CHR '':''" "''#''" k] by (auto simp: writable_entry_def entry_line_def)
  have s: "SplitN (CHR '':'') 2 (entry_line (k, vs)) = [k, join_byte (CHR '','') vs]"
    using assms(1) SplitN_append [of "CHR '':''" k 0] by (simp add: entry_line_def writable_entry_def numeral_2_eq_2)
  have v: "split_byte (CHR '','') (join_byte (CHR '','') vs) = vs"
    using assms(1) by (intro split_join_byte) (auto simp: writable_entry_def list_all_iff)
  have "entry_line (k, vs) \<noteq> []" by (simp add: entry_line_def)
  with t h s v assms add_values_trimmed [of vs m k] show ?thesis
    by (simp add: writable_entry_def list_all_iff)
qed

lemma read_lines_written:
  assumes "list_all writable_entry es" "distinct (map fst es)" "\<forall>e \<in> set es. m (fst e) = None"
  shows "read_lines path n (map entry_line es) m = (m ++ map_of es, None)"
  using assms
proof (induction es arbitrary: n m)
  case (Cons e es)
  obtain k vs where e: "e = (k, vs)" by fastforce
  from Cons.prems e have w: "writable_entry (k, vs)" "m k = None" by auto
  have "m ++ map_of ((k, vs) # es) = (m(k \<mapsto> vs)) ++ map_of es"
  proof -
    have "map_of es k = None" using Cons.prems e by (auto simp: map_of_eq_None_iff)
    then show ?thesis by (auto simp: fun_eq_iff map_add_def split: option.splits)
  qed
  moreover have "read_lines path (Suc n) (map entry_line es) (m(k \<mapsto> vs)) = ((m(k \<mapsto> vs)) ++ map_of es, None)"
    using Cons.prems e by (intro Cons.IH) auto
  ultimately show ?case by (simp only: e list.map read_line_written [of k vs m, OF w])
qed simp

lemma raw_lines_print: "\<forall>l \<in> set ls. no_eol l \<Longrightarrow> raw_lines (concat (map (\<lambda>l. l @ [CHR 0x0A]) ls)) = ls"
proof -
  have "split_byte (CHR 0x0A) (concat (map (\<lambda>l. l @ [CHR 0x0A]) ls)) = ls @ [[]]" if "\<forall>l \<in> set ls. no_eol l"
    using that by (induction ls) (auto simp: split_byte_append no_eol_def)
  then show "\<forall>l \<in> set ls. no_eol l \<Longrightarrow> raw_lines (concat (map (\<lambda>l. l @ [CHR 0x0A]) ls)) = ls"
    by (simp add: raw_lines_def Let_def)
qed

lemma scan_print:
  assumes "list_all writable_entry es"
  shows "scan_lines (print_table es) = (map entry_line es, False)"
proof -
  have r: "raw_lines (print_table es) = map entry_line es"
    using raw_lines_print [of "map entry_line es"] assms
    by (auto simp: print_table_def comp_def list_all_iff writable_entry_def)
  have "drop_cr (entry_line e) = entry_line e" if "e \<in> set es" for e
  proof -
    have "[CHR 0x0D] \<in> set space_encodings" by (simp add: space_encodings_def)
    with line_trimmed [of e] that assms have "\<not> HasSuffix (entry_line e) [CHR 0x0D]"
      by (auto simp: trimmed_def list_all_iff)
    then show ?thesis by (simp add: drop_cr_def TrimSuffix_def)
  qed
  then have d: "map drop_cr (map entry_line es) = map entry_line es" by simp
  have "takeWhile (\<lambda>l. length l < 65536) (map entry_line es) = map entry_line es"
    using assms by (auto simp: takeWhile_eq_all_conv list_all_iff writable_entry_def)
  with d have "map drop_cr (takeWhile (\<lambda>l. length l < 65536) (map entry_line es)) = map entry_line es"
    by (simp only:)
  with r assms show ?thesis
    by (auto simp: scan_lines_def list_all_iff list_ex_iff writable_entry_def)
qed

text \<open>C19: A table file that lists distinct keys with their values, a key per line, is read back as the
  map of exactly these entries, without an error.\<close>

theorem written_table_read_back:
  assumes "list_all writable_entry es" "distinct (map fst es)" "fs_Open fs path w = (w', Inr (print_table es, None))"
  shows "readFile fs path Map.empty w = (w', map_of es, None)"
  using assms read_lines_written [of es Map.empty path 0] by (simp add: readFile_def scan_print)

definition demo_fs :: "unit fs_ops" where
  "demo_fs = \<lparr>fs_Open = (\<lambda>_ w. (w, Inr (print_table [(''a@b'', [''c'', ''d e'']), (''x'', [''''])], None))),
     fs_Stat = (\<lambda>_ w. (w, Inl (ErrNew ''no status''))), fs_IsNotExist = (\<lambda>_. False)\<rparr>"

theorem written_table_read_back_witness:
  "readFile demo_fs ''f'' Map.empty () = ((), map_of [(''a@b'', [''c'', ''d e'']), (''x'', [''''])], None)"
proof -
  have "list_all trimmed [''a@b'', ''c'', ''d e'', ''x'', '''']" by code_simp
  then have "list_all writable_entry [(''a@b'', [''c'', ''d e'']), (''x'', [''''])]"
    by (simp add: writable_entry_def HasPrefix_def no_eol_def entry_line_def)
  then show ?thesis by (rule written_table_read_back) (simp_all add: demo_fs_def)
qed

section \<open>Chains\<close>

text \<open>What a chain of tables without effects gives: a table maps every value found so far; where one
  of them has no result the lookup ends or, in an optional table, the values stay.\<close>

fun chain_spec :: "((string \<Rightarrow> string list) \<times> bool) list \<Rightarrow> string list \<Rightarrow> string list" where
  "chain_spec [] ks = ks"
| "chain_spec ((f, optional) # fs) ks =
     (if list_all (\<lambda>k. f k \<noteq> []) ks then chain_spec fs (concat (map f ks))
      else if optional then chain_spec fs ks else [])"

definition pure_table :: "(string \<Rightarrow> string list) \<Rightarrow> 'w table" where
  "pure_table f = \<lparr>tb_Lookup = first_value (\<lambda>k w. (w, Inr (f k))), tb_LookupMulti = Some (\<lambda>k w. (w, Inr (f k)))\<rparr>"

lemma chain_step_pure:
  "chain_step (pure_table f) ks acc w = (w, Inr (if list_all (\<lambda>k. f k \<noteq> []) ks then Some (acc @ concat (map f ks)) else None))"
  by (induction ks arbitrary: acc) (auto simp: pure_table_def split: list.splits)

lemma chain_loop_pure:
  "chain_loop (map (\<lambda>(f, b). (pure_table f, b)) fs) ks w = (w, Inr (chain_spec fs ks))"
  by (induction fs ks rule: chain_spec.induct) (auto simp: chain_step_pure)

section \<open>Replaced addresses\<close>

definition replaced :: "text_lib \<Rightarrow> string \<Rightarrow> string \<Rightarrow> bool" where
  "replaced lib val r \<longleftrightarrow> r = val \<or> Valid lib r
     \<or> (\<exists>x mbox domain. Split (fst (ForLookup lib val)) = (mbox, domain, None) \<and> r = x @ ''@'' @ domain)"

lemma complete_each_spec:
  "complete_each lib domain rs = Inr xs \<Longrightarrow> length xs = length rs \<and> (\<forall>r \<in> set xs. Valid lib r \<or> (\<exists>x. r = x @ ''@'' @ domain))"
  by (induction rs arbitrary: xs) (auto split: if_splits sum.splits)

lemma ra_rewrite_spec:
  assumes "ra_rewrite lib r val w = (w', Inr rs)"
  shows "rs \<noteq> [] \<and> list_all (replaced lib val) rs"
proof -
  obtain n e where f: "ForLookup lib val = (n, e)" by fastforce
  obtain mb d se where sp: "Split n = (mb, d, se)" by (metis prod_cases3)
  obtain w1 r1 where t1: "ra_table r n w = (w1, r1)" by fastforce
  obtain w2 r2 where t2: "ra_table r mb w1 = (w2, r2)" by fastforce
  from assms f have e: "e = None" by (cases e) (auto simp: ra_rewrite_def)
  from assms f e t1 obtain rs1 where r1: "r1 = Inr rs1" by (cases r1) (auto simp: ra_rewrite_def)
  note facts = assms [unfolded ra_rewrite_def] f e t1 r1 sp t2
  consider "rs1 \<noteq> []" | "rs1 = []" "se \<noteq> None" | "rs1 = []" "se = None" by blast
  then show ?thesis
  proof cases
    case 1
    with facts show ?thesis by (auto simp: replaced_def find_None_iff list_all_iff split: option.splits)
  next
    case 2
    with facts show ?thesis by (auto simp: replaced_def)
  next
    case 3
    with facts obtain rs2 where r2: "r2 = Inr rs2" by (cases r2) auto
    show ?thesis
    proof (cases "rs2 = []")
      case True
      with facts 3 r2 show ?thesis by (auto simp: replaced_def)
    next
      case False
      with facts 3 r2 have "complete_each lib d rs2 = Inr rs" by auto
      from complete_each_spec [OF this] False f sp 3 show ?thesis by (auto simp: replaced_def list_all_iff)
    qed
  qed
qed

lemma RewriteSender_total: "ra_RewriteSender lib r mailFrom w \<noteq> None"
  using ra_rewrite_spec [of lib r mailFrom w "fst (ra_rewrite lib r mailFrom w)"]
  by (cases "ra_rewrite lib r mailFrom w") (auto simp: ra_RewriteSender_def split: sum.split list.split)

section \<open>Observations\<close>

text \<open>A regular expression table without arguments panics.\<close>

lemma regexp_without_argument: "regexp_Init lib modName a b c [] = None"
  by (simp add: regexp_Init_def)

text \<open>An error of the file status other than a missing file ends the goroutine that reloads the
  table, after which \<open>Close\<close> and a forced reload wait forever.\<close>

lemma stat_error_ends_reloader:
  assumes "fs_Stat fs (ft_file f) w = (w', Inl err)" "\<not> fs_IsNotExist fs err"
  shows "file_Close (snd (reloader_round fs now f w)) = [] \<and> force_reload fs now' (snd (reloader_round fs now f w)) w'' = []"
  using assms by (simp add: reloader_round_def reload_def file_Close_def force_reload_def)

end
