(* ===== verification/Sha256.thy ===== *)
theory Sha256
  imports GoText "HOL-Library.Word"
begin

text \<open>
  \<open>crypto/sha256.Sum256\<close>, the hash function of FIPS 180-4, on strings of bytes. It is used by the
  password hashes (\<open>internal/auth/pass_table/hash.go\<close>).
\<close>

unbundle bit_operations_syntax

definition ROTR :: "nat \<Rightarrow> 32 word \<Rightarrow> 32 word" where
  "ROTR n x = drop_bit n x OR push_bit (32 - n) x"

text \<open>The constants of the standard are the first bits of the fractions of roots of primes: square
  roots of the first 8 for the initial hash, cube roots of the first 64 for the rounds. An integer
  root is found bit by bit.\<close>

fun root_bits :: "(int \<Rightarrow> int) \<Rightarrow> int \<Rightarrow> nat \<Rightarrow> int \<Rightarrow> int" where
  "root_bits pow t 0 a = a"
| "root_bits pow t (Suc n) a = root_bits pow t n (if pow (a + 2 ^ n) \<le> t then a + 2 ^ n else a)"

definition primes_upto :: "int \<Rightarrow> int list" where
  "primes_upto n = filter (\<lambda>p. list_all (\<lambda>d. p mod d \<noteq> 0) [2..p - 1]) [2..n]"

definition sha_K :: "32 word list" where
  "sha_K = map (\<lambda>p. of_int (root_bits (\<lambda>x. x * x * x) (p * 2 ^ 96) 36 0)) (primes_upto 311)"

definition sha_H0 :: "32 word list" where
  "sha_H0 = map (\<lambda>p. of_int (root_bits (\<lambda>x. x * x) (p * 2 ^ 64) 36 0)) (primes_upto 19)"

text \<open>The message schedule, the last word first.\<close>

fun sha_schedule :: "nat \<Rightarrow> 32 word list \<Rightarrow> 32 word list" where
  "sha_schedule 0 ws = ws"
| "sha_schedule (Suc n) ws =
     (let w15 = ws ! 14; w2 = ws ! 1;
          s0 = (ROTR 7 w15 XOR ROTR 18 w15) XOR drop_bit 3 w15;
          s1 = (ROTR 17 w2 XOR ROTR 19 w2) XOR drop_bit 10 w2
      in sha_schedule n ((ws ! 15 + s0 + ws ! 6 + s1) # ws))"

fun sha_round :: "32 word list \<Rightarrow> 32 word \<times> 32 word \<Rightarrow> 32 word list" where
  "sha_round [a, b, c, d, e, f, g, h] (k, w) =
     (let s1 = (ROTR 6 e XOR ROTR 11 e) XOR ROTR 25 e;
          ch = (e AND f) XOR (NOT e AND g);
          t1 = h + s1 + ch + k + w;
          s0 = (ROTR 2 a XOR ROTR 13 a) XOR ROTR 22 a;
          maj = ((a AND b) XOR (a AND c)) XOR (b AND c)
      in [t1 + s0 + maj, a, b, c, d + t1, e, f, g])"
| "sha_round st _ = st"

definition sha_block :: "32 word list \<Rightarrow> 32 word list \<Rightarrow> 32 word list" where
  "sha_block hs ws = map2 (+) hs (foldl sha_round hs (zip sha_K (rev (sha_schedule 48 (rev ws)))))"

fun be_words :: "int list \<Rightarrow> 32 word list" where
  "be_words (a # b # c # d # bs) = of_int (((a * 256 + b) * 256 + c) * 256 + d) # be_words bs"
| "be_words _ = []"

definition be_bytes :: "nat \<Rightarrow> int \<Rightarrow> int list" where
  "be_bytes n x = map (\<lambda>i. x div 256 ^ i mod 256) (rev [0..<n])"

definition sha_pad :: "int list \<Rightarrow> int list" where
  "sha_pad bs = bs @ 128 # replicate ((119 - length bs mod 64) mod 64) 0 @ be_bytes 8 (8 * int (length bs) mod 2 ^ 64)"

function sha_blocks :: "32 word list \<Rightarrow> 32 word list \<Rightarrow> 32 word list" where
  "sha_blocks hs ws = (if ws = [] then hs else sha_blocks (sha_block hs (take 16 ws)) (drop 16 ws))"
  by pat_completeness auto
termination by (relation "measure (length \<circ> snd)") auto

definition Sum256 :: "string \<Rightarrow> string" where
  "Sum256 s = map char_of (concat (map (\<lambda>w. be_bytes 4 (uint w)) (sha_blocks sha_H0 (be_words (sha_pad (map of_char s))))))"

end
