(* ===== verification/PassTable.thy ===== *)
theory PassTable
  imports TextIO Auth Sha256
begin

text \<open>
  Passwords in tables: the hashes (\<open>internal/auth/pass_table/hash.go\<close>) and the module that stores and
  checks them (\<open>internal/auth/pass_table/table.go\<close>). Argon2 and bcrypt are library code and enter as
  the record \<open>hash_lib\<close>, with the source of random bytes; a panic is \<open>None\<close>. The texts of errors of
  number and base64 parsers are left out.
\<close>

section \<open>Hashes\<close>

record hash_opts =
  ho_BcryptCost :: int
  ho_Argon2Time :: "32 word"
  ho_Argon2Memory :: "32 word"
  ho_Argon2Threads :: "8 word"

record 'w hash_lib =
  hl_rand :: "nat \<Rightarrow> 'w \<Rightarrow> 'w \<times> (go_err + string)"
  hl_IDKey :: "string \<Rightarrow> string \<Rightarrow> 32 word \<Rightarrow> 32 word \<Rightarrow> 8 word \<Rightarrow> nat \<Rightarrow> string option"
  hl_GenerateFromPassword :: "string \<Rightarrow> int \<Rightarrow> 'w \<Rightarrow> 'w \<times> (go_err + string)"
  hl_CompareHashAndPassword :: "string \<Rightarrow> string \<Rightarrow> go_err option"

type_synonym 'w hash_compute = "hash_opts \<Rightarrow> string \<Rightarrow> 'w \<Rightarrow> ('w \<times> (go_err + string)) option"

type_synonym hash_verify = "string \<Rightarrow> string \<Rightarrow> go_err option option"

definition Argon2Salt :: nat where "Argon2Salt = 16"

definition Argon2Size :: nat where "Argon2Size = 64"

definition malformed_hash :: go_err where
  "malformed_hash = ErrNew ''pass_table: malformed hash string''"

definition hash_mismatch :: go_err where
  "hash_mismatch = ErrNew ''pass_table: hash mismatch''"

text \<open>\<open>subtle.ConstantTimeCompare\<close> is 1 on equal slices.\<close>

definition ConstantTimeCompare :: "string \<Rightarrow> string \<Rightarrow> int" where
  "ConstantTimeCompare x y = (if length x \<noteq> length y then 0 else if list_all2 (=) x y then 1 else 0)"

definition computeArgon2 :: "'w hash_lib \<Rightarrow> 'w hash_compute" where
  "computeArgon2 lib opts pass w =
    (case hl_rand lib Argon2Salt w of
       (w, Inl err) \<Rightarrow> Some (w, Inl (ErrWrap ''pass_table: failed to generate salt: '' err))
     | (w, Inr salt) \<Rightarrow>
        (case hl_IDKey lib pass salt (ho_Argon2Time opts) (ho_Argon2Memory opts) (ho_Argon2Threads opts) Argon2Size of
           None \<Rightarrow> None
         | Some hash \<Rightarrow> Some (w, Inr (FormatUint (unat (ho_Argon2Time opts)) @ '':'' @ FormatUint (unat (ho_Argon2Memory opts)) @ '':''
             @ FormatUint (unat (ho_Argon2Threads opts)) @ '':'' @ EncodeToString salt @ '':'' @ EncodeToString hash))))"

text \<open>A part of the hash is read by index, a panic where it is missing, and parsed.\<close>

definition parsed :: "string list \<Rightarrow> nat \<Rightarrow> (string \<Rightarrow> 'a option) \<Rightarrow> ('a \<Rightarrow> go_err option option) \<Rightarrow> go_err option option" where
  "parsed parts i parse k =
    (if i < length parts then (case parse (parts ! i) of None \<Rightarrow> Some (Some malformed_hash) | Some x \<Rightarrow> k x) else None)"

definition verifyArgon2 :: "'w hash_lib \<Rightarrow> hash_verify" where
  "verifyArgon2 lib pass hashSalt =
    (let parts = SplitN (CHR '':'') 5 hashSalt in
     parsed parts 0 (ParseUint 32) (\<lambda>time.
     parsed parts 1 (ParseUint 32) (\<lambda>memory.
     parsed parts 2 (ParseUint 8) (\<lambda>threads.
     parsed parts 3 DecodeString (\<lambda>salt.
     parsed parts 4 DecodeString (\<lambda>hash.
     case hl_IDKey lib pass salt (of_nat time) (of_nat memory) (of_nat threads) Argon2Size of
       None \<Rightarrow> None
     | Some passHash \<Rightarrow> Some (if ConstantTimeCompare passHash hash \<noteq> 1 then Some hash_mismatch else None)))))))"

definition computeSHA256 :: "'w hash_lib \<Rightarrow> 'w hash_compute" where
  "computeSHA256 lib opts pass w =
    (case hl_rand lib 32 w of
       (w, Inl err) \<Rightarrow> Some (w, Inl (ErrWrap ''pass_table: failed to generate salt: '' err))
     | (w, Inr salt) \<Rightarrow> Some (w, Inr (EncodeToString salt @ '':'' @ EncodeToString (Sum256 (salt @ pass)))))"

definition verifySHA256 :: hash_verify where
  "verifySHA256 pass hashSalt =
    (case split_byte (CHR '':'') hashSalt of
       [p0, p1] \<Rightarrow>
        (case DecodeString p0 of None \<Rightarrow> Some (Some (ErrNew ''pass_table: malformed hash string, cannot decode pass'')) | Some salt \<Rightarrow>
         case DecodeString p1 of None \<Rightarrow> Some (Some (ErrNew ''pass_table: malformed hash string, cannot decode pass'')) | Some hash \<Rightarrow>
           Some (if ConstantTimeCompare (Sum256 (salt @ pass)) hash \<noteq> 1 then Some hash_mismatch else None))
     | _ \<Rightarrow> Some (Some (ErrNew ''pass_table: malformed hash string, no salt'')))"

definition computeBcrypt :: "'w hash_lib \<Rightarrow> 'w hash_compute" where
  "computeBcrypt lib opts pass w = Some (hl_GenerateFromPassword lib pass (ho_BcryptCost opts) w)"

definition verifyBcrypt :: "'w hash_lib \<Rightarrow> hash_verify" where
  "verifyBcrypt lib pass hashSalt = Some (hl_CompareHashAndPassword lib hashSalt pass)"

text \<open>The tables of hash functions: initially, and after \<open>addSHA256\<close>.\<close>

record 'w hashes =
  HashCompute :: "string \<rightharpoonup> 'w hash_compute"
  HashVerify :: "string \<rightharpoonup> hash_verify"

definition init_hashes :: "'w hash_lib \<Rightarrow> 'w hashes" where
  "init_hashes lib = \<lparr>HashCompute = [''bcrypt'' \<mapsto> computeBcrypt lib, ''argon2'' \<mapsto> computeArgon2 lib],
     HashVerify = [''bcrypt'' \<mapsto> verifyBcrypt lib, ''argon2'' \<mapsto> verifyArgon2 lib]\<rparr>"

definition addSHA256 :: "'w hash_lib \<Rightarrow> 'w hashes \<Rightarrow> 'w hashes" where
  "addSHA256 lib hs = hs\<lparr>HashCompute := (HashCompute hs)(''sha256'' \<mapsto> computeSHA256 lib),
     HashVerify := (HashVerify hs)(''sha256'' \<mapsto> verifySHA256)\<rparr>"

section \<open>The module\<close>

record 'w mutable_ops =
  mt_Keys :: "'w \<Rightarrow> 'w \<times> (go_err + string list)"
  mt_RemoveKey :: "string \<Rightarrow> 'w \<Rightarrow> 'w \<times> go_err option"
  mt_SetKey :: "string \<Rightarrow> string \<Rightarrow> 'w \<Rightarrow> 'w \<times> go_err option"

record 'w pass_auth =
  pt_modName :: string
  pt_Lookup_table :: "'w lookup"
  pt_mutable :: "'w mutable_ops option"

definition ErrUnknownCredentials :: go_err where
  "ErrUnknownCredentials = ErrNew ''unknown credentials''"

definition pt_Lookup :: "text_lib \<Rightarrow> 'w pass_auth \<Rightarrow> 'w lookup" where
  "pt_Lookup txt a username w =
    (case precis_CaseMapped txt username of
       (_, Some err) \<Rightarrow> (w, [], False, Some err)
     | (key, None) \<Rightarrow> pt_Lookup_table a key w)"

definition pt_AuthPlain :: "text_lib \<Rightarrow> 'w hashes \<Rightarrow> 'w pass_auth \<Rightarrow> string \<Rightarrow> string \<Rightarrow> 'w \<Rightarrow> ('w \<times> go_err option) option" where
  "pt_AuthPlain txt hs a username password w =
    (case precis_CaseMapped txt username of
       (_, Some err) \<Rightarrow> Some (w, Some err)
     | (key, None) \<Rightarrow>
        (case pt_Lookup_table a key w of
           (w, hash, ok, err) \<Rightarrow>
            if \<not> ok then Some (w, Some ErrUnknownCredentials)
            else if err \<noteq> None then Some (w, err)
            else (case SplitN (CHR '':'') 2 hash of
                [tag, h] \<Rightarrow>
                  (case HashVerify hs tag of
                     None \<Rightarrow> Some (w, Some (ErrNew (pt_modName a @ '': auth plain '' @ key @ '': unknown hash: '' @ tag)))
                   | Some hashVerify \<Rightarrow> (case hashVerify password h of None \<Rightarrow> None | Some err \<Rightarrow> Some (w, err)))
              | _ \<Rightarrow> Some (w, Some (ErrNew (pt_modName a @ '': auth plain '' @ key @ '': no hash tag''))))))"

definition not_mutable :: "'w pass_auth \<Rightarrow> go_err" where
  "not_mutable a = ErrNew (pt_modName a @ '': table is not mutable, no management functionality available'')"

definition ListUsers :: "'w pass_auth \<Rightarrow> 'w \<Rightarrow> 'w \<times> (go_err + string list)" where
  "ListUsers a w =
    (case pt_mutable a of
       None \<Rightarrow> (w, Inl (not_mutable a))
     | Some tbl \<Rightarrow> (case mt_Keys tbl w of
         (w, Inl err) \<Rightarrow> (w, Inl (ErrWrap (pt_modName a @ '': list users: '') err))
       | (w, Inr l) \<Rightarrow> (w, Inr l)))"

definition CreateUserHash ::
  "text_lib \<Rightarrow> 'w hashes \<Rightarrow> 'w pass_auth \<Rightarrow> string \<Rightarrow> string \<Rightarrow> string \<Rightarrow> hash_opts \<Rightarrow> 'w \<Rightarrow> ('w \<times> go_err option) option" where
  "CreateUserHash txt hs a username password hashAlgo opts w =
    (case pt_mutable a of None \<Rightarrow> Some (w, Some (not_mutable a)) | Some tbl \<Rightarrow>
     case HashCompute hs hashAlgo of
       None \<Rightarrow> Some (w, Some (ErrNew (pt_modName a @ '': unknown hash function: '' @ hashAlgo)))
     | Some compute \<Rightarrow>
     case precis_CaseMapped txt username of
       (_, Some err) \<Rightarrow> Some (w, Some (ErrWrap (pt_modName a @ '': create user '' @ username @ '' (raw): '') err))
     | (key, None) \<Rightarrow>
     case pt_Lookup_table a key w of
       (w, _, _, Some err) \<Rightarrow> Some (w, Some (ErrWrap (pt_modName a @ '': create user '' @ key @ '': '') err))
     | (w, _, ok, None) \<Rightarrow>
     if ok then Some (w, Some (ErrNew (pt_modName a @ '': credentials for '' @ key @ '' already exist'')))
     else case compute opts password w of
       None \<Rightarrow> None
     | Some (w, Inl err) \<Rightarrow> Some (w, Some (ErrWrap (pt_modName a @ '': create user '' @ key @ '': hash generation: '') err))
     | Some (w, Inr hash) \<Rightarrow>
     case mt_SetKey tbl key (hashAlgo @ '':'' @ hash) w of
       (w, Some err) \<Rightarrow> Some (w, Some (ErrWrap (pt_modName a @ '': create user '' @ key @ '': '') err))
     | (w, None) \<Rightarrow> Some (w, None))"

definition bcrypt_DefaultCost :: int where "bcrypt_DefaultCost = 10"

definition default_opts :: hash_opts where
  "default_opts = \<lparr>ho_BcryptCost = bcrypt_DefaultCost, ho_Argon2Time = 0, ho_Argon2Memory = 0, ho_Argon2Threads = 0\<rparr>"

definition CreateUser :: "text_lib \<Rightarrow> 'w hashes \<Rightarrow> 'w pass_auth \<Rightarrow> string \<Rightarrow> string \<Rightarrow> 'w \<Rightarrow> ('w \<times> go_err option) option" where
  "CreateUser txt hs a username password w = CreateUserHash txt hs a username password ''bcrypt'' default_opts w"

text \<open>The bcrypt entry of the table of hash functions is called without a test.\<close>

definition SetUserPassword ::
  "text_lib \<Rightarrow> 'w hashes \<Rightarrow> 'w pass_auth \<Rightarrow> string \<Rightarrow> string \<Rightarrow> 'w \<Rightarrow> ('w \<times> go_err option) option" where
  "SetUserPassword txt hs a username password w =
    (case pt_mutable a of None \<Rightarrow> Some (w, Some (not_mutable a)) | Some tbl \<Rightarrow>
     case precis_CaseMapped txt username of
       (_, Some err) \<Rightarrow> Some (w, Some (ErrWrap (pt_modName a @ '': set password '' @ username @ '' (raw): '') err))
     | (key, None) \<Rightarrow>
     case HashCompute hs ''bcrypt'' of None \<Rightarrow> None | Some compute \<Rightarrow>
     case compute default_opts password w of
       None \<Rightarrow> None
     | Some (w, Inl err) \<Rightarrow> Some (w, Some (ErrWrap (pt_modName a @ '': set password '' @ key @ '': hash generation: '') err))
     | Some (w, Inr hash) \<Rightarrow>
     case mt_SetKey tbl key (''bcrypt:'' @ hash) w of
       (w, Some err) \<Rightarrow> Some (w, Some (ErrWrap (pt_modName a @ '': set password '' @ key @ '': '') err))
     | (w, None) \<Rightarrow> Some (w, None))"

definition DeleteUser :: "text_lib \<Rightarrow> 'w pass_auth \<Rightarrow> string \<Rightarrow> 'w \<Rightarrow> 'w \<times> go_err option" where
  "DeleteUser txt a username w =
    (case pt_mutable a of None \<Rightarrow> (w, Some (not_mutable a)) | Some tbl \<Rightarrow>
     case precis_CaseMapped txt username of
       (_, Some err) \<Rightarrow> (w, Some (ErrWrap (pt_modName a @ '': del user '' @ username @ '' (raw): '') err))
     | (key, None) \<Rightarrow>
     case mt_RemoveKey tbl key w of
       (w, Some err) \<Rightarrow> (w, Some (ErrWrap (pt_modName a @ '': del user '' @ key @ '': '') err))
     | (w, None) \<Rightarrow> (w, None))"

end
