(* ===== verification/PassTableProps.thy ===== *)
theory PassTableProps
  imports PassTable
begin

text \<open>
  What password tables promise: every hash function accepts the password it was computed from, users
  that were created can authenticate, and a password is accepted only against a stored hash.
\<close>

section \<open>Hash functions\<close>

locale password_hash =
  fixes compute :: "'w hash_compute" and verify :: hash_verify
  assumes verifies: "compute opts pass w = Some (w', Inr h) \<Longrightarrow> verify pass h = Some None"
begin

lemma authenticates:
  assumes "HashVerify hs tag = Some verify" "CHR '':'' \<notin> set tag" "compute opts pass w0 = Some (w1, Inr h)"
    "precis_CaseMapped txt user = (key, None)" "pt_Lookup_table a key w = (w', tag @ '':'' @ h, True, None)"
  shows "pt_AuthPlain txt hs a user pass w = Some (w', None)"
  using assms SplitN_append [of "CHR '':''" tag 0 h] verifies [OF assms(3)]
  by (simp add: pt_AuthPlain_def numeral_2_eq_2)

end

lemma ConstantTimeCompare_iff: "ConstantTimeCompare x y = 1 \<longleftrightarrow> x = y"
  by (auto simp: ConstantTimeCompare_def list.rel_eq)

lemma FormatUint_no_colon: "CHR '':'' \<notin> set (FormatUint n)"
  using digit_not_colon [of "show_nat_base 10 n"] show_nat_base_digits [of n] by (simp add: FormatUint_def)

lemma Argon2_parts:
  "SplitN (CHR '':'') 5 (FormatUint t @ '':'' @ FormatUint m @ '':'' @ FormatUint p @ '':'' @ EncodeToString s @ '':'' @ EncodeToString h)
    = [FormatUint t, FormatUint m, FormatUint p, EncodeToString s, EncodeToString h]"
  by (simp add: eval_nat_numeral SplitN_append FormatUint_no_colon EncodeToString_no_colon SplitN_free del: SplitN.simps)

lemma verifyArgon2_computed:
  assumes "computeArgon2 lib opts pass w = Some (w', Inr h)"
  shows "\<exists>salt key. hl_IDKey lib pass salt (ho_Argon2Time opts) (ho_Argon2Memory opts) (ho_Argon2Threads opts) Argon2Size = Some key
    \<and> (\<forall>pass'. verifyArgon2 lib pass' h =
        (case hl_IDKey lib pass' salt (ho_Argon2Time opts) (ho_Argon2Memory opts) (ho_Argon2Threads opts) Argon2Size of
           None \<Rightarrow> None | Some key' \<Rightarrow> Some (if key' = key then None else Some hash_mismatch)))"
proof -
  have b: "unat (ho_Argon2Time opts) < 2 ^ 32" "unat (ho_Argon2Memory opts) < 2 ^ 32" "unat (ho_Argon2Threads opts) < 2 ^ 8"
    using unsigned_less [where 'a = nat, of "ho_Argon2Time opts"] unsigned_less [where 'a = nat, of "ho_Argon2Memory opts"]
      unsigned_less [where 'a = nat, of "ho_Argon2Threads opts"] by simp_all
  from assms obtain salt key where
    "hl_IDKey lib pass salt (ho_Argon2Time opts) (ho_Argon2Memory opts) (ho_Argon2Threads opts) Argon2Size = Some key"
    and h: "h = FormatUint (unat (ho_Argon2Time opts)) @ '':'' @ FormatUint (unat (ho_Argon2Memory opts)) @ '':''
             @ FormatUint (unat (ho_Argon2Threads opts)) @ '':'' @ EncodeToString salt @ '':'' @ EncodeToString key"
    by (auto simp: computeArgon2_def split: prod.splits sum.splits option.splits)
  moreover have "verifyArgon2 lib pass' h =
        (case hl_IDKey lib pass' salt (ho_Argon2Time opts) (ho_Argon2Memory opts) (ho_Argon2Threads opts) Argon2Size of
           None \<Rightarrow> None | Some key' \<Rightarrow> Some (if key' = key then None else Some hash_mismatch))" for pass'
    unfolding h verifyArgon2_def Argon2_parts
    by (simp add: parsed_def Let_def b [THEN ParseUint_FormatUint] DecodeString_EncodeToString ConstantTimeCompare_iff split: option.split)
  ultimately show ?thesis by blast
qed

lemma verifySHA256_computed:
  assumes "computeSHA256 lib opts pass w = Some (w', Inr h)"
  shows "\<exists>salt. \<forall>pass'. verifySHA256 pass' h = Some (if Sum256 (salt @ pass') = Sum256 (salt @ pass) then None else Some hash_mismatch)"
proof -
  from assms obtain salt where h: "h = EncodeToString salt @ '':'' @ EncodeToString (Sum256 (salt @ pass))"
    by (auto simp: computeSHA256_def split: prod.splits sum.splits)
  have "split_byte (CHR '':'') h = [EncodeToString salt, EncodeToString (Sum256 (salt @ pass))]"
    unfolding h by (simp add: split_byte_append split_byte_none EncodeToString_no_colon)
  then show ?thesis by (auto simp: verifySHA256_def DecodeString_EncodeToString ConstantTimeCompare_iff)
qed

interpretation argon2_hash: password_hash "computeArgon2 lib" "verifyArgon2 lib" for lib
  by unfold_locales (use verifyArgon2_computed in fastforce)

interpretation sha256_hash: password_hash "computeSHA256 lib" verifySHA256 for lib
  by unfold_locales (use verifySHA256_computed in fastforce)

text \<open>What the code relies on: bcrypt accepts the password it hashed, and a table that stored a value
  finds it.\<close>

definition bcrypt_checks :: "'w hash_lib \<Rightarrow> bool" where
  "bcrypt_checks lib \<longleftrightarrow> (\<forall>pass cost w w' h. hl_GenerateFromPassword lib pass cost w = (w', Inr h)
     \<longrightarrow> hl_CompareHashAndPassword lib h pass = None)"

definition stored_found :: "'w pass_auth \<Rightarrow> bool" where
  "stored_found a \<longleftrightarrow> (\<forall>tbl k v w w'. pt_mutable a = Some tbl \<longrightarrow> mt_SetKey tbl k v w = (w', None)
     \<longrightarrow> (\<exists>w''. pt_Lookup_table a k w' = (w'', v, True, None)))"

lemma bcrypt_hash: "bcrypt_checks lib \<Longrightarrow> password_hash (computeBcrypt lib) (verifyBcrypt lib)"
  by unfold_locales (auto simp: computeBcrypt_def verifyBcrypt_def bcrypt_checks_def)

lemma registered_hash:
  assumes "HashCompute hs alg = Some c" "hs = init_hashes lib \<or> hs = addSHA256 lib (init_hashes lib)" "bcrypt_checks lib"
  shows "\<exists>v. HashVerify hs alg = Some v \<and> password_hash c v \<and> CHR '':'' \<notin> set alg"
  using assms bcrypt_hash [of lib] argon2_hash.password_hash_axioms [of lib] sha256_hash.password_hash_axioms [of lib]
  by (auto simp: init_hashes_def addSHA256_def split: if_splits)

section \<open>Users\<close>

lemma CreateUserHash_done:
  assumes "CreateUserHash txt hs a user pass alg opts w = Some (w', None)"
  shows "\<exists>tbl c key w1 w2 h. pt_mutable a = Some tbl \<and> HashCompute hs alg = Some c \<and> precis_CaseMapped txt user = (key, None)
    \<and> c opts pass w1 = Some (w2, Inr h) \<and> mt_SetKey tbl key (alg @ '':'' @ h) w2 = (w', None)"
  using assms by (auto simp: CreateUserHash_def split: option.splits prod.splits sum.splits if_splits)

lemma SetUserPassword_done:
  assumes "SetUserPassword txt hs a user pass w = Some (w', None)"
  shows "\<exists>tbl c key w1 w2 h. pt_mutable a = Some tbl \<and> HashCompute hs ''bcrypt'' = Some c \<and> precis_CaseMapped txt user = (key, None)
    \<and> c default_opts pass w1 = Some (w2, Inr h) \<and> mt_SetKey tbl key (''bcrypt'' @ '':'' @ h) w2 = (w', None)"
  using assms by (auto simp: SetUserPassword_def split: option.splits prod.splits sum.splits if_splits)

lemma stored_password_accepted:
  assumes "pt_mutable a = Some tbl" "HashCompute hs alg = Some c" "precis_CaseMapped txt user = (key, None)"
    "c opts pass w1 = Some (w2, Inr h)" "mt_SetKey tbl key (alg @ '':'' @ h) w2 = (w', None)"
    "hs = init_hashes lib \<or> hs = addSHA256 lib (init_hashes lib)" "bcrypt_checks lib" "stored_found a"
  shows "\<exists>w''. pt_AuthPlain txt hs a user pass w' = Some (w'', None)"
proof -
  from registered_hash [OF assms(2,6,7)] obtain v
    where v: "HashVerify hs alg = Some v" "password_hash c v" "CHR '':'' \<notin> set alg" by blast
  from assms(1,5,8) obtain w'' where "pt_Lookup_table a key w' = (w'', alg @ '':'' @ h, True, None)"
    unfolding stored_found_def by blast
  then show ?thesis using password_hash.authenticates [OF v(2) v(1,3) assms(4,3)] by blast
qed

text \<open>C17: A user that was created, or whose password was set, without an error authenticates with that
  password, for every hash function that is registered, given that bcrypt accepts what it hashed
  and the table finds what it stored.\<close>

theorem created_user_authenticates:
  assumes "CreateUserHash txt hs a user pass alg opts w = Some (w', None) \<or> SetUserPassword txt hs a user pass w = Some (w', None)"
    and "hs = init_hashes lib \<or> hs = addSHA256 lib (init_hashes lib)" and "bcrypt_checks lib" and "stored_found a"
  shows "\<exists>w''. pt_AuthPlain txt hs a user pass w' = Some (w'', None)"
  using assms(1)
proof
  assume "CreateUserHash txt hs a user pass alg opts w = Some (w', None)"
  from CreateUserHash_done [OF this] show ?thesis using stored_password_accepted [OF _ _ _ _ _ assms(2-4)] by blast
next
  assume "SetUserPassword txt hs a user pass w = Some (w', None)"
  from SetUserPassword_done [OF this] show ?thesis using stored_password_accepted [OF _ _ _ _ _ assms(2-4)] by blast
qed

text \<open>An accepted password was verified against a stored hash of the user.\<close>

lemma accepted_against_stored:
  assumes "pt_AuthPlain txt hs a user pass w = Some (w', None)"
  shows "\<exists>key hash tag h verify. precis_CaseMapped txt user = (key, None) \<and> pt_Lookup_table a key w = (w', hash, True, None)
    \<and> SplitN (CHR '':'') 2 hash = [tag, h] \<and> HashVerify hs tag = Some verify \<and> verify pass h = Some None"
  using assms by (auto simp: pt_AuthPlain_def split: option.splits prod.splits if_splits list.splits)

section \<open>A run\<close>

definition demo_hash_lib :: "(string \<rightharpoonup> string) hash_lib" where
  "demo_hash_lib = \<lparr>hl_rand = (\<lambda>n w. (w, Inr (replicate n CHR ''s''))), hl_IDKey = (\<lambda>p s t m th n. if t < 1 \<or> th < 1 then None else Some (s @ p)),
     hl_GenerateFromPassword = (\<lambda>p c w. (w, Inr p)),
     hl_CompareHashAndPassword = (\<lambda>h p. if h = p then None else Some (ErrNew ''mismatch''))\<rparr>"

definition demo_pass :: "(string \<rightharpoonup> string) pass_auth" where
  "demo_pass = \<lparr>pt_modName = ''pass_table'',
     pt_Lookup_table = (\<lambda>k w. case w k of None \<Rightarrow> (w, [], False, None) | Some v \<Rightarrow> (w, v, True, None)),
     pt_mutable = Some \<lparr>mt_Keys = (\<lambda>w. (w, Inr [])), mt_RemoveKey = (\<lambda>k w. (w(k := None), None)),
       mt_SetKey = (\<lambda>k v w. (w(k \<mapsto> v), None))\<rparr>\<rparr>"

definition demo_opts :: hash_opts where
  "demo_opts = \<lparr>ho_BcryptCost = 10, ho_Argon2Time = 3, ho_Argon2Memory = 1024, ho_Argon2Threads = 1\<rparr>"

theorem created_user_authenticates_witness:
  "\<exists>w' w''. CreateUserHash ascii_lib (init_hashes demo_hash_lib) demo_pass ''a'' ''secret'' ''argon2'' demo_opts Map.empty = Some (w', None)
    \<and> pt_AuthPlain ascii_lib (init_hashes demo_hash_lib) demo_pass ''a'' ''secret'' w' = Some (w'', None)"
proof -
  have laws: "bcrypt_checks demo_hash_lib" "stored_found demo_pass"
    by (auto simp: bcrypt_checks_def demo_hash_lib_def stored_found_def demo_pass_def)
  obtain w' where "CreateUserHash ascii_lib (init_hashes demo_hash_lib) demo_pass ''a'' ''secret'' ''argon2'' demo_opts Map.empty = Some (w', None)"
    by (simp add: CreateUserHash_def init_hashes_def demo_pass_def demo_opts_def computeArgon2_def demo_hash_lib_def ascii_lib_def)
  then show ?thesis using created_user_authenticates [of _ _ demo_pass _ _ _ _ _ w', OF _ _ laws] by blast
qed

section \<open>Observations\<close>

text \<open>A stored Argon2 hash without its five parts panics when a password is checked.\<close>

lemma malformed_argon2_panics: "verifyArgon2 lib pass ''3'' = None"
proof -
  have "SplitN (CHR '':'') 5 ''3'' = [''3'']" by (simp add: SplitN_free)
  moreover have "FormatUint 3 = ''3''" by code_simp
  then have "ParseUint 32 ''3'' = Some 3" using ParseUint_FormatUint [of 3 32] by simp
  ultimately show ?thesis by (simp add: verifyArgon2_def parsed_def)
qed

text \<open>An error of the table is reported as unknown credentials.\<close>

lemma table_error_masked:
  assumes "precis_CaseMapped txt user = (key, None)" "pt_Lookup_table a key w = (w', v, False, Some err)"
  shows "pt_AuthPlain txt hs a user pass w = Some (w', Some ErrUnknownCredentials)"
  using assms by (simp add: pt_AuthPlain_def)

text \<open>The hash listed first in \<open>Hashes\<close> is not registered.\<close>

lemma sha256_not_registered: "HashCompute (init_hashes lib) ''sha256'' = None"
  by (simp add: init_hashes_def)

end
