(* ===== verification/Checks.thy ===== *)
theory Checks
  imports CheckAction SmtpSession Tables DnsExt
begin

text \<open>
  Checks of messages: the wrapper of checks without a state (\<open>internal/check/stateless_check.go\<close>), the
  checks of the connection and of the sender (\<open>internal/check/requiretls\<close>, \<open>internal/check/dns\<close>) and the
  block lists (\<open>internal/check/dnsbl\<close>). The answers of DNS are those of a resolver at the time of the
  check.
\<close>

text \<open>The error of a failed check.\<close>

definition check_err :: "string \<Rightarrow> int \<Rightarrow> enh_code \<Rightarrow> string \<Rightarrow> go_err option \<Rightarrow> go_err" where
  "check_err name code ench msg err = SMTPError code ench msg name [] err [] []"

definition fail_with :: "go_err \<Rightarrow> 'a check_result" where
  "fail_with err = empty_result\<lparr>cr_Reason := Some err\<rparr>"

section \<open>Checks without a state\<close>

text \<open>What checks read of the connection: the future of the reverse name as its value, \<open>None\<close> where the
  lookup is disabled.\<close>

record conn_info =
  ci_Hostname :: string
  ci_AuthUser :: string
  ci_HandshakeComplete :: bool
  ci_RDNSName :: "(go_err + string option) option"

record 'a stateless_check =
  sl_failAction :: fail_action
  sl_connCheck :: "(conn_info option \<Rightarrow> 'a check_result) option"
  sl_senderCheck :: "(conn_info option \<Rightarrow> string \<Rightarrow> 'a check_result) option"
  sl_rcptCheck :: "(conn_info option \<Rightarrow> string \<Rightarrow> 'a check_result) option"
  sl_bodyCheck :: "(conn_info option \<Rightarrow> header \<Rightarrow> string \<Rightarrow> 'a check_result) option"

definition sl_CheckConnection :: "'a stateless_check \<Rightarrow> conn_info option \<Rightarrow> 'a check_result" where
  "sl_CheckConnection c conn =
    (case sl_connCheck c of None \<Rightarrow> empty_result | Some f \<Rightarrow> Apply_action (sl_failAction c) (f conn))"

definition sl_CheckSender :: "'a stateless_check \<Rightarrow> conn_info option \<Rightarrow> string \<Rightarrow> 'a check_result" where
  "sl_CheckSender c conn mailFrom =
    (case sl_senderCheck c of None \<Rightarrow> empty_result | Some f \<Rightarrow> Apply_action (sl_failAction c) (f conn mailFrom))"

definition sl_CheckRcpt :: "'a stateless_check \<Rightarrow> conn_info option \<Rightarrow> string \<Rightarrow> 'a check_result" where
  "sl_CheckRcpt c conn rcptTo =
    (case sl_rcptCheck c of None \<Rightarrow> empty_result | Some f \<Rightarrow> Apply_action (sl_failAction c) (f conn rcptTo))"

definition sl_CheckBody :: "'a stateless_check \<Rightarrow> conn_info option \<Rightarrow> header \<Rightarrow> string \<Rightarrow> 'a check_result" where
  "sl_CheckBody c conn hdr body =
    (case sl_bodyCheck c of None \<Rightarrow> empty_result | Some f \<Rightarrow> Apply_action (sl_failAction c) (f conn hdr body))"

text \<open>The constructor that \<open>RegisterStatelessCheck\<close> registers, with the action of \<open>Init\<close>: the one
  of the directive, or the default.\<close>

definition RegisterStatelessCheck ::
  "string \<Rightarrow> fail_action \<Rightarrow> (conn_info option \<Rightarrow> 'a check_result) option
    \<Rightarrow> (conn_info option \<Rightarrow> string \<Rightarrow> 'a check_result) option \<Rightarrow> (conn_info option \<Rightarrow> string \<Rightarrow> 'a check_result) option
    \<Rightarrow> (conn_info option \<Rightarrow> header \<Rightarrow> string \<Rightarrow> 'a check_result) option
    \<Rightarrow> string list \<Rightarrow> fail_action option \<Rightarrow> go_err + 'a stateless_check" where
  "RegisterStatelessCheck modName defaultFailAction connCheck senderCheck rcptCheck bodyCheck inlineArgs failAction =
    (if inlineArgs \<noteq> [] then Inl (ErrNew (modName @ '': inline arguments are not used''))
     else Inr \<lparr>sl_failAction = (case failAction of None \<Rightarrow> defaultFailAction | Some a \<Rightarrow> a), sl_connCheck = connCheck,
       sl_senderCheck = senderCheck, sl_rcptCheck = rcptCheck, sl_bodyCheck = bodyCheck\<rparr>)"

section \<open>TLS\<close>

definition requireTLS :: "conn_info option \<Rightarrow> 'a check_result" where
  "requireTLS conn =
    (case conn of
       Some c \<Rightarrow> if ci_HandshakeComplete c then empty_result
         else fail_with (check_err ''require_tls'' 550 (5, 7, 1) ''TLS conversation required'' None)
     | None \<Rightarrow> fail_with (check_err ''require_tls'' 550 (5, 7, 1) ''TLS conversation required'' None))"

section \<open>DNS\<close>

definition dns_failure :: "string \<Rightarrow> enh_code \<Rightarrow> go_err \<Rightarrow> go_err" where
  "dns_failure name ench err =
    (case UnwrapDNSErr err of
       (reason, misc) \<Rightarrow> SMTPError (SMTPCode err 450 550) (SMTPEnchCode err ench) ''DNS error during policy check'' name [] (Some err) reason misc)"

definition requireMatchingRDNS :: "text_lib \<Rightarrow> conn_info option \<Rightarrow> 'a check_result" where
  "requireMatchingRDNS lib conn =
    (case conn of None \<Rightarrow> empty_result | Some c \<Rightarrow>
     case ci_RDNSName c of
       None \<Rightarrow> empty_result
     | Some (Inl err) \<Rightarrow> fail_with (dns_failure ''require_matching_rdns'' (0, 7, 25) err)
     | Some (Inr None) \<Rightarrow> fail_with (check_err ''require_matching_rdns'' 550 (5, 7, 25) ''No PTR record found'' None)
     | Some (Inr (Some rdnsName)) \<Rightarrow>
        (let srcDomain = TrimSuffix (ci_Hostname c) ''.''; rdnsName = TrimSuffix rdnsName ''.''
         in if dns_Equal lib rdnsName srcDomain then empty_result
            else fail_with (check_err ''require_matching_rdns'' 550 (5, 7, 25) ''rDNS name does not match source hostname'' None)))"

definition requireMXRecord :: "(string \<Rightarrow> go_err + mx_record list) \<Rightarrow> string \<Rightarrow> 'a check_result" where
  "requireMXRecord LookupMX mailFrom =
    (if mailFrom = [] then empty_result
     else case Split mailFrom of
       (_, _, Some err) \<Rightarrow> fail_with (check_err ''require_mx_record'' 501 (5, 1, 8) ''Malformed sender address'' None)
     | (_, domain, None) \<Rightarrow>
        if domain = [] then fail_with (check_err ''require_mx_record'' 501 (5, 1, 8) ''No domain part in address'' None)
        else (case LookupMX domain of
            Inl err \<Rightarrow> fail_with (dns_failure ''require_mx_record'' (0, 7, 0) err)
          | Inr srcMx \<Rightarrow>
             if srcMx = [] then
               fail_with (check_err ''require_mx_record'' 501 (5, 7, 27) ''Domain in MAIL FROM does not have any MX records'' None)
             else if list_ex (\<lambda>mx. mx_Host mx = ''.'') srcMx then
               fail_with (check_err ''require_mx_record'' 501 (5, 7, 27) ''Domain in MAIL FROM has null MX record'' None)
             else empty_result))"

section \<open>IP addresses\<close>

text \<open>Addresses of \<open>net\<close> as their bytes, 4 or 16 of them, and networks as the bytes of number and mask.\<close>

type_synonym ip = "nat list"

definition To4 :: "ip \<Rightarrow> ip option" where
  "To4 ip =
    (if length ip = 4 then Some ip
     else if length ip = 16 \<and> take 10 ip = replicate 10 0 \<and> ip ! 10 = 255 \<and> ip ! 11 = 255 then Some (drop 12 ip)
     else None)"

definition byte_and :: "nat \<Rightarrow> nat \<Rightarrow> nat" where
  "byte_and a b = and a b"

definition IPNet_Contains :: "ip \<times> ip \<Rightarrow> ip \<Rightarrow> bool" where
  "IPNet_Contains net ip =
    (let nn = (case To4 (fst net) of Some x \<Rightarrow> x | None \<Rightarrow> fst net);
         m = (if length (snd net) = 16 \<and> length nn = 4 then drop 12 (snd net) else snd net);
         ip = (case To4 ip of Some x \<Rightarrow> x | None \<Rightarrow> ip)
     in (length nn = 4 \<or> length nn = 16) \<and> length m = length nn \<and> length ip = length nn
        \<and> list_all (\<lambda>i. byte_and (nn ! i) (m ! i) = byte_and (ip ! i) (m ! i)) [0..<length ip])"

definition queryString :: "ip \<Rightarrow> string" where
  "queryString ip =
    (case To4 ip of
       Some ip \<Rightarrow> Join ''.'' (map FormatUint (rev ip))
     | None \<Rightarrow> Join ''.'' (map (\<lambda>octet. show_nat_base 16 (octet mod 16) @ ''.'' @ show_nat_base 16 (octet div 16)) (rev ip)))"

text \<open>\<open>IP.String\<close>: the first longest run of at least two zero groups is left out.\<close>

fun ip_groups :: "ip \<Rightarrow> nat list" where
  "ip_groups (a # b # ip) = (a * 256 + b) # ip_groups ip"
| "ip_groups _ = []"

definition zero_run :: "nat list \<Rightarrow> (nat \<times> nat) option" where
  "zero_run gs = foldl (\<lambda>best i.
     let l = length (takeWhile (\<lambda>g. g = 0) (drop i gs))
     in if 2 \<le> l \<and> (case best of None \<Rightarrow> True | Some (s, e) \<Rightarrow> e - s < l) then Some (i, i + l) else best)
     None [0..<length gs]"

definition ip_String :: "ip \<Rightarrow> string" where
  "ip_String ip =
    (case To4 ip of
       Some ip \<Rightarrow> Join ''.'' (map FormatUint ip)
     | None \<Rightarrow>
        if length ip = 16 then
          (let gs = ip_groups ip; hex = (\<lambda>gs. Join '':'' (map (show_nat_base 16) gs)) in
           case zero_run gs of None \<Rightarrow> hex gs | Some (s, e) \<Rightarrow> hex (take s gs) @ ''::'' @ hex (drop e gs))
        else if ip = [] then ''<nil>'' else ''?'' @ hex_EncodeToString ip)"

section \<open>Block lists\<close>

record bl_list =
  bl_Zone :: string
  bl_ClientIPv4 :: bool
  bl_ClientIPv6 :: bool
  bl_EHLO :: bool
  bl_MAILFROM :: bool
  bl_ScoreAdj :: int
  bl_Responses :: "(ip \<times> ip) list"

definition defaultBL :: bl_list where
  "defaultBL = \<lparr>bl_Zone = [], bl_ClientIPv4 = True, bl_ClientIPv6 = False, bl_EHLO = False, bl_MAILFROM = False,
     bl_ScoreAdj = 0, bl_Responses = []\<rparr>"

record bl_resolver =
  br_LookupHost :: "string \<Rightarrow> go_err + string list"
  br_LookupIPAddr :: "string \<Rightarrow> go_err + ip list"
  br_LookupTXT :: "string \<Rightarrow> go_err + string list"

text \<open>What a check of a list returns: nil, a \<open>ListedErr\<close> or another error.\<close>

datatype list_outcome =
    NotListed
  | ListedErr (le_Identity: string) (le_List: string) (le_Reason: string)
  | LookupErr go_err

text \<open>An error of a lookup; a name that is not found is not listed.\<close>

definition lookup_failed :: "go_err \<Rightarrow> list_outcome" where
  "lookup_failed err = (case err of DNSError _ _ _ _ _ True \<Rightarrow> NotListed | _ \<Rightarrow> LookupErr err)"

definition listed :: "bl_resolver \<Rightarrow> string \<Rightarrow> bl_list \<Rightarrow> string \<Rightarrow> string list \<Rightarrow> list_outcome" where
  "listed res identity cfg query addrs =
    (case br_LookupTXT res query of
       Inr (t # txts) \<Rightarrow> ListedErr identity (bl_Zone cfg) (Join ''; '' (t # txts))
     | _ \<Rightarrow> ListedErr identity (bl_Zone cfg) (Join ''; '' addrs))"

definition checkDomain :: "bl_resolver \<Rightarrow> bl_list \<Rightarrow> string \<Rightarrow> list_outcome" where
  "checkDomain res cfg domain =
    (let query = domain @ ''.'' @ bl_Zone cfg in
     case br_LookupHost res query of
       Inl err \<Rightarrow> lookup_failed err
     | Inr addrs \<Rightarrow> if addrs = [] then NotListed else listed res domain cfg query addrs)"

definition checkIP :: "bl_resolver \<Rightarrow> bl_list \<Rightarrow> ip \<Rightarrow> list_outcome" where
  "checkIP res cfg ip =
    (let ipv6 = (To4 ip = None); ip = (case To4 ip of Some ipv4 \<Rightarrow> ipv4 | None \<Rightarrow> ip) in
     if ipv6 \<and> \<not> bl_ClientIPv6 cfg \<or> \<not> ipv6 \<and> \<not> bl_ClientIPv4 cfg then NotListed
     else let query = queryString ip @ ''.'' @ bl_Zone cfg in
       (case br_LookupIPAddr res query of
          Inl err \<Rightarrow> lookup_failed err
        | Inr addrs \<Rightarrow>
           let filteredAddrs = filter (\<lambda>addr. bl_Responses cfg = [] \<or> list_ex (\<lambda>respNet. IPNet_Contains respNet addr) (bl_Responses cfg)) addrs
           in if filteredAddrs = [] then NotListed else listed res (ip_String ip) cfg query (map ip_String filteredAddrs)))"

definition checkList_mailFrom :: "text_lib \<Rightarrow> bl_resolver \<Rightarrow> bl_list \<Rightarrow> string \<Rightarrow> string \<Rightarrow> list_outcome" where
  "checkList_mailFrom lib res l ehlo mailFrom =
    (if bl_MAILFROM l \<and> mailFrom \<noteq> [] then
       (case Split mailFrom of
          (_, _, Some err) \<Rightarrow> NotListed
        | (_, domain, None) \<Rightarrow>
           if domain = [] then NotListed
           else if bl_EHLO l \<and> dns_Equal lib domain ehlo then NotListed
           else checkDomain res l domain)
     else NotListed)"

definition checkList :: "text_lib \<Rightarrow> bl_resolver \<Rightarrow> bl_list \<Rightarrow> ip \<Rightarrow> string \<Rightarrow> string \<Rightarrow> list_outcome" where
  "checkList lib res l ip ehlo mailFrom =
    (case (if bl_ClientIPv4 l \<or> bl_ClientIPv6 l then checkIP res l ip else NotListed) of
       NotListed \<Rightarrow>
        if bl_EHLO l \<and> ehlo \<noteq> [] then
          if HasPrefix ehlo ''['' \<and> HasSuffix ehlo '']'' then NotListed
          else (case checkDomain res l ehlo of NotListed \<Rightarrow> checkList_mailFrom lib res l ehlo mailFrom | err \<Rightarrow> err)
        else checkList_mailFrom lib res l ehlo mailFrom
     | err \<Rightarrow> err)"

record dnsbl =
  db_checkEarly :: bool
  db_bls :: "bl_list list"
  db_quarantineThres :: int
  db_rejectThres :: int

text \<open>The lists are checked concurrently; \<open>order\<close> lists them in the order in which their checks end,
  so that \<open>Wait\<close> returns the first error in it.\<close>

fun first_err :: "list_outcome list \<Rightarrow> go_err option" where
  "first_err [] = None"
| "first_err (LookupErr err # os) = Some err"
| "first_err (_ # os) = first_err os"

definition is_listed :: "list_outcome \<Rightarrow> bool" where
  "is_listed out = (case out of ListedErr _ _ _ \<Rightarrow> True | _ \<Rightarrow> False)"

text \<open>The score is an \<open>int\<close>: every addition wraps around.\<close>

definition bl_score :: "(bl_list \<Rightarrow> list_outcome) \<Rightarrow> bl_list list \<Rightarrow> int" where
  "bl_score check order = foldl (\<lambda>score l. if is_listed (check l) then wrap64 (score + bl_ScoreAdj l) else score) 0 order"

definition dnsbl_err :: "int \<Rightarrow> enh_code \<Rightarrow> string \<Rightarrow> go_err option \<Rightarrow> go_err" where
  "dnsbl_err code ench msg err = check_err ''dnsbl'' code ench msg err"

definition checkLists :: "text_lib \<Rightarrow> bl_resolver \<Rightarrow> dnsbl \<Rightarrow> bl_list list \<Rightarrow> ip \<Rightarrow> string \<Rightarrow> string \<Rightarrow> 'a check_result" where
  "checkLists lib res bl order ip ehlo mailFrom =
    (let check = (\<lambda>l. checkList lib res l ip ehlo mailFrom); score = bl_score check order in
     case first_err (map check order) of
       Some err \<Rightarrow> (fail_with (dnsbl_err (SMTPCode err 451 554) (SMTPEnchCode err (0, 7, 0)) ''DNS error during policy check'' (Some err)))
         \<lparr>cr_Reject := True\<rparr>
     | None \<Rightarrow>
        if db_rejectThres bl \<le> score then
          (fail_with (dnsbl_err 554 (5, 7, 0) ''Client identity is listed in the used DNSBL'' None))\<lparr>cr_Reject := True\<rparr>
        else if db_quarantineThres bl \<le> score then
          (fail_with (dnsbl_err 554 (5, 7, 0) ''Client identity is listed in the used DNSBL'' None))\<lparr>cr_Quarantine := True\<rparr>
        else empty_result)"

text \<open>The check of a connection before its first command: the error, and the result that is kept in
  the data of the connection for the state of its messages.\<close>

definition dnsbl_CheckConnection ::
  "text_lib \<Rightarrow> bl_resolver \<Rightarrow> dnsbl \<Rightarrow> bl_list list \<Rightarrow> ip option \<Rightarrow> string \<Rightarrow> go_err option \<times> 'a check_result option" where
  "dnsbl_CheckConnection lib res bl order remoteIP hostname =
    (case remoteIP of
       None \<Rightarrow> (None, None)
     | Some ip \<Rightarrow>
        (let result = checkLists lib res bl order ip hostname [] in
         if cr_Reject result \<and> db_checkEarly bl then (cr_Reason result, None) else (None, Some result)))"

definition dnsbl_state_CheckConnection :: "'a check_result option option \<Rightarrow> 'a check_result" where
  "dnsbl_state_CheckConnection conn =
    (case conn of None \<Rightarrow> empty_result | Some modData \<Rightarrow> (case modData of Some result \<Rightarrow> result | None \<Rightarrow> empty_result))"

text \<open>The lists of the configuration: those of the arguments, and those of a block after its
  directives were read into \<open>listCfg\<close> and \<open>responseNets\<close>. \<open>ParseCIDR\<close> is the one of \<open>net\<close>.\<close>

definition inline_lists :: "string list \<Rightarrow> bl_list list" where
  "inline_lists inlineBls = map (\<lambda>z. defaultBL\<lparr>bl_Zone := z\<rparr>) inlineBls"

fun response_nets :: "(string \<Rightarrow> go_err + (ip \<times> ip)) \<Rightarrow> string list \<Rightarrow> go_err + (ip \<times> ip) list" where
  "response_nets ParseCIDR [] = Inr []"
| "response_nets ParseCIDR (resp # resps) =
     (case ParseCIDR (if \<not> Contains resp ''/'' then resp @ ''/32'' else resp) of
        Inl err \<Rightarrow> Inl err
      | Inr ipNet \<Rightarrow> (case response_nets ParseCIDR resps of Inl err \<Rightarrow> Inl err | Inr nets \<Rightarrow> Inr (ipNet # nets)))"

definition readListCfg :: "(string \<Rightarrow> go_err + (ip \<times> ip)) \<Rightarrow> node \<Rightarrow> bl_list \<Rightarrow> string list \<Rightarrow> dnsbl \<Rightarrow> go_err + dnsbl" where
  "readListCfg ParseCIDR nd listCfg responseNets bl =
    (case response_nets ParseCIDR responseNets of
       Inl err \<Rightarrow> Inl err
     | Inr nets \<Rightarrow>
        (let listCfg = listCfg\<lparr>bl_Responses := bl_Responses listCfg @ nets\<rparr> in
         if bl_ScoreAdj listCfg < 0 \<and> bl_EHLO listCfg then Inl (ErrNew ''dnsbl: 'ehlo' should not be used with negative score'')
         else if bl_ScoreAdj listCfg < 0 \<and> bl_MAILFROM listCfg then Inl (ErrNew ''dnsbl: 'mailfrom' should not be used with negative score'')
         else Inr (bl\<lparr>db_bls := db_bls bl @ map (\<lambda>z. listCfg\<lparr>bl_Zone := z\<rparr>) (n_Name nd # n_Args nd)\<rparr>)))"

text \<open>The test of a list: the messages it logs. A pair of identities must and must not be listed; an
  error ends the test.\<close>

definition test_pair :: "list_outcome \<Rightarrow> string \<Rightarrow> list_outcome \<Rightarrow> string \<Rightarrow> string list \<times> bool" where
  "test_pair must msg1 mustNot msg2 =
    (let l1 = (if must = NotListed then [msg1] else []) in
     case must of LookupErr err \<Rightarrow> ([''lookup error, bailing out''], False)
     | _ \<Rightarrow> (case mustNot of
         LookupErr err \<Rightarrow> (l1 @ [''lookup error, bailing out''], False)
       | ListedErr _ _ _ \<Rightarrow> (l1 @ [msg2], True)
       | NotListed \<Rightarrow> (l1, True)))"

definition mapped_ip :: "nat list \<Rightarrow> ip" where
  "mapped_ip b = replicate 10 0 @ [255, 255] @ b"

fun run_tests :: "(bool \<times> string list \<times> bool) list \<Rightarrow> string list" where
  "run_tests [] = []"
| "run_tests ((enabled, msgs, continue) # ts) = (if \<not> enabled then run_tests ts else if continue then msgs @ run_tests ts else msgs)"

definition testList :: "bl_resolver \<Rightarrow> bl_list \<Rightarrow> string list" where
  "testList res l = run_tests
    [(bl_ClientIPv4 l, test_pair (checkIP res l (mapped_ip [127, 0, 0, 2])) ''List does not contain a test record for 127.0.0.2''
        (checkIP res l (mapped_ip [127, 0, 0, 1])) ''List contains a record for 127.0.0.1''),
     (bl_ClientIPv6 l, test_pair (checkIP res l (mapped_ip [127, 0, 0, 2])) ''List does not contain a test record for ::FFFF:7F00:2''
        (checkIP res l (mapped_ip [127, 0, 0, 1])) ''List contains a record for ::FFFF:7F00:1''),
     (bl_EHLO l \<or> bl_MAILFROM l, test_pair (checkDomain res l ''test'') ''List does not contain a test record for 'test' TLD''
        (checkDomain res l ''invalid'') ''List contains a record for 'invalid' TLD'')]"

end
