(* ===== verification/SpfDkim.thy ===== *)
theory SpfDkim
  imports Checks Dmarc
begin

text \<open>
  The checks of the sender policy framework (\<open>internal/check/spf\<close>) and of signatures
  (\<open>internal/check/dkim\<close>). The evaluation of SPF policies and the verification of signatures are
  library code and enter as records; the channel of the asynchronous evaluation is a part of the state.
\<close>

section \<open>SPF\<close>

datatype spf_res = SpfNone | SpfNeutral | SpfPass | SpfFail | SpfSoftFail | SpfTempError | SpfPermError | SpfOther string

record spf_auth = spf_result +
  sa_Reason :: string

record spf_check =
  sk_enforceEarly :: bool
  sk_noneAction :: fail_action
  sk_neutralAction :: fail_action
  sk_failAction :: fail_action
  sk_softfailAction :: fail_action
  sk_permerrAction :: fail_action
  sk_temperrAction :: fail_action

text \<open>The library: the evaluation of an address, a HELO name and a sender, \<open>None\<close> for a panic.\<close>

record spf_lib =
  sl_CheckHostWithSender :: "string \<Rightarrow> string \<Rightarrow> string \<Rightarrow> (spf_res \<times> go_err option) option"
  sl_dmarc :: dmarc_lib
  sl_text :: text_lib
  sl_LookupTXT :: "string \<Rightarrow> string list \<times> go_err option"

definition spf_err :: "int \<Rightarrow> enh_code \<Rightarrow> string \<Rightarrow> go_err option \<Rightarrow> go_err" where
  "spf_err code ench msg err = check_err ''check.spf'' code ench msg err"

definition spfResult :: "spf_check \<Rightarrow> string \<Rightarrow> string \<Rightarrow> spf_res \<Rightarrow> go_err option \<Rightarrow> spf_auth check_result" where
  "spfResult c originalFrom hostname res err =
    (let auth = (\<lambda>v. \<lparr>sp_Value = v, sp_From = fst (snd (Split originalFrom)), sp_Helo = hostname,
           sa_Reason = (case err of Some e \<Rightarrow> err_string e | None \<Rightarrow> if res = SpfNone then ''no policy'' else [])\<rparr>);
         fail = (\<lambda>v code ench msg. (fail_with (spf_err code ench msg err))\<lparr>cr_AuthResult := [auth v]\<rparr>) in
     case res of
       SpfNone \<Rightarrow> Apply_action (sk_noneAction c) (fail resNone 550 (5, 7, 23) ''No SPF policy'')
     | SpfNeutral \<Rightarrow> Apply_action (sk_neutralAction c) (fail ''neutral'' 550 (5, 7, 23) ''Neutral SPF result is not permitted'')
     | SpfPass \<Rightarrow> empty_result\<lparr>cr_AuthResult := [auth resPass]\<rparr>
     | SpfFail \<Rightarrow> Apply_action (sk_failAction c) (fail resFail 550 (5, 7, 23) ''SPF authentication failed'')
     | SpfSoftFail \<Rightarrow> Apply_action (sk_softfailAction c) (fail ''softfail'' 550 (5, 7, 23) ''SPF authentication soft-failed'')
     | SpfTempError \<Rightarrow> Apply_action (sk_temperrAction c)
         (fail resTempError 451 (4, 7, 23) ''SPF authentication failed with a temporary error'')
     | SpfPermError \<Rightarrow> Apply_action (sk_permerrAction c)
         (fail resPermError 550 (5, 7, 23) ''SPF authentication failed with a permanent error'')
     | SpfOther s \<Rightarrow> fail resNone 550 (4, 7, 23) (''Unknown SPF status: '' @ s))"

definition relyOnDMARC :: "spf_lib \<Rightarrow> header \<Rightarrow> bool" where
  "relyOnDMARC lib hdr =
    (case ExtractFromDomain (sl_dmarc lib) hdr of
       Inl err \<Rightarrow> False
     | Inr fromDomain \<Rightarrow>
        (case FetchRecord (sl_dmarc lib) (sl_LookupTXT lib) fromDomain of
           (_, _, Some err) \<Rightarrow> False
         | (_, None, None) \<Rightarrow> False
         | (policyDomain, Some rec, None) \<Rightarrow>
            (let policy = (if \<not> dns_Equal (sl_text lib) policyDomain fromDomain
                then (case dr_SubdomainPolicy rec of Some p \<Rightarrow> p | None \<Rightarrow> dr_Policy rec) else dr_Policy rec)
             in policy \<noteq> PolicyNone)))"

definition prepareMailFrom :: "spf_lib \<Rightarrow> string \<Rightarrow> go_err + string" where
  "prepareMailFrom lib fromAddr =
    (let malformed = check_err ''spf'' 550 (5, 1, 7) ''Malformed address'' None in
     case Split fromAddr of
       (_, _, Some err) \<Rightarrow> Inl malformed
     | (fromMbox, fromDomain, None) \<Rightarrow>
        (case idna_ToASCII (sl_text lib) fromDomain of
           (_, Some err) \<Rightarrow> Inl malformed
         | (fromDomain, None) \<Rightarrow>
            Inr ((if \<not> IsASCII fromMbox then [] else fromMbox) @ ''@'' @ dl_FQDN (sl_dmarc lib) fromDomain)))"

text \<open>The channel of the evaluation: nothing was or will be sent, a value, or closed after a panic.\<close>

datatype spf_chan = NoFetch | Fetched "spf_res \<times> go_err option" | FetchClosed

record spf_state =
  st_skip :: bool
  st_fetch :: spf_chan

definition spf_state_init :: spf_state where
  "spf_state_init = \<lparr>st_skip = False, st_fetch = NoFetch\<rparr>"

text \<open>\<open>CheckConnection\<close>; the connection is its host name and address, \<open>None\<close> for one that is not TCP.
  Without early enforcement the evaluation runs beside, and the channel holds what it sends. A panic
  of the early evaluation is \<open>None\<close>.\<close>

definition spf_CheckConnection ::
  "spf_lib \<Rightarrow> spf_check \<Rightarrow> string \<Rightarrow> (string \<times> string option) option \<Rightarrow> spf_state \<Rightarrow> (spf_state \<times> spf_auth check_result) option" where
  "spf_CheckConnection lib c originalFrom conn s =
    (case conn of
       None \<Rightarrow> Some (s\<lparr>st_skip := True\<rparr>, empty_result)
     | Some (hostname, None) \<Rightarrow> Some (s\<lparr>st_skip := True\<rparr>, empty_result)
     | Some (hostname, Some ip) \<Rightarrow>
        (case prepareMailFrom lib (if originalFrom = [] then ''postmaster@'' @ hostname else originalFrom) of
           Inl err \<Rightarrow> Some (s\<lparr>st_skip := True\<rparr>, (fail_with err)\<lparr>cr_Reject := True\<rparr>)
         | Inr mailFrom \<Rightarrow>
            (let eval = sl_CheckHostWithSender lib ip (dl_FQDN (sl_dmarc lib) hostname) mailFrom in
             if sk_enforceEarly c then
               (case eval of None \<Rightarrow> None | Some (res, err) \<Rightarrow> Some (s, spfResult c originalFrom hostname res err))
             else Some (s\<lparr>st_fetch := (case eval of None \<Rightarrow> FetchClosed | Some r \<Rightarrow> Fetched r)\<rparr>, empty_result))))"

text \<open>\<open>CheckBody\<close>; no outcome when it waits forever.\<close>

definition spf_CheckBody ::
  "spf_lib \<Rightarrow> spf_check \<Rightarrow> string \<Rightarrow> string \<Rightarrow> header \<Rightarrow> spf_state \<Rightarrow> (spf_state \<times> spf_auth check_result) list" where
  "spf_CheckBody lib c originalFrom hostname hdr s =
    (if sk_enforceEarly c \<or> st_skip s then [(s, empty_result)]
     else case st_fetch s of
       NoFetch \<Rightarrow> []
     | FetchClosed \<Rightarrow> [(s, (fail_with (WithTemporary (WithFields (ErrNew ''panic recovered'')
           [(''check'', FStr ''spf''), (''smtp_msg'', FStr ''Internal error during policy check'')]) True))\<lparr>cr_Reject := True\<rparr>)]
     | Fetched (res, err) \<Rightarrow>
        [(s\<lparr>st_fetch := NoFetch\<rparr>,
          if relyOnDMARC lib hdr then (spfResult c originalFrom hostname res err)\<lparr>cr_Quarantine := False, cr_Reject := False\<rparr>
          else spfResult c originalFrom hostname res err)])"

section \<open>DKIM\<close>

text \<open>\<open>CanonicalMIMEHeaderKey\<close> of \<open>net/textproto\<close>: keys with other bytes than those of tokens stay.\<close>

definition token_byte :: "char \<Rightarrow> bool" where
  "token_byte c = (is_digit c \<or> (65 \<le> byte_of c \<and> byte_of c \<le> 90) \<or> (97 \<le> byte_of c \<and> byte_of c \<le> 122)
     \<or> c \<in> set ''!#$%&*+-.^_`|~'' \<or> byte_of c = 39)"

definition upper_byte :: "char \<Rightarrow> char" where
  "upper_byte c = (if 97 \<le> byte_of c \<and> byte_of c \<le> 122 then char_of (byte_of c - 32) else c)"

definition lower_byte :: "char \<Rightarrow> char" where
  "lower_byte c = (if 65 \<le> byte_of c \<and> byte_of c \<le> 90 then char_of (byte_of c + 32) else c)"

fun canonical_loop :: "bool \<Rightarrow> string \<Rightarrow> string" where
  "canonical_loop upper [] = []"
| "canonical_loop upper (c # cs) = (if upper then upper_byte c else lower_byte c) # canonical_loop (c = CHR ''-'') cs"

definition CanonicalMIMEHeaderKey :: "string \<Rightarrow> string" where
  "CanonicalMIMEHeaderKey s = (if list_all token_byte s then canonical_loop True s else s)"

record dkim_auth = dkim_result +
  da_Reason :: string
  da_Identifier :: string

record verification =
  vf_Domain :: string
  vf_Identifier :: string
  vf_HeaderKeys :: "string list"
  vf_Err :: "go_err option"

record dkim_lib =
  kl_Verify :: "header \<Rightarrow> string \<Rightarrow> go_err + verification list"
  kl_IsPermFail :: "go_err \<Rightarrow> bool"
  kl_IsTempFail :: "go_err \<Rightarrow> bool"

record dkim_check =
  kc_requiredFields :: "string list"
  kc_brokenSigAction :: fail_action
  kc_noSigAction :: fail_action
  kc_failOpen :: bool

text \<open>The set of required fields that \<open>Init\<close> builds, after the directives were read.\<close>

definition required_fields :: "string list \<Rightarrow> string list" where
  "required_fields requiredFields = remdups (map CanonicalMIMEHeaderKey requiredFields)"

definition verif_result :: "dkim_lib \<Rightarrow> dkim_check \<Rightarrow> verification \<Rightarrow> dkim_auth" where
  "verif_result lib c v =
    (case vf_Err v of
       Some err \<Rightarrow>
        (let val = (if kl_IsTempFail lib err then resTempError else if kl_IsPermFail lib err then resPermError else resFail)
         in \<lparr>dk_Value = val, dk_Domain = vf_Domain v, da_Reason = TrimPrefix (err_string err) ''dkim: '', da_Identifier = vf_Identifier v\<rparr>)
     | None \<Rightarrow>
        (let signedFields = map CanonicalMIMEHeaderKey (vf_HeaderKeys v);
             unsigned = list_ex (\<lambda>field. field \<notin> set signedFields) (kc_requiredFields c)
         in \<lparr>dk_Value = (if unsigned then resPermError else resPass), dk_Domain = vf_Domain v,
             da_Reason = (if unsigned then ''some header fields are not signed'' else []), da_Identifier = vf_Identifier v\<rparr>))"

text \<open>The loop over the verifications: the results and whether one passed, or the temporary error that
  ends it.\<close>

fun verify_loop :: "dkim_lib \<Rightarrow> dkim_check \<Rightarrow> verification list \<Rightarrow> dkim_auth list \<Rightarrow> bool \<Rightarrow> go_err + dkim_auth list \<times> bool" where
  "verify_loop lib c [] results goodSigs = Inr (results, goodSigs)"
| "verify_loop lib c (v # vs) results goodSigs =
     (case vf_Err v of
        Some err \<Rightarrow>
          if kl_IsTempFail lib err \<and> \<not> kc_failOpen c then Inl err
          else verify_loop lib c vs (results @ [verif_result lib c v]) goodSigs
      | None \<Rightarrow>
          verify_loop lib c vs (results @ [verif_result lib c v]) (goodSigs \<or> dk_Value (verif_result lib c v) = resPass))"

definition dkim_internal :: "go_err \<Rightarrow> string \<Rightarrow> dkim_auth check_result" where
  "dkim_internal err msg = (fail_with (WithTemporary (WithFields err
     [(''check'', FStr ''check.dkim''), (''smtp_msg'', FStr msg)]) True))\<lparr>cr_Reject := True\<rparr>"

definition dkim_err :: "int \<Rightarrow> enh_code \<Rightarrow> string \<Rightarrow> go_err option \<Rightarrow> go_err" where
  "dkim_err code ench msg err = check_err ''check.dkim'' code ench msg err"

text \<open>\<open>CheckBody\<close>; the body is the outcome of opening it.\<close>

definition dkim_CheckBody :: "dkim_lib \<Rightarrow> dkim_check \<Rightarrow> header \<Rightarrow> go_err + string \<Rightarrow> dkim_auth check_result" where
  "dkim_CheckBody lib c hdr body =
    (if FieldsByKey hdr ''DKIM-Signature'' = [] then
       Apply_action (kc_noSigAction c) ((fail_with (dkim_err 550 (5, 7, 20) ''No DKIM signatures'' None))
         \<lparr>cr_AuthResult := [\<lparr>dk_Value = resNone, dk_Domain = [], da_Reason = [], da_Identifier = []\<rparr>]\<rparr>)
     else case body of
       Inl err \<Rightarrow> dkim_internal err ''Internal I/O error''
     | Inr b \<Rightarrow>
        (case kl_Verify lib hdr b of
           Inl err \<Rightarrow> dkim_internal err ''Internal error during policy check''
         | Inr verifications \<Rightarrow>
            (case verify_loop lib c verifications [] False of
               Inl err \<Rightarrow> (fail_with (dkim_err 421 (4, 7, 20) ''Temporary error during DKIM verification'' (Some err)))
                 \<lparr>cr_Reject := True\<rparr>
             | Inr (results, goodSigs) \<Rightarrow>
                if \<not> goodSigs then Apply_action (kc_brokenSigAction c)
                  ((fail_with (dkim_err 550 (5, 7, 20) ''No passing DKIM signatures'' None))\<lparr>cr_AuthResult := results\<rparr>)
                else empty_result\<lparr>cr_AuthResult := results\<rparr>)))"

end
