(* ===== verification/AuthorizeSender.thy ===== *)
theory AuthorizeSender
  imports Checks
begin

text \<open>
  The authorisation of senders (\<open>internal/check/authorize_sender\<close>): the address of the envelope and
  the one of the header have to belong to the authenticated user. Tables act on a world \<open>'w\<close>; the
  parsers of addresses are those of \<open>net/mail\<close>.
\<close>

record 'w authz_check =
  az_checkHeader :: bool
  az_emailPrepare :: "'w table"
  az_userToEmail :: "'w table"
  az_unauthAction :: fail_action
  az_noMatchAction :: fail_action
  az_errAction :: fail_action
  az_fromNorm :: "string \<Rightarrow> string \<times> go_err option"
  az_authNorm :: "string \<Rightarrow> string \<times> go_err option"

definition authz_err :: "int \<Rightarrow> enh_code \<Rightarrow> string \<Rightarrow> go_err option \<Rightarrow> go_err" where
  "authz_err code ench msg err = check_err ''check.authorize_sender'' code ench msg err"

text \<open>The addresses the table for preparation gives for one, or the address itself.\<close>

definition prepare_email :: "'w table \<Rightarrow> string \<Rightarrow> 'w \<Rightarrow> 'w \<times> (go_err + string list)" where
  "prepare_email tbl fromEmailNorm w =
    (case tb_LookupMulti tbl of
       Some multi \<Rightarrow>
        (case multi fromEmailNorm w of
           (w, Inl err) \<Rightarrow> (w, Inl err)
         | (w, Inr preparedEmail) \<Rightarrow> (w, Inr (if preparedEmail = [] then [fromEmailNorm] else preparedEmail)))
     | None \<Rightarrow>
        (case tb_Lookup tbl fromEmailNorm w of
           (w, _, _, Some err) \<Rightarrow> (w, Inl err)
         | (w, preparedEmail, ok, None) \<Rightarrow> (w, Inr (if \<not> ok then [fromEmailNorm] else [preparedEmail]))))"

definition authzSender :: "'w authz_check \<Rightarrow> string \<Rightarrow> string \<Rightarrow> 'w \<Rightarrow> 'w \<times> 'a check_result" where
  "authzSender c authName email w =
    (if authName = [] then
       (w, Apply_action (az_unauthAction c) (fail_with (authz_err 530 (5, 7, 0) ''Authentication required'' None)))
     else case az_fromNorm c email of
       (_, Some err) \<Rightarrow>
        (w, Apply_action (az_errAction c) (fail_with (authz_err 553 (5, 1, 7) ''Unable to normalize sender address'' (Some err))))
     | (fromEmailNorm, None) \<Rightarrow>
     case az_authNorm c authName of
       (_, Some err) \<Rightarrow>
        (w, Apply_action (az_errAction c) (fail_with (authz_err 535 (5, 7, 8) ''Unable to normalize authorization username'' None)))
     | (authNameNorm, None) \<Rightarrow>
     case prepare_email (az_emailPrepare c) fromEmailNorm w of
       (w, Inl err) \<Rightarrow>
        (w, Apply_action (az_errAction c) (fail_with (authz_err 454 (4, 7, 0) ''Internal error during policy check'' (Some err))))
     | (w, Inr preparedEmail) \<Rightarrow>
     case AuthorizeEmailUse authNameNorm preparedEmail (tb_Lookup (az_userToEmail c)) (tb_LookupMulti (az_userToEmail c)) w of
       (w, Inl err) \<Rightarrow>
        (w, Apply_action (az_errAction c) (fail_with (authz_err 454 (4, 7, 0) ''Internal error during policy check'' (Some err))))
     | (w, Inr ok) \<Rightarrow>
        if \<not> ok then
          (w, Apply_action (az_noMatchAction c) (fail_with (authz_err 553 (5, 7, 0) ''Unauthorized use of sender address'' None)))
        else (w, empty_result))"

text \<open>The checks of a message; the connection is the name of its user.\<close>

definition az_CheckSender :: "'w authz_check \<Rightarrow> string option \<Rightarrow> string \<Rightarrow> 'w \<Rightarrow> 'w \<times> 'a check_result" where
  "az_CheckSender c conn fromEmail w =
    (case conn of None \<Rightarrow> (w, empty_result) | Some authName \<Rightarrow> authzSender c authName fromEmail w)"

text \<open>The addresses of the header: the only one of \<open>From\<close> and the one of \<open>Sender\<close>, empty when
  there is none.\<close>

definition header_addrs ::
  "(string \<Rightarrow> go_err + string list) \<Rightarrow> (string \<Rightarrow> go_err + string) \<Rightarrow> header \<Rightarrow> go_err + string \<times> string" where
  "header_addrs ParseAddressList ParseAddress hdr =
    (if hdr_Get hdr ''From'' = [] then Inl (authz_err 550 (5, 7, 0) ''Missing From header'' None)
     else case ParseAddressList (hdr_Get hdr ''From'') of
       Inl err \<Rightarrow> Inl (authz_err 550 (5, 7, 0) ''Malformed From header'' (Some err))
     | Inr [] \<Rightarrow> Inl (authz_err 550 (5, 7, 0) ''Malformed From header'' None)
     | Inr (fromEmail # rest) \<Rightarrow>
        if rest \<noteq> [] then Inl (authz_err 550 (5, 7, 0) ''Multiple From addresses are not allowed'' None)
        else if hdr_Get hdr ''Sender'' = [] then Inr (fromEmail, [])
        else (case ParseAddress (hdr_Get hdr ''Sender'') of
            Inl err \<Rightarrow> Inl (authz_err 550 (5, 7, 0) ''Malformed Sender header'' (Some err))
          | Inr sender \<Rightarrow> Inr (fromEmail, sender)))"

definition az_CheckBody ::
  "(string \<Rightarrow> go_err + string list) \<Rightarrow> (string \<Rightarrow> go_err + string) \<Rightarrow> 'w authz_check \<Rightarrow> string option \<Rightarrow> header
    \<Rightarrow> 'w \<Rightarrow> 'w \<times> 'a check_result" where
  "az_CheckBody ParseAddressList ParseAddress c conn hdr w =
    (if \<not> az_checkHeader c then (w, empty_result)
     else case conn of None \<Rightarrow> (w, empty_result) | Some authName \<Rightarrow>
     case header_addrs ParseAddressList ParseAddress hdr of
       Inl err \<Rightarrow> (w, Apply_action (az_errAction c) (fail_with err))
     | Inr (fromEmail, senderAddr) \<Rightarrow>
     let noMatch = Apply_action (az_noMatchAction c) (fail_with (authz_err 553 (5, 7, 0) ''Unauthorized use of sender address'' None)) in
     case authzSender c authName fromEmail w of
       (w, res) \<Rightarrow>
        if cr_Reason res = None then (w, res)
        else if senderAddr \<noteq> [] \<and> senderAddr \<noteq> fromEmail then
          (case authzSender c authName senderAddr w of
             (w, res) \<Rightarrow> if cr_Reason res = None then (w, res) else (w, noMatch))
        else (w, noMatch))"

section \<open>Soundness\<close>

text \<open>A user may use an address: an entry of the table for the user is the address, its domain or a star,
  for one of the prepared addresses.\<close>

definition user_entries :: "'w table \<Rightarrow> string \<Rightarrow> 'w \<Rightarrow> 'w \<times> (go_err + string list)" where
  "user_entries tbl user w =
    (case tb_LookupMulti tbl of
       Some multi \<Rightarrow> multi user w
     | None \<Rightarrow> (case tb_Lookup tbl user w of
         (w, _, _, Some err) \<Rightarrow> (w, Inl err)
       | (w, v, ok, None) \<Rightarrow> (w, Inr (if ok then [v] else []))))"

definition entry_covers :: "string \<Rightarrow> string \<Rightarrow> bool" where
  "entry_covers ent addr \<longleftrightarrow> ent = addr \<or> ent = ''*'' \<or> ent = fst (snd (Split addr))"

definition may_use :: "'w authz_check \<Rightarrow> string \<Rightarrow> string \<Rightarrow> bool" where
  "may_use c user email \<longleftrightarrow> user \<noteq> [] \<and> (\<exists>from' user' w w' w'' addrs entries.
     az_fromNorm c email = (from', None) \<and> az_authNorm c user = (user', None)
     \<and> prepare_email (az_emailPrepare c) from' w = (w', Inr addrs) \<and> user_entries (az_userToEmail c) user' w' = (w'', Inr entries)
     \<and> (\<exists>addr \<in> set addrs. \<exists>ent \<in> set entries. entry_covers ent addr))"

definition rejecting :: "'w authz_check \<Rightarrow> bool" where
  "rejecting c \<longleftrightarrow> fa_Reject (az_unauthAction c) \<and> fa_Reject (az_noMatchAction c) \<and> fa_Reject (az_errAction c)"

definition refusal :: "'w authz_check \<Rightarrow> 'a check_result \<Rightarrow> bool" where
  "refusal c res \<longleftrightarrow> (\<exists>a \<in> {az_unauthAction c, az_noMatchAction c, az_errAction c}. \<exists>e. res = Apply_action a (fail_with e))"

lemma refusals [simp]:
  "refusal c (Apply_action (az_unauthAction c) (fail_with e))" "refusal c (Apply_action (az_noMatchAction c) (fail_with e))"
  "refusal c (Apply_action (az_errAction c) (fail_with e))"
  by (auto simp: refusal_def)

lemma refusal_result:
  assumes "refusal c res"
  shows "cr_Reason res \<noteq> None" "rejecting c \<Longrightarrow> cr_Reject res"
  using assms by (auto simp: refusal_def rejecting_def Apply_action_def fail_with_def empty_result_def Let_def split: option.splits)

lemma authorized_covers:
  "authorized es addrs = Inr True \<Longrightarrow> \<exists>addr \<in> set addrs. \<exists>ent \<in> set es. entry_covers ent addr"
  by (induction es addrs rule: authorized.induct)
    (auto simp: entry_covers_def list_ex_iff split: prod.splits option.splits if_splits)

lemma AuthorizeEmailUse_entries:
  assumes "AuthorizeEmailUse user addrs (tb_Lookup tbl) (tb_LookupMulti tbl) w = (w', Inr True)"
  shows "\<exists>entries. user_entries tbl user w = (w', Inr entries) \<and> (\<exists>addr \<in> set addrs. \<exists>ent \<in> set entries. entry_covers ent addr)"
proof -
  have "AuthorizeEmailUse user addrs (tb_Lookup tbl) (tb_LookupMulti tbl) w =
    (case user_entries tbl user w of (w, Inl err) \<Rightarrow> (w, Inl (ErrWrap ''authz: '' err)) | (w, Inr es) \<Rightarrow> (w, authorized es addrs))"
    by (simp add: AuthorizeEmailUse_def user_entries_def)
  with assms authorized_covers show ?thesis by (auto split: prod.splits sum.splits)
qed

lemma authzSender_cases: "refusal c (snd (authzSender c user email w)) \<or> snd (authzSender c user email w) = empty_result \<and> may_use c user email"
proof -
  obtain f fe where f: "az_fromNorm c email = (f, fe)" by fastforce
  obtain u ue where u: "az_authNorm c user = (u, ue)" by fastforce
  obtain w1 r1 where p: "prepare_email (az_emailPrepare c) f w = (w1, r1)" by fastforce
  show ?thesis
  proof (cases "user = [] \<or> fe \<noteq> None \<or> ue \<noteq> None \<or> isl r1")
    case True
    with f u p show ?thesis by (cases fe; cases ue; cases r1) (auto simp: authzSender_def)
  next
    case False
    then obtain addrs where ok: "user \<noteq> []" "fe = None" "ue = None" "r1 = Inr addrs" by (cases r1) auto
    obtain w2 r2 where a: "AuthorizeEmailUse u addrs (tb_Lookup (az_userToEmail c)) (tb_LookupMulti (az_userToEmail c)) w1 = (w2, r2)"
      by fastforce
    show ?thesis
    proof (cases "r2 = Inr True")
      case True
      from AuthorizeEmailUse_entries [OF a [unfolded True]] ok f u p have "may_use c user email" unfolding may_use_def by blast
      with ok f u p a True show ?thesis by (simp add: authzSender_def)
    next
      case False
      with ok f u p a show ?thesis by (cases r2) (auto simp: authzSender_def)
    qed
  qed
qed

lemma authzSender_sound:
  "cr_Reason (snd (authzSender c user email w)) = None \<Longrightarrow> may_use c user email"
  "rejecting c \<Longrightarrow> \<not> cr_Reject (snd (authzSender c user email w)) \<Longrightarrow> may_use c user email"
  using authzSender_cases [of c user email w] refusal_result by blast+

lemma az_CheckBody_sound:
  assumes "rejecting c" "az_checkHeader c" "\<not> cr_Reject (snd (az_CheckBody pl pa c (Some user) hdr w) :: 'a check_result)"
  shows "\<exists>from' sender. header_addrs pl pa hdr = Inr (from', sender) \<and> (may_use c user from' \<or> sender \<noteq> [] \<and> may_use c user sender)"
proof -
  have rej: "cr_Reject (Apply_action (az_errAction c) (fail_with e) :: 'a check_result)"
    "cr_Reject (Apply_action (az_noMatchAction c) (fail_with e) :: 'a check_result)" for e
    by (simp_all add: refusal_result(2) [OF _ assms(1)])
  obtain fs where Inr: "header_addrs pl pa hdr = Inr fs"
    using assms rej by (cases "header_addrs pl pa hdr") (auto simp: az_CheckBody_def)
  obtain f s where fs: "fs = (f, s)" by fastforce
  obtain w1 r1 where a1: "authzSender c user f w = (w1, r1 :: 'a check_result)" by fastforce
  obtain w2 r2 where a2: "authzSender c user s w1 = (w2, r2 :: 'a check_result)" by fastforce
  show ?thesis
  proof (cases "cr_Reason r1 = None \<or> s \<noteq> [] \<and> cr_Reason r2 = None")
    case True
    have "cr_Reason r1 = None \<Longrightarrow> may_use c user f" "cr_Reason r2 = None \<Longrightarrow> may_use c user s"
      using a1 a2 by (metis authzSender_sound(1) snd_conv)+
    with True Inr fs show ?thesis by auto
  next
    case False
    with assms Inr fs a1 a2 rej show ?thesis
      by (auto simp: az_CheckBody_def Let_def split: if_splits)
  qed
qed

text \<open>C15: With actions that reject, the check lets the sender of a message from a connection
  pass only if the user is authenticated and may use the address, and with \<open>check_header\<close> on, it
  lets the body pass only if the header names one author and the user may use the address of
  \<open>From\<close> or the one of \<open>Sender\<close>. With \<open>check_header\<close> off the header is not checked, and
  messages without a connection, which the server makes itself, always pass.\<close>

theorem only_authorised_senders:
  assumes "rejecting c"
  shows "(cr_Reject (snd (az_CheckSender c (Some user) email w) :: 'a check_result) \<or> may_use c user email)
    \<and> (if az_checkHeader c
       then cr_Reject (snd (az_CheckBody pl pa c (Some user) hdr w) :: 'a check_result)
         \<or> (\<exists>from' sender. header_addrs pl pa hdr = Inr (from', sender)
             \<and> (may_use c user from' \<or> sender \<noteq> [] \<and> may_use c user sender))
       else az_CheckBody pl pa c (Some user) hdr w = (w, empty_result :: 'a check_result))
    \<and> az_CheckSender c None email w = (w, empty_result :: 'a check_result)
    \<and> az_CheckBody pl pa c None hdr w = (w, empty_result :: 'a check_result)"
  using authzSender_sound(2) [OF assms, of user email w] az_CheckBody_sound [OF assms, of pl pa user hdr w]
  by (auto simp: az_CheckSender_def az_CheckBody_def)

text \<open>The default configuration on plain addresses.\<close>

definition demo_reject :: fail_action where
  "demo_reject = \<lparr>fa_Quarantine = False, fa_Reject = True, fa_ReasonOverride = None\<rparr>"

definition demo_identity :: "unit table" where
  "demo_identity = \<lparr>tb_Lookup = identity_Lookup, tb_LookupMulti = None\<rparr>"

definition demo_authz :: "unit authz_check" where
  "demo_authz = \<lparr>az_checkHeader = True, az_emailPrepare = demo_identity, az_userToEmail = demo_identity,
     az_unauthAction = demo_reject, az_noMatchAction = demo_reject, az_errAction = demo_reject,
     az_fromNorm = NormalizeNoop, az_authNorm = NormalizeNoop\<rparr>"

definition demo_list :: "string \<Rightarrow> go_err + string list" where
  "demo_list s = Inr [s]"

definition demo_address :: "string \<Rightarrow> go_err + string" where
  "demo_address s = Inr s"

lemma demo_authz_runs:
  "\<not> cr_Reject (snd (az_CheckSender demo_authz (Some ''a@b'') ''a@b'' ()) :: unit check_result)
    \<and> \<not> cr_Reject (snd (az_CheckBody demo_list demo_address demo_authz (Some ''a@b'') [(''From'', ''a@b'')] ()) :: unit check_result)
    \<and> az_checkHeader demo_authz"
proof -
  have sp: "Split ''a@b'' = (''a'', ''b'', None)" by code_simp
  have az: "authzSender demo_authz ''a@b'' ''a@b'' () = ((), empty_result :: unit check_result)"
    by (simp add: authzSender_def demo_authz_def NormalizeNoop_def prepare_email_def demo_identity_def identity_Lookup_def AuthorizeEmailUse_def sp)
  have g: "hdr_Get [(''From'', ''a@b'')] ''From'' = ''a@b''" "hdr_Get [(''From'', ''a@b'')] ''Sender'' = []" by code_simp+
  then have "header_addrs demo_list demo_address [(''From'', ''a@b'')] = Inr (''a@b'', [])"
    by (simp add: header_addrs_def demo_list_def)
  with az show ?thesis
    by (simp add: az_CheckSender_def az_CheckBody_def Let_def empty_result_def) (simp add: demo_authz_def)
qed

theorem only_authorised_senders_witness:
  "rejecting demo_authz \<and> may_use demo_authz ''a@b'' ''a@b''
    \<and> (\<exists>from' sender. header_addrs demo_list demo_address [(''From'', ''a@b'')] = Inr (from', sender)
        \<and> (may_use demo_authz ''a@b'' from' \<or> sender \<noteq> [] \<and> may_use demo_authz ''a@b'' sender))"
proof -
  have r: "rejecting demo_authz" by (simp add: rejecting_def demo_authz_def demo_reject_def)
  show ?thesis using r only_authorised_senders [OF r, where 'a = unit, of "''a@b''" "''a@b''" "()" demo_list demo_address "[(''From'', ''a@b'')]"]
      demo_authz_runs by auto
qed

section \<open>Observations\<close>

text \<open>An internal error of the check of the header is reported as an unauthorised address.\<close>

lemma header_error_masked:
  assumes "az_checkHeader c" "header_addrs pl pa hdr = Inr (f, [])" "cr_Reason (snd (authzSender c user f w) :: 'a check_result) \<noteq> None"
  shows "(snd (az_CheckBody pl pa c (Some user) hdr w) :: 'a check_result)
    = Apply_action (az_noMatchAction c) (fail_with (authz_err 553 (5, 7, 0) ''Unauthorized use of sender address'' None))"
  using assms by (cases "authzSender c user f w :: _ \<times> 'a check_result") (auto simp: az_CheckBody_def Let_def)

end
