(* ===== verification/ChecksProps.thy ===== *)
theory ChecksProps
  imports SpfDkim AuthorizeSender
begin

text \<open>
  What the checks promise: the verdict of block lists does not depend on the order of their answers,
  and DMARC passes only for a domain that a verified signature or an SPF policy vouches for.
\<close>

section \<open>Block lists\<close>

definition lookup_error :: "list_outcome \<Rightarrow> bool" where
  "lookup_error out = (case out of LookupErr _ \<Rightarrow> True | _ \<Rightarrow> False)"

definition total_score :: "(bl_list \<Rightarrow> list_outcome) \<Rightarrow> bl_list list \<Rightarrow> int" where
  "total_score check ls = sum_list (map (\<lambda>l. if is_listed (check l) then bl_ScoreAdj l else 0) ls)"

lemma wrap64_add: "wrap64 (wrap64 x + y) = wrap64 (x + y)"
proof -
  have "wrap64 x + y + 9223372036854775808 = (x + 9223372036854775808) mod 18446744073709551616 + y"
    by (simp add: wrap64_def)
  moreover have "x + y + 9223372036854775808 = (x + 9223372036854775808) + y" by simp
  ultimately show ?thesis unfolding wrap64_def [of "wrap64 x + y"] wrap64_def [of "x + y"] by (simp only: mod_add_left_eq)
qed

lemma bl_score_sum: "bl_score check order = wrap64 (total_score check order)"
proof -
  have "foldl (\<lambda>score l. if is_listed (check l) then wrap64 (score + bl_ScoreAdj l) else score) (wrap64 n) order
      = wrap64 (n + total_score check order)" for n
  proof (induction order arbitrary: n)
    case (Cons l ls)
    show ?case using Cons.IH [of "n + bl_ScoreAdj l"] Cons.IH [of n]
      by (auto simp: total_score_def wrap64_add add.assoc)
  qed (simp add: total_score_def)
  from this [of 0] show ?thesis by (simp add: bl_score_def wrap64_def)
qed

lemma total_score_mset: "mset xs = mset ys \<Longrightarrow> total_score check xs = total_score check ys"
proof -
  have "total_score check zs = (\<Sum>l \<in># mset zs. if is_listed (check l) then bl_ScoreAdj l else 0)" for zs
    by (induction zs) (auto simp: total_score_def)
  then show "mset xs = mset ys \<Longrightarrow> total_score check xs = total_score check ys" by simp
qed

lemma first_err_None: "first_err os = None \<longleftrightarrow> \<not> list_ex lookup_error os"
  by (induction os rule: first_err.induct) (auto simp: lookup_error_def)

text \<open>C18: Whatever the order in which the block lists answer, a lookup error rejects the client, and
  without one the sum of the scores of the lists that name it decides between reject, quarantine
  and neither. The sum is the one of 64-bit integers: it is the exact one as long as that fits,
  and wraps around otherwise.\<close>

theorem dnsbl_verdict:
  fixes lib res ip ehlo mailFrom
  defines "check \<equiv> (\<lambda>l. checkList lib res l ip ehlo mailFrom)"
  assumes "mset order = mset (db_bls bl)"
  shows "let r = checkLists lib res bl order ip ehlo mailFrom; total = wrap64 (total_score check (db_bls bl)) in
    if list_ex (\<lambda>l. lookup_error (check l)) (db_bls bl) then cr_Reject r
    else (cr_Reject r \<longleftrightarrow> db_rejectThres bl \<le> total)
       \<and> (cr_Quarantine r \<longleftrightarrow> db_quarantineThres bl \<le> total \<and> total < db_rejectThres bl)"
proof -
  have s: "bl_score check order = wrap64 (total_score check (db_bls bl))"
    using total_score_mset [OF assms(2)] by (simp add: bl_score_sum)
  have "list_ex (\<lambda>l. lookup_error (check l)) (db_bls bl) \<longleftrightarrow> list_ex lookup_error (map check order)"
    using mset_eq_setD [OF assms(2)] by (auto simp: list_ex_iff)
  then have e: "first_err (map check order) = None \<longleftrightarrow> \<not> list_ex (\<lambda>l. lookup_error (check l)) (db_bls bl)"
    by (simp add: first_err_None)
  show ?thesis
    using s e unfolding check_def checkLists_def
    by (auto simp: Let_def fail_with_def empty_result_def split: option.split)
qed

definition demo_bl_list :: bl_list where
  "demo_bl_list = defaultBL\<lparr>bl_Zone := ''bl'', bl_ScoreAdj := 2\<rparr>"

definition demo_dnsbl :: dnsbl where
  "demo_dnsbl = \<lparr>db_checkEarly = False, db_bls = [demo_bl_list], db_quarantineThres = 1, db_rejectThres = 3\<rparr>"

definition demo_bl_resolver :: bl_resolver where
  "demo_bl_resolver = \<lparr>br_LookupHost = (\<lambda>_. Inr []), br_LookupIPAddr = (\<lambda>q. Inr (if q = ''2.0.0.127.bl'' then [[127, 0, 0, 4]] else [])),
     br_LookupTXT = (\<lambda>_. Inr [])\<rparr>"

theorem dnsbl_verdict_witness:
  "cr_Quarantine (checkLists ascii_lib demo_bl_resolver demo_dnsbl [demo_bl_list] [127, 0, 0, 2] [] [] :: unit check_result)"
proof -
  have "queryString [127, 0, 0, 2] = ''2.0.0.127''" by code_simp
  then have c: "checkList ascii_lib demo_bl_resolver demo_bl_list [127, 0, 0, 2] [] [] = ListedErr (ip_String [127, 0, 0, 2]) ''bl'' (ip_String [127, 0, 0, 4])"
    by (simp add: checkList_def checkIP_def To4_def demo_bl_list_def defaultBL_def demo_bl_resolver_def listed_def)
  have m: "mset [demo_bl_list] = mset (db_bls demo_dnsbl)" by (simp add: demo_dnsbl_def)
  show ?thesis
    using dnsbl_verdict [OF m, where 'a = unit, of ascii_lib demo_bl_resolver "[127, 0, 0, 2]" "[]" "[]"] c
    by (simp add: demo_dnsbl_def total_score_def lookup_error_def is_listed_def Let_def) (simp add: demo_bl_list_def wrap64_def)
qed

section \<open>SPF, DKIM and DMARC\<close>

lemma verify_loop_results:
  "verify_loop lib c vs results good = Inr (results', good') \<Longrightarrow>
    results' = results @ map (verif_result lib c) vs \<and> (good' \<longleftrightarrow> good \<or> list_ex (\<lambda>v. vf_Err v = None \<and> dk_Value (verif_result lib c v) = resPass) vs)"
  by (induction vs arbitrary: results good) (fastforce split: option.splits if_splits)+

lemma verif_result_pass:
  "dk_Value (verif_result lib c v) = resPass \<longleftrightarrow>
    vf_Err v = None \<and> set (kc_requiredFields c) \<subseteq> CanonicalMIMEHeaderKey ` set (vf_HeaderKeys v)"
  by (auto simp: verif_result_def Let_def res_defs list_ex_iff split: option.splits)

lemma verif_result_domain: "dk_Domain (verif_result lib c v) = vf_Domain v"
  by (simp add: verif_result_def Let_def split: option.split)

lemma Apply_action_results [simp]: "cr_AuthResult (Apply_action a r) = cr_AuthResult r"
  by (simp add: Apply_action_def Let_def split: option.split)

lemma dkim_pass_verified:
  assumes "r \<in> set (cr_AuthResult (dkim_CheckBody lib c hdr body))" "dk_Value r = resPass"
  shows "\<exists>b vs v. body = Inr b \<and> kl_Verify lib hdr b = Inr vs \<and> v \<in> set vs \<and> r = verif_result lib c v"
  using assms
  by (auto simp: dkim_CheckBody_def dkim_internal_def fail_with_def empty_result_def res_defs split: if_splits sum.splits prod.splits
      dest!: verify_loop_results)

lemma spf_pass_result:
  assumes "r \<in> set (cr_AuthResult (spfResult c originalFrom hostname res err))" "sp_Value r = resPass"
  shows "res = SpfPass \<and> sp_From r = fst (snd (Split originalFrom)) \<and> sp_Helo r = hostname"
  using assms by (cases res) (auto simp: spfResult_def Let_def fail_with_def empty_result_def res_defs)

text \<open>The results of both checks as DMARC reads them.\<close>

definition auth_results :: "dkim_auth check_result \<Rightarrow> spf_auth check_result \<Rightarrow> auth_result list" where
  "auth_results d s = map (\<lambda>r. ADkim (dkim_result.truncate r)) (cr_AuthResult d) @ map (\<lambda>r. ASpf (spf_result.truncate r)) (cr_AuthResult s)"

lemma truncated_ok:
  "dkim_ok lib d rec v (ADkim (dkim_result.truncate r)) \<longleftrightarrow> dk_Value r = v \<and> isAligned lib d (dk_Domain r) (dr_DKIMStrict rec)"
  "dkim_ok lib d rec v (ASpf s) \<longleftrightarrow> False" "spf_ok lib d rec (ADkim k) \<longleftrightarrow> False"
  "spf_ok lib d rec (ASpf (spf_result.truncate q)) \<longleftrightarrow>
    sp_Value q = resPass \<and> isAligned lib d (if sp_From q = [] then sp_Helo q else sp_From q) (dr_SPFStrict rec)"
  by (auto simp: dkim_ok_def spf_ok_def spf_aligned_def dkim_result.defs spf_result.defs)

lemma evaluate_pass:
  "dm_Value (ev_Authres (EvaluateAlignment lib d rec results)) = resPass \<Longrightarrow>
    list_ex (dkim_ok lib d rec resPass) results \<or> list_ex (spf_ok lib d rec) results"
  by (auto simp: EvaluateAlignment_def Let_def align_flags align_init_def res_defs split: if_splits)

text \<open>C16: When DMARC passes on the results of the signature and SPF checks, then a signature was
  verified without an error, covers all required fields and is of an aligned domain, or SPF passed
  for an aligned sender domain or, without one, HELO name.\<close>

theorem dmarc_pass_authenticated:
  assumes "dm_Value (ev_Authres (EvaluateAlignment dlib d rec
      (auth_results (dkim_CheckBody lib c hdr body) (spfResult sc originalFrom hostname res err)))) = resPass"
  shows "(\<exists>b vs v. body = Inr b \<and> kl_Verify lib hdr b = Inr vs \<and> v \<in> set vs \<and> vf_Err v = None
        \<and> set (kc_requiredFields c) \<subseteq> CanonicalMIMEHeaderKey ` set (vf_HeaderKeys v)
        \<and> isAligned dlib d (vf_Domain v) (dr_DKIMStrict rec))
    \<or> (res = SpfPass \<and> isAligned dlib d
          (if fst (snd (Split originalFrom)) = [] then hostname else fst (snd (Split originalFrom))) (dr_SPFStrict rec))"
proof -
  let ?ds = "cr_AuthResult (dkim_CheckBody lib c hdr body)" and ?ss = "cr_AuthResult (spfResult sc originalFrom hostname res err)"
  from evaluate_pass [OF assms] consider
      (dkim) r where "r \<in> set ?ds" "dk_Value r = resPass" "isAligned dlib d (dk_Domain r) (dr_DKIMStrict rec)"
    | (spf) r where "r \<in> set ?ss" "sp_Value r = resPass" "isAligned dlib d (if sp_From r = [] then sp_Helo r else sp_From r) (dr_SPFStrict rec)"
    by (auto simp: auth_results_def list_ex_iff truncated_ok)
  then show ?thesis
  proof cases
    case dkim
    from dkim_pass_verified [OF dkim(1,2)] obtain b vs v
      where v: "body = Inr b" "kl_Verify lib hdr b = Inr vs" "v \<in> set vs" "r = verif_result lib c v" by blast
    with dkim have "vf_Err v = None \<and> set (kc_requiredFields c) \<subseteq> CanonicalMIMEHeaderKey ` set (vf_HeaderKeys v)"
      by (simp add: verif_result_pass)
    with v dkim(3) show ?thesis by (auto simp: verif_result_domain)
  next
    case spf
    with spf_pass_result [OF spf(1,2)] show ?thesis by auto
  qed
qed

text \<open>A signed message from an aligned domain.\<close>

definition demo_dkim_lib :: dkim_lib where
  "demo_dkim_lib = \<lparr>kl_Verify = (\<lambda>_ _. Inr [\<lparr>vf_Domain = ''b'', vf_Identifier = ''@b'', vf_HeaderKeys = [''from''], vf_Err = None\<rparr>]),
     kl_IsPermFail = (\<lambda>_. True), kl_IsTempFail = (\<lambda>_. False)\<rparr>"

definition demo_dkim :: dkim_check where
  "demo_dkim = \<lparr>kc_requiredFields = required_fields [''From''], kc_brokenSigAction = demo_reject, kc_noSigAction = demo_reject, kc_failOpen = False\<rparr>"

definition demo_spf :: spf_check where
  "demo_spf = \<lparr>sk_enforceEarly = False, sk_noneAction = demo_reject, sk_neutralAction = demo_reject, sk_failAction = demo_reject,
     sk_softfailAction = demo_reject, sk_permerrAction = demo_reject, sk_temperrAction = demo_reject\<rparr>"

definition demo_dmarc_record :: dmarc_record where
  "demo_dmarc_record = \<lparr>dr_Policy = PolicyReject, dr_SubdomainPolicy = None, dr_DKIMStrict = True, dr_SPFStrict = True, dr_Percent = None\<rparr>"

definition eq_dmarc_lib :: dmarc_lib where
  "eq_dmarc_lib = demo_dmarc_lib\<lparr>dl_fold := (=)\<rparr>"

lemma demo_dkim_result:
  "cr_AuthResult (dkim_CheckBody demo_dkim_lib demo_dkim [(''DKIM-Signature'', ''v=1'')] (Inr []))
    = [\<lparr>dk_Value = resPass, dk_Domain = ''b'', da_Reason = [], da_Identifier = ''@b''\<rparr>]"
proof -
  have "FieldsByKey [(''DKIM-Signature'', ''v=1'')] ''DKIM-Signature'' \<noteq> []" by code_simp
  moreover have "CanonicalMIMEHeaderKey ''from'' = ''From''" "required_fields [''From''] = [''From'']" by code_simp+
  ultimately show ?thesis
    by (simp add: dkim_CheckBody_def demo_dkim_lib_def demo_dkim_def verif_result_def empty_result_def Let_def)
qed

theorem dmarc_pass_authenticated_witness:
  "isAligned eq_dmarc_lib ''b'' ''b'' True \<and> vf_Err \<lparr>vf_Domain = ''b'', vf_Identifier = ''@b'', vf_HeaderKeys = [''from''], vf_Err = None\<rparr> = None
    \<and> ((\<exists>b vs v. Inr [] = (Inr b :: go_err + string) \<and> kl_Verify demo_dkim_lib [(''DKIM-Signature'', ''v=1'')] b = Inr vs \<and> v \<in> set vs \<and> vf_Err v = None
        \<and> set (kc_requiredFields demo_dkim) \<subseteq> CanonicalMIMEHeaderKey ` set (vf_HeaderKeys v)
        \<and> isAligned eq_dmarc_lib ''b'' (vf_Domain v) (dr_DKIMStrict demo_dmarc_record))
      \<or> (SpfFail = SpfPass \<and> isAligned eq_dmarc_lib ''b''
          (if fst (snd (Split ''x@c'')) = [] then ''h'' else fst (snd (Split ''x@c''))) (dr_SPFStrict demo_dmarc_record)))"
proof -
  have al: "isAligned eq_dmarc_lib ''b'' ''b'' True" by (simp add: isAligned_def eqFold_def eq_dmarc_lib_def list.rel_refl)
  have "dm_Value (ev_Authres (EvaluateAlignment eq_dmarc_lib ''b'' demo_dmarc_record
      (auth_results (dkim_CheckBody demo_dkim_lib demo_dkim [(''DKIM-Signature'', ''v=1'')] (Inr []))
        (spfResult demo_spf ''x@c'' ''h'' SpfFail None)))) = resPass"
    using al by (simp add: auth_results_def demo_dkim_result spfResult_def demo_spf_def fail_with_def empty_result_def Let_def
        EvaluateAlignment_def align_step_def align_dkim_def align_spf_def align_init_def demo_dmarc_record_def
        dkim_result.defs spf_result.defs res_defs)
  from dmarc_pass_authenticated [OF this] al show ?thesis by simp
qed

section \<open>Observations\<close>

text \<open>Scores add up with wrap-around: two lists with a large score each let a client pass that
  both name.\<close>

lemma score_wraps:
  assumes "is_listed (check a)" "is_listed (check b)" "bl_ScoreAdj a = maxInt64" "bl_ScoreAdj b = maxInt64"
  shows "bl_score check [a, b] = - 2"
  using assms by (simp add: bl_score_def maxInt64_def wrap64_def)

text \<open>A block list given as an argument has no score, so a client it names passes.\<close>

lemma inline_lists_score_nothing: "total_score check (inline_lists zones) = 0"
  by (induction zones) (auto simp: total_score_def inline_lists_def defaultBL_def)

text \<open>The test addresses for IPv6 are IPv4 addresses: without IPv4 lookups they are never listed.\<close>

lemma ipv6_test_is_ipv4: "\<not> bl_ClientIPv4 l \<Longrightarrow> checkIP res l (mapped_ip [127, 0, 0, 2]) = NotListed"
  by (simp add: checkIP_def mapped_ip_def To4_def eval_nat_numeral)

text \<open>A second check of the body by the same state waits forever.\<close>

lemma second_spf_body_blocks:
  assumes "\<not> sk_enforceEarly c" "\<not> st_skip s" "st_fetch s = Fetched r" "spf_CheckBody lib c f h hdr s = [(s', res)]"
  shows "spf_CheckBody lib c f h hdr' s' = []"
  using assms by (cases r) (auto simp: spf_CheckBody_def)

end
