(* ===== verification/CfgMap.thy ===== *)
theory CfgMap
  imports CfgNode TextIO "HOL-Library.Multiset"
begin

text \<open>
  The mapping of configuration directives to variables (\<open>framework/config/map.go\<close>). Values carry the
  Go type they are stored with; other types than the basic ones are a parameter \<open>'c\<close>. Functions that
  map directives act on a state \<open>'s\<close>, such as the registry of modules. A panic is \<open>None\<close>.
\<close>

section \<open>Values\<close>

datatype 'c cfg_val = VNil | VBool bool | VInt int | VUInt int | VInt32 int | VUInt32 int | VInt64 int | VUInt64 int
  | VDuration int | VString string | VStrings "string list option" | VCustom 'c

datatype cfg_type = TBool | TInt | TUInt | TInt32 | TUInt32 | TInt64 | TUInt64 | TDuration | TString | TStrings | TCustom

text \<open>The values a variable can be set to; nil becomes the zero value of its type.\<close>

fun assignable :: "cfg_type \<Rightarrow> 'c cfg_val \<Rightarrow> bool" where
  "assignable t VNil = True"
| "assignable t (VBool _) = (t = TBool)"
| "assignable t (VInt _) = (t = TInt)"
| "assignable t (VUInt _) = (t = TUInt)"
| "assignable t (VInt32 _) = (t = TInt32)"
| "assignable t (VUInt32 _) = (t = TUInt32)"
| "assignable t (VInt64 _) = (t = TInt64)"
| "assignable t (VUInt64 _) = (t = TUInt64)"
| "assignable t (VDuration _) = (t = TDuration)"
| "assignable t (VString _) = (t = TString)"
| "assignable t (VStrings _) = (t = TStrings)"
| "assignable t (VCustom _) = (t = TCustom)"

text \<open>Nil and the zero value of a type, which do not become values of the map by default; \<open>zero\<close> tells
  the zero values of other types.\<close>

fun is_zero :: "('c \<Rightarrow> bool) \<Rightarrow> 'c cfg_val \<Rightarrow> bool" where
  "is_zero zero VNil = True"
| "is_zero zero (VBool b) = (\<not> b)"
| "is_zero zero (VInt i) = (i = 0)"
| "is_zero zero (VUInt i) = (i = 0)"
| "is_zero zero (VInt32 i) = (i = 0)"
| "is_zero zero (VUInt32 i) = (i = 0)"
| "is_zero zero (VInt64 i) = (i = 0)"
| "is_zero zero (VUInt64 i) = (i = 0)"
| "is_zero zero (VDuration i) = (i = 0)"
| "is_zero zero (VString s) = (s = [])"
| "is_zero zero (VStrings l) = (l = None)"
| "is_zero zero (VCustom c) = zero c"

section \<open>Arguments of directives\<close>

definition brackets :: "string list \<Rightarrow> string" where
  "brackets xs = ''['' @ Join '' '' xs @ '']''"

definition map_EnumList :: "string list \<Rightarrow> node \<Rightarrow> go_err + 'c cfg_val" where
  "map_EnumList allowed nd =
    (if children nd \<noteq> [] then Inl (NodeErr nd ''can't declare a block here'')
     else if n_Args nd = [] then Inl (NodeErr nd ''expected at least one argument'')
     else if \<not> list_all (\<lambda>arg. arg \<in> set allowed) (n_Args nd)
     then Inl (NodeErr nd (''invalid argument, valid values are: '' @ brackets allowed))
     else Inr (VStrings (Some (n_Args nd))))"

definition map_Enum :: "string list \<Rightarrow> node \<Rightarrow> go_err + 'c cfg_val" where
  "map_Enum allowed nd =
    (if children nd \<noteq> [] then Inl (NodeErr nd ''can't declare a block here'')
     else (case n_Args nd of
         [arg] \<Rightarrow> if arg \<in> set allowed then Inr (VString arg)
           else Inl (NodeErr nd (''invalid argument, valid values are: '' @ brackets allowed))
       | _ \<Rightarrow> Inl (NodeErr nd ''expected exactly one argument'')))"

text \<open>The keys of a map are listed in the order of the association list.\<close>

definition map_EnumMapped :: "(string \<times> 'c) list \<Rightarrow> node \<Rightarrow> go_err + 'c cfg_val" where
  "map_EnumMapped mapped nd =
    (if children nd \<noteq> [] then Inl (NodeErr nd ''can't declare a block here'')
     else (case n_Args nd of
         [arg] \<Rightarrow> (case map_of mapped arg of
             None \<Rightarrow> Inl (NodeErr nd (''invalid argument, valid values are: '' @ brackets (map fst mapped)))
           | Some val \<Rightarrow> Inr (VCustom val))
       | _ \<Rightarrow> Inl (NodeErr nd ''expected exactly one argument'')))"

definition map_EnumListMapped :: "(string \<times> 'v) list \<Rightarrow> ('v list \<Rightarrow> 'c) \<Rightarrow> node \<Rightarrow> go_err + 'c cfg_val" where
  "map_EnumListMapped mapped values nd =
    (if children nd \<noteq> [] then Inl (NodeErr nd ''can't declare a block here'')
     else if n_Args nd = [] then Inl (NodeErr nd ''expected at least one argument'')
     else if list_ex (\<lambda>arg. map_of mapped arg = None) (n_Args nd)
     then Inl (NodeErr nd (''invalid argument, valid values are: '' @ brackets (map fst mapped)))
     else Inr (VCustom (values (map (\<lambda>arg. the (map_of mapped arg)) (n_Args nd)))))"

definition map_Duration :: "cfg_lib \<Rightarrow> node \<Rightarrow> go_err + 'c cfg_val" where
  "map_Duration lib nd =
    (if children nd \<noteq> [] then Inl (NodeErr nd ''can't declare block here'')
     else if n_Args nd = [] then Inl (NodeErr nd ''at least one argument is required'')
     else (case cl_ParseDuration lib (concat (n_Args nd)) of
         Inl err \<Rightarrow> Inl (NodeErr nd (err_string err))
       | Inr dur \<Rightarrow> if dur < 0 then Inl (NodeErr nd ''duration must not be negative'') else Inr (VDuration dur)))"

text \<open>\<open>ParseDataSize\<close> over the characters of its text; \<open>digit\<close> is \<open>unicode.IsDigit\<close>. Sums and products
  are those of a 64 bit integer.\<close>

definition size_unit :: "string \<Rightarrow> int option" where
  "size_unit suffix =
    (if suffix = ''G'' then Some (1024 * 1024 * 1024) else if suffix = ''M'' then Some (1024 * 1024)
     else if suffix = ''K'' then Some 1024 else if suffix = ''B'' \<or> suffix = ''b'' then Some 1 else None)"

fun size_loop :: "cfg_lib \<Rightarrow> (rune \<Rightarrow> bool) \<Rightarrow> rune list \<Rightarrow> int \<Rightarrow> string \<Rightarrow> string \<Rightarrow> go_err + int" where
  "size_loop lib digit [] tot currentDigit suffix = Inr tot"
| "size_loop lib digit (ch # chs) tot currentDigit suffix =
     (if digit ch then
        (if suffix \<noteq> [] then Inl (ErrNew ''unexpected digit after a suffix'')
         else size_loop lib digit chs tot (currentDigit @ encode_rune ch) suffix)
      else if ch \<noteq> 32 then size_loop lib digit chs tot currentDigit (suffix @ encode_rune ch)
      else (case Atoi currentDigit of
          None \<Rightarrow> Inl (cl_atoiErr lib currentDigit)
        | Some num \<Rightarrow>
           if num < 0 then Inl (ErrNew ''value must not be negative'')
           else (case size_unit suffix of
               Some u \<Rightarrow> size_loop lib digit chs (wrap64 (tot + wrap64 (num * u))) [] []
             | None \<Rightarrow> if num \<noteq> 0 then Inl (ErrNew (''unknown unit suffix: '' @ suffix))
                 else size_loop lib digit chs tot [] [])))"

definition ParseDataSize :: "cfg_lib \<Rightarrow> (rune \<Rightarrow> bool) \<Rightarrow> string \<Rightarrow> go_err + int" where
  "ParseDataSize lib digit s =
    (if s = [] then Inl (ErrNew ''missing a number'') else size_loop lib digit (runes (s @ '' '')) 0 [] [])"

definition map_DataSize :: "cfg_lib \<Rightarrow> (rune \<Rightarrow> bool) \<Rightarrow> node \<Rightarrow> go_err + 'c cfg_val" where
  "map_DataSize lib digit nd =
    (if children nd \<noteq> [] then Inl (NodeErr nd ''can't declare block here'')
     else if n_Args nd = [] then Inl (NodeErr nd ''at least one argument is required'')
     else (case ParseDataSize lib digit (Join '' '' (n_Args nd)) of
         Inl err \<Rightarrow> Inl (NodeErr nd (err_string err))
       | Inr n \<Rightarrow> Inr (VInt64 n)))"

definition bool_msg :: string where
  "bool_msg = ''bool argument should be 'yes' or 'no'' @ [CHR 0x27]"

definition ParseBool :: "(rune \<Rightarrow> rune) \<Rightarrow> string \<Rightarrow> go_err + bool" where
  "ParseBool lower s =
    (if ToLower lower s \<in> {''1'', ''true'', ''on'', ''yes''} then Inr True
     else if ToLower lower s \<in> {''0'', ''false'', ''off'', ''no''} then Inr False
     else Inl (ErrNew bool_msg))"

definition map_Bool :: "(rune \<Rightarrow> rune) \<Rightarrow> node \<Rightarrow> go_err + 'c cfg_val" where
  "map_Bool lower nd =
    (if children nd \<noteq> [] then Inl (NodeErr nd ''can't declare block here'')
     else (case n_Args nd of
         [] \<Rightarrow> Inr (VBool True)
       | [arg] \<Rightarrow> (case ParseBool lower arg of
           Inl err \<Rightarrow> Inl (NodeErr nd bool_msg)
         | Inr b \<Rightarrow> Inr (VBool b))
       | _ \<Rightarrow> Inl (NodeErr nd ''expected exactly 1 argument'')))"

definition map_StringList :: "node \<Rightarrow> go_err + 'c cfg_val" where
  "map_StringList nd =
    (if n_Args nd = [] then Inl (NodeErr nd ''expected at least one argument'')
     else if children nd \<noteq> [] then Inl (NodeErr nd ''can't declare block here'')
     else Inr (VStrings (Some (n_Args nd))))"

definition map_String :: "node \<Rightarrow> go_err + 'c cfg_val" where
  "map_String nd =
    (case n_Args nd of
       [arg] \<Rightarrow> if children nd \<noteq> [] then Inl (NodeErr nd ''can't declare block here'') else Inr (VString arg)
     | _ \<Rightarrow> Inl (NodeErr nd ''expected 1 argument''))"

text \<open>The directives of integers differ in the parser and the type of their value.\<close>

definition map_number :: "(string \<Rightarrow> int option) \<Rightarrow> (int \<Rightarrow> 'c cfg_val) \<Rightarrow> node \<Rightarrow> go_err + 'c cfg_val" where
  "map_number parse val nd =
    (case n_Args nd of
       [arg] \<Rightarrow>
        if children nd \<noteq> [] then Inl (NodeErr nd ''can't declare block here'')
        else (case parse arg of None \<Rightarrow> Inl (NodeErr nd (''invalid integer: '' @ arg)) | Some i \<Rightarrow> Inr (val i))
     | _ \<Rightarrow> Inl (NodeErr nd ''expected 1 argument''))"

definition ParseInt :: "nat \<Rightarrow> string \<Rightarrow> int option" where
  "ParseInt bits s =
    (case Atoi s of None \<Rightarrow> None | Some i \<Rightarrow> if - (2 ^ (bits - 1)) \<le> i \<and> i < 2 ^ (bits - 1) then Some i else None)"

definition parse_unsigned :: "nat \<Rightarrow> string \<Rightarrow> int option" where
  "parse_unsigned bits s = map_option int (ParseUint bits s)"

definition map_Int :: "node \<Rightarrow> go_err + 'c cfg_val" where "map_Int = map_number Atoi VInt"

definition map_UInt :: "node \<Rightarrow> go_err + 'c cfg_val" where "map_UInt = map_number (parse_unsigned 32) VUInt"

definition map_Int32 :: "node \<Rightarrow> go_err + 'c cfg_val" where "map_Int32 = map_number (ParseInt 32) VInt32"

definition map_UInt32 :: "node \<Rightarrow> go_err + 'c cfg_val" where "map_UInt32 = map_number (parse_unsigned 32) VUInt32"

definition map_Int64 :: "node \<Rightarrow> go_err + 'c cfg_val" where "map_Int64 = map_number (ParseInt 64) VInt64"

definition map_UInt64 :: "node \<Rightarrow> go_err + 'c cfg_val" where "map_UInt64 = map_number (parse_unsigned 64) VUInt64"

definition map_Float :: "(string \<Rightarrow> 'c option) \<Rightarrow> node \<Rightarrow> go_err + 'c cfg_val" where
  "map_Float ParseFloat nd =
    (case n_Args nd of
       [arg] \<Rightarrow> (case ParseFloat arg of None \<Rightarrow> Inl (NodeErr nd (''invalid float: '' @ arg)) | Some x \<Rightarrow> Inr (VCustom x))
     | _ \<Rightarrow> Inl (NodeErr nd ''expected 1 argument''))"

section \<open>The map\<close>

text \<open>A matcher has a mapper or is a callback. \<open>mt_store\<close> is the type of the variable, if there is one.\<close>

record ('c, 's) matcher =
  mt_name :: string
  mt_required :: bool
  mt_inheritGlobal :: bool
  mt_defaultVal :: "('s \<Rightarrow> 's \<times> (go_err + 'c cfg_val)) option"
  mt_mapper :: "(node \<Rightarrow> 's \<Rightarrow> 's \<times> (go_err + 'c cfg_val)) option"
  mt_store :: "cfg_type option"
  mt_customCallback :: "(node \<Rightarrow> 's \<Rightarrow> 's \<times> go_err option) option"

text \<open>A map, its entries in the order in which they were added. A second entry of a name panics.\<close>

record ('c, 's) cfg_map =
  cm_allowUnknown :: bool
  cm_entries :: "('c, 's) matcher list"

definition NewMap :: "('c, 's) cfg_map" where
  "NewMap = \<lparr>cm_allowUnknown = False, cm_entries = []\<rparr>"

definition AllowUnknown :: "('c, 's) cfg_map \<Rightarrow> ('c, 's) cfg_map" where
  "AllowUnknown m = m\<lparr>cm_allowUnknown := True\<rparr>"

definition entry :: "('c, 's) matcher list \<Rightarrow> string \<Rightarrow> ('c, 's) matcher option" where
  "entry es name = find (\<lambda>e. mt_name e = name) es"

definition Custom ::
  "string \<Rightarrow> bool \<Rightarrow> bool \<Rightarrow> ('s \<Rightarrow> 's \<times> (go_err + 'c cfg_val)) option \<Rightarrow> (node \<Rightarrow> 's \<Rightarrow> 's \<times> (go_err + 'c cfg_val))
    \<Rightarrow> cfg_type option \<Rightarrow> ('c, 's) cfg_map \<Rightarrow> ('c, 's) cfg_map option" where
  "Custom name inheritGlobal required defaultVal mapper store m =
    (if entry (cm_entries m) name \<noteq> None then None
     else Some (m\<lparr>cm_entries := cm_entries m @ [\<lparr>mt_name = name, mt_required = required, mt_inheritGlobal = inheritGlobal,
         mt_defaultVal = defaultVal, mt_mapper = Some mapper, mt_store = store, mt_customCallback = None\<rparr>]\<rparr>))"

definition Callback :: "string \<Rightarrow> (node \<Rightarrow> 's \<Rightarrow> 's \<times> go_err option) \<Rightarrow> ('c, 's) cfg_map \<Rightarrow> ('c, 's) cfg_map option" where
  "Callback name mapper m =
    (if entry (cm_entries m) name \<noteq> None then None
     else Some (m\<lparr>cm_entries := cm_entries m @ [\<lparr>mt_name = name, mt_required = False, mt_inheritGlobal = False,
         mt_defaultVal = None, mt_mapper = None, mt_store = None, mt_customCallback = Some mapper\<rparr>]\<rparr>))"

text \<open>What processing changes: the state of the mappers, the names that were matched, the values of the
  map and the variables. A variable goes by the name of the directive that stores into it: a map
  has one matcher for a name, and callers give each directive a variable of its own.\<close>

record ('c, 's) proc =
  pr_state :: 's
  pr_matched :: "string set"
  pr_Values :: "string \<rightharpoonup> 'c cfg_val"
  pr_vars :: "string \<rightharpoonup> 'c cfg_val"
  pr_unknown :: "node list"

definition proc_init :: "'s \<Rightarrow> ('c, 's) proc" where
  "proc_init s = \<lparr>pr_state = s, pr_matched = {}, pr_Values = Map.empty, pr_vars = Map.empty, pr_unknown = []\<rparr>"

text \<open>Storing into the variable of a matcher; \<open>Set\<close> panics on a value of another type.\<close>

definition assign :: "('c, 's) matcher \<Rightarrow> 'c cfg_val \<Rightarrow> ('c, 's) proc \<Rightarrow> ('c, 's) proc option" where
  "assign mt val p =
    (case mt_store mt of
       None \<Rightarrow> Some p
     | Some t \<Rightarrow> if assignable t val then Some (p\<lparr>pr_vars := (pr_vars p)(mt_name mt \<mapsto> val)\<rparr>) else None)"

text \<open>A mapper that is missing in the block, that is of a callback, is never called: callbacks come
  first.\<close>

definition process_node :: "('c, 's) cfg_map \<Rightarrow> node \<Rightarrow> ('c, 's) proc \<Rightarrow> (go_err + ('c, 's) proc) option" where
  "process_node m subnode p =
    (case entry (cm_entries m) (n_Name subnode) of
       None \<Rightarrow>
        if \<not> cm_allowUnknown m then Some (Inl (NodeErr subnode (''unexpected directive: '' @ n_Name subnode)))
        else Some (Inr (p\<lparr>pr_unknown := pr_unknown p @ [subnode]\<rparr>))
     | Some mt \<Rightarrow>
        (case mt_customCallback mt of
           Some f \<Rightarrow>
            (case f subnode (pr_state p) of
               (s, Some err) \<Rightarrow> Some (Inl err)
             | (s, None) \<Rightarrow> Some (Inr (p\<lparr>pr_state := s, pr_matched := insert (n_Name subnode) (pr_matched p)\<rparr>)))
         | None \<Rightarrow>
            if n_Name subnode \<in> pr_matched p then Some (Inl (NodeErr subnode (''duplicate directive: '' @ n_Name subnode)))
            else (case mt_mapper mt of
                None \<Rightarrow> None
              | Some mapper \<Rightarrow>
                 (case mapper subnode (pr_state p) of
                    (s, Inl err) \<Rightarrow> Some (Inl err)
                  | (s, Inr val) \<Rightarrow> map_option Inr (assign mt val (p\<lparr>pr_state := s, pr_matched := insert (n_Name subnode) (pr_matched p),
                      pr_Values := (pr_Values p)(mt_name mt \<mapsto> val)\<rparr>))))))"

fun process_nodes :: "('c, 's) cfg_map \<Rightarrow> node list \<Rightarrow> ('c, 's) proc \<Rightarrow> (go_err + ('c, 's) proc) option" where
  "process_nodes m [] p = Some (Inr p)"
| "process_nodes m (n # ns) p =
     (case process_node m n p of
        None \<Rightarrow> None
      | Some (Inl err) \<Rightarrow> Some (Inl err)
      | Some (Inr p) \<Rightarrow> process_nodes m ns p)"

definition default_entry ::
  "('c \<Rightarrow> bool) \<Rightarrow> (string \<rightharpoonup> 'c cfg_val) \<Rightarrow> node \<Rightarrow> ('c, 's) matcher \<Rightarrow> ('c, 's) proc \<Rightarrow> (go_err + ('c, 's) proc) option" where
  "default_entry zero globalCfg block mt p =
    (let store = (\<lambda>val p. map_option Inr (assign mt val
           (if is_zero zero val then p else p\<lparr>pr_Values := (pr_Values p)(mt_name mt \<mapsto> val)\<rparr>))) in
     if mt_name mt \<in> pr_matched p \<or> mt_mapper mt = None then Some (Inr p)
     else if mt_inheritGlobal mt \<and> globalCfg (mt_name mt) \<noteq> None then store (the (globalCfg (mt_name mt))) p
     else if mt_required mt then Some (Inl (NodeErr block (''missing required directive: '' @ mt_name mt)))
     else (case mt_defaultVal mt of
         None \<Rightarrow> Some (Inr p)
       | Some f \<Rightarrow> (case f (pr_state p) of
           (s, Inl err) \<Rightarrow> Some (Inl err)
         | (s, Inr val) \<Rightarrow> store val (p\<lparr>pr_state := s\<rparr>))))"

fun default_entries ::
  "('c \<Rightarrow> bool) \<Rightarrow> (string \<rightharpoonup> 'c cfg_val) \<Rightarrow> node \<Rightarrow> ('c, 's) matcher list \<Rightarrow> ('c, 's) proc \<Rightarrow> (go_err + ('c, 's) proc) option" where
  "default_entries zero globalCfg block [] p = Some (Inr p)"
| "default_entries zero globalCfg block (mt # mts) p =
     (case default_entry zero globalCfg block mt p of
        None \<Rightarrow> None
      | Some (Inl err) \<Rightarrow> Some (Inl err)
      | Some (Inr p) \<Rightarrow> default_entries zero globalCfg block mts p)"

text \<open>\<open>ProcessWith\<close>; \<open>order\<close> lists the entries in the unspecified order of the range over their map.\<close>

definition ProcessWith ::
  "('c \<Rightarrow> bool) \<Rightarrow> ('c, 's) cfg_map \<Rightarrow> ('c, 's) matcher list \<Rightarrow> (string \<rightharpoonup> 'c cfg_val) \<Rightarrow> node \<Rightarrow> 's \<Rightarrow> (go_err + ('c, 's) proc) option" where
  "ProcessWith zero m order globalCfg block s =
    (case process_nodes m (children block) (proc_init s) of
       None \<Rightarrow> None
     | Some (Inl err) \<Rightarrow> Some (Inl err)
     | Some (Inr p) \<Rightarrow> default_entries zero globalCfg block order p)"

end
