(* ===== verification/CfgMapProps.thy ===== *)
theory CfgMapProps
  imports CfgMap
begin

text \<open>
  What processing a block gives every variable, and that it does not panic on directives whose
  functions return values of the types of their variables.
\<close>

section \<open>Maps as they are built\<close>

inductive built :: "('c, 's) cfg_map \<Rightarrow> bool" where
  built_new: "built NewMap"
| built_unknown: "built m \<Longrightarrow> built (AllowUnknown m)"
| built_custom: "built m \<Longrightarrow> Custom name inh req def f store m = Some m' \<Longrightarrow> built m'"
| built_callback: "built m \<Longrightarrow> Callback name f m = Some m' \<Longrightarrow> built m'"

definition proper :: "('c, 's) matcher \<Rightarrow> bool" where
  "proper mt \<longleftrightarrow> (mt_mapper mt = None \<longleftrightarrow> mt_customCallback mt \<noteq> None)"

lemma entry_None: "entry es name = None \<longleftrightarrow> name \<notin> mt_name ` set es"
  by (auto simp: entry_def find_None_iff)

lemma built_entries:
  assumes "built m"
  shows "distinct (map mt_name (cm_entries m)) \<and> list_all proper (cm_entries m)"
  using assms by (induction rule: built.induct)
    (auto simp: NewMap_def AllowUnknown_def Custom_def Callback_def proper_def entry_None split: if_splits)

lemma entry_member: "distinct (map mt_name es) \<Longrightarrow> e \<in> set es \<Longrightarrow> entry es (mt_name e) = Some e"
  by (induction es) (auto simp: entry_def)

lemma entry_Some: "entry es name = Some e \<Longrightarrow> e \<in> set es \<and> mt_name e = name"
  by (auto simp: entry_def find_Some_iff)

section \<open>Types\<close>

text \<open>A matcher whose functions, and the global value it may inherit, give values of the type of its variable.\<close>

definition typed :: "(string \<rightharpoonup> 'c cfg_val) \<Rightarrow> ('c, 's) matcher \<Rightarrow> bool" where
  "typed globals mt \<longleftrightarrow> (\<forall>t. mt_store mt = Some t \<longrightarrow>
     (\<forall>f nd s s' v. mt_mapper mt = Some f \<longrightarrow> f nd s = (s', Inr v) \<longrightarrow> assignable t v)
     \<and> (\<forall>f s s' v. mt_defaultVal mt = Some f \<longrightarrow> f s = (s', Inr v) \<longrightarrow> assignable t v)
     \<and> (\<forall>v. mt_inheritGlobal mt \<longrightarrow> globals (mt_name mt) = Some v \<longrightarrow> assignable t v))"

lemma assign_total: "(\<And>t. mt_store mt = Some t \<Longrightarrow> assignable t v) \<Longrightarrow> \<exists>q. assign mt v p = Some q"
  by (auto simp: assign_def split: option.split)

lemma process_node_total:
  assumes "list_all proper (cm_entries m)" "list_all (typed globals) (cm_entries m)"
  shows "process_node m nd p \<noteq> None"
proof (cases "entry (cm_entries m) (n_Name nd)")
  case (Some mt)
  with assms entry_Some [OF Some] have "proper mt" "typed globals mt" by (auto simp: list_all_iff)
  then show ?thesis using Some
    by (auto simp: process_node_def proper_def typed_def intro!: assign_total split: option.split prod.split sum.split)
qed (auto simp: process_node_def)

lemma process_nodes_total:
  assumes "list_all proper (cm_entries m)" "list_all (typed globals) (cm_entries m)"
  shows "process_nodes m nds p \<noteq> None"
  using process_node_total [OF assms] by (induction nds arbitrary: p) (auto split: option.split sum.split)

lemma default_entry_total: "typed globals mt \<Longrightarrow> default_entry zero globals block mt p \<noteq> None"
  by (auto simp: default_entry_def typed_def Let_def intro!: assign_total split: option.split prod.split sum.split)

lemma default_entries_total: "list_all (typed globals) mts \<Longrightarrow> default_entries zero globals block mts p \<noteq> None"
  by (induction mts arbitrary: p) (auto dest: default_entry_total split: option.split sum.split)

lemma process_total:
  assumes "built m" "set order = set (cm_entries m)" "list_all (typed globals) (cm_entries m)"
  shows "ProcessWith zero m order globals block s \<noteq> None"
proof -
  have "list_all (typed globals) order" using assms by (simp add: list_all_iff)
  then show ?thesis
    using process_nodes_total [OF _ assms(3)] built_entries [OF assms(1)] default_entries_total
    by (fastforce simp: ProcessWith_def split: option.split sum.split)
qed

section \<open>Values\<close>

text \<open>The variable of a matcher after a value was stored.\<close>

definition holds :: "('c, 's) matcher \<Rightarrow> ('c, 's) proc \<Rightarrow> 'c cfg_val \<Rightarrow> bool" where
  "holds mt p v \<longleftrightarrow> (\<forall>t. mt_store mt = Some t \<longrightarrow> pr_vars p (mt_name mt) = Some v)"

definition same_at :: "string \<Rightarrow> ('c, 's) proc \<Rightarrow> ('c, 's) proc \<Rightarrow> bool" where
  "same_at name p p' \<longleftrightarrow> pr_vars p' name = pr_vars p name \<and> pr_Values p' name = pr_Values p name
     \<and> (name \<in> pr_matched p' \<longleftrightarrow> name \<in> pr_matched p)"

definition set_by :: "('c, 's) matcher \<Rightarrow> node \<Rightarrow> ('c, 's) proc \<Rightarrow> bool" where
  "set_by mt nd p \<longleftrightarrow> mt_name mt \<in> pr_matched p \<and> (\<exists>f s s' v. mt_mapper mt = Some f \<and> f nd s = (s', Inr v)
     \<and> holds mt p v \<and> pr_Values p (mt_name mt) = Some v)"

lemma same_at_trans: "same_at name p q \<Longrightarrow> same_at name q r \<Longrightarrow> same_at name p r"
  by (simp add: same_at_def)

lemma set_by_same: "same_at (mt_name mt) p q \<Longrightarrow> set_by mt nd p \<Longrightarrow> set_by mt nd q"
  by (auto simp: same_at_def set_by_def holds_def)

lemma assign_effect:
  assumes "assign mt v p = Some q"
  shows "holds mt q v" "name \<noteq> mt_name mt \<Longrightarrow> pr_vars q name = pr_vars p name" "pr_Values q = pr_Values p"
    "pr_matched q = pr_matched p" "pr_unknown q = pr_unknown p" "mt_store mt = None \<Longrightarrow> q = p"
  using assms by (auto simp: assign_def holds_def split: option.splits if_splits)

lemma process_node_effect:
  assumes "process_node m nd p = Some (Inr q)" "distinct (map mt_name (cm_entries m))" "mt \<in> set (cm_entries m)"
    "mt_customCallback mt = None"
  shows "if n_Name nd = mt_name mt then mt_name mt \<notin> pr_matched p \<and> set_by mt nd q else same_at (mt_name mt) p q"
proof (cases "n_Name nd = mt_name mt")
  case True
  with entry_member [OF assms(2,3)] have e: "entry (cm_entries m) (n_Name nd) = Some mt" by simp
  with assms(1,4) True obtain f s v where f: "mt_mapper mt = Some f" "f nd (pr_state p) = (s, Inr v)" "n_Name nd \<notin> pr_matched p"
    "assign mt v (p\<lparr>pr_state := s, pr_matched := insert (n_Name nd) (pr_matched p), pr_Values := (pr_Values p)(mt_name mt \<mapsto> v)\<rparr>) = Some q"
    by (auto simp: process_node_def split: if_splits option.splits prod.splits sum.splits)
  with assign_effect [OF f(4)] True show ?thesis by (auto simp: set_by_def)
next
  case False
  with assms(1) show ?thesis
    by (auto simp: process_node_def same_at_def assign_def split: if_splits option.splits prod.splits sum.splits
        dest!: entry_Some)
qed

lemma process_nodes_effect:
  assumes "process_nodes m nds p = Some (Inr q)" "distinct (map mt_name (cm_entries m))" "mt \<in> set (cm_entries m)"
    "mt_customCallback mt = None"
  shows "(filter (\<lambda>nd. n_Name nd = mt_name mt) nds = [] \<and> same_at (mt_name mt) p q)
    \<or> (\<exists>nd. filter (\<lambda>nd. n_Name nd = mt_name mt) nds = [nd] \<and> mt_name mt \<notin> pr_matched p \<and> set_by mt nd q)"
  using assms(1)
proof (induction nds arbitrary: p)
  case (Cons nd nds)
  then obtain r where r: "process_node m nd p = Some (Inr r)" "process_nodes m nds r = Some (Inr q)"
    by (auto split: option.splits sum.splits)
  from process_node_effect [OF r(1) assms(2-4)] Cons.IH [OF r(2)] show ?case
    by (auto split: if_splits simp: set_by_def same_at_def holds_def)
qed (simp add: same_at_def)

lemma process_nodes_unknown:
  assumes "process_nodes m nds p = Some (Inr q)"
  shows "pr_unknown q = pr_unknown p @ filter (\<lambda>nd. n_Name nd \<notin> mt_name ` set (cm_entries m)) nds
    \<and> (cm_allowUnknown m \<or> list_all (\<lambda>nd. n_Name nd \<in> mt_name ` set (cm_entries m)) nds)"
  using assms
proof (induction nds arbitrary: p)
  case (Cons nd nds)
  then obtain r where r: "process_node m nd p = Some (Inr r)" "process_nodes m nds r = Some (Inr q)"
    by (auto split: option.splits sum.splits)
  have "if n_Name nd \<in> mt_name ` set (cm_entries m) then pr_unknown r = pr_unknown p
    else cm_allowUnknown m \<and> pr_unknown r = pr_unknown p @ [nd]"
  proof (cases "entry (cm_entries m) (n_Name nd)")
    case None
    with r(1) show ?thesis by (auto simp: process_node_def entry_None split: if_splits)
  next
    case (Some e)
    with entry_Some [OF Some] have "n_Name nd \<in> mt_name ` set (cm_entries m)" by force
    with Some r(1) show ?thesis
      by (auto simp: process_node_def split: if_splits option.splits prod.splits sum.splits dest: assign_effect)
  qed
  with Cons.IH [OF r(2)] show ?case by (auto split: if_splits)
qed simp

text \<open>What an entry without a directive gets.\<close>

definition defaulted :: "(string \<rightharpoonup> 'c cfg_val) \<Rightarrow> ('c, 's) matcher \<Rightarrow> ('c, 's) proc \<Rightarrow> bool" where
  "defaulted globals mt p =
    (case (if mt_inheritGlobal mt then globals (mt_name mt) else None) of
       Some v \<Rightarrow> holds mt p v
     | None \<Rightarrow> \<not> mt_required mt \<and> (\<forall>f. mt_defaultVal mt = Some f \<longrightarrow> (\<exists>s s' v. f s = (s', Inr v) \<and> holds mt p v)))"

lemma default_entry_effect:
  assumes "default_entry zero globals block mt p = Some (Inr q)"
  shows "pr_matched q = pr_matched p \<and> pr_unknown q = pr_unknown p \<and> (\<forall>name. name \<noteq> mt_name mt \<longrightarrow> same_at name p q)
    \<and> (mt_name mt \<in> pr_matched p \<longrightarrow> q = p) \<and> (mt_name mt \<notin> pr_matched p \<longrightarrow> mt_mapper mt \<noteq> None \<longrightarrow> defaulted globals mt q)"
  using assms
  by (auto simp: default_entry_def defaulted_def same_at_def Let_def split: if_splits option.splits prod.splits sum.splits
      dest: assign_effect)

lemma defaulted_same: "same_at (mt_name mt) p q \<Longrightarrow> defaulted globals mt p \<Longrightarrow> defaulted globals mt q"
  by (auto simp: defaulted_def holds_def same_at_def split: option.splits if_splits)

lemma default_entries_effect:
  assumes "default_entries zero globals block mts p = Some (Inr q)" "distinct (map mt_name mts)"
  shows "pr_unknown q = pr_unknown p \<and> (\<forall>name. name \<notin> mt_name ` set mts \<longrightarrow> same_at name p q)
    \<and> (\<forall>mt \<in> set mts. mt_name mt \<in> pr_matched p \<longrightarrow> same_at (mt_name mt) p q)
    \<and> (\<forall>mt \<in> set mts. mt_name mt \<notin> pr_matched p \<longrightarrow> mt_mapper mt \<noteq> None \<longrightarrow> defaulted globals mt q)"
  using assms
proof (induction mts arbitrary: p)
  case (Cons mt mts)
  then obtain r where r: "default_entry zero globals block mt p = Some (Inr r)" "default_entries zero globals block mts r = Some (Inr q)"
    by (auto split: option.splits sum.splits)
  note d = default_entry_effect [OF r(1)]
  from Cons.IH [OF r(2)] Cons.prems(2) have ih: "pr_unknown q = pr_unknown r" "\<And>name. name \<notin> mt_name ` set mts \<Longrightarrow> same_at name r q"
    "\<And>mt. mt \<in> set mts \<Longrightarrow> mt_name mt \<in> pr_matched r \<Longrightarrow> same_at (mt_name mt) r q"
    "\<And>mt. mt \<in> set mts \<Longrightarrow> mt_name mt \<notin> pr_matched r \<Longrightarrow> mt_mapper mt \<noteq> None \<Longrightarrow> defaulted globals mt q" by auto
  have n: "mt_name mt \<notin> mt_name ` set mts" using Cons.prems(2) by simp
  have "same_at name p q" if "name \<notin> mt_name ` set (mt # mts)" for name
    using that d ih(2) [of name] same_at_trans [of name p r q] by auto
  moreover have "same_at (mt_name e) p q" if "e \<in> set (mt # mts)" "mt_name e \<in> pr_matched p" for e
  proof (cases "e = mt")
    case True
    with that d have "r = p" by auto
    with True n ih(2) show ?thesis by auto
  next
    case False
    with that have e: "e \<in> set mts" by simp
    then have ne: "mt_name e \<noteq> mt_name mt" using n by (metis image_eqI)
    have m: "pr_matched r = pr_matched p" "same_at (mt_name e) p r" using d ne by blast+
    with that e ih(3) [of e] have "same_at (mt_name e) r q" by simp
    with m show ?thesis by (blast intro: same_at_trans)
  qed
  moreover have "defaulted globals e q" if "e \<in> set (mt # mts)" "mt_name e \<notin> pr_matched p" "mt_mapper e \<noteq> None" for e
  proof (cases "e = mt")
    case True
    with that d have "defaulted globals e r" by auto
    with True n ih(2) show ?thesis by (auto intro: defaulted_same)
  next
    case False
    with that d show ?thesis by (auto intro: ih(4))
  qed
  ultimately show ?case using d ih(1) by auto
qed (simp add: same_at_def)

text \<open>What processing a block promises for an entry with a variable: its only directive sets it, and
  without one it gets the inherited or the default value. Two directives are refused.\<close>

definition processed :: "(string \<rightharpoonup> 'c cfg_val) \<Rightarrow> node list \<Rightarrow> ('c, 's) proc \<Rightarrow> ('c, 's) matcher \<Rightarrow> bool" where
  "processed globals nds p mt =
    (case filter (\<lambda>nd. n_Name nd = mt_name mt) nds of
       [] \<Rightarrow> defaulted globals mt p
     | [nd] \<Rightarrow> set_by mt nd p
     | _ \<Rightarrow> False)"

lemma process_result:
  assumes "built m" "mset order = mset (cm_entries m)" "ProcessWith zero m order globals block s = Some (Inr p)"
  shows "pr_unknown p = filter (\<lambda>nd. n_Name nd \<notin> mt_name ` set (cm_entries m)) (children block)
    \<and> (cm_allowUnknown m \<or> pr_unknown p = [])
    \<and> list_all (\<lambda>mt. mt_mapper mt = None \<or> processed globals (children block) p mt) (cm_entries m)"
proof -
  from assms(3) obtain q where q: "process_nodes m (children block) (proc_init s) = Some (Inr q)"
    "default_entries zero globals block order q = Some (Inr p)"
    by (auto simp: ProcessWith_def split: option.splits sum.splits)
  have e: "distinct (map mt_name (cm_entries m))" "list_all proper (cm_entries m)" using built_entries [OF assms(1)] by auto
  have o': "set order = set (cm_entries m)" "distinct (map mt_name order)"
    using assms(2) e(1) mset_eq_setD mset_eq_imp_distinct_iff [of "map mt_name order" "map mt_name (cm_entries m)"] by (auto simp: mset_map)
  note d = default_entries_effect [OF q(2) o'(2), unfolded o'(1)]
  have u: "pr_unknown p = filter (\<lambda>nd. n_Name nd \<notin> mt_name ` set (cm_entries m)) (children block)"
    "cm_allowUnknown m \<or> pr_unknown p = []"
    using d process_nodes_unknown [OF q(1)] by (auto simp: proc_init_def list_all_iff filter_empty_conv)
  have "processed globals (children block) p mt" if mt: "mt \<in> set (cm_entries m)" "mt_mapper mt \<noteq> None" for mt
  proof -
    have c: "mt_customCallback mt = None" using e(2) mt by (auto simp: list_all_iff proper_def)
    from process_nodes_effect [OF q(1) e(1) mt(1) c] show ?thesis
    proof (elim disjE conjE exE)
      assume f: "filter (\<lambda>nd. n_Name nd = mt_name mt) (children block) = []" "same_at (mt_name mt) (proc_init s) q"
      then have "mt_name mt \<notin> pr_matched q" by (auto simp: same_at_def proc_init_def)
      with d mt f(1) show ?thesis by (auto simp: processed_def)
    next
      fix nd assume f: "filter (\<lambda>nd. n_Name nd = mt_name mt) (children block) = [nd]" "set_by mt nd q"
      then have "same_at (mt_name mt) q p" using d mt by (auto simp: set_by_def)
      with f show ?thesis by (auto simp: processed_def intro: set_by_same)
    qed
  qed
  then have "list_all (\<lambda>mt. mt_mapper mt = None \<or> processed globals (children block) p mt) (cm_entries m)"
    unfolding list_all_iff by blast
  with u show ?thesis by blast
qed

text \<open>C20: Processing a block through a map whose functions give values of the types of their variables
  does not panic, and when it succeeds every variable holds the value of its only directive or,
  without one, the inherited or the default value; no required directive is missing, and the
  directives without an entry are returned in order, or there are none.\<close>

theorem config_processed:
  assumes "built m" "mset order = mset (cm_entries m)" "list_all (typed globals) (cm_entries m)"
  shows "\<exists>r. ProcessWith zero m order globals block s = Some r \<and> (case r of
      Inl err \<Rightarrow> True
    | Inr p \<Rightarrow> pr_unknown p = filter (\<lambda>nd. n_Name nd \<notin> mt_name ` set (cm_entries m)) (children block)
        \<and> (cm_allowUnknown m \<or> pr_unknown p = [])
        \<and> list_all (\<lambda>mt. mt_mapper mt = None \<or> processed globals (children block) p mt) (cm_entries m))"
proof -
  obtain r where r: "ProcessWith zero m order globals block s = Some r"
    using process_total [OF assms(1) mset_eq_setD [OF assms(2)] assms(3)] by blast
  show ?thesis
  proof (cases r)
    case (Inr p)
    show ?thesis
      by (intro exI [of _ r] conjI r) (unfold Inr sum.case, rule process_result [OF assms(1,2) r [unfolded Inr]])
  qed (use r in simp)
qed

section \<open>The directives of basic types\<close>

text \<open>The maps of the directives with a default value are typed.\<close>

definition plain :: "(node \<Rightarrow> go_err + 'c cfg_val) \<Rightarrow> node \<Rightarrow> 's \<Rightarrow> 's \<times> (go_err + 'c cfg_val)" where
  "plain f nd s = (s, f nd)"

definition const_val :: "'c cfg_val \<Rightarrow> 's \<Rightarrow> 's \<times> (go_err + 'c cfg_val)" where
  "const_val v s = (s, Inr v)"

lemma directive_types:
  "map_EnumList allowed nd = Inr v \<Longrightarrow> assignable TStrings v" "map_Enum allowed nd = Inr v \<Longrightarrow> assignable TString v"
  "map_EnumMapped mapped nd = Inr v \<Longrightarrow> assignable TCustom v" "map_EnumListMapped mapped' g nd = Inr v \<Longrightarrow> assignable TCustom v"
  "map_Duration lib nd = Inr v \<Longrightarrow> assignable TDuration v" "map_DataSize lib digit nd = Inr v \<Longrightarrow> assignable TInt64 v"
  "map_Bool lower nd = Inr v \<Longrightarrow> assignable TBool v" "map_StringList nd = Inr v \<Longrightarrow> assignable TStrings v"
  "map_String nd = Inr v \<Longrightarrow> assignable TString v" "map_Int nd = Inr v \<Longrightarrow> assignable TInt v"
  "map_UInt nd = Inr v \<Longrightarrow> assignable TUInt v" "map_Int32 nd = Inr v \<Longrightarrow> assignable TInt32 v"
  "map_UInt32 nd = Inr v \<Longrightarrow> assignable TUInt32 v" "map_Int64 nd = Inr v \<Longrightarrow> assignable TInt64 v"
  "map_UInt64 nd = Inr v \<Longrightarrow> assignable TUInt64 v"
  by (auto simp: map_EnumList_def map_Enum_def map_EnumMapped_def map_EnumListMapped_def map_Duration_def map_DataSize_def
      map_Bool_def map_StringList_def map_String_def map_Int_def map_UInt_def map_Int32_def map_UInt32_def map_Int64_def map_UInt64_def
      map_number_def split: if_splits list.splits option.splits sum.splits)

definition demo_map :: "(unit, unit) cfg_map" where
  "demo_map = \<lparr>cm_allowUnknown = False, cm_entries =
     [\<lparr>mt_name = ''hostname'', mt_required = True, mt_inheritGlobal = True, mt_defaultVal = None,
       mt_mapper = Some (plain map_String), mt_store = Some TString, mt_customCallback = None\<rparr>,
      \<lparr>mt_name = ''debug'', mt_required = False, mt_inheritGlobal = False, mt_defaultVal = Some (const_val (VBool False)),
       mt_mapper = Some (plain (map_Bool (\<lambda>r. r))), mt_store = Some TBool, mt_customCallback = None\<rparr>]\<rparr>"

definition demo_block :: node where
  "demo_block = Node ''smtp'' [] (Some [Node ''hostname'' [''mx.b''] None False False [] 2]) False False [] 1"

lemma demo_map_built: "built demo_map"
proof -
  obtain m1 :: "(unit, unit) cfg_map" where m1: "Custom ''hostname'' True True None (plain map_String) (Some TString) NewMap = Some m1"
    by (simp add: Custom_def NewMap_def entry_def)
  have "Custom ''debug'' False False (Some (const_val (VBool False))) (plain (map_Bool (\<lambda>r. r))) (Some TBool) m1 = Some demo_map"
    using m1 by (auto simp: Custom_def NewMap_def entry_def demo_map_def)
  then show ?thesis using m1 by (blast intro: built.intros)
qed

theorem config_processed_witness:
  "\<exists>p. ProcessWith (\<lambda>_. False) demo_map (cm_entries demo_map) Map.empty demo_block () = Some (Inr p)
    \<and> pr_vars p ''hostname'' = Some (VString ''mx.b'') \<and> pr_vars p ''debug'' = Some (VBool False) \<and> pr_unknown p = []"
proof -
  have t: "list_all (typed Map.empty) (cm_entries demo_map)"
    by (auto simp: demo_map_def typed_def plain_def const_val_def dest: directive_types)
  obtain p where p: "ProcessWith (\<lambda>_. False) demo_map (cm_entries demo_map) Map.empty demo_block () = Some (Inr p)"
    by (auto simp: ProcessWith_def demo_map_def demo_block_def children_def process_node_def entry_def plain_def map_String_def
        assign_def proc_init_def default_entry_def const_val_def Let_def)
  from config_processed [OF demo_map_built refl t, of "\<lambda>_. False" demo_block "()"] p show ?thesis
    by (auto simp: demo_map_def demo_block_def children_def processed_def set_by_def defaulted_def holds_def plain_def const_val_def map_String_def)
qed

section \<open>Observations\<close>

text \<open>A data size that does not fit wraps: 8589934592G is a negative size.\<close>

lemma datasize_wraps:
  assumes "Atoi ds = Some 8589934592" "\<not> digit 71" "\<not> digit 32"
  shows "size_loop lib digit [71, 32] 0 ds [] = Inr (- 9223372036854775808)"
proof -
  have "encode_rune 71 = ''G''" by code_simp
  with assms show ?thesis by (simp add: size_unit_def wrap64_def)
qed

text \<open>A number with an unknown unit is accepted when it is zero.\<close>

lemma zero_with_any_unit:
  assumes "Atoi ds = Some 0" "\<not> digit 88" "\<not> digit 32"
  shows "size_loop lib digit [88, 32] 5 ds [] = Inr 5"
proof -
  have "encode_rune 88 = ''X''" by code_simp
  with assms show ?thesis by (simp add: size_unit_def)
qed

end
