(* ===== verification/Downstream.thy ===== *)
theory Downstream
  imports SmtpConn CfgNode
begin

text \<open>
  The target that forwards messages to configured servers (\<open>internal/target/smtp\<close>): the choice of the
  server, authentication to it and every operation of a delivery, over SMTP or LMTP. A panic is \<open>None\<close>.
\<close>

section \<open>Configuration\<close>

text \<open>The clients of go-sasl the module makes.\<close>

datatype sasl_client = PlainClient string string string | ExternalClient string

type_synonym sasl_factory = "msg_meta \<Rightarrow> go_err + sasl_client"

definition forward_client :: sasl_factory where
  "forward_client msgMeta =
    (let denied = Inl (SMTPError 530 (5, 7, 0) ''Authentication is required'' [] ''target.smtp'' None
           ''Credentials forwarding is requested but the client is not authenticated'' []) in
     case mm_Conn msgMeta of
       None \<Rightarrow> denied
     | Some conn \<Rightarrow> if cs_AuthUser conn = [] \<or> cs_AuthPassword conn = [] then denied
         else Inr (PlainClient [] (cs_AuthUser conn) (cs_AuthPassword conn)))"

definition saslAuthDirective :: "node \<Rightarrow> go_err + sasl_factory option" where
  "saslAuthDirective nd =
    (if children nd \<noteq> [] then Inl (NodeErr nd ''can't declare a block here'')
     else (case n_Args nd of
         [] \<Rightarrow> Inl (NodeErr nd ''at least one argument required'')
       | mech # args \<Rightarrow>
          if mech = ''off'' then Inr None
          else if mech = ''forward'' then
            (if args \<noteq> [] then Inl (NodeErr nd ''no additional arguments required'') else Inr (Some forward_client))
          else if mech = ''plain'' then
            (case args of
               [username, password] \<Rightarrow> Inr (Some (\<lambda>_. Inr (PlainClient [] username password)))
             | _ \<Rightarrow> Inl (NodeErr nd ''two additional arguments are required (username, password)''))
          else if mech = ''external'' then
            (if args \<noteq> [] then Inl (NodeErr nd ''no additional arguments required'') else Inr (Some (\<lambda>_. Inr (ExternalClient []))))
          else Inl (NodeErr nd (''unknown authentication mechanism: '' @ mech))))"

record 'w downstream =
  dn_modName :: string
  dn_lmtp :: bool
  dn_starttls :: bool
  dn_hostname :: string
  dn_endpoints :: "net_endpoint list"
  dn_saslFactory :: "sasl_factory option"
  dn_tlsConfig :: tls_cfg
  dn_Auth :: "nat \<Rightarrow> sasl_client \<Rightarrow> 'w \<Rightarrow> 'w \<times> go_err option"

definition is_lmtp_module :: "string \<Rightarrow> bool" where
  "is_lmtp_module modName = (modName = ''target.lmtp'' \<or> modName = ''lmtp_downstream'')"

text \<open>\<open>Init\<close> after the directives were read: the deprecated directive overrides \<open>starttls\<close>, the host name
  is converted and the endpoints of arguments and directive are parsed.\<close>

fun parse_endpoints :: "(string \<Rightarrow> go_err + net_endpoint) \<Rightarrow> string list \<Rightarrow> go_err + net_endpoint list" where
  "parse_endpoints ParseEndpoint [] = Inr []"
| "parse_endpoints ParseEndpoint (t # ts) =
     (case ParseEndpoint t of
        Inl err \<Rightarrow> Inl err
      | Inr e \<Rightarrow> (case parse_endpoints ParseEndpoint ts of Inl err \<Rightarrow> Inl err | Inr es \<Rightarrow> Inr (e # es)))"

definition downstream_Init ::
  "text_lib \<Rightarrow> (string \<Rightarrow> go_err + net_endpoint) \<Rightarrow> bool option \<Rightarrow> string list \<Rightarrow> string list \<Rightarrow> 'w downstream \<Rightarrow> go_err + 'w downstream" where
  "downstream_Init lib ParseEndpoint attemptTLS inlineArgs targets u =
    (let u = (case attemptTLS of None \<Rightarrow> u | Some b \<Rightarrow> u\<lparr>dn_starttls := b\<rparr>) in
     case idna_ToASCII lib (dn_hostname u) of
       (_, Some err) \<Rightarrow> Inl (ErrWrap (dn_modName u @ '': cannot represent the hostname as an A-label name: '') err)
     | (hostname, None) \<Rightarrow>
        (case parse_endpoints ParseEndpoint (inlineArgs @ targets) of
           Inl err \<Rightarrow> Inl err
         | Inr [] \<Rightarrow> Inl (ErrNew (dn_modName u @ '': at least one target endpoint is required''))
         | Inr endps \<Rightarrow> Inr (u\<lparr>dn_hostname := hostname, dn_endpoints := endps\<rparr>)))"

section \<open>Deliveries\<close>

definition moduleError :: "'w downstream \<Rightarrow> go_err option \<Rightarrow> go_err option" where
  "moduleError u err = map_option (\<lambda>e. WithFields e [(''target'', FStr (dn_modName u))]) err"

record ds_delivery =
  dd_conn :: smtp_c
  dd_rcpts :: "string list"

text \<open>The endpoints are tried in order, on one connection object; the last error stays.\<close>

fun connect_endpoints :: "'w net \<Rightarrow> 'w downstream \<Rightarrow> net_endpoint list \<Rightarrow> smtp_c \<Rightarrow> go_err option \<Rightarrow> 'w \<Rightarrow> 'w \<times> smtp_c \<times> go_err option" where
  "connect_endpoints net u [] c lastErr w = (w, c, lastErr)"
| "connect_endpoints net u (endp # endps) c lastErr w =
     (case C_Connect net c (dn_lmtp u) endp (dn_starttls u) (dn_tlsConfig u) w of
        (w, c, Inl err) \<Rightarrow> connect_endpoints net u endps c (Some err) w
      | (w, c, Inr didTLS) \<Rightarrow> (w, c, None))"

definition close_conn :: "'w net \<Rightarrow> smtp_c \<Rightarrow> 'w \<Rightarrow> 'w option" where
  "close_conn net c w = map_option fst (C_Close net c w)"

definition ds_connect :: "'w net \<Rightarrow> 'w downstream \<Rightarrow> msg_meta \<Rightarrow> 'w \<Rightarrow> ('w \<times> (go_err + smtp_c)) option" where
  "ds_connect net u msgMeta w =
    (case connect_endpoints net u (dn_endpoints u) (New_C\<lparr>co_Hostname := dn_hostname u, co_AddrInSMTPMsg := False\<rparr>) None w of
       (w, c, Some lastErr) \<Rightarrow> Some (w, Inl (the (moduleError u (Some lastErr))))
     | (w, c, None) \<Rightarrow>
        (case dn_saslFactory u of
           None \<Rightarrow> Some (w, Inr c)
         | Some saslFactory \<Rightarrow>
            (case saslFactory msgMeta of
               Inl err \<Rightarrow> map_option (\<lambda>w. (w, Inl err)) (close_conn net c w)
             | Inr saslClient \<Rightarrow>
                (case co_cl c of
                   None \<Rightarrow> None
                 | Some cl \<Rightarrow>
                    (case dn_Auth u cl saslClient w of
                       (w, Some err) \<Rightarrow> map_option (\<lambda>w. (w, Inl err)) (close_conn net c w)
                     | (w, None) \<Rightarrow> Some (w, Inr c))))))"

definition ds_Start :: "'w net \<Rightarrow> text_lib \<Rightarrow> 'w downstream \<Rightarrow> msg_meta \<Rightarrow> string \<Rightarrow> 'w \<Rightarrow> ('w \<times> (go_err + ds_delivery)) option" where
  "ds_Start net lib u msgMeta mailFrom w =
    (case ds_connect net u msgMeta w of
       None \<Rightarrow> None
     | Some (w, Inl err) \<Rightarrow> Some (w, Inl err)
     | Some (w, Inr c) \<Rightarrow>
        (case C_Mail net lib c mailFrom (mm_UTF8 msgMeta) (mm_RequireTLS msgMeta) w of
           None \<Rightarrow> None
         | Some (w, Some err) \<Rightarrow> map_option (\<lambda>w. (w, Inl err)) (close_conn net c w)
         | Some (w, None) \<Rightarrow> Some (w, Inr \<lparr>dd_conn = c, dd_rcpts = []\<rparr>)))"

definition ds_AddRcpt :: "'w net \<Rightarrow> text_lib \<Rightarrow> 'w downstream \<Rightarrow> ds_delivery \<Rightarrow> string \<Rightarrow> 'w \<Rightarrow> ('w \<times> ds_delivery \<times> go_err option) option" where
  "ds_AddRcpt net lib u d rcptTo w =
    (case C_Rcpt net lib (dd_conn d) rcptTo w of
       None \<Rightarrow> None
     | Some (w, c, Some err) \<Rightarrow> Some (w, d\<lparr>dd_conn := c\<rparr>, moduleError u (Some err))
     | Some (w, c, None) \<Rightarrow> Some (w, d\<lparr>dd_conn := c, dd_rcpts := dd_rcpts d @ [rcptTo]\<rparr>, None))"

text \<open>The body is the outcome of opening it; \<open>t\<close> is the printed map of an LMTP error.\<close>

definition ds_Body :: "'w net \<Rightarrow> 'w downstream \<Rightarrow> ds_delivery \<Rightarrow> header \<Rightarrow> go_err + string \<Rightarrow> string \<Rightarrow> 'w \<Rightarrow> ('w \<times> go_err option) option" where
  "ds_Body net u d hdr body t w =
    (case body of
       Inl err \<Rightarrow> Some (w, moduleError u (Some err))
     | Inr r \<Rightarrow> map_option (\<lambda>(w, err). (w, moduleError u err)) (C_Data net (dd_conn d) hdr r t w))"

definition status_err :: "'w downstream \<Rightarrow> go_err \<Rightarrow> go_err" where
  "status_err u err = SMTPError (gs_Code err) (gs_EnhancedCode err) (gs_Message err) [] (dn_modName u) (Some err) [] []"

text \<open>\<open>BodyNonAtomic\<close> of LMTP: the statuses it reports. After an error of opening the body it goes on, and
  closing the missing reader panics, as does a server that reports more statuses than there are
  recipients before an error.\<close>

definition ds_BodyNonAtomic ::
  "'w net \<Rightarrow> 'w downstream \<Rightarrow> ds_delivery \<Rightarrow> header \<Rightarrow> go_err + string \<Rightarrow> 'w \<Rightarrow> ('w \<times> (string \<times> go_err option) list) option" where
  "ds_BodyNonAtomic net u d hdr body w =
    (case body of
       Inl err \<Rightarrow> None
     | Inr r \<Rightarrow>
        (case C_LMTPData net (dd_conn d) hdr r w of
           None \<Rightarrow> None
         | Some (w, sts, err) \<Rightarrow>
            (let statuses = map (\<lambda>(rcpt, e). (rcpt, map_option (status_err u) e)) sts in
             case err of
               None \<Rightarrow> Some (w, statuses)
             | Some _ \<Rightarrow> if length (dd_rcpts d) < length sts then None
                 else Some (w, statuses @ map (\<lambda>rcpt. (rcpt, moduleError u err)) (drop (length sts) (dd_rcpts d))))))"

definition ds_Abort :: "'w net \<Rightarrow> ds_delivery \<Rightarrow> 'w \<Rightarrow> ('w \<times> go_err option) option" where
  "ds_Abort net d w = (case C_Close net (dd_conn d) w of None \<Rightarrow> None | Some (w, _, _) \<Rightarrow> Some (w, None))"

definition ds_Commit :: "'w net \<Rightarrow> ds_delivery \<Rightarrow> 'w \<Rightarrow> ('w \<times> go_err option) option" where
  "ds_Commit net d w = (case C_Close net (dd_conn d) w of None \<Rightarrow> None | Some (w, _, err) \<Rightarrow> Some (w, err))"

section \<open>The client is there\<close>

lemma connect_endpoints_client:
  assumes "connect_endpoints net u endps c lastErr w = (w', c', None)" "endps \<noteq> [] \<or> lastErr \<noteq> None"
  shows "co_cl c' \<noteq> None"
  using assms
  by (induction endps arbitrary: c lastErr w) (auto simp: C_Connect_def split: prod.splits sum.splits)

lemma C_Close_total: "co_cl c \<noteq> None \<Longrightarrow> \<exists>r. C_Close net c w = Some r"
  by (auto simp: C_Close_def split: option.split prod.split)

lemma C_Close_some: "co_cl c \<noteq> None \<Longrightarrow> \<exists>w' c' err. C_Close net c w = Some (w', c', err)"
  using C_Close_total [of c net w] by (metis prod_cases3)

lemma close_conn_total: "co_cl c \<noteq> None \<Longrightarrow> \<exists>w'. close_conn net c w = Some w'"
  using C_Close_some [of c net w] by (auto simp: close_conn_def)

lemma ds_connect_total:
  assumes "dn_endpoints u \<noteq> []"
  shows "\<exists>w' r. ds_connect net u msgMeta w = Some (w', r) \<and> (case r of Inl err \<Rightarrow> True | Inr c \<Rightarrow> co_cl c \<noteq> None)"
proof -
  obtain w1 c e where ce: "connect_endpoints net u (dn_endpoints u) (New_C\<lparr>co_Hostname := dn_hostname u, co_AddrInSMTPMsg := False\<rparr>) None w = (w1, c, e)"
    by (metis prod_cases3)
  show ?thesis
  proof (cases e)
    case None
    with ce connect_endpoints_client [of net u "dn_endpoints u"] assms have cl: "co_cl c \<noteq> None" by blast
    then obtain k where k: "co_cl c = Some k" by blast
    show ?thesis
    proof (cases "dn_saslFactory u")
      case (Some f)
      show ?thesis
      proof (cases "f msgMeta")
        case (Inl err)
        with ce None Some close_conn_total [OF cl, of net w1] show ?thesis by (auto simp: ds_connect_def)
      next
        case (Inr sc)
        obtain w2 e2 where a: "dn_Auth u k sc w1 = (w2, e2)" by fastforce
        from close_conn_total [OF cl, of net w2] ce None Some Inr k a show ?thesis
          by (cases e2) (auto simp: ds_connect_def)
      qed
    qed (use ce None cl in \<open>auto simp: ds_connect_def\<close>)
  qed (use ce in \<open>auto simp: ds_connect_def\<close>)
qed

lemma C_Mail_total: "co_cl c \<noteq> None \<Longrightarrow> \<exists>w' err. C_Mail net lib c from' utf8 req w = Some (w', err)"
  by (auto simp: C_Mail_def)

lemma ds_Start_total:
  assumes "dn_endpoints u \<noteq> []"
  shows "\<exists>w' r. ds_Start net lib u msgMeta mailFrom w = Some (w', r)
    \<and> (case r of Inl err \<Rightarrow> True | Inr d \<Rightarrow> co_cl (dd_conn d) \<noteq> None \<and> dd_rcpts d = [])"
proof -
  obtain w1 r where c: "ds_connect net u msgMeta w = Some (w1, r)" "case r of Inl err \<Rightarrow> True | Inr c \<Rightarrow> co_cl c \<noteq> None"
    using ds_connect_total [OF assms] by blast
  show ?thesis
  proof (cases r)
    case (Inr c')
    with c have cl: "co_cl c' \<noteq> None" by simp
    obtain w2 e where m: "C_Mail net lib c' mailFrom (mm_UTF8 msgMeta) (mm_RequireTLS msgMeta) w1 = Some (w2, e)"
      using C_Mail_total [OF cl, of net lib mailFrom "mm_UTF8 msgMeta" "mm_RequireTLS msgMeta" w1] by blast
    from c Inr cl m close_conn_total [OF cl, of net w2] show ?thesis by (cases e) (auto simp: ds_Start_def)
  qed (use c in \<open>auto simp: ds_Start_def\<close>)
qed

section \<open>Statuses\<close>

lemma connect_endpoints_rcpts: "connect_endpoints net u endps c lastErr w = (w', c', e) \<Longrightarrow> co_rcpts c' = co_rcpts c"
  by (induction endps arbitrary: c lastErr w) (force simp: C_Connect_def attemptConnect_def split: prod.splits sum.splits option.splits if_splits)+

lemma ds_Start_rcpts: "ds_Start net lib u msgMeta mailFrom w = Some (w', Inr d) \<Longrightarrow> co_rcpts (dd_conn d) = []"
  by (auto simp: ds_Start_def ds_connect_def New_C_def split: option.splits prod.splits sum.splits dest!: connect_endpoints_rcpts)

text \<open>A recipient with an ASCII address is recorded by the connection as it was given.\<close>

lemma ds_AddRcpt_step:
  assumes "co_cl (dd_conn d) \<noteq> None"
  shows "\<exists>w' d' e. ds_AddRcpt net lib u d rcpt w = Some (w', d', e) \<and> co_cl (dd_conn d') \<noteq> None
    \<and> dd_rcpts d' = dd_rcpts d @ (if e = None then [rcpt] else [])
    \<and> (IsASCII rcpt \<longrightarrow> co_rcpts (dd_conn d') = co_rcpts (dd_conn d) @ (if e = None then [rcpt] else []))"
proof -
  from assms obtain cl where cl: "co_cl (dd_conn d) = Some cl" by blast
  obtain w1 ok where x: "nt_Extension net cl ''SMTPUTF8'' w = (w1, ok)" by fastforce
  define conv where "conv = (if \<not> IsASCII rcpt \<and> \<not> ok then ToASCII lib rcpt else (rcpt, None))"
  obtain to' ce where c: "conv = (to', ce)" by fastforce
  obtain w2 e where rc: "nt_Rcpt net cl to' w1 = (w2, e)" by fastforce
  have C: "C_Rcpt net lib (dd_conn d) rcpt w = Some (case ce of
      Some err \<Rightarrow> (w1, dd_conn d, Some (SMTPError 553 (5, 6, 7) ''SMTPUTF8 is unsupported, cannot convert recipient address''
          [] [] (Some err) [] [(''remote_server'', FStr (co_serverName (dd_conn d)))]))
    | None \<Rightarrow> (case e of
        Some err \<Rightarrow> (w2, dd_conn d, Some (wrapClientErr (dd_conn d) err (co_serverName (dd_conn d))))
      | None \<Rightarrow> (w2, (dd_conn d)\<lparr>co_rcpts := co_rcpts (dd_conn d) @ [to']\<rparr>, None)))"
    using cl x c rc unfolding conv_def by (auto simp: C_Rcpt_def split: option.split)
  have t: "IsASCII rcpt \<Longrightarrow> to' = rcpt \<and> ce = None" using c by (auto simp: conv_def)
  show ?thesis using C t cl by (cases ce; cases e) (auto simp: ds_AddRcpt_def moduleError_def)
qed

fun ds_add_all :: "'w net \<Rightarrow> text_lib \<Rightarrow> 'w downstream \<Rightarrow> ds_delivery \<Rightarrow> string list \<Rightarrow> 'w
    \<Rightarrow> ('w \<times> ds_delivery \<times> (string \<times> go_err option) list) option" where
  "ds_add_all net lib u d [] w = Some (w, d, [])"
| "ds_add_all net lib u d (r # rs) w =
     (case ds_AddRcpt net lib u d r w of
        None \<Rightarrow> None
      | Some (w, d, e) \<Rightarrow> (case ds_add_all net lib u d rs w of None \<Rightarrow> None | Some (w, d, es) \<Rightarrow> Some (w, d, (r, e) # es)))"

definition accepted :: "(string \<times> go_err option) list \<Rightarrow> string list" where
  "accepted es = map fst (filter (\<lambda>(r, e). e = None) es)"

lemma ds_add_all_step:
  assumes "co_cl (dd_conn d) \<noteq> None" "list_all IsASCII rs"
  shows "\<exists>w' d' es. ds_add_all net lib u d rs w = Some (w', d', es) \<and> co_cl (dd_conn d') \<noteq> None
    \<and> map fst es = rs \<and> dd_rcpts d' = dd_rcpts d @ accepted es \<and> co_rcpts (dd_conn d') = co_rcpts (dd_conn d) @ accepted es"
  using assms
proof (induction rs arbitrary: d w)
  case (Cons r rs)
  from ds_AddRcpt_step [of d net lib u r w] Cons.prems obtain w1 d1 e where a: "ds_AddRcpt net lib u d r w = Some (w1, d1, e)"
    "co_cl (dd_conn d1) \<noteq> None" "dd_rcpts d1 = dd_rcpts d @ (if e = None then [r] else [])"
    "co_rcpts (dd_conn d1) = co_rcpts (dd_conn d) @ (if e = None then [r] else [])" by auto
  from Cons.IH [of d1 w1] a(2) Cons.prems(2) obtain w2 d2 es where b: "ds_add_all net lib u d1 rs w1 = Some (w2, d2, es)"
    "co_cl (dd_conn d2) \<noteq> None" "map fst es = rs" "dd_rcpts d2 = dd_rcpts d1 @ accepted es"
    "co_rcpts (dd_conn d2) = co_rcpts (dd_conn d1) @ accepted es" by auto
  from a b show ?case by (auto simp: accepted_def)
qed (simp add: accepted_def)

text \<open>What go-smtp documents of LMTP: statuses come in the order of the recipients, one for each unless
  there is an error.\<close>

definition reports_in_order :: "'w net \<Rightarrow> smtp_c \<Rightarrow> header \<Rightarrow> string \<Rightarrow> 'w \<Rightarrow> bool" where
  "reports_in_order net c hdr body w \<longleftrightarrow> (\<forall>w' sts err. C_LMTPData net c hdr body w = Some (w', sts, err) \<longrightarrow>
     map fst sts = take (length sts) (co_rcpts c) \<and> (err = None \<longrightarrow> length sts = length (co_rcpts c)))"

lemma ds_BodyNonAtomic_reports:
  assumes "co_cl (dd_conn d) \<noteq> None" "co_rcpts (dd_conn d) = dd_rcpts d" "reports_in_order net (dd_conn d) hdr body w"
  shows "\<exists>w' sts. ds_BodyNonAtomic net u d hdr (Inr body) w = Some (w', sts) \<and> map fst sts = dd_rcpts d"
proof -
  from assms(1) obtain w' sts err where l: "C_LMTPData net (dd_conn d) hdr body w = Some (w', sts, err)"
    unfolding C_LMTPData_def by (metis option.exhaust option.simps(9) prod_cases3)
  with assms(2,3) have f: "map fst sts = take (length sts) (dd_rcpts d)" "err = None \<longrightarrow> length sts = length (dd_rcpts d)"
    by (auto simp: reports_in_order_def)
  from arg_cong [OF f(1), of length] have "length sts \<le> length (dd_rcpts d)" by simp
  with f l show ?thesis by (auto simp: ds_BodyNonAtomic_def comp_def split_def Let_def split: option.split)
qed

text \<open>C21: A delivery started by a target with an endpoint takes ASCII recipients without a panic. When
  the body can be opened and the LMTP client reports statuses in the order of the recipients, one for each
  unless it fails (\<open>reports_in_order\<close>), every recipient accepted gets exactly one status, in order,
  also when the client fails half-way.\<close>

theorem lmtp_every_rcpt_reported:
  assumes "dn_endpoints u \<noteq> []" "ds_Start net lib u msgMeta mailFrom w = Some (w1, Inr d0)" "list_all IsASCII rcpts"
  shows "\<exists>w2 d es. ds_add_all net lib u d0 rcpts w1 = Some (w2, d, es) \<and> map fst es = rcpts
    \<and> (\<forall>hdr body. reports_in_order net (dd_conn d) hdr body w2 \<longrightarrow>
        (\<exists>w3 sts. ds_BodyNonAtomic net u d hdr (Inr body) w2 = Some (w3, sts) \<and> map fst sts = accepted es))"
proof -
  have s: "co_cl (dd_conn d0) \<noteq> None" "dd_rcpts d0 = []" "co_rcpts (dd_conn d0) = []"
    using ds_Start_total [OF assms(1), of net lib msgMeta mailFrom w] assms(2) ds_Start_rcpts by auto
  from ds_add_all_step [OF s(1) assms(3), of net lib u w1] s obtain w2 d es where a: "ds_add_all net lib u d0 rcpts w1 = Some (w2, d, es)"
    "co_cl (dd_conn d) \<noteq> None" "map fst es = rcpts" "dd_rcpts d = accepted es" "co_rcpts (dd_conn d) = dd_rcpts d" by auto
  with ds_BodyNonAtomic_reports [OF a(2,5)] show ?thesis by metis
qed

section \<open>A run\<close>

definition lmtp_net :: "unit net" where
  "lmtp_net = \<lparr>nt_Dial = (\<lambda>_ _ w. (w, Inr 0)), nt_TLSClient = (\<lambda>c _ w. (w, c)), nt_NewClient = (\<lambda>_ _ w. (w, 1)),
     nt_Hello = (\<lambda>_ _ w. (w, None)), nt_Extension = (\<lambda>_ _ w. (w, True)), nt_StartTLS = (\<lambda>_ _ w. (w, None)),
     nt_TLSState = (\<lambda>_ _. \<lparr>ts_ServerName = [], ts_HandshakeComplete = False, ts_VerifiedChains = False, ts_PeerCertificates = []\<rparr>),
     nt_Mail = (\<lambda>_ _ _ _ w. (w, None)), nt_Rcpt = (\<lambda>_ to w. (w, if to = ''x@b'' then Some (ErrNew ''no'') else None)),
     nt_Data = (\<lambda>_ w. (w, None)), nt_WriteHeader = (\<lambda>_ _ w. (w, None)), nt_Copy = (\<lambda>_ _ w. (w, None)),
     nt_DataClose = (\<lambda>_ w. (w, [(''a@b'', None)], None)), nt_Quit = (\<lambda>_ w. (w, None)), nt_Close = (\<lambda>_ w. (w, None)),
     nt_Reset = (\<lambda>_ w. (w, None)), nt_Noop = (\<lambda>_ w. (w, None)), nt_Auth = (\<lambda>_ _ w. (w, None))\<rparr>"

definition lmtp_demo :: "unit downstream" where
  "lmtp_demo = \<lparr>dn_modName = ''target.lmtp'', dn_lmtp = True, dn_starttls = False, dn_hostname = ''h'',
     dn_endpoints = [\<lparr>en_Scheme = ''tcp'', en_Host = ''s'', en_Port = ''24'', en_Path = []\<rparr>], dn_saslFactory = None,
     dn_tlsConfig = \<lparr>tc_ServerName = [], tc_InsecureSkipVerify = False, tc_other = 0\<rparr>, dn_Auth = (\<lambda>_ _ w. (w, None))\<rparr>"

definition lmtp_meta :: msg_meta where
  "lmtp_meta = \<lparr>mm_ID = ''1'', mm_OriginalFrom = ''f@b'', mm_DontTraceSender = False, mm_Quarantine = False, mm_OriginalRcpts = Map.empty,
     mm_UTF8 = False, mm_RequireTLS = False, mm_Conn = None, mm_TLSRequireOverride = False\<rparr>"

definition lmtp_delivery :: ds_delivery where
  "lmtp_delivery = \<lparr>dd_conn = New_C\<lparr>co_Hostname := ''h'', co_serverName := ''s'', co_cl := Some 1, co_lmtp := True\<rparr>, dd_rcpts = []\<rparr>"

lemma lmtp_demo_start: "ds_Start lmtp_net ascii_lib lmtp_demo lmtp_meta ''f@b'' () = Some ((), Inr lmtp_delivery)"
  by (simp add: ds_Start_def ds_connect_def C_Connect_def attemptConnect_def C_Mail_def lmtp_net_def lmtp_demo_def lmtp_meta_def
      lmtp_delivery_def New_C_def en_IsTLS_def)

lemma lmtp_demo_ascii: "list_all IsASCII [''a@b'', ''x@b'']"
  by code_simp

theorem lmtp_every_rcpt_reported_witness:
  "\<exists>w2 d es w3 sts. ds_add_all lmtp_net ascii_lib lmtp_demo lmtp_delivery [''a@b'', ''x@b''] () = Some (w2, d, es)
    \<and> ds_BodyNonAtomic lmtp_net lmtp_demo d [] (Inr ''hi'') w2 = Some (w3, sts) \<and> map fst sts = accepted es"
proof -
  have e: "dn_endpoints lmtp_demo \<noteq> []" by (simp add: lmtp_demo_def)
  obtain w2 d es where a: "ds_add_all lmtp_net ascii_lib lmtp_demo lmtp_delivery [''a@b'', ''x@b''] () = Some (w2, d, es)"
    and b: "reports_in_order lmtp_net (dd_conn d) [] ''hi'' w2 \<Longrightarrow>
        \<exists>w3 sts. ds_BodyNonAtomic lmtp_net lmtp_demo d [] (Inr ''hi'') w2 = Some (w3, sts) \<and> map fst sts = accepted es"
    using lmtp_every_rcpt_reported [OF e lmtp_demo_start lmtp_demo_ascii] by blast
  have "reports_in_order lmtp_net (dd_conn d) [] ''hi'' w2"
    using a lmtp_demo_ascii by (auto simp: ds_AddRcpt_def C_Rcpt_def lmtp_net_def lmtp_delivery_def New_C_def
        reports_in_order_def C_LMTPData_def send_message_def)
  with a b show ?thesis by blast
qed

section \<open>Observations\<close>

text \<open>An error of QUIT followed by one of closing makes \<open>Commit\<close> fail although the server took the
  message.\<close>

lemma commit_fails_after_acceptance:
  assumes "co_cl (dd_conn d) = Some cl" "nt_Quit net cl w = (w1, Some e)" "nt_Close net cl w1 = (w2, Some err)"
  shows "ds_Commit net d w = Some (w2, Some err)"
  using assms by (simp add: ds_Commit_def C_Close_def)

text \<open>A body that cannot be opened makes LMTP deliveries panic.\<close>

lemma unreadable_body_panics: "ds_BodyNonAtomic net u d hdr (Inl err) w = None"
  by (simp add: ds_BodyNonAtomic_def)

text \<open>With credentials to forward, no message is submitted for a client that is not authenticated.\<close>

lemma forward_needs_credentials:
  "forward_client msgMeta = Inr sc \<Longrightarrow> \<exists>conn. mm_Conn msgMeta = Some conn \<and> cs_AuthUser conn \<noteq> [] \<and> cs_AuthPassword conn \<noteq> []
     \<and> sc = PlainClient [] (cs_AuthUser conn) (cs_AuthPassword conn)"
  by (auto simp: forward_client_def Let_def split: option.splits if_splits)

end
