(* ===== verification/ImapStorage.thy ===== *)
theory ImapStorage
  imports MsgPipeline Auth
begin

text \<open>
  Delivery into IMAP accounts (\<open>internal/storage/imapsql\<close>) and the group of filters that choose
  folders (\<open>internal/imap_filter/group.go\<close>). The library go-imap-sql is a record of functions on a
  world \<open>'w\<close>.
\<close>

section \<open>Filters\<close>

type_synonym 'w imap_filter = "string \<Rightarrow> string \<Rightarrow> msg_meta \<Rightarrow> header \<Rightarrow> string \<Rightarrow> 'w \<Rightarrow> 'w \<times> (go_err + string \<times> string list)"

fun filter_loop ::
  "'w imap_filter list \<Rightarrow> string \<Rightarrow> string \<Rightarrow> msg_meta \<Rightarrow> header \<Rightarrow> string \<Rightarrow> string \<Rightarrow> string list \<Rightarrow> 'w \<Rightarrow> 'w \<times> string \<times> string list" where
  "filter_loop [] acct rcptTo meta hdr body finalFolder finalFlags w = (w, finalFolder, finalFlags)"
| "filter_loop (f # fs) acct rcptTo meta hdr body finalFolder finalFlags w =
     (case f acct rcptTo meta hdr body w of
        (w, Inl err) \<Rightarrow> filter_loop fs acct rcptTo meta hdr body finalFolder finalFlags w
      | (w, Inr (folder, flags)) \<Rightarrow>
          filter_loop fs acct rcptTo meta hdr body (if folder \<noteq> [] \<and> finalFolder = [] then folder else finalFolder) (finalFlags @ flags) w)"

text \<open>The group as one filter; nil gives nothing.\<close>

definition group_IMAPFilter :: "'w imap_filter list option \<Rightarrow> 'w imap_filter" where
  "group_IMAPFilter g acct rcptTo meta hdr body w =
    (case g of
       None \<Rightarrow> (w, Inr ([], []))
     | Some filters \<Rightarrow> (case filter_loop filters acct rcptTo meta hdr body [] [] w of (w, folder, flags) \<Rightarrow> (w, Inr (folder, flags))))"

section \<open>The storage\<close>

text \<open>go-imap-sql: a delivery, accounts, and the errors the storage tells apart.\<close>

record 'w imap_back =
  ib_AddRcpt :: "string \<Rightarrow> header \<Rightarrow> 'w \<Rightarrow> 'w \<times> go_err option"
  ib_UserMailbox :: "string \<Rightarrow> string \<Rightarrow> string list \<Rightarrow> 'w \<Rightarrow> 'w"
  ib_SpecialMailbox :: "string \<Rightarrow> string \<Rightarrow> 'w \<Rightarrow> 'w \<times> go_err option"
  ib_BodyParsed :: "header \<Rightarrow> string \<Rightarrow> 'w \<Rightarrow> 'w \<times> go_err option"
  ib_Abort :: "'w \<Rightarrow> 'w \<times> go_err option"
  ib_Commit :: "'w \<Rightarrow> 'w \<times> go_err option"
  ib_GetUser :: "string \<Rightarrow> 'w \<Rightarrow> 'w \<times> go_err option"
  ib_Logout :: "string \<Rightarrow> 'w \<Rightarrow> 'w"
  ib_noSuchUser :: "go_err \<Rightarrow> bool"
  ib_noSuchMailbox :: "go_err \<Rightarrow> bool"
  ib_serialization :: "go_err \<Rightarrow> bool"

record 'w imap_store =
  is_junkMbox :: string
  is_filters :: "'w imap_filter option"
  is_deliveryNormFunc :: "string \<Rightarrow> string \<times> go_err option"
  is_deliveryMap :: "'w lookup option"
  is_authNormFunc :: "string \<Rightarrow> string \<times> go_err option"
  is_authMap :: "'w lookup option"

definition userDoesNotExist :: "go_err option \<Rightarrow> go_err" where
  "userDoesNotExist actual = SMTPError 501 (5, 1, 1) ''User does not exist'' [] ''imapsql'' actual [] []"

text \<open>The normalisation \<open>Init\<close> composes: the function of the directive, then the table if there is one. An
  error of the table is reported like a missing entry.\<close>

definition store_normalize :: "(string \<Rightarrow> string \<times> go_err option) \<Rightarrow> 'w lookup option \<Rightarrow> string \<Rightarrow> 'w \<Rightarrow> 'w \<times> (go_err + string)" where
  "store_normalize norm tbl s w =
    (case norm s of
       (_, Some err) \<Rightarrow> (w, Inl err)
     | (n, None) \<Rightarrow>
        (case tbl of
           None \<Rightarrow> (w, Inr n)
         | Some lookup \<Rightarrow>
            (case lookup n w of
               (w, mapped, ok, err) \<Rightarrow> if err \<noteq> None \<or> \<not> ok then (w, Inl (userDoesNotExist err)) else (w, Inr mapped))))"

text \<open>The checks of \<open>Init\<close> after the directives were read: the limit of messages and the compression.\<close>

definition append_limit :: "int \<Rightarrow> go_err + int option" where
  "append_limit appendlimitVal =
    (if appendlimitVal = - 1 then Inr None
     else if appendlimitVal mod 2 ^ 32 \<noteq> appendlimitVal then Inl (ErrNew ''imapsql: appendlimit value is too big'')
     else Inr (Some appendlimitVal))"

definition compression_opts :: "string list \<Rightarrow> go_err + (string \<times> string)" where
  "compression_opts compression =
    (case compression of
       [] \<Rightarrow> Inr ([], [])
     | alg # args \<Rightarrow>
        if alg = ''zstd'' \<or> alg = ''lz4'' then
          (case args of
             [] \<Rightarrow> Inr (alg, [])
           | [level] \<Rightarrow> if Atoi level = None then Inl (ErrNew ''imapsql: first argument for lz4 and zstd is compression level'') else Inr (alg, level)
           | _ \<Rightarrow> Inl (ErrNew ''imapsql: expected at most 2 arguments''))
        else if alg = ''off'' then
          (if args \<noteq> [] then Inl (ErrNew ''imapsql: expected at most 1 arguments'') else Inr ([], []))
        else Inl (ErrNew ''imapsql: unknown compression algorithm''))"

section \<open>Deliveries\<close>

record 'w imap_delivery =
  im_store :: "'w imap_store"
  im_msgMeta :: msg_meta
  im_mailFrom :: string
  im_addedRcpts :: "string \<rightharpoonup> string"

definition store_Start :: "'w imap_store \<Rightarrow> msg_meta \<Rightarrow> string \<Rightarrow> 'w imap_delivery" where
  "store_Start st msgMeta mailFrom = \<lparr>im_store = st, im_msgMeta = msgMeta, im_mailFrom = mailFrom, im_addedRcpts = Map.empty\<rparr>"

definition imap_AddRcpt :: "'w imap_back \<Rightarrow> 'w imap_delivery \<Rightarrow> string \<Rightarrow> 'w \<Rightarrow> 'w \<times> 'w imap_delivery \<times> go_err option" where
  "imap_AddRcpt back d rcptTo w =
    (case store_normalize (is_deliveryNormFunc (im_store d)) (is_deliveryMap (im_store d)) rcptTo w of
       (w, Inl err) \<Rightarrow> (w, d, Some (userDoesNotExist (Some err)))
     | (w, Inr accountName) \<Rightarrow>
        if im_addedRcpts d accountName \<noteq> None then (w, d, None)
        else (case ib_AddRcpt back accountName (hdr_Add [] ''Delivered-To'' accountName) w of
            (w, Some err) \<Rightarrow>
              (w, d, Some (if ib_noSuchUser back err \<or> ib_noSuchMailbox back err then userDoesNotExist (Some err)
                 else if ib_serialization back err
                 then SMTPError 453 (4, 3, 2) ''Internal server error, try again later'' [] ''imapsql'' (Some err) [] []
                 else err))
          | (w, None) \<Rightarrow> (w, d\<lparr>im_addedRcpts := (im_addedRcpts d)(accountName \<mapsto> rcptTo)\<rparr>, None)))"

definition serialization_err :: "'w imap_back \<Rightarrow> go_err \<Rightarrow> go_err" where
  "serialization_err back err =
    (if ib_serialization back err
     then SMTPError 453 (4, 3, 2) ''Storage access serialiation problem, try again later'' [] ''imapsql'' (Some err) [] []
     else err)"

text \<open>Folders for the recipients, in the unspecified order of the range over their map.\<close>

fun filter_rcpts ::
  "'w imap_back \<Rightarrow> 'w imap_filter \<Rightarrow> 'w imap_delivery \<Rightarrow> header \<Rightarrow> string \<Rightarrow> string list \<Rightarrow> 'w \<Rightarrow> 'w" where
  "filter_rcpts back f d hdr body [] w = w"
| "filter_rcpts back f d hdr body (rcpt # rcpts) w =
     (case f rcpt (the (im_addedRcpts d rcpt)) (im_msgMeta d) hdr body w of
        (w, Inl err) \<Rightarrow> filter_rcpts back f d hdr body rcpts w
      | (w, Inr (folder, flags)) \<Rightarrow> filter_rcpts back f d hdr body rcpts (ib_UserMailbox back rcpt folder flags w))"

definition imap_Body :: "'w imap_back \<Rightarrow> 'w imap_delivery \<Rightarrow> string list \<Rightarrow> header \<Rightarrow> string \<Rightarrow> 'w \<Rightarrow> 'w \<times> go_err option" where
  "imap_Body back d order hdr body w =
    (let w = (case is_filters (im_store d) of
           Some f \<Rightarrow> if \<not> mm_Quarantine (im_msgMeta d) then filter_rcpts back f d hdr body order w else w
         | None \<Rightarrow> w) in
     case (if mm_Quarantine (im_msgMeta d) then ib_SpecialMailbox back [CHR 0x5C, CHR ''J'', CHR ''u'', CHR ''n'', CHR ''k''] (is_junkMbox (im_store d)) w else (w, None)) of
       (w, Some err) \<Rightarrow> (w, Some (serialization_err back err))
     | (w, None) \<Rightarrow>
        (case ib_BodyParsed back (hdr_Add hdr ''Return-Path'' (''<'' @ SanitizeForHeader (im_mailFrom d) @ ''>'')) body w of
           (w, None) \<Rightarrow> (w, None)
         | (w, Some err) \<Rightarrow> (w, Some (serialization_err back err))))"

definition imap_Abort :: "'w imap_back \<Rightarrow> 'w \<Rightarrow> 'w \<times> go_err option" where
  "imap_Abort back w = ib_Abort back w"

definition imap_Commit :: "'w imap_back \<Rightarrow> 'w \<Rightarrow> 'w \<times> go_err option" where
  "imap_Commit back w = ib_Commit back w"

text \<open>The storage as a table of accounts.\<close>

definition store_Lookup :: "'w imap_back \<Rightarrow> 'w imap_store \<Rightarrow> 'w lookup" where
  "store_Lookup back st key w =
    (case store_normalize (is_authNormFunc st) (is_authMap st) key w of
       (w, Inl err) \<Rightarrow> (w, [], False, None)
     | (w, Inr accountName) \<Rightarrow>
        (case ib_GetUser back accountName w of
           (w, Some err) \<Rightarrow> if ib_noSuchUser back err then (w, [], False, None) else (w, [], False, Some err)
         | (w, None) \<Rightarrow> (ib_Logout back accountName w, [], True, None)))"

section \<open>Properties\<close>

text \<open>The group takes the first folder and all flags of the filters that succeed.\<close>

definition filter_results ::
  "(string \<Rightarrow> go_err + string \<times> string list) list \<Rightarrow> string \<Rightarrow> (string \<times> string list) list" where
  "filter_results fs acct = concat (map (\<lambda>f. case f acct of Inl _ \<Rightarrow> [] | Inr r \<Rightarrow> [r]) fs)"

definition pure_filter :: "(string \<Rightarrow> go_err + string \<times> string list) \<Rightarrow> 'w imap_filter" where
  "pure_filter f acct rcptTo meta hdr body w = (w, f acct)"

definition first_nonempty :: "string list \<Rightarrow> string" where
  "first_nonempty xs = (case filter (\<lambda>x. x \<noteq> []) xs of [] \<Rightarrow> [] | x # _ \<Rightarrow> x)"

lemma filter_loop_pure:
  "filter_loop (map pure_filter fs) acct rcptTo meta hdr body folder flags w =
    (w, if folder \<noteq> [] then folder else first_nonempty (map fst (filter_results fs acct)),
     flags @ concat (map snd (filter_results fs acct)))"
  by (induction fs arbitrary: folder flags)
    (auto simp: pure_filter_def filter_results_def first_nonempty_def split: sum.split)

text \<open>The accounts of a delivery are what its recipients were normalised to.\<close>

lemma imap_AddRcpt_account:
  assumes "imap_AddRcpt back d rcpt w = (w', d', None)"
  shows "\<exists>w1 acct. store_normalize (is_deliveryNormFunc (im_store d)) (is_deliveryMap (im_store d)) rcpt w = (w1, Inr acct)
    \<and> im_addedRcpts d' acct \<noteq> None \<and> dom (im_addedRcpts d') = insert acct (dom (im_addedRcpts d)) \<and> im_store d' = im_store d
    \<and> (im_addedRcpts d acct \<noteq> None \<longrightarrow> w' = w1) \<and> (im_addedRcpts d acct = None \<longrightarrow> (\<exists>h. ib_AddRcpt back acct h w1 = (w', None)))"
  using assms by (auto simp: imap_AddRcpt_def split: prod.splits sum.splits if_splits option.splits)

text \<open>A quarantined message goes to the junk mailbox, without a filter.\<close>

lemma quarantined_to_junk:
  assumes "mm_Quarantine (im_msgMeta d)" "imap_Body back d order hdr body w = (w', None)"
  shows "\<exists>w1. ib_SpecialMailbox back [CHR 0x5C, CHR ''J'', CHR ''u'', CHR ''n'', CHR ''k''] (is_junkMbox (im_store d)) w = (w1, None)
    \<and> ib_BodyParsed back (hdr_Add hdr ''Return-Path'' (''<'' @ SanitizeForHeader (im_mailFrom d) @ ''>'')) body w1 = (w', None)"
  using assms by (auto simp: imap_Body_def Let_def split: prod.splits option.splits)

section \<open>Observations\<close>

text \<open>A failing table refuses the recipient for good.\<close>

lemma table_error_permanent:
  assumes "is_deliveryNormFunc (im_store d) rcpt = (n, None)" "is_deliveryMap (im_store d) = Some lookup" "lookup n w = (w', v, ok, Some err)"
  shows "\<exists>e. snd (snd (imap_AddRcpt back d rcpt w)) = Some e \<and> se_Code e = 501"
  using assms by (simp add: imap_AddRcpt_def store_normalize_def userDoesNotExist_def)

end
