(* ===== verification/Spec2Isabelle.thy ===== *)
theory Spec2Isabelle
  imports QueueProps CheckAction SmtpProps ConfigProps CfgRoundtrip RemoteProps TablesProps PassTableProps ChecksProps CfgMapProps Downstream ImapStorage
begin

text \<open>
  Verification of the mail server of mailchatd.

  \<^bold>\<open>The program.\<close> A client speaks SMTP, submission or LMTP with an endpoint
  (\<open>internal/endpoint/smtp\<close>). The endpoint takes limits (\<open>internal/limits\<close>),
  authenticates (\<open>internal/auth\<close>, \<open>internal/authz\<close>) and hands the message to a
  message pipeline (\<open>internal/msgpipeline\<close>), which routes it by sender and
  recipient, runs groups of checks concurrently, evaluates DMARC
  (\<open>internal/dmarc\<close>), lets modifiers rewrite it (\<open>internal/modify\<close>) and starts
  deliveries to targets. One target is the queue (\<open>internal/target/queue\<close>): it
  stores the message on disk, tries the delivery when a time wheel says so, and
  reports failures with delivery status notifications (\<open>internal/dsn\<close>). Another one, the
  remote target (\<open>internal/target/remote\<close>), looks up the servers of the recipient domains,
  applies security policies and delivers over pooled connections (\<open>internal/smtpconn\<close>). The
  downstream target (\<open>internal/target/smtp\<close>) forwards to configured servers, and the storage
  (\<open>internal/storage/imapsql\<close>) delivers into accounts. The
  configuration is text (\<open>framework/cfgparser\<close>, \<open>framework/config\<close>). All of it
  works with addresses (\<open>framework/address\<close>), domains (\<open>framework/dns\<close>) and
  annotated errors (\<open>framework/exterrors\<close>).

  \<^bold>\<open>Conventions.\<close> A Go string is its list of bytes, \<open>runes\<close> decodes UTF-8 as
  \<open>range\<close> does. Several results are a tuple whose last part is an optional
  error; an operation that returns a value or an error has a sum type, where
  \<open>Inl\<close> is the error. A panic is \<open>None\<close>. An operation that may block is the list of
  its possible outcomes, and the empty list blocks. Times are integers of
  nanoseconds; wrap-around of 64 bits is written out where a sum or product may overflow.
  A Go map is a map or, where its entries are visited, an association list whose
  order of visits is a parameter, a permutation. Modules that are configured
  (checks, modifiers, targets, tables, password providers) are named by numbers or
  are functions on a world of a type of their choice, so that every theorem holds
  for all of them. Logging, tracing and metrics have no counterpart. Fields named
  \<open>pd_log\<close> and \<open>sv_ended\<close> are records of what happened, read by theorems only.

  \<^bold>\<open>Theories.\<close>
  \<^item> \<open>Prelude\<close>: integers of Go and shared lemmas. \<open>GoText\<close>: bytes, UTF-8 and the functions of the
    standard library on strings.
  \<^item> \<open>Exterrors\<close>: the error values with \<open>Unwrap\<close>, \<open>Fields\<close>, \<open>IsTemporary\<close> and the
    SMTP codes. The theorems say which error of a chain decides.
  \<^item> \<open>Address\<close>: splitting, quoting, validation, normalisation and comparison of
    addresses and domains; IDNA, NFC and PRECIS are in the record \<open>text_lib\<close>.
    Splitting and validation are characterised, quoting has a round trip, and
    comparison is that of the local parts and of the domains.
  \<^item> \<open>Module\<close>: metadata of messages, the interface of targets, results of checks.
  \<^item> \<open>TimeWheel\<close>: \<open>timewheel.go\<close> with its goroutine as a step relation. Slots are
    neither lost nor duplicated nor fired early, the goroutine waits for the closest
    one and is never stuck.
  \<^item> \<open>Dsn\<close>: notifications; each failed recipient is reported with its status.
  \<^item> \<open>QueueDisk\<close>, \<open>Queue\<close>, \<open>QueueProps\<close>: \<open>queue.go\<close>, from acceptance over storage, attempts and
    notifications to recovery after a restart. Every recipient is delivered, retried
    or reported; attempts are bounded; accepted messages survive a restart; where files are
    renamed, which is not on Windows, a crash during an update of the metadata leaves it readable.
  \<^item> \<open>Limiters\<close>, \<open>Limits\<close>: semaphores, rates, groups and buckets of them. The locale
    \<open>limiter_contract\<close> is the contract of a limiter, interpreted as \<open>lim\<close>; the
    locale \<open>quota\<close> is that of the limits of a message, interpreted as \<open>lims\<close>.
  \<^item> \<open>CfgNode\<close>, \<open>CheckAction\<close>: configuration nodes and the actions of checks.
  \<^item> \<open>Dmarc\<close>: lookup of records, alignment and policy; when a policy is applied is characterised.
  \<^item> \<open>CheckRunner\<close>: groups of checks run in any schedule, their states and the
    application of their results. The error of a group is characterised.
  \<^item> \<open>ModifyGroup\<close>: groups of modifiers.
  \<^item> \<open>MsgPipeline\<close>, \<open>PipelineInv\<close>, \<open>PipelineProps\<close>: the delivery of the pipeline. Its
    invariant is kept by every operation; accepted bodies passed all checks (\<open>passes\<close>, for checks
    that give a reason with a reject, \<open>sound_checks\<close>), it is exact which deliveries a recipient is
    added to, deliveries are ended once.
  \<^item> \<open>Auth\<close>: SASL mechanisms, providers, tables and the authorisation of addresses.
  \<^item> \<open>SmtpSession\<close>, \<open>SmtpInv\<close>, \<open>SmtpProps\<close>: the commands of a session and the server of
    all sessions as a step relation \<open>sys_step\<close>; \<open>sess_reach\<close> are the sessions of a client on a
    server that others change. The limits stay balanced, accepted
    messages are committed, a session refines the transaction \<open>txn\<close>, required
    authentication is enforced, replies disclose annotations only.
  \<^item> \<open>CfgLexer\<close>, \<open>CfgParser\<close>, \<open>CfgParserProps\<close>, \<open>CfgRoundtrip\<close>: the lexer and dispenser, nodes, macros,
    snippets, imports and environment variables. What \<open>Read\<close> returns has no macro or import left,
    and a written tree is read back.
  \<^item> \<open>PipelineConfig\<close>, \<open>ConfigProps\<close>: \<open>internal/msgpipeline/config.go\<close>. Routing selects a block that was parsed from
    the configuration, and a rule routes to the first block that lists it.
  \<^item> \<open>DnsExt\<close>: lookups with the authenticated-data flag (\<open>framework/dns/dnssec.go\<close>).
  \<^item> \<open>SmtpConn\<close>, \<open>ConnPool\<close>: the client connection and the pool of idle connections.
  \<^item> \<open>RemoteSecurity\<close>, \<open>RemoteTarget\<close>: MTA-STS, DNSSEC, DANE and local policies and the remote
    target with its deliveries. \<open>RemoteInv\<close> has the runs of a delivery among others (\<open>rd_run\<close>) and
    their invariant, \<open>RemoteProps\<close> the properties: levels of connections are true and meet the
    policies and REQUIRETLS, the pool keeps usable connections, recipients get a status, and DANE relies on vouched answers only.
  \<^item> \<open>TextIO\<close>: trimming, splitting, line scanning, unsigned numbers and base64.
  \<^item> \<open>Tables\<close>, \<open>TablesProps\<close>: the tables of \<open>internal/table\<close> without SQL, and the modifiers that replace
    addresses. The locale \<open>multi_table\<close> says that single and multiple lookups agree; a written
    table file is read back.
  \<^item> \<open>Sha256\<close>, \<open>PassTable\<close>, \<open>PassTableProps\<close>: \<open>internal/auth/pass_table\<close>. The locale
    \<open>password_hash\<close> is interpreted on the argon2 and SHA-256 functions; users that were created
    authenticate.
  \<^item> \<open>Checks\<close>, \<open>SpfDkim\<close>, \<open>AuthorizeSender\<close>, \<open>ChecksProps\<close>: checks of \<open>internal/check\<close>. The verdict of block
    lists does not depend on the order of answers, DMARC passes for authenticated domains only, and
    rejecting actions let authorised senders only pass.
  \<^item> \<open>CfgMap\<close>, \<open>CfgMapProps\<close>: \<open>framework/config/map.go\<close>. Processing a block with well-typed directives
    does not panic and sets every variable from its directive, the globals or the default.
  \<^item> \<open>Downstream\<close>: \<open>smtp_downstream.go\<close> and \<open>sasl.go\<close> of \<open>internal/target/smtp\<close>. Over LMTP accepted
    ASCII recipients get one status each, if the client reports in order (\<open>reports_in_order\<close>).
  \<^item> \<open>ImapStorage\<close>: deliveries of \<open>internal/storage/imapsql\<close>, the lookup of accounts and the group of
    filters (\<open>internal/imap_filter/group.go\<close>), with lemmas on accounts, junk and refusals.

  Each of these theories ends with lemmas named observations where the code does
  not do what a comment says or what it means to do.

  \<^bold>\<open>Bounds and fuel.\<close> No definition has fuel: loops over data are structural or have a
  measure (the fallbacks of \<open>connect\<close>: at most two), the attempts of the queue are bounded by its configured number, and endless
  goroutines (time wheel, filling of rates) and servers are step relations.

  \<^bold>\<open>Parameters.\<close> Text normalisation (\<open>text_lib\<close>), the MIME writer of
  notifications, the public suffix list, the DMARC record parser and resolver
  (\<open>Dmarc\<close>), header parsers of go-message and \<open>net/mail\<close>, \<open>time.Parse\<close>, the
  order of commands (\<open>allowed\<close>, the one of RFC 5321, for the limits; \<open>sess_reach\<close>, what go-smtp lets
  through, for sessions), the network and the client of
  go-smtp (\<open>net\<close>; \<open>tls_sound\<close> states what a finished handshake means and that there is no TLS state
  without one), the resolver of
  miekg/dns (\<open>ext_resolver\<close>), MTA-STS policies, TLSA matching and X.509 verification
  (\<open>sec_env\<close>), files and Unicode classes read by the configuration parser (\<open>penv\<close>), regular expressions
  (\<open>regexp_lib\<close>), the file system of table files (\<open>fs_ops\<close>), argon2, bcrypt and random salts
  (\<open>hash_lib\<close>), the evaluation of SPF and the verification of signatures (\<open>spf_lib\<close>, \<open>dkim_lib\<close>),
  go-imap-sql (\<open>imap_back\<close>), the parser of endpoints (\<open>ParseEndpoint\<close>, an argument of \<open>downstream_Init\<close>).

  \<^bold>\<open>Not modelled.\<close> The directives the \<open>Init\<close> functions of modules read, the registry of modules,
  TLS loaders, sockets, logging and metrics; the checks by commands, milters and rspamd; SQL tables;
  the signing of messages and the modifier of blockchain transactions; password providers other than
  \<open>pass_table\<close>; IMAP access, blob stores and the update pipe; ACME and DNS providers; the application
  of the Cosmos chain.
\<close>

end
